(* ===== verification/Asd_Prelude.thy ===== *)
theory Asd_Prelude
  imports Main "HOL-Library.Word" "HOL-Library.Monad_Syntax"
begin

unbundle bit_operations_syntax

text \<open>
  Shared vocabulary of the development: machine integers, the result enum \<open>STATUS\<close> of
  \<open>include/asd_common.h\<close>, C arrays with checked accesses, and the operating system as a
  function of the history of calls.

  \<^item> \<open>'a option\<close> in a result stands for undefined behaviour: \<open>None\<close> is an access outside
    an array, a dereference of NULL, never an error the code reports.  Errors the code reports are
    values of \<open>STATUS\<close>.  A theorem \<open>\<exists>r. f x = Some r\<close> therefore says that \<open>f\<close> returns
    and never leaves the bounds of its arrays.
  \<^item> The kernel, the C library and the drivers behind the file descriptors are the parameter
    \<open>os\<close>: the answer to a call may depend on every call made before it.  The list of the calls made
    so far is threaded through every operation and is what theorems about ordering speak of.
\<close>

section \<open>Machine integers and status codes\<close>

type_synonym u8 = "8 word"
type_synonym u16 = "16 word"
type_synonym u32 = "32 word"

datatype STATUS = ST_OK | ST_ERR | ST_TIMEOUT

lemma bit_beyond_length:
  fixes w :: "'x::len word"
  assumes "LENGTH('x) \<le> n"
  shows "\<not> bit w n"
  using assms bit_imp_le_length [of w n] by auto

lemma unat_ucast_up:
  fixes w :: "'x::len word"
  assumes "LENGTH('x) \<le> LENGTH('y::len)"
  shows "unat (ucast w :: 'y word) = unat w"
proof -
  have "unat w < 2 ^ LENGTH('x)"
    by (rule unsigned_less)
  also have "\<dots> \<le> (2::nat) ^ LENGTH('y)"
    using assms by (simp add: power_increasing)
  finally show ?thesis
    by (simp add: unsigned_ucast_eq take_bit_nat_eq_self)
qed

lemma ucast_up_down:
  fixes w :: "'x::len word"
  assumes "LENGTH('x) \<le> LENGTH('y::len)"
  shows "ucast (ucast w :: 'y word) = w"
  using assms by (auto intro!: bit_word_eqI simp: bit_simps)

lemma unat_u8_less: "unat (b :: u8) < 256"
proof -
  have "unat b < 2 ^ LENGTH(8)"
    by (rule unsigned_less)
  then show ?thesis by simp
qed

lemma and_mask_uint:
  fixes w :: "'x::len word"
  shows "uint w AND mask LENGTH('x) = uint w"
  by (metis take_bit_eq_mask take_bit_int_eq_self unsigned_greater_eq unsigned_less)

section \<open>C arrays\<close>

definition rd :: "'a list \<Rightarrow> nat \<Rightarrow> 'a option" where
  "rd xs i = (if i < length xs then Some (xs ! i) else None)"

definition wr :: "'a list \<Rightarrow> nat \<Rightarrow> 'a \<Rightarrow> 'a list option" where
  "wr xs i v = (if i < length xs then Some (xs[i := v]) else None)"

text \<open>A run of bytes read from, or written to, consecutive places.\<close>

definition rds :: "'a list \<Rightarrow> nat \<Rightarrow> nat \<Rightarrow> 'a list option" where
  "rds xs i n = (if i + n \<le> length xs then Some (take n (drop i xs)) else None)"

definition wrs :: "'a list \<Rightarrow> nat \<Rightarrow> 'a list \<Rightarrow> 'a list option" where
  "wrs xs i vs =
     (if i + length vs \<le> length xs then Some (take i xs @ vs @ drop (i + length vs) xs) else None)"

named_theorems array_simps \<open>facts on checked array accesses\<close>

lemma rd_Some [array_simps]: "i < length xs \<Longrightarrow> rd xs i = Some (xs ! i)"
  by (simp add: rd_def)

lemma rd_eq_Some_iff: "rd xs i = Some v \<longleftrightarrow> i < length xs \<and> v = xs ! i"
  by (auto simp: rd_def)

lemma wr_Some [array_simps]: "i < length xs \<Longrightarrow> wr xs i v = Some (xs[i := v])"
  by (simp add: wr_def)

lemma rds_Some [array_simps]: "i + n \<le> length xs \<Longrightarrow> rds xs i n = Some (take n (drop i xs))"
  by (simp add: rds_def)

lemma wr_length: "wr xs i v = Some ys \<Longrightarrow> length ys = length xs"
  by (auto simp: wr_def split: if_splits)

lemma wrs_length: "wrs xs i vs = Some ys \<Longrightarrow> length ys = length xs"
  by (auto simp: wrs_def split: if_splits)

lemma rds_length: "rds xs i n = Some ys \<Longrightarrow> length ys = n"
  by (auto simp: rds_def split: if_splits)

lemma wrs_Some_iff: "(\<exists>ys. wrs xs i vs = Some ys) \<longleftrightarrow> i + length vs \<le> length xs"
  by (auto simp: wrs_def)

lemma wrs_ex: "i + length vs \<le> length xs \<Longrightarrow> \<exists>ys. wrs xs i vs = Some ys \<and> length ys = length xs"
  by (auto simp: wrs_def)

lemma rds_wrs_same:
  assumes "wrs xs i vs = Some ys"
  shows "rds ys i (length vs) = Some vs"
  using assms by (auto simp: wrs_def rds_def split: if_splits)

lemma None_notin_image: "None \<notin> f ` S \<longleftrightarrow> (\<forall>x \<in> S. f x \<noteq> None)"
  by (metis imageE imageI)

section \<open>Options as fallible computations\<close>

text \<open>
  \<open>ensures m P\<close>: the computation has no undefined behaviour and its result satisfies \<open>P\<close>.  The
  rules compute it backwards through \<open>do\<close> blocks; \<open>ensures_conseq\<close> brings in the contract of a
  called operation.
\<close>

definition ensures :: "'a option \<Rightarrow> ('a \<Rightarrow> bool) \<Rightarrow> bool" where
  "ensures m P \<longleftrightarrow> (case m of None \<Rightarrow> False | Some r \<Rightarrow> P r)"

lemma ensures_Some [simp]: "ensures (Some r) P = P r"
  by (simp add: ensures_def)

lemma ensures_None [simp]: "\<not> ensures None P"
  by (simp add: ensures_def)

lemma ensures_bind [simp]: "ensures (Option.bind m f) P = ensures m (\<lambda>r. ensures (f r) P)"
  by (cases m) simp_all

lemma ensures_Let [simp]: "ensures (Let x f) P = ensures (f x) P"
  by (simp add: Let_def)

lemma ensures_conseq: "ensures m Q \<Longrightarrow> (\<And>r. Q r \<Longrightarrow> P r) \<Longrightarrow> ensures m P"
  by (cases m) simp_all

lemma ensures_iff: "ensures m P \<longleftrightarrow> (\<exists>r. m = Some r \<and> P r)"
  by (cases m) simp_all

lemma ensuresE:
  assumes "ensures m P"
  obtains r where "m = Some r" "P r"
  using assms by (auto simp: ensures_iff)

lemma ensures_conj: "ensures m P \<Longrightarrow> ensures m Q \<Longrightarrow> ensures m (\<lambda>r. P r \<and> Q r)"
  by (cases m) simp_all

lemma ensuresD: "ensures m P \<Longrightarrow> m = Some r \<Longrightarrow> P r"
  by simp

lemma ensures_rd [simp]: "ensures (rd xs i) P \<longleftrightarrow> i < length xs \<and> P (xs ! i)"
  by (simp add: rd_def)

lemma ensures_wr [simp]: "ensures (wr xs i v) P \<longleftrightarrow> i < length xs \<and> P (xs[i := v])"
  by (simp add: wr_def)

lemma ensures_rds [simp]: "ensures (rds xs i n) P \<longleftrightarrow> i + n \<le> length xs \<and> P (take n (drop i xs))"
  by (simp add: rds_def)

lemma ensures_wrs [simp]:
  "ensures (wrs xs i vs) P \<longleftrightarrow>
     i + length vs \<le> length xs \<and> P (take i xs @ vs @ drop (i + length vs) xs)"
  by (simp add: wrs_def)

section \<open>The operating system\<close>

text \<open>The TAP controller states, in the order of \<open>enum jtag_tapstate\<close>.\<close>

datatype jtag_states =
    jtag_tlr | jtag_rti | jtag_sel_dr | jtag_cap_dr | jtag_shf_dr | jtag_ex1_dr | jtag_pau_dr
  | jtag_ex2_dr | jtag_upd_dr | jtag_sel_ir | jtag_cap_ir | jtag_shf_ir | jtag_ex1_ir | jtag_pau_ir
  | jtag_ex2_ir | jtag_upd_ir

text \<open>
  One constructor per call the sources make, with the arguments that matter to the callee.  File
  descriptors are \<open>int\<close>s (\<open>-1\<close> is the failure value of \<open>open\<close>).  The JTAG calls are the
  \<open>ioctl\<close>s of \<open>linux/jtag.h\<close>; \<open>Sys_i2c_rdwr\<close> is \<open>I2C_RDWR\<close> of \<open>linux/i2c-dev.h\<close>, each
  message given by address, read flag and data; the \<open>Sys_ssl\<close> calls are the entry points of OpenSSL,
  the \<open>Sys_i3c\<close> calls the \<open>ioctl\<close>s of the I3C debug driver, the \<open>Sys_gpiod\<close> calls those of libgpiod
  (lines and chips are opaque numbers, 0 is NULL), \<open>Sys_lseek\<close> seeks to the start and \<open>Sys_seek_end\<close> to the
  end of a file, answering the position, \<open>Sys_poll\<close> polls one descriptor and \<open>Sys_pollfds\<close> several, answering
  the \<open>revents\<close> of each, and \<open>Sys_dbus\<close> is a function of
  \<open>target/dbus_helper.c\<close>, named by its first argument, which talks to the system bus.  \<open>Sys_readdir\<close>
  answers the entries of a directory, in the order \<open>readdir\<close> gives them, each its \<open>d_type\<close> byte
  followed by its name, with \<open>-1\<close> when \<open>opendir\<close> fails; \<open>Sys_getline\<close> answers the length of the next line of
  a file, \<open>-1\<close> at its end, and the characters of the line.  \<open>Sys_net\<close> is a call of the socket interface or
  of OpenSSL that sets up connections, named by its first argument, \<open>Sys_pam\<close> a call of PAM with the password
  its conversation supplies, \<open>Sys_rand\<close> is \<open>RAND_bytes\<close>, \<open>Sys_timeofday\<close> answers microseconds since the
  epoch, \<open>Sys_journal\<close> is \<open>sd_journal_send\<close>.
\<close>

datatype syscall =
    Sys_malloc string nat
  | Sys_open string
  | Sys_close int
  | Sys_flock int bool
  | Sys_jtag_mode int bool
  | Sys_jtag_state int jtag_states jtag_states bool
  | Sys_jtag_xfer int jtag_states jtag_states bool nat u32 "u8 list"
  | Sys_jtag_bitbang int nat
  | Sys_jtag_freq int nat
  | Sys_i2c_rdwr int "(u16 \<times> bool \<times> u8 list) list"
  | Sys_time
  | Sys_send int "u8 list"
  | Sys_recv int nat
  | Sys_ssl_read nat nat
  | Sys_ssl_write nat "u8 list"
  | Sys_ssl_get_error nat int
  | Sys_ssl_pending nat
  | Sys_ssl_free nat
  | Sys_lseek int
  | Sys_seek_end int
  | Sys_read int nat
  | Sys_getline int
  | Sys_write int "u8 list"
  | Sys_poll int nat int
  | Sys_pollfds "(int \<times> nat) list" int
  | Sys_usleep nat
  | Sys_readdir string
  | Sys_i3c_action int u8
  | Sys_i3c_opcode int u8 "u8 list" nat
  | Sys_i3c_event int nat
  | Sys_gpiod_find string
  | Sys_gpiod_chip_open string
  | Sys_gpiod_chip_close nat
  | Sys_gpiod_get_line nat int
  | Sys_gpiod_request nat string bool int
  | Sys_gpiod_event_fd nat
  | Sys_gpiod_get_value nat
  | Sys_gpiod_set_value nat int
  | Sys_gpiod_event_read nat
  | Sys_gpiod_release nat
  | Sys_gpiod_request_input nat
  | Sys_dbus string "int list"
  | Sys_net string string "int list"
  | Sys_pam string "u8 list"
  | Sys_rand nat
  | Sys_timeofday
  | Sys_journal string

text \<open>
  An answer is the value returned and the bytes stored through the pointers of the call (one list
  per message for \<open>Sys_i2c_rdwr\<close>, per descriptor for \<open>Sys_pollfds\<close>, at most one list otherwise).
\<close>

type_synonym sysret = "int \<times> u8 list list"
type_synonym trace = "syscall list"
type_synonym os = "trace \<Rightarrow> syscall \<Rightarrow> sysret"

text \<open>
  \<open>malloc\<close>, \<open>calloc\<close> and \<open>realloc\<close> answer NULL, the number 0, when they fail; a request is the type
  and the number of its elements.
\<close>

definition malloc :: "os \<Rightarrow> string \<Rightarrow> nat \<Rightarrow> trace \<Rightarrow> bool \<times> trace" where
  "malloc os ty n tr = (fst (os tr (Sys_malloc ty n)) \<noteq> 0, tr @ [Sys_malloc ty n])"

text \<open>A call whose answer is only a number.\<close>

definition sys :: "os \<Rightarrow> syscall \<Rightarrow> trace \<Rightarrow> int \<times> trace" where
  "sys os c tr = (fst (os tr c), tr @ [c])"

lemma sys_trace [simp]: "snd (sys os c tr) = tr @ [c]"
  by (simp add: sys_def)

text \<open>Character literals as the bytes of a \<open>char\<close> array, and \<open>%d\<close>.\<close>

definition bytes_of :: "string \<Rightarrow> u8 list" where
  "bytes_of s = map of_char s"

fun dec_nat :: "nat \<Rightarrow> string" where
  "dec_nat n = (if n < 10 then [char_of (48 + n)] else dec_nat (n div 10) @ [char_of (48 + n mod 10)])"

definition dec :: "int \<Rightarrow> string" where
  "dec i = (if i < 0 then ''-'' @ dec_nat (nat (- i)) else dec_nat (nat i))"

declare dec_nat.simps [simp del]

text \<open>Decimal digits, and \<open>strtol\<close> in base 10 where the whole string has to be a number that fits.\<close>

definition is_digit :: "char \<Rightarrow> bool" where
  "is_digit c \<longleftrightarrow> c \<in> set ''0123456789''"

definition digits_value :: "string \<Rightarrow> int" where
  "digits_value ds = foldl (\<lambda>v d. 10 * v + (of_char d - 48)) 0 ds"

definition strtol_whole :: "string \<Rightarrow> int option" where
  "strtol_whole s =
     (let t = dropWhile (\<lambda>c. c \<in> {CHR 0x20, CHR 0x09, CHR 0x0A, CHR 0x0B, CHR 0x0C, CHR 0x0D}) s;
          neg = (t \<noteq> [] \<and> hd t = CHR ''-'');
          ds = (if neg \<or> (t \<noteq> [] \<and> hd t = CHR ''+'') then tl t else t);
          v = (if neg then - digits_value ds else digits_value ds)
      in if ds \<noteq> [] \<and> list_all is_digit ds \<and> - (2 ^ 31) \<le> v \<and> v < 2 ^ 31 then Some v else None)"

text \<open>A search for \<open>pat[0-9]+\<close> anywhere in a name.\<close>

fun has_numbered :: "string \<Rightarrow> string \<Rightarrow> bool" where
  "has_numbered pat [] = False"
| "has_numbered pat (c # cs) \<longleftrightarrow>
     (take (length pat) (c # cs) = pat \<and> (case drop (length pat) (c # cs) of [] \<Rightarrow> False | d # _ \<Rightarrow> is_digit d))
     \<or> has_numbered pat cs"

definition string_of :: "u8 list \<Rightarrow> string" where
  "string_of bs = map (\<lambda>b. char_of (unat b)) bs"

definition sys_data :: "sysret \<Rightarrow> u8 list" where
  "sys_data r = (case snd r of [] \<Rightarrow> [] | d # _ \<Rightarrow> d)"

text \<open>An \<open>int\<close> the callee stored, and a call of \<open>dbus_helper.c\<close> with the \<open>int\<close> it may store.\<close>

definition sys_int :: "sysret \<Rightarrow> int" where
  "sys_int r = signed_take_bit 31 (horner_sum uint 256 (sys_data r))"

definition dbus_call :: "os \<Rightarrow> string \<Rightarrow> int list \<Rightarrow> int \<Rightarrow> trace \<Rightarrow> STATUS \<times> int \<times> trace" where
  "dbus_call os f args old tr =
     (let call = Sys_dbus f args; r = os tr call
      in if fst r = 0 then (ST_OK, if snd r = [] then old else sys_int r, tr @ [call])
         else (ST_ERR, old, tr @ [call]))"

text \<open>What a callee stores over a buffer of \<open>length old\<close> bytes: it fills a prefix of it.\<close>

definition overlay :: "u8 list \<Rightarrow> u8 list \<Rightarrow> u8 list" where
  "overlay old new = take (length old) (new @ drop (length new) old)"

lemma length_overlay [simp]: "length (overlay old new) = length old"
  by (simp add: overlay_def)

lemma overlay_Nil [simp]: "overlay old [] = old"
  by (simp add: overlay_def)

lemma overlay_full: "length new = length old \<Longrightarrow> overlay old new = new"
  by (simp add: overlay_def)

end
