(* ===== verification/Asd_Protocol.thy ===== *)
theory Asd_Protocol
  imports Asd_Prelude
begin

text \<open>
  The wire format of \<open>include/asd_common.h\<close>: the four byte \<open>message_header\<close> with its bit fields,
  \<open>asd_message\<close>, the size helpers of \<open>target/asd_msg.c\<close>, and the reader \<open>packet_data\<close> through which
  every command interpreter consumes a payload.
\<close>

section \<open>Constants\<close>

definition MAX_DATA_SIZE :: nat where "MAX_DATA_SIZE = 3000"

definition HEADER_SIZE :: nat where "HEADER_SIZE = 4"

definition MAX_PACKET_SIZE :: nat where "MAX_PACKET_SIZE = MAX_DATA_SIZE + HEADER_SIZE"

abbreviation AGENT_CONTROL_TYPE :: "3 word" where "AGENT_CONTROL_TYPE \<equiv> 0"
abbreviation JTAG_TYPE :: "3 word" where "JTAG_TYPE \<equiv> 1"
abbreviation HARDWARE_LOG_EVENT :: "3 word" where "HARDWARE_LOG_EVENT \<equiv> 5"
abbreviation I2C_TYPE :: "3 word" where "I2C_TYPE \<equiv> 6"
abbreviation SPP_TYPE :: "3 word" where "SPP_TYPE \<equiv> 7"
abbreviation BROADCAST_MESSAGE_ORIGIN_ID :: "3 word" where "BROADCAST_MESSAGE_ORIGIN_ID \<equiv> 7"

text \<open>The status codes of the protocol (\<open>ASDError\<close>), with their numbers.\<close>

datatype ASDError =
    ASD_SUCCESS | ASD_MSG_CRYPY_NOT_SUPPORTED | ASD_FAILURE_INIT_JTAG_HANDLER
  | ASD_FAILURE_INIT_I2C_HANDLER | ASD_FAILURE_DEINIT_JTAG_HANDLER | ASD_MSG_NOT_SUPPORTED
  | ASD_FAILURE_PROCESS_JTAG_MSG | ASD_FAILURE_PROCESS_I2C_MSG | ASD_FAILURE_PROCESS_I2C_LOCK
  | ASD_I2C_MSG_NOT_SUPPORTED | ASD_FAILURE_REMOVE_I2C_LOCK | ASD_FAILURE_HEADER_SIZE
  | ASD_FAILURE_XDP_PRESENT | ASD_FAILURE_INIT_VPROBE_HANDLER | ASD_FAILURE_INIT_SPP_HANDLER
  | ASD_FAILURE_PROCESS_SPP_MSG | ASD_FAILURE_PROCESS_SPP_LOCK | ASD_FAILURE_REMOVE_SPP_LOCK
  | ASD_SPP_MSG_NOT_SUPPORTED | ASD_UNKNOWN_ERROR | ASD_PACKET_CONTINUATION

fun asd_error_code :: "ASDError \<Rightarrow> u8" where
  "asd_error_code ASD_SUCCESS = 0"
| "asd_error_code ASD_MSG_CRYPY_NOT_SUPPORTED = 0x25"
| "asd_error_code ASD_FAILURE_INIT_JTAG_HANDLER = 0x26"
| "asd_error_code ASD_FAILURE_INIT_I2C_HANDLER = 0x27"
| "asd_error_code ASD_FAILURE_DEINIT_JTAG_HANDLER = 0x28"
| "asd_error_code ASD_MSG_NOT_SUPPORTED = 0x29"
| "asd_error_code ASD_FAILURE_PROCESS_JTAG_MSG = 0x2A"
| "asd_error_code ASD_FAILURE_PROCESS_I2C_MSG = 0x2B"
| "asd_error_code ASD_FAILURE_PROCESS_I2C_LOCK = 0x2C"
| "asd_error_code ASD_I2C_MSG_NOT_SUPPORTED = 0x2D"
| "asd_error_code ASD_FAILURE_REMOVE_I2C_LOCK = 0x2E"
| "asd_error_code ASD_FAILURE_HEADER_SIZE = 0x2F"
| "asd_error_code ASD_FAILURE_XDP_PRESENT = 0x30"
| "asd_error_code ASD_FAILURE_INIT_VPROBE_HANDLER = 0x31"
| "asd_error_code ASD_FAILURE_INIT_SPP_HANDLER = 0x3C"
| "asd_error_code ASD_FAILURE_PROCESS_SPP_MSG = 0x3D"
| "asd_error_code ASD_FAILURE_PROCESS_SPP_LOCK = 0x3E"
| "asd_error_code ASD_FAILURE_REMOVE_SPP_LOCK = 0x3F"
| "asd_error_code ASD_SPP_MSG_NOT_SUPPORTED = 0x40"
| "asd_error_code ASD_UNKNOWN_ERROR = 0x7F"
| "asd_error_code ASD_PACKET_CONTINUATION = 0x80"

section \<open>Messages\<close>

text \<open>The bit fields keep their widths, so storing into one truncates as it does in C.\<close>

record message_header =
  origin_id :: "3 word"
  reserved :: "1 word"
  enc_bit :: "1 word"
  mtype :: "3 word"
  size_lsb :: u8
  size_msb :: "5 word"
  tag :: "3 word"
  cmd_stat :: u8

record asd_message =
  header :: message_header
  buffer :: "u8 list"

definition zero_header :: message_header where
  "zero_header = \<lparr>origin_id = 0, reserved = 0, enc_bit = 0, mtype = 0, size_lsb = 0, size_msb = 0,
     tag = 0, cmd_stat = 0\<rparr>"

definition zero_buffer :: "u8 list" where
  "zero_buffer = replicate MAX_DATA_SIZE 0"

definition zero_message :: asd_message where
  "zero_message = \<lparr>header = zero_header, buffer = zero_buffer\<rparr>"

definition wf_message :: "asd_message \<Rightarrow> bool" where
  "wf_message m \<longleftrightarrow> length (buffer m) = MAX_DATA_SIZE"

lemma length_zero_buffer [simp]: "length zero_buffer = MAX_DATA_SIZE"
  by (simp add: zero_buffer_def)

lemma wf_zero_message [simp]: "wf_message zero_message"
  by (simp add: wf_message_def zero_message_def)

lemma wf_message_header_update [simp]: "wf_message (header_update f m) = wf_message m"
  by (simp add: wf_message_def)

text \<open>
  The packed layout: bit fields are allocated from the least significant bit of each byte (the
  little endian layout of the supported targets).
\<close>

definition header_bytes :: "message_header \<Rightarrow> u8 list" where
  "header_bytes h =
     [ucast (origin_id h) OR push_bit 3 (ucast (reserved h)) OR push_bit 4 (ucast (enc_bit h))
        OR push_bit 5 (ucast (mtype h)),
      size_lsb h,
      ucast (size_msb h) OR push_bit 5 (ucast (tag h)),
      cmd_stat h]"

definition header_of_bytes :: "u8 list \<Rightarrow> message_header" where
  "header_of_bytes bs =
     \<lparr>origin_id = ucast (bs ! 0), reserved = ucast (drop_bit 3 (bs ! 0)),
      enc_bit = ucast (drop_bit 4 (bs ! 0)), mtype = ucast (drop_bit 5 (bs ! 0)),
      size_lsb = bs ! 1, size_msb = ucast (bs ! 2), tag = ucast (drop_bit 5 (bs ! 2)),
      cmd_stat = bs ! 3\<rparr>"

lemma length_header_bytes [simp]: "length (header_bytes h) = HEADER_SIZE"
  by (simp add: header_bytes_def HEADER_SIZE_def)

section \<open>Message sizes\<close>

text \<open>\<open>get_message_size\<close> answers \<open>-1\<close> for a size above \<open>MAX_DATA_SIZE\<close>.\<close>

definition get_message_size :: "asd_message \<Rightarrow> int" where
  "get_message_size m =
     (let result = (uint (size_lsb (header m)) AND 0xFF)
                     OR push_bit 8 (uint (size_msb (header m)) AND 0x1F)
      in if result > int MAX_DATA_SIZE then - 1 else result)"

definition lsb_from_msg_size :: "u32 \<Rightarrow> u8" where
  "lsb_from_msg_size response_cnt = ucast (response_cnt AND 0xFF)"

definition msb_from_msg_size :: "u32 \<Rightarrow> u8" where
  "msb_from_msg_size response_cnt =
     (let cnt = (if response_cnt > of_nat MAX_DATA_SIZE then of_nat MAX_DATA_SIZE else response_cnt)
      in ucast (drop_bit 8 cnt AND 0x1F))"

text \<open>The pair of stores every response builder performs.\<close>

definition set_msg_size :: "u32 \<Rightarrow> message_header \<Rightarrow> message_header" where
  "set_msg_size cnt h =
     h\<lparr>size_lsb := lsb_from_msg_size cnt, size_msb := ucast (msb_from_msg_size cnt)\<rparr>"

section \<open>The payload reader\<close>

text \<open>
  \<open>next_data\<close> is an index into the message buffer; \<open>used\<close> and \<open>total\<close> are the C \<open>unsigned int\<close>s.
  The addition \<open>used + bytes_wanted\<close> wraps as it does in the source.
\<close>

record packet_data =
  next_data :: nat
  used :: u32
  total :: u32

definition get_packet_data :: "packet_data \<Rightarrow> nat \<Rightarrow> (nat \<times> packet_data) option" where
  "get_packet_data packet bytes_wanted =
     (if used packet + of_nat bytes_wanted > total packet then None
      else Some (next_data packet,
                 packet\<lparr>next_data := next_data packet + bytes_wanted,
                        used := used packet + of_nat bytes_wanted\<rparr>))"


text \<open>
  The invariant of a reader over a whole message buffer: position and count agree, and the payload
  fits the buffer.
\<close>

definition wf_packet :: "packet_data \<Rightarrow> bool" where
  "wf_packet p \<longleftrightarrow> next_data p = unat (used p) \<and> used p \<le> total p \<and> unat (total p) \<le> MAX_DATA_SIZE"

definition remaining :: "packet_data \<Rightarrow> nat" where
  "remaining p = unat (total p) - unat (used p)"

section \<open>Header round trips\<close>

lemma header_of_header_bytes: "header_of_bytes (header_bytes h) = h"
proof -
  have b0: "ucast (header_bytes h ! 0) = origin_id h"
    "ucast (drop_bit 3 (header_bytes h ! 0)) = reserved h"
    "ucast (drop_bit 4 (header_bytes h ! 0)) = enc_bit h"
    "ucast (drop_bit 5 (header_bytes h ! 0)) = mtype h"
    unfolding header_bytes_def
    by (auto intro!: bit_word_eqI simp: bit_simps bit_beyond_length)
  have b2: "ucast (header_bytes h ! 2) = size_msb h"
    "ucast (drop_bit 5 (header_bytes h ! 2)) = tag h"
    unfolding header_bytes_def
    by (auto intro!: bit_word_eqI simp: bit_simps bit_beyond_length)
  show ?thesis
    using b0 b2 by (simp add: header_of_bytes_def) (simp add: header_bytes_def)
qed

lemma byte_bits_split:
  fixes b :: u8
  shows "ucast (ucast b :: 3 word) OR push_bit 3 (ucast (ucast (drop_bit 3 b) :: 1 word))
           OR push_bit 4 (ucast (ucast (drop_bit 4 b) :: 1 word))
           OR push_bit 5 (ucast (ucast (drop_bit 5 b) :: 3 word)) = b"
    and "ucast (ucast b :: 5 word) OR push_bit 5 (ucast (ucast (drop_bit 5 b) :: 3 word)) = b"
proof -
  have five: "n < 8 \<Longrightarrow> n = 3 \<or> n = 4 \<or> n < 3 \<or> 5 \<le> n" for n :: nat
    by auto
  show "ucast (ucast b :: 3 word) OR push_bit 3 (ucast (ucast (drop_bit 3 b) :: 1 word))
           OR push_bit 4 (ucast (ucast (drop_bit 4 b) :: 1 word))
           OR push_bit 5 (ucast (ucast (drop_bit 5 b) :: 3 word)) = b"
    by (rule bit_word_eqI) (auto simp: bit_simps dest: five)
  show "ucast (ucast b :: 5 word) OR push_bit 5 (ucast (ucast (drop_bit 5 b) :: 3 word)) = b"
    by (rule bit_word_eqI) (auto simp: bit_simps)
qed

lemma header_bytes_of_bytes:
  assumes "length bs = HEADER_SIZE"
  shows "header_bytes (header_of_bytes bs) = bs"
proof -
  from assms obtain a b c d where "bs = [a, b, c, d]"
    by (auto simp: HEADER_SIZE_def numeral_eq_Suc length_Suc_conv)
  then show ?thesis
    by (simp add: header_bytes_def header_of_bytes_def byte_bits_split)
qed

lemma header_bytes_inject: "header_bytes h = header_bytes h' \<longleftrightarrow> h = h'"
  by (metis header_of_header_bytes)

section \<open>Message sizes as numbers\<close>

lemma raw_size:
  "(uint (l::u8) AND 0xFF) OR push_bit 8 (uint (m::5 word) AND 0x1F) = uint l + 256 * uint m"
proof -
  have l: "uint l AND 0xFF = uint l" and m: "uint m AND 0x1F = uint m"
    using and_mask_uint [of l] and_mask_uint [of m] by (simp_all add: mask_eq_exp_minus_1)
  have "uint l AND push_bit 8 (uint m) = 0"
    by (rule bit_eqI) (auto simp: bit_simps bit_beyond_length)
  then show ?thesis
    by (simp add: l m push_bit_eq_mult mult.commute flip: disjunctive_add_eq_or)
qed

lemma get_message_size_eq:
  "get_message_size m =
     (if uint (size_lsb (header m)) + 256 * uint (size_msb (header m)) > 3000 then - 1
      else uint (size_lsb (header m)) + 256 * uint (size_msb (header m)))"
  unfolding get_message_size_def raw_size Let_def by (simp add: MAX_DATA_SIZE_def)

lemma get_message_size_range: "get_message_size m = - 1 \<or> (0 \<le> get_message_size m \<and> get_message_size m \<le> int MAX_DATA_SIZE)"
  by (simp add: get_message_size_eq MAX_DATA_SIZE_def)

lemma lsb_from_msg_size_uint: "uint (lsb_from_msg_size cnt) = uint cnt mod 256"
proof -
  have "uint cnt AND 255 = take_bit 8 (uint cnt)"
    by (simp add: take_bit_eq_mask mask_eq_exp_minus_1)
  then show ?thesis
    by (simp add: lsb_from_msg_size_def unsigned_ucast_eq uint_and take_bit_eq_mod)
qed

lemma msb_from_msg_size_uint:
  assumes "uint cnt \<le> 3000"
  shows "uint (msb_from_msg_size cnt) = uint cnt div 256"
proof -
  have small: "\<not> of_nat MAX_DATA_SIZE < cnt"
    using assms by (simp add: MAX_DATA_SIZE_def word_less_alt)
  have "(uint cnt div 256) AND 31 = take_bit 5 (uint cnt div 256)"
    by (simp add: take_bit_eq_mask mask_eq_exp_minus_1)
  also have "\<dots> = uint cnt div 256"
    using assms by (intro take_bit_int_eq_self) (auto simp: pos_imp_zdiv_nonneg_iff)
  finally have "(uint cnt div 256) AND 31 = uint cnt div 256" .
  moreover have "take_bit 8 (uint cnt div 256) = uint cnt div 256"
    using assms by (intro take_bit_int_eq_self) (auto simp: pos_imp_zdiv_nonneg_iff)
  ultimately show ?thesis
    using small
    by (simp add: msb_from_msg_size_def unsigned_ucast_eq uint_and uint_div drop_bit_eq_div)
qed

text \<open>A size that fits is read back as it was stored; only the size fields of the header change.\<close>

lemma get_set_msg_size:
  assumes "unat cnt \<le> MAX_DATA_SIZE"
  shows "get_message_size (m\<lparr>header := set_msg_size cnt h\<rparr>) = uint cnt"
proof -
  have le: "uint cnt \<le> 3000"
    using assms unfolding MAX_DATA_SIZE_def by (metis nat_int_comparison(3) of_nat_numeral of_nat_unat)
  have "uint (ucast (msb_from_msg_size cnt) :: 5 word) = uint cnt div 256"
    using le by (auto simp: unsigned_ucast_eq msb_from_msg_size_uint pos_imp_zdiv_nonneg_iff
        intro!: take_bit_int_eq_self)
  then show ?thesis
    using le by (simp add: get_message_size_eq set_msg_size_def lsb_from_msg_size_uint)
qed

section \<open>Facts on the reader\<close>

lemma wf_packetD:
  assumes "wf_packet p"
  shows "next_data p = unat (used p)" "unat (used p) \<le> unat (total p)" "unat (total p) \<le> MAX_DATA_SIZE"
    "next_data p + remaining p \<le> MAX_DATA_SIZE"
  using assms by (auto simp: wf_packet_def remaining_def word_le_nat_alt)

lemma unat_used_add:
  assumes "wf_packet p" "n < 2 ^ 16"
  shows "unat (used p + of_nat n) = unat (used p) + n"
proof -
  have "unat (of_nat n :: u32) = n"
    using assms(2) by (simp add: unat_of_nat)
  moreover have "unat (used p) + n < 2 ^ 32"
    using wf_packetD [OF assms(1)] assms(2) by (simp add: MAX_DATA_SIZE_def)
  ultimately show ?thesis
    by (simp add: unat_word_ariths)
qed

text \<open>On a well-formed reader a request succeeds exactly when enough bytes remain.\<close>

lemma get_packet_data_eq:
  assumes "wf_packet p" "n < 2 ^ 16"
  shows "get_packet_data p n =
    (if n \<le> remaining p
     then Some (next_data p, p\<lparr>next_data := next_data p + n, used := used p + of_nat n\<rparr>) else None)"
  using unat_used_add [OF assms] wf_packetD [OF assms(1)]
  by (auto simp: get_packet_data_def word_less_nat_alt remaining_def)

lemma get_packet_data_wf:
  assumes "wf_packet p" "n < 2 ^ 16" "get_packet_data p n = Some (i, q)"
  shows "wf_packet q" "remaining q + n = remaining p" "i = next_data p" "next_data q = next_data p + n"
    "i + n \<le> MAX_DATA_SIZE" "total q = total p"
  using assms unat_used_add [OF assms(1,2)] wf_packetD [OF assms(1)]
  by (auto simp: get_packet_data_eq wf_packet_def word_le_nat_alt remaining_def split: if_splits)

end
