(* ===== verification/Ext_Network.thy ===== *)
theory Ext_Network
  imports Asd_Protocol
begin

text \<open>
  \<open>server/ext_network.c\<close> with the handlers of \<open>server/ext_tcp.c\<close> and \<open>server/ext_tls.c\<close>: the listening socket
  and the life of a client connection.  The table of function pointers \<open>p_hdlrs\<close> is the handler
  type, and each call through it is a case distinction.  \<open>p_hdlr_data\<close>, the \<open>SSL\<close> pointer of a TLS
  connection, and the TLS context of \<open>ext_tls.c\<close> are opaque numbers or NULL.
\<close>

section \<open>Connections\<close>

abbreviation UNUSED_SOCKET_FD :: int where "UNUSED_SOCKET_FD \<equiv> - 1"

record extnet_conn_t =
  sockfd :: int
  p_hdlr_data :: "nat option"

datatype extnet_hdlr_type_t = EXTNET_HDLR_NON_ENCRYPT | EXTNET_HDLR_TLS

record ExtNet =
  p_hdlrs :: extnet_hdlr_type_t
  n_max_sessions :: int

definition exttls_init_client :: "extnet_conn_t \<Rightarrow> STATUS \<times> extnet_conn_t" where
  "exttls_init_client pconn = (ST_OK, pconn\<lparr>p_hdlr_data := None\<rparr>)"

definition exttcp_init_client :: "extnet_conn_t \<Rightarrow> STATUS \<times> extnet_conn_t" where
  "exttcp_init_client pconn = (ST_OK, pconn)"

definition extnet_init_client :: "ExtNet \<Rightarrow> extnet_conn_t \<Rightarrow> STATUS \<times> extnet_conn_t" where
  "extnet_init_client state pconn =
     (let c = pconn\<lparr>sockfd := UNUSED_SOCKET_FD\<rparr>
      in case p_hdlrs state of EXTNET_HDLR_NON_ENCRYPT \<Rightarrow> exttcp_init_client c
         | EXTNET_HDLR_TLS \<Rightarrow> exttls_init_client c)"

definition extnet_is_client_closed :: "extnet_conn_t \<Rightarrow> bool" where
  "extnet_is_client_closed pconn \<longleftrightarrow> sockfd pconn < 0"

definition exttls_on_close_client :: "extnet_conn_t \<Rightarrow> trace \<Rightarrow> STATUS \<times> extnet_conn_t \<times> trace" where
  "exttls_on_close_client pconn tr =
     (case p_hdlr_data pconn of None \<Rightarrow> (ST_OK, pconn, tr)
      | Some ssl \<Rightarrow> (ST_OK, pconn\<lparr>p_hdlr_data := None\<rparr>, tr @ [Sys_ssl_free ssl]))"

definition exttcp_on_close_client :: "extnet_conn_t \<Rightarrow> trace \<Rightarrow> STATUS \<times> extnet_conn_t \<times> trace" where
  "exttcp_on_close_client pconn tr = (ST_OK, pconn, tr)"

definition extnet_close_client ::
    "os \<Rightarrow> ExtNet \<Rightarrow> extnet_conn_t \<Rightarrow> trace \<Rightarrow> STATUS \<times> extnet_conn_t \<times> trace" where
  "extnet_close_client os state pconn tr =
     (if sockfd pconn < 0 then (ST_ERR, pconn, tr)
      else let (st, c, tr1) = (case p_hdlrs state of
                  EXTNET_HDLR_NON_ENCRYPT \<Rightarrow> exttcp_on_close_client pconn tr
                | EXTNET_HDLR_TLS \<Rightarrow> exttls_on_close_client pconn tr);
               call = Sys_close (sockfd pconn)
           in (if fst (os tr1 call) < 0 then ST_ERR else st,
               c\<lparr>sockfd := UNUSED_SOCKET_FD, p_hdlr_data := None\<rparr>, tr1 @ [call]))"

section \<open>Setting up\<close>

definition exttcp_init :: "string option \<Rightarrow> trace \<Rightarrow> STATUS \<times> trace" where
  "exttcp_init hdata tr = (ST_OK, tr)"

text \<open>A TLS context that cannot be completed is freed again.\<close>

definition tls_cleanup :: "nat option \<Rightarrow> trace \<Rightarrow> trace" where
  "tls_cleanup ctx tr = (case ctx of None \<Rightarrow> tr | Some c \<Rightarrow> tr @ [Sys_net ''SSL_CTX_free'' [] [int c]])"

definition exttls_cleanup :: "nat option \<Rightarrow> trace \<Rightarrow> nat option \<times> trace" where
  "exttls_cleanup ssl_ctx tr = (None, tls_cleanup ssl_ctx tr)"

definition cipher_list :: string where
  "cipher_list = ''ECDHE-ECDSA-AES256-GCM-SHA384:ECDHE-RSA-AES256-GCM-SHA384:!aNULL:!eNULL@STRENGTH''"

definition init_ssl_context :: "os \<Rightarrow> string \<Rightarrow> string \<Rightarrow> trace \<Rightarrow> nat option \<times> trace" where
  "init_ssl_context os certfile keyfile tr =
     (let (r, tr1) = sys os (Sys_net ''SSL_CTX_new'' [] []) tr; c = nat r;
          step = (\<lambda>name arg t. sys os (Sys_net name arg [int c]) t);
          fail = (\<lambda>t. (None, tls_cleanup (Some c) t))
      in if c = 0 then (None, tr1)
         else let tr2 = tr1 @ [Sys_net ''SSL_CTX_set_options'' [] [int c]];
                  (r3, tr3) = step ''SSL_CTX_set_cipher_list'' cipher_list tr2
              in if r3 \<noteq> 1 then fail tr3
                 else let tr4 = tr3 @ [Sys_net ''SSL_CTX_set1_curves_list'' ''P-384'' [int c]];
                          (r5, tr5) = step ''SSL_CTX_use_certificate_file'' certfile tr4
                      in if r5 \<noteq> 1 then fail tr5
                         else let (r6, tr6) = step ''SSL_CTX_use_PrivateKey_file'' keyfile tr5
                              in if r6 \<noteq> 1 then fail tr6
                                 else let (r7, tr7) = step ''SSL_CTX_check_private_key'' [] tr6
                                      in if r7 \<noteq> 1 then fail tr7 else (Some c, tr7))"

definition exttls_init :: "os \<Rightarrow> string option \<Rightarrow> trace \<Rightarrow> STATUS \<times> nat option \<times> trace" where
  "exttls_init os hdata tr =
     (case hdata of None \<Rightarrow> (ST_ERR, None, tr)
      | Some f \<Rightarrow> (let (ctx, tr1) = init_ssl_context os f f tr in (if ctx = None then ST_ERR else ST_OK, ctx, tr1)))"

text \<open>The state and the TLS context, which stays as it was without TLS.\<close>

definition extnet_init ::
    "os \<Rightarrow> extnet_hdlr_type_t \<Rightarrow> string option \<Rightarrow> int \<Rightarrow> nat option \<Rightarrow> trace \<Rightarrow> ExtNet option \<times> nat option \<times> trace" where
  "extnet_init os e_type hdata max_sessions ctx tr =
     (if hdata = None then (None, ctx, tr)
      else let (ok, tr1) = malloc os ''ExtNet'' 1 tr
           in if \<not> ok then (None, ctx, tr1)
              else let (st, ctx2, tr2) = (case e_type of
                           EXTNET_HDLR_NON_ENCRYPT \<Rightarrow> (let (st, t) = exttcp_init hdata tr1 in (st, ctx, t))
                         | EXTNET_HDLR_TLS \<Rightarrow> exttls_init os hdata tr1)
                   in if st = ST_OK
                      then (Some \<lparr>p_hdlrs = e_type, n_max_sessions = max_sessions\<rparr>, ctx2, tr2 @ [Sys_net ''signal'' [] []])
                      else (None, ctx2, tr2))"

text \<open>The steps of the listening socket after its creation: the first that fails closes it.\<close>

fun socket_steps :: "os \<Rightarrow> int \<Rightarrow> syscall list \<Rightarrow> trace \<Rightarrow> STATUS \<times> int \<times> trace" where
  "socket_steps os fd [] tr = (ST_OK, fd, tr)"
| "socket_steps os fd (c # cs) tr =
     (let (r, tr1) = sys os c tr
      in if r < 0 then (ST_ERR, - 1, tr1 @ [Sys_close fd]) else socket_steps os fd cs tr1)"

definition extnet_open_external_socket ::
    "os \<Rightarrow> ExtNet \<Rightarrow> string option \<Rightarrow> u16 \<Rightarrow> trace \<Rightarrow> STATUS \<times> int \<times> trace" where
  "extnet_open_external_socket os state bind_if port tr =
     (let (fd, tr1) = sys os (Sys_net ''socket'' [] []) tr
      in if fd < 0 then (ST_ERR, fd, tr1)
         else socket_steps os fd
           ([Sys_net ''setsockopt'' ''TCP_NODELAY'' [fd, 1], Sys_net ''setsockopt'' ''SO_REUSEADDR'' [fd, 1]]
            @ (case bind_if of None \<Rightarrow> [] | Some nm \<Rightarrow> [Sys_net ''SO_BINDTODEVICE'' (take 16 nm) [fd]])
            @ [Sys_net ''bind'' [] [fd, uint port], Sys_net ''listen'' [] [fd, n_max_sessions state]]) tr1)"

section \<open>Accepting\<close>

definition exttcp_on_accept :: "extnet_conn_t \<Rightarrow> trace \<Rightarrow> STATUS \<times> extnet_conn_t \<times> trace" where
  "exttcp_on_accept pconn tr = (ST_OK, pconn, tr)"

text \<open>The certificate of the client is fetched for the log only.\<close>

definition exttls_on_accept ::
    "os \<Rightarrow> nat option \<Rightarrow> ExtNet \<Rightarrow> extnet_conn_t \<Rightarrow> trace \<Rightarrow> STATUS \<times> extnet_conn_t \<times> trace" where
  "exttls_on_accept os ssl_ctx state pconn tr =
     (if sockfd pconn < 0 then (ST_ERR, pconn, tr)
      else let (r, tr1) = sys os (Sys_net ''SSL_new'' [] (case ssl_ctx of None \<Rightarrow> [] | Some c \<Rightarrow> [int c])) tr; ssl = nat r
           in if ssl = 0 then (ST_ERR, pconn\<lparr>p_hdlr_data := None\<rparr>, tr1)
              else let c = pconn\<lparr>p_hdlr_data := Some ssl\<rparr>;
                       (r2, tr2) = sys os (Sys_net ''SSL_set_fd'' [] [int ssl, sockfd c]) tr1
                   in if r2 \<noteq> 1 then (ST_ERR, c, tr2)
                      else let (r3, tr3) = sys os (Sys_net ''setsockopt'' ''SO_RCVTIMEO'' [sockfd c, 3]) tr2
                           in if r3 \<noteq> 0 then (ST_ERR, c, tr3)
                              else let (r4, tr4) = sys os (Sys_net ''SSL_accept'' [] [int ssl]) tr3
                                   in if r4 \<noteq> 1
                                      then (let (_, c2, tr5) = extnet_close_client os state (c\<lparr>p_hdlr_data := None\<rparr>) (tr4 @ [Sys_ssl_free ssl])
                                            in (ST_ERR, c2, tr5))
                                      else (ST_OK, c, tr4 @ [Sys_net ''SSL_get_peer_certificate'' [] [int ssl]]))"

text \<open>\<open>pconn\<close> is the caller's uninitialised structure.\<close>

definition extnet_accept_connection ::
    "os \<Rightarrow> nat option \<Rightarrow> ExtNet \<Rightarrow> int \<Rightarrow> extnet_conn_t \<Rightarrow> trace \<Rightarrow> STATUS \<times> extnet_conn_t \<times> trace" where
  "extnet_accept_connection os ssl_ctx state listen_fd pconn tr =
     (let (fd, tr1) = sys os (Sys_net ''accept'' [] [listen_fd]) tr; c = pconn\<lparr>sockfd := fd\<rparr>
      in if fd < 0 then (ST_ERR, c, tr1)
         else let (st, c2, tr2) = (case p_hdlrs state of
                      EXTNET_HDLR_NON_ENCRYPT \<Rightarrow> exttcp_on_accept c tr1
                    | EXTNET_HDLR_TLS \<Rightarrow> exttls_on_accept os ssl_ctx state c tr1)
              in if st \<noteq> ST_OK then (let (_, c3, tr3) = extnet_close_client os state c2 tr2 in (st, c3, tr3))
                 else (ST_OK, c2, tr2))"

section \<open>Receiving and sending\<close>

text \<open>
  A receive answers the count, the new contents of the caller's buffer and the flag that more data
  is already buffered (which keeps its old value \<open>pend\<close> on the paths that do not store it).
\<close>

definition exttcp_recv ::
    "os \<Rightarrow> extnet_conn_t \<Rightarrow> u8 list \<Rightarrow> bool \<Rightarrow> trace \<Rightarrow> int \<times> u8 list \<times> bool \<times> trace" where
  "exttcp_recv os pconn bf pend tr =
     (if sockfd pconn < 0 then (- 1, bf, False, tr)
      else let call = Sys_recv (sockfd pconn) (length bf); r = os tr call
           in (fst r, overlay bf (take (nat (fst r)) (sys_data r)), False, tr @ [call]))"

definition SSL_ERROR_NONE :: int where "SSL_ERROR_NONE = 0"
definition SSL_ERROR_SSL :: int where "SSL_ERROR_SSL = 1"
definition SSL_ERROR_SYSCALL :: int where "SSL_ERROR_SYSCALL = 5"
definition SSL_ERROR_ZERO_RETURN :: int where "SSL_ERROR_ZERO_RETURN = 6"

definition exttls_has_read_error_closed :: "os \<Rightarrow> nat \<Rightarrow> int \<Rightarrow> trace \<Rightarrow> STATUS \<times> trace" where
  "exttls_has_read_error_closed os ssl n_errcode tr =
     (let call = Sys_ssl_get_error ssl n_errcode; e = fst (os tr call)
      in (if e = SSL_ERROR_NONE \<or> e = SSL_ERROR_ZERO_RETURN then ST_OK else ST_ERR, tr @ [call]))"

definition exttls_has_read_error :: "os \<Rightarrow> nat \<Rightarrow> int \<Rightarrow> trace \<Rightarrow> STATUS \<times> trace" where
  "exttls_has_read_error os ssl n_errcode tr =
     (let call = Sys_ssl_get_error ssl n_errcode; e = fst (os tr call)
      in (if e = SSL_ERROR_SYSCALL \<or> e = SSL_ERROR_SSL then ST_ERR else ST_OK, tr @ [call]))"

definition exttls_has_write_error :: "os \<Rightarrow> nat \<Rightarrow> int \<Rightarrow> trace \<Rightarrow> STATUS \<times> trace" where
  "exttls_has_write_error os ssl n_errcode tr =
     (let call = Sys_ssl_get_error ssl n_errcode; e = fst (os tr call)
      in (if e \<in> {SSL_ERROR_NONE, SSL_ERROR_ZERO_RETURN, SSL_ERROR_SYSCALL, SSL_ERROR_SSL}
          then ST_ERR else ST_OK, tr @ [call]))"

definition exttls_recv ::
    "os \<Rightarrow> extnet_conn_t \<Rightarrow> u8 list \<Rightarrow> bool \<Rightarrow> trace \<Rightarrow> int \<times> u8 list \<times> bool \<times> trace" where
  "exttls_recv os pconn bf pend tr =
     (if sockfd pconn < 0 then (- 1, bf, pend, tr)
      else case p_hdlr_data pconn of None \<Rightarrow> (- 1, bf, pend, tr)
      | Some ssl \<Rightarrow>
          (let call = Sys_ssl_read ssl (length bf); r = os tr call; n_read = fst r;
               bf' = overlay bf (take (nat n_read) (sys_data r)); tr1 = tr @ [call]
           in if n_read \<le> 0 then
                (let (closed, tr2) = exttls_has_read_error_closed os ssl n_read tr1
                 in if closed = ST_OK then (0, bf', False, tr2)
                    else let (err, tr3) = exttls_has_read_error os ssl n_read tr2
                         in (if err \<noteq> ST_OK then - 1 else n_read, bf', False, tr3))
              else (let c2 = Sys_ssl_pending ssl
                    in (n_read, bf', fst (os tr1 c2) > 0, tr1 @ [c2]))))"

definition extnet_recv ::
    "os \<Rightarrow> ExtNet \<Rightarrow> extnet_conn_t \<Rightarrow> u8 list \<Rightarrow> bool \<Rightarrow> trace \<Rightarrow> int \<times> u8 list \<times> bool \<times> trace" where
  "extnet_recv os state pconn bf pend tr =
     (case p_hdlrs state of EXTNET_HDLR_NON_ENCRYPT \<Rightarrow> exttcp_recv os pconn bf pend tr
      | EXTNET_HDLR_TLS \<Rightarrow> exttls_recv os pconn bf pend tr)"

definition exttcp_send :: "os \<Rightarrow> extnet_conn_t \<Rightarrow> u8 list \<Rightarrow> trace \<Rightarrow> int \<times> trace" where
  "exttcp_send os pconn bs tr =
     (if sockfd pconn < 0 then (- 1, tr)
      else let call = Sys_send (sockfd pconn) bs in (fst (os tr call), tr @ [call]))"

definition exttls_send :: "os \<Rightarrow> extnet_conn_t \<Rightarrow> u8 list \<Rightarrow> trace \<Rightarrow> int \<times> trace" where
  "exttls_send os pconn bs tr =
     (if sockfd pconn < 0 then (- 1, tr)
      else case p_hdlr_data pconn of None \<Rightarrow> (- 1, tr)
      | Some ssl \<Rightarrow>
          (let call = Sys_ssl_write ssl bs; n_wr = fst (os tr call); tr1 = tr @ [call]
           in if n_wr \<le> 0 then
                (let (err, tr2) = exttls_has_write_error os ssl n_wr tr1
                 in (if err \<noteq> ST_OK then - 1 else n_wr, tr2))
              else (n_wr, tr1)))"

definition extnet_send :: "os \<Rightarrow> ExtNet \<Rightarrow> extnet_conn_t \<Rightarrow> u8 list \<Rightarrow> trace \<Rightarrow> int \<times> trace" where
  "extnet_send os state pconn bs tr =
     (case p_hdlrs state of EXTNET_HDLR_NON_ENCRYPT \<Rightarrow> exttcp_send os pconn bs tr
      | EXTNET_HDLR_TLS \<Rightarrow> exttls_send os pconn bs tr)"

section \<open>Facts\<close>

text \<open>What is put on a connection: the payloads of the send calls, in order.\<close>

fun sent_payload :: "syscall \<Rightarrow> u8 list option" where
  "sent_payload (Sys_send _ bs) = Some bs"
| "sent_payload (Sys_ssl_write _ bs) = Some bs"
| "sent_payload _ = None"

definition sent_on :: "trace \<Rightarrow> u8 list list" where
  "sent_on tr = map the (filter (\<lambda>x. x \<noteq> None) (map sent_payload tr))"

lemma sent_on_append [simp]: "sent_on (a @ b) = sent_on a @ sent_on b"
  by (simp add: sent_on_def)

lemma sent_on_simps [simp]:
  "sent_on [] = []" "sent_on (Sys_send f bs # tr) = bs # sent_on tr"
  "sent_on (Sys_ssl_write k bs # tr) = bs # sent_on tr" "sent_on (Sys_ssl_get_error k e # tr) = sent_on tr"
  by (simp_all add: sent_on_def)

lemma extnet_close_client_closed:
  "extnet_close_client os state c tr = (st, c', tr') \<Longrightarrow> extnet_is_client_closed c'"
  by (auto simp: extnet_close_client_def extnet_is_client_closed_def exttcp_on_close_client_def
      exttls_on_close_client_def Let_def split: if_splits extnet_hdlr_type_t.splits option.splits prod.splits)

lemma extnet_close_client_open:
  assumes "0 \<le> sockfd c"
  shows "fst (snd (extnet_close_client os state c tr)) = c\<lparr>sockfd := UNUSED_SOCKET_FD, p_hdlr_data := None\<rparr>"
  using assms
  by (auto simp: extnet_close_client_def exttcp_on_close_client_def exttls_on_close_client_def Let_def
      split: if_splits extnet_hdlr_type_t.splits option.splits prod.splits)

lemma extnet_recv_length:
  "extnet_recv os state c bf pend tr = (n, bf', p, tr') \<Longrightarrow> length bf' = length bf"
  by (auto simp: extnet_recv_def exttcp_recv_def exttls_recv_def exttls_has_read_error_closed_def
      exttls_has_read_error_def Let_def split: extnet_hdlr_type_t.splits if_splits option.splits)

text \<open>A send puts its payload on the connection at most once, and a positive count means it did.\<close>

lemma extnet_send_once:
  assumes "extnet_send os state c bs tr = (n, tr')"
  shows "sent_on tr' = sent_on tr \<or> sent_on tr' = sent_on tr @ [bs]"
    "0 < n \<Longrightarrow> sent_on tr' = sent_on tr @ [bs]"
  using assms
  by (auto simp: extnet_send_def exttcp_send_def exttls_send_def exttls_has_write_error_def Let_def
      split: extnet_hdlr_type_t.splits if_splits option.splits)

section \<open>Descriptors are not leaked\<close>

text \<open>How often a descriptor is closed in a part of a run.\<close>

definition closes :: "int \<Rightarrow> trace \<Rightarrow> nat" where
  "closes fd tr = length (filter (\<lambda>c. c = Sys_close fd) tr)"

lemma closes_simps [simp]:
  "closes fd [] = 0" "closes fd (a @ b) = closes fd a + closes fd b"
  "closes fd (c # b) = (if c = Sys_close fd then Suc (closes fd b) else closes fd b)"
  by (simp_all add: closes_def)

lemma closes_sys [simp]: "closes fd (snd (sys os c tr)) = closes fd tr + (if c = Sys_close fd then 1 else 0)"
  by simp

lemma extnet_close_client_closes:
  "closes fd (snd (snd (extnet_close_client os state c tr))) = closes fd tr + (if sockfd c = fd \<and> 0 \<le> fd then 1 else 0)"
  by (auto simp: extnet_close_client_def exttcp_on_close_client_def exttls_on_close_client_def Let_def
      split: extnet_hdlr_type_t.split option.split)

lemma exttls_on_accept_closes:
  assumes "exttls_on_accept os ctx state c tr = (st, c', tr')" "0 \<le> sockfd c"
  shows "(st = ST_OK \<longrightarrow> sockfd c' = sockfd c \<and> closes (sockfd c) tr' = closes (sockfd c) tr) \<and>
    (st \<noteq> ST_OK \<longrightarrow> (sockfd c' = sockfd c \<and> closes (sockfd c) tr' = closes (sockfd c) tr) \<or>
       (sockfd c' = - 1 \<and> closes (sockfd c) tr' = Suc (closes (sockfd c) tr)))"
proof -
  have cl: "sockfd (fst (snd (extnet_close_client os state (c\<lparr>p_hdlr_data := None\<rparr>) t))) = - 1"
    "closes (sockfd c) (snd (snd (extnet_close_client os state (c\<lparr>p_hdlr_data := None\<rparr>) t))) = Suc (closes (sockfd c) t)" for t
    using assms(2) extnet_close_client_open [of "c\<lparr>p_hdlr_data := None\<rparr>" os state t] by (simp_all add: extnet_close_client_closes)
  have ok: "sockfd (fst r) = - 1 \<and> closes (sockfd c) (snd r) = Suc (closes (sockfd c) t)"
    if "r = snd (extnet_close_client os state (c\<lparr>p_hdlr_data := None\<rparr>) t)" for r t
    using that cl by simp
  show ?thesis
    using assms by (auto simp: exttls_on_accept_def split_def Let_def dest: ok [OF sym] split: if_splits)
qed

text \<open>
  A connection that is accepted stays open; one that is refused after \<open>accept\<close> gave its descriptor is
  closed exactly once.
\<close>

lemma extnet_accept_no_leak:
  assumes "extnet_accept_connection os ctx state lfd c tr = (st, c', tr')" "fst (os tr (Sys_net ''accept'' [] [lfd])) = fd" "0 \<le> fd"
  shows "if st = ST_OK then sockfd c' = fd \<and> closes fd tr' = closes fd tr
    else sockfd c' = - 1 \<and> closes fd tr' = Suc (closes fd tr)"
proof -
  obtain st1 c1 tr1 where h: "(case p_hdlrs state of
      EXTNET_HDLR_NON_ENCRYPT \<Rightarrow> exttcp_on_accept (c\<lparr>sockfd := fd\<rparr>) (tr @ [Sys_net ''accept'' [] [lfd]])
    | EXTNET_HDLR_TLS \<Rightarrow> exttls_on_accept os ctx state (c\<lparr>sockfd := fd\<rparr>) (tr @ [Sys_net ''accept'' [] [lfd]])) = (st1, c1, tr1)"
    by (metis prod_cases3)
  have a: "(st1 = ST_OK \<longrightarrow> sockfd c1 = fd \<and> closes fd tr1 = closes fd tr) \<and>
      (st1 \<noteq> ST_OK \<longrightarrow> (sockfd c1 = fd \<and> closes fd tr1 = closes fd tr) \<or> (sockfd c1 = - 1 \<and> closes fd tr1 = Suc (closes fd tr)))"
    using h exttls_on_accept_closes [of os ctx state "c\<lparr>sockfd := fd\<rparr>" "tr @ [Sys_net ''accept'' [] [lfd]]" st1 c1 tr1] assms(3)
    by (auto simp: exttcp_on_accept_def split: extnet_hdlr_type_t.splits)
  have cl: "0 \<le> sockfd c1 \<Longrightarrow> sockfd (fst (snd (extnet_close_client os state c1 tr1))) = - 1"
    "sockfd c1 = - 1 \<Longrightarrow> fst (snd (extnet_close_client os state c1 tr1)) = c1"
    using extnet_close_client_open [of c1 os state tr1] by (simp_all add: extnet_close_client_def)
  obtain st2 c2 tr2 where e: "extnet_close_client os state c1 tr1 = (st2, c2, tr2)"
    by (metis prod_cases3)
  have "(st, c', tr') = (if st1 \<noteq> ST_OK then (st1, c2, tr2) else (ST_OK, c1, tr1))"
    using assms h e by (auto simp: extnet_accept_connection_def sys_def)
  then show ?thesis
    using assms(3) a cl e extnet_close_client_closes [of fd os state c1 tr1]
    by (auto split: if_splits)
qed

lemma socket_steps_no_leak:
  assumes "socket_steps os fd cs tr = (st, fd', tr')" "\<forall>c \<in> set cs. c \<noteq> Sys_close fd"
  shows "if st = ST_OK then fd' = fd \<and> closes fd tr' = closes fd tr else st = ST_ERR \<and> fd' = - 1 \<and> closes fd tr' = Suc (closes fd tr)"
  using assms by (induction cs arbitrary: tr) (auto simp: sys_def Let_def split: if_splits)

end
