(* ===== verification/Session.thy ===== *)
theory Session
  imports Ext_Network
begin

text \<open>
  \<open>server/session.c\<close>: the table of five client sessions, of which at most one is authenticated.  A
  pointer to a session is its index in the table.
\<close>

section \<open>State\<close>

definition MAX_SESSIONS :: nat where "MAX_SESSIONS = 5"
definition SESSION_AUTH_EXPIRE_TIMEOUT :: int where "SESSION_AUTH_EXPIRE_TIMEOUT = 15"
abbreviation NO_SESSION_AUTHENTICATED :: int where "NO_SESSION_AUTHENTICATED \<equiv> - 1"

record session_t =
  id :: int
  extconn :: extnet_conn_t
  t_auth_tout :: int
  b_authenticated :: bool
  sess_data_pending :: bool

record Session =
  b_initialized :: bool
  sessions :: "session_t list"
  n_authenticated_id :: int
  extnet :: ExtNet

definition session_init :: "os \<Rightarrow> ExtNet \<Rightarrow> (nat \<Rightarrow> extnet_conn_t) \<Rightarrow> trace \<Rightarrow> Session option \<times> trace" where
  "session_init os net garbage tr =
     (let (ok, tr1) = malloc os ''Session'' 1 tr;
          slots = map (\<lambda>i. (i, extnet_init_client net (garbage i))) [0..<MAX_SESSIONS]
      in if ok \<and> (\<forall>(i, st, c) \<in> set slots. st = ST_OK) then
           (Some \<lparr>b_initialized = True,
                  sessions = map (\<lambda>(i, st, c). \<lparr>id = int i, extconn = c, t_auth_tout = 0,
                                    b_authenticated = False, sess_data_pending = False\<rparr>) slots,
                  n_authenticated_id = NO_SESSION_AUTHENTICATED, extnet = net\<rparr>, tr1)
         else (None, tr1))"

text \<open>The search loop: the first index whose socket is the wanted one.\<close>

fun find_fd :: "session_t list \<Rightarrow> int \<Rightarrow> nat \<Rightarrow> nat option" where
  "find_fd [] fd i = None"
| "find_fd (s # ss) fd i = (if sockfd (extconn s) = fd then Some i else find_fd ss fd (Suc i))"

definition session_find_private :: "Session \<Rightarrow> int \<Rightarrow> nat option" where
  "session_find_private state fd = (if b_initialized state then find_fd (sessions state) fd 0 else None)"

definition session_lookup_conn :: "Session \<Rightarrow> int \<Rightarrow> nat option" where
  "session_lookup_conn state fd =
     (case session_find_private state fd of None \<Rightarrow> None
      | Some i \<Rightarrow> (if sockfd (extconn (sessions state ! i)) \<ge> 0 then Some i else None))"

definition upd_session :: "nat \<Rightarrow> (session_t \<Rightarrow> session_t) \<Rightarrow> Session \<Rightarrow> Session" where
  "upd_session i f state = state\<lparr>sessions := (sessions state)[i := f (sessions state ! i)]\<rparr>"

section \<open>Opening and closing\<close>

definition session_open ::
    "os \<Rightarrow> Session \<Rightarrow> extnet_conn_t \<Rightarrow> trace \<Rightarrow> STATUS \<times> Session \<times> trace" where
  "session_open os state p_extconn tr =
     (case session_find_private state UNUSED_SOCKET_FD of None \<Rightarrow> (ST_ERR, state, tr)
      | Some i \<Rightarrow>
          (ST_OK,
           upd_session i (\<lambda>s. s\<lparr>extconn := p_extconn,
                               t_auth_tout := SESSION_AUTH_EXPIRE_TIMEOUT + fst (os tr Sys_time),
                               b_authenticated := False, sess_data_pending := False\<rparr>) state,
           tr @ [Sys_time]))"

definition session_close_private :: "os \<Rightarrow> Session \<Rightarrow> nat \<Rightarrow> trace \<Rightarrow> STATUS \<times> Session \<times> trace" where
  "session_close_private os state i tr =
     (let s = sessions state ! i;
          (c, tr1) = (if extnet_is_client_closed (extconn s) then (extconn s, tr)
                      else snd (extnet_close_client os (extnet state) (extconn s) tr));
          st1 = (if id s = n_authenticated_id state
                 then state\<lparr>n_authenticated_id := NO_SESSION_AUTHENTICATED\<rparr> else state)
      in (ST_OK,
          upd_session i (\<lambda>s. s\<lparr>extconn := c, t_auth_tout := 0, b_authenticated := False\<rparr>) st1,
          tr1))"

definition session_close ::
    "os \<Rightarrow> Session \<Rightarrow> extnet_conn_t \<Rightarrow> trace \<Rightarrow> STATUS \<times> Session \<times> trace" where
  "session_close os state p_extconn tr =
     (if sockfd p_extconn \<noteq> UNUSED_SOCKET_FD then
        (case session_find_private state (sockfd p_extconn) of None \<Rightarrow> (ST_ERR, state, tr)
         | Some i \<Rightarrow> session_close_private os state i tr)
      else (ST_ERR, state, tr))"

fun close_all_from :: "os \<Rightarrow> nat list \<Rightarrow> Session \<Rightarrow> trace \<Rightarrow> Session \<times> trace" where
  "close_all_from os [] state tr = (state, tr)"
| "close_all_from os (i # is) state tr =
     (if \<not> extnet_is_client_closed (extconn (sessions state ! i)) then
        (let (_, s', tr') = session_close_private os state i tr in close_all_from os is s' tr')
      else close_all_from os is state tr)"

definition session_close_all :: "os \<Rightarrow> Session \<Rightarrow> trace \<Rightarrow> Session \<times> trace" where
  "session_close_all os state tr =
     (if b_initialized state then close_all_from os [0..<MAX_SESSIONS] state tr else (state, tr))"

text \<open>\<open>time(0)\<close> is evaluated only for an open session that is not authenticated.\<close>

fun close_expired_from :: "os \<Rightarrow> nat list \<Rightarrow> Session \<Rightarrow> trace \<Rightarrow> Session \<times> trace" where
  "close_expired_from os [] state tr = (state, tr)"
| "close_expired_from os (i # is) state tr =
     (let s = sessions state ! i
      in if \<not> extnet_is_client_closed (extconn s) \<and> \<not> b_authenticated s then
           (let tr1 = tr @ [Sys_time]
            in if t_auth_tout s \<le> fst (os tr Sys_time) then
                 (let (_, s', tr') = session_close_private os state i tr1
                  in close_expired_from os is s' tr')
               else close_expired_from os is state tr1)
         else close_expired_from os is state tr)"

definition session_close_expired_unauth :: "os \<Rightarrow> Session \<Rightarrow> trace \<Rightarrow> Session \<times> trace" where
  "session_close_expired_unauth os state tr =
     (if b_initialized state then close_expired_from os [0..<MAX_SESSIONS] state tr else (state, tr))"

section \<open>Authentication\<close>

definition session_already_authenticated :: "Session \<Rightarrow> extnet_conn_t \<Rightarrow> STATUS" where
  "session_already_authenticated state p_extconn =
     (if b_initialized state \<and> \<not> extnet_is_client_closed p_extconn then
        (case session_find_private state (sockfd p_extconn) of None \<Rightarrow> ST_ERR
         | Some i \<Rightarrow> (if b_authenticated (sessions state ! i) then ST_OK else ST_ERR))
      else ST_ERR)"

definition session_auth_complete :: "Session \<Rightarrow> extnet_conn_t \<Rightarrow> STATUS \<times> Session" where
  "session_auth_complete state p_extconn =
     (if b_initialized state then
        (if n_authenticated_id state \<ge> 0 then (ST_ERR, state)
         else case session_find_private state (sockfd p_extconn) of None \<Rightarrow> (ST_ERR, state)
         | Some i \<Rightarrow>
             (ST_OK, upd_session i (b_authenticated_update (\<lambda>_. True))
                       (state\<lparr>n_authenticated_id := id (sessions state ! i)\<rparr>)))
      else (ST_ERR, state))"

definition session_get_authenticated_conn :: "Session \<Rightarrow> (STATUS \<times> extnet_conn_t option) option" where
  "session_get_authenticated_conn state =
     (if b_initialized state \<and> n_authenticated_id state \<ge> 0 then do {
        s \<leftarrow> rd (sessions state) (nat (n_authenticated_id state));
        Some (ST_OK, Some (extconn s)) }
      else Some (ST_ERR, None))"

section \<open>Pending data and descriptors\<close>

definition session_set_data_pending :: "Session \<Rightarrow> extnet_conn_t \<Rightarrow> bool \<Rightarrow> STATUS \<times> Session" where
  "session_set_data_pending state p_extconn b =
     (if b_initialized state then
        (case session_find_private state (sockfd p_extconn) of None \<Rightarrow> (ST_ERR, state)
         | Some i \<Rightarrow> (ST_OK, upd_session i (sess_data_pending_update (\<lambda>_. b)) state))
      else (ST_ERR, state))"

definition session_get_data_pending :: "Session \<Rightarrow> extnet_conn_t \<Rightarrow> bool \<Rightarrow> STATUS \<times> bool" where
  "session_get_data_pending state p_extconn old =
     (if b_initialized state then
        (case session_find_private state (sockfd p_extconn) of None \<Rightarrow> (ST_ERR, old)
         | Some i \<Rightarrow> (ST_OK, sess_data_pending (sessions state ! i)))
      else (ST_ERR, old))"

text \<open>The remaining time is computed in \<open>time_t\<close> and cast to a 32 bit \<open>int\<close>.\<close>

fun getfds_from ::
    "os \<Rightarrow> nat list \<Rightarrow> Session \<Rightarrow> bool \<Rightarrow> bool \<Rightarrow> int list \<Rightarrow> int \<Rightarrow> trace
       \<Rightarrow> int list \<times> int \<times> bool \<times> trace" where
  "getfds_from os [] state pend zero fds timeout tr = (fds, timeout, zero, tr)"
| "getfds_from os (i # is) state pend zero fds timeout tr =
     (let s = sessions state ! i
      in if \<not> extnet_is_client_closed (extconn s) then
           (let (timeout1, tr1) =
                  (if \<not> b_authenticated s then
                     (let n = signed_take_bit 31 (1000 * (t_auth_tout s - fst (os tr Sys_time)));
                          n' = (if n < 0 then 0 else n)
                      in (if timeout < 0 \<or> n' < timeout then n' else timeout, tr @ [Sys_time]))
                   else (timeout, tr));
                pend1 = snd (session_get_data_pending state (extconn s) pend)
            in getfds_from os is state pend1 (zero \<or> pend1) (fds @ [sockfd (extconn s)]) timeout1 tr1)
         else getfds_from os is state pend zero fds timeout tr)"

definition session_getfds ::
    "os \<Rightarrow> Session \<Rightarrow> int \<Rightarrow> trace \<Rightarrow> STATUS \<times> int list \<times> int \<times> trace" where
  "session_getfds os state timeout tr =
     (if b_initialized state then
        (let (fds, t, zero, tr') = getfds_from os [0..<MAX_SESSIONS] state False False [] timeout tr
         in (ST_OK, fds, if zero then 0 else t, tr'))
      else (ST_ERR, [], timeout, tr))"

section \<open>The invariant\<close>

text \<open>
  Slots carry their index as identifier; the flag of a slot and \<open>n_authenticated_id\<close> agree; only an
  open slot is authenticated; a closed slot holds exactly \<open>UNUSED_SOCKET_FD\<close>, and no descriptor is
  in the table twice.
\<close>

abbreviation slot_fd :: "Session \<Rightarrow> nat \<Rightarrow> int" where
  "slot_fd s i \<equiv> sockfd (extconn (sessions s ! i))"

definition wf_session :: "Session \<Rightarrow> bool" where
  "wf_session s \<longleftrightarrow>
     b_initialized s \<and> length (sessions s) = MAX_SESSIONS \<and>
     (\<forall>i<MAX_SESSIONS. id (sessions s ! i) = int i) \<and>
     (n_authenticated_id s = NO_SESSION_AUTHENTICATED \<or>
        (0 \<le> n_authenticated_id s \<and> n_authenticated_id s < int MAX_SESSIONS)) \<and>
     (\<forall>i<MAX_SESSIONS. b_authenticated (sessions s ! i) \<longleftrightarrow> n_authenticated_id s = int i) \<and>
     (\<forall>i<MAX_SESSIONS. b_authenticated (sessions s ! i) \<longrightarrow> 0 \<le> slot_fd s i) \<and>
     (\<forall>i<MAX_SESSIONS. - 1 \<le> slot_fd s i) \<and>
     (\<forall>i<MAX_SESSIONS. \<forall>j<MAX_SESSIONS. slot_fd s i = slot_fd s j \<longrightarrow> 0 \<le> slot_fd s i \<longrightarrow> i = j)"

text \<open>What a client of the table sees: the open descriptors and the authenticated one.\<close>

definition open_fds :: "Session \<Rightarrow> int set" where
  "open_fds s = {fd. 0 \<le> fd \<and> fd \<in> (\<lambda>x. sockfd (extconn x)) ` set (sessions s)}"

definition authed_fd :: "Session \<Rightarrow> int option" where
  "authed_fd s = (if n_authenticated_id s \<ge> 0 then Some (slot_fd s (nat (n_authenticated_id s))) else None)"

lemma in_image_set_nth: "y \<in> f ` set xs \<longleftrightarrow> (\<exists>i<length xs. y = f (xs ! i))"
  unfolding set_conv_nth by auto

lemma find_fd_Some:
  "find_fd ss fd k = Some i \<Longrightarrow>
     k \<le> i \<and> i < k + length ss \<and> sockfd (extconn (ss ! (i - k))) = fd \<and>
     (\<forall>j<i - k. sockfd (extconn (ss ! j)) \<noteq> fd)"
proof (induction ss fd k rule: find_fd.induct)
  case (2 s ss fd i')
  show ?case
  proof (cases "sockfd (extconn s) = fd")
    case False
    with 2 have *: "find_fd ss fd (Suc i') = Some i" by simp
    with 2 False have "Suc i' \<le> i" "i < Suc i' + length ss" by simp_all
    then have "i - i' = Suc (i - Suc i')" by simp
    with 2 False * show ?thesis by (auto simp: less_Suc_eq_0_disj)
  qed (use 2 in auto)
qed simp

lemma find_fd_None: "find_fd ss fd k = None \<longleftrightarrow> fd \<notin> (\<lambda>x. sockfd (extconn x)) ` set ss"
  by (induction ss fd k rule: find_fd.induct) auto

lemma wf_session_initialized: "wf_session s \<Longrightarrow> b_initialized s"
  and wf_session_length: "wf_session s \<Longrightarrow> length (sessions s) = MAX_SESSIONS"
  and wf_session_auth: "wf_session s \<Longrightarrow> i < MAX_SESSIONS \<Longrightarrow>
      b_authenticated (sessions s ! i) \<longleftrightarrow> n_authenticated_id s = int i"
  and wf_session_auth_open: "wf_session s \<Longrightarrow> i < MAX_SESSIONS \<Longrightarrow>
      b_authenticated (sessions s ! i) \<Longrightarrow> 0 \<le> slot_fd s i"
  and wf_session_inj: "wf_session s \<Longrightarrow> i < MAX_SESSIONS \<Longrightarrow> j < MAX_SESSIONS \<Longrightarrow>
      slot_fd s i = slot_fd s j \<Longrightarrow> 0 \<le> slot_fd s i \<Longrightarrow> i = j"
  and wf_session_id: "wf_session s \<Longrightarrow> i < MAX_SESSIONS \<Longrightarrow> id (sessions s ! i) = int i"
  and wf_session_closed: "wf_session s \<Longrightarrow> i < MAX_SESSIONS \<Longrightarrow> \<not> 0 \<le> slot_fd s i \<Longrightarrow> slot_fd s i = - 1"
  by (auto simp: wf_session_def dest: spec [of _ i])

lemma wf_session_range:
  "wf_session s \<Longrightarrow> 0 \<le> n_authenticated_id s \<Longrightarrow> nat (n_authenticated_id s) < MAX_SESSIONS"
  by (auto simp: wf_session_def)

lemma session_find_private_Some:
  assumes "wf_session s" "session_find_private s fd = Some i"
  shows "i < MAX_SESSIONS" "slot_fd s i = fd"
  using find_fd_Some [of "sessions s" fd 0 i] assms
  by (auto simp: session_find_private_def wf_session_length split: if_splits)

lemma session_find_private_iff:
  assumes "wf_session s" "0 \<le> fd"
  shows "session_find_private s fd = Some i \<longleftrightarrow> i < MAX_SESSIONS \<and> slot_fd s i = fd"
proof (intro iffI)
  assume i: "i < MAX_SESSIONS \<and> slot_fd s i = fd"
  then have "session_find_private s fd \<noteq> None"
    using assms by (auto simp: session_find_private_def wf_session_initialized find_fd_None
        in_image_set_nth wf_session_length)
  then obtain j where "session_find_private s fd = Some j" by auto
  with session_find_private_Some [OF assms(1) this] i assms show "session_find_private s fd = Some i"
    using wf_session_inj by (metis)
qed (use session_find_private_Some assms in auto)

lemma session_find_private_None:
  assumes "wf_session s" "0 \<le> fd"
  shows "session_find_private s fd = None \<longleftrightarrow> fd \<notin> open_fds s"
  using assms by (auto simp: session_find_private_def wf_session_initialized find_fd_None open_fds_def)

lemma open_fds_slots:
  assumes "wf_session s"
  shows "open_fds s = {slot_fd s i | i. i < MAX_SESSIONS \<and> 0 \<le> slot_fd s i}"
  using assms by (auto simp: open_fds_def in_image_set_nth wf_session_length)

lemma open_fds_upd:
  assumes "wf_session s" "i < MAX_SESSIONS"
  shows "open_fds (s\<lparr>sessions := (sessions s)[i := x], n_authenticated_id := n\<rparr>) =
    (open_fds s - {slot_fd s i}) \<union> {fd. 0 \<le> fd \<and> fd = sockfd (extconn x)}"
    (is "?L = ?R")
proof (intro set_eqI iffI)
  fix fd
  have len: "length (sessions s) = MAX_SESSIONS" using assms by (simp add: wf_session_length)
  { assume "fd \<in> ?L"
    then obtain j where "0 \<le> fd" "j < MAX_SESSIONS" "fd = sockfd (extconn ((sessions s)[i := x] ! j))"
      by (auto simp: open_fds_def in_image_set_nth len)
    then show "fd \<in> ?R"
      using assms wf_session_inj [OF assms(1), of i j] by (cases "i = j") (auto simp: open_fds_slots len)
  }
  { assume r: "fd \<in> ?R"
    then have "0 \<le> fd" by (auto simp: open_fds_def)
    moreover have "\<exists>j<MAX_SESSIONS. fd = sockfd (extconn ((sessions s)[i := x] ! j))"
    proof (cases "fd = sockfd (extconn x)")
      case True
      then show ?thesis using assms len by (intro exI [of _ i]) simp
    next
      case False
      with r obtain j where "j < MAX_SESSIONS" "fd = slot_fd s j" "j \<noteq> i"
        using assms by (auto simp: open_fds_slots)
      then show ?thesis by (intro exI [of _ j]) simp
    qed
    ultimately show "fd \<in> ?L"
      by (auto simp: open_fds_def in_image_set_nth len)
  }
qed

lemma authed_in_open:
  assumes wf: "wf_session s" and a: "authed_fd s = Some fd"
  shows "fd \<in> open_fds s"
proof -
  from a have "nat (n_authenticated_id s) < MAX_SESSIONS" "0 \<le> n_authenticated_id s"
    using wf by (auto simp: authed_fd_def wf_session_def split: if_splits)
  with a show ?thesis
    using wf_session_auth_open [OF wf] wf_session_auth [OF wf]
    by (auto simp: authed_fd_def open_fds_slots [OF wf])
qed

lemma card_open_fds_le:
  assumes "wf_session s"
  shows "finite (open_fds s) \<and> card (open_fds s) \<le> MAX_SESSIONS"
proof -
  have sub: "open_fds s \<subseteq> (\<lambda>x. sockfd (extconn x)) ` set (sessions s)"
    by (auto simp: open_fds_def)
  have "card ((\<lambda>x. sockfd (extconn x)) ` set (sessions s)) \<le> MAX_SESSIONS"
    using assms by (metis card_image_le card_length le_trans List.finite_set wf_session_length)
  with sub show ?thesis
    by (meson List.finite_set card_mono finite_imageI finite_subset le_trans)
qed

text \<open>There is an unused slot exactly while fewer than \<open>MAX_SESSIONS\<close> descriptors are open.\<close>

lemma unused_slot_iff:
  assumes "wf_session s"
  shows "session_find_private s UNUSED_SOCKET_FD = None \<longleftrightarrow> card (open_fds s) = MAX_SESSIONS"
proof
  let ?f = "\<lambda>i. slot_fd s i"
  assume "session_find_private s UNUSED_SOCKET_FD = None"
  then have nz: "\<forall>i<MAX_SESSIONS. 0 \<le> ?f i"
    using assms wf_session_closed [OF assms]
    by (force simp: session_find_private_def wf_session_initialized find_fd_None image_iff
        in_set_conv_nth wf_session_length)
  have "open_fds s = ?f ` {..<MAX_SESSIONS}"
    using nz by (auto simp: open_fds_slots [OF assms])
  moreover have "inj_on ?f {..<MAX_SESSIONS}"
    using nz wf_session_inj [OF assms] by (auto simp: inj_on_def)
  ultimately show "card (open_fds s) = MAX_SESSIONS"
    by (simp add: card_image)
next
  let ?f = "\<lambda>i. slot_fd s i"
  assume c: "card (open_fds s) = MAX_SESSIONS"
  show "session_find_private s UNUSED_SOCKET_FD = None"
  proof (rule ccontr)
    assume "session_find_private s UNUSED_SOCKET_FD \<noteq> None"
    then obtain k where k: "k < MAX_SESSIONS" "?f k = - 1"
      using session_find_private_Some [OF assms] by blast
    have "open_fds s \<subseteq> ?f ` ({..<MAX_SESSIONS} - {k})"
      using k by (auto simp: open_fds_slots [OF assms])
    then have "card (open_fds s) \<le> card ({..<MAX_SESSIONS} - {k})"
      by (meson card_image_le card_mono finite_Diff finite_imageI finite_lessThan le_trans)
    with c k show False by (simp add: MAX_SESSIONS_def)
  qed
qed

section \<open>The operations on the table\<close>

text \<open>Every operation is an update of one slot; this lemma keeps the invariant for all of them.\<close>

lemma wf_session_upd:
  assumes wf: "wf_session s" and i: "i < MAX_SESSIONS"
    and x: "id x = int i" "- 1 \<le> sockfd (extconn x)" "b_authenticated x \<Longrightarrow> 0 \<le> sockfd (extconn x)"
      "0 \<le> sockfd (extconn x) \<Longrightarrow> sockfd (extconn x) = slot_fd s i \<or> sockfd (extconn x) \<notin> open_fds s"
    and n: "n = (if b_authenticated x then int i
                 else if n_authenticated_id s = int i then NO_SESSION_AUTHENTICATED
                 else n_authenticated_id s)"
      "b_authenticated x \<Longrightarrow> n_authenticated_id s = NO_SESSION_AUTHENTICATED \<or> n_authenticated_id s = int i"
  shows "wf_session (s\<lparr>sessions := (sessions s)[i := x], n_authenticated_id := n\<rparr>)"
proof -
  have len: "length (sessions s) = MAX_SESSIONS" using wf by (rule wf_session_length)
  have other: "j < MAX_SESSIONS \<Longrightarrow> 0 \<le> slot_fd s j \<Longrightarrow> sockfd (extconn x) = slot_fd s j \<Longrightarrow> j = i" for j
    using x(4) wf_session_inj [OF wf, of j i] i by (auto simp: open_fds_slots [OF wf])
  let ?s = "s\<lparr>sessions := (sessions s)[i := x], n_authenticated_id := n\<rparr>"
  have nth: "sessions ?s ! j = (if j = i then x else sessions s ! j)" if "j < MAX_SESSIONS" for j
    using i len by (simp add: nth_list_update)
  have rng: "n_authenticated_id s = NO_SESSION_AUTHENTICATED \<or>
      0 \<le> n_authenticated_id s \<and> n_authenticated_id s < int MAX_SESSIONS"
    using wf by (simp add: wf_session_def)
  have "b_initialized ?s" "length (sessions ?s) = MAX_SESSIONS"
    using wf len by (simp_all add: wf_session_initialized)
  moreover have "id (sessions ?s ! j) = int j" if "j < MAX_SESSIONS" for j
    using nth [OF that] x(1) wf_session_id [OF wf that] by simp
  moreover have "n = NO_SESSION_AUTHENTICATED \<or> 0 \<le> n \<and> n < int MAX_SESSIONS"
    using rng i n(1) by auto
  moreover have "b_authenticated (sessions ?s ! j) \<longleftrightarrow> n = int j" if "j < MAX_SESSIONS" for j
    using nth [OF that] wf_session_auth [OF wf that] n by (auto split: if_splits)
  moreover have "b_authenticated (sessions ?s ! j) \<Longrightarrow> 0 \<le> slot_fd ?s j" if "j < MAX_SESSIONS" for j
    using nth [OF that] wf_session_auth_open [OF wf that] x(3) by (auto split: if_splits)
  moreover have "- 1 \<le> slot_fd ?s j" if "j < MAX_SESSIONS" for j
    using nth [OF that] wf_session_closed [OF wf that] x(2) by (force split: if_splits)
  moreover have "j = k" if "j < MAX_SESSIONS" "k < MAX_SESSIONS" "slot_fd ?s j = slot_fd ?s k" "0 \<le> slot_fd ?s j"
    for j k
    using that nth [OF that(1)] nth [OF that(2)] other wf_session_inj [OF wf that(1,2)]
    by (metis (no_types, lifting))
  ultimately show ?thesis
    unfolding wf_session_def by simp
qed

lemma upd_session_eq: "upd_session i f s =
    s\<lparr>sessions := (sessions s)[i := f (sessions s ! i)], n_authenticated_id := n_authenticated_id s\<rparr>"
  by (simp add: upd_session_def)

lemma session_init_wf:
  assumes "session_init os net g tr = (Some s, tr')"
  shows "wf_session s" "open_fds s = {}" "authed_fd s = None"
  using assms
  by (auto simp: session_init_def wf_session_def open_fds_def authed_fd_def Let_def
      extnet_init_client_def exttcp_init_client_def exttls_init_client_def
      split: if_splits prod.splits extnet_hdlr_type_t.splits)

text \<open>Opening takes an unused slot while there is one, and never touches the authenticated session.\<close>

lemma session_open_refines:
  assumes wf: "wf_session s" and fd: "0 \<le> sockfd c" "sockfd c \<notin> open_fds s"
    and op: "session_open os s c tr = (st, s', tr')"
  shows "wf_session s'" "st = (if card (open_fds s) < MAX_SESSIONS then ST_OK else ST_ERR)"
    "open_fds s' = (if st = ST_OK then insert (sockfd c) (open_fds s) else open_fds s)"
    "authed_fd s' = authed_fd s"
proof -
  have card: "card (open_fds s) \<le> MAX_SESSIONS" using card_open_fds_le [OF wf] by simp
  have "wf_session s' \<and> st = (if card (open_fds s) < MAX_SESSIONS then ST_OK else ST_ERR) \<and>
    open_fds s' = (if st = ST_OK then insert (sockfd c) (open_fds s) else open_fds s) \<and>
    authed_fd s' = authed_fd s"
  proof (cases "session_find_private s UNUSED_SOCKET_FD")
    case None
    with op wf unused_slot_iff [OF wf] show ?thesis by (auto simp: session_open_def)
  next
    case (Some i)
    note i = session_find_private_Some [OF wf Some]
    have na: "n_authenticated_id s \<noteq> int i"
      using wf_session_auth_open [OF wf i(1)] wf_session_auth [OF wf i(1)] i(2) by auto
    from Some op have s': "s' = s\<lparr>sessions := (sessions s)[i := (sessions s ! i)
        \<lparr>extconn := c, t_auth_tout := SESSION_AUTH_EXPIRE_TIMEOUT + fst (os tr Sys_time),
         b_authenticated := False, sess_data_pending := False\<rparr>],
        n_authenticated_id := n_authenticated_id s\<rparr>" and st: "st = ST_OK"
      by (auto simp: session_open_def upd_session_eq)
    have "wf_session s'"
      unfolding s' using wf i fd na by (intro wf_session_upd) (auto simp: wf_session_id)
    moreover have "open_fds s' = insert (sockfd c) (open_fds s)"
      unfolding s' open_fds_upd [OF wf i(1)] using fd i(2) by (auto simp: open_fds_def)
    moreover have "authed_fd s' = authed_fd s"
      using na by (auto simp: s' authed_fd_def nth_list_update)
    ultimately show ?thesis
      using Some unused_slot_iff [OF wf] card st by auto
  qed
  then show "wf_session s'" "st = (if card (open_fds s) < MAX_SESSIONS then ST_OK else ST_ERR)"
    "open_fds s' = (if st = ST_OK then insert (sockfd c) (open_fds s) else open_fds s)"
    "authed_fd s' = authed_fd s" by auto
qed

lemma session_close_private_refines:
  assumes wf: "wf_session s" and i: "i < MAX_SESSIONS" and op: "session_close_private os s i tr = (st, s', tr')"
  shows "st = ST_OK" "wf_session s'" "open_fds s' = open_fds s - {slot_fd s i}"
    "authed_fd s' = (if authed_fd s = Some (slot_fd s i) then None else authed_fd s)"
    "\<And>j. j \<noteq> i \<Longrightarrow> sessions s' ! j = sessions s ! j" "\<not> 0 \<le> slot_fd s' i"
proof -
  let ?s = "sessions s ! i"
  define c where "c = (if extnet_is_client_closed (extconn ?s) then extconn ?s
                       else fst (snd (extnet_close_client os (extnet s) (extconn ?s) tr)))"
  have cfd: "sockfd c = - 1"
    using wf_session_closed [OF wf i]
    by (auto simp: c_def extnet_is_client_closed_def extnet_close_client_open)
  have s': "s' = s\<lparr>sessions := (sessions s)[i := ?s\<lparr>extconn := c, t_auth_tout := 0, b_authenticated := False\<rparr>],
      n_authenticated_id := if n_authenticated_id s = int i then NO_SESSION_AUTHENTICATED
                            else n_authenticated_id s\<rparr>"
    and st: "st = ST_OK"
    using op wf_session_id [OF wf i]
    by (auto simp: session_close_private_def c_def upd_session_eq Let_def split: prod.splits if_splits)
  show "st = ST_OK" by (rule st)
  show "wf_session s'"
    unfolding s' using wf i cfd by (intro wf_session_upd) (auto simp: wf_session_id)
  show "open_fds s' = open_fds s - {slot_fd s i}"
    unfolding s' open_fds_upd [OF wf i] using cfd by auto
  have rng: "0 \<le> n_authenticated_id s \<Longrightarrow> nat (n_authenticated_id s) < MAX_SESSIONS"
    using wf by (auto simp: wf_session_def)
  then have "0 \<le> n_authenticated_id s \<Longrightarrow> 0 \<le> slot_fd s (nat (n_authenticated_id s))"
    using wf_session_auth_open [OF wf] wf_session_auth [OF wf] by auto
  then show "authed_fd s' = (if authed_fd s = Some (slot_fd s i) then None else authed_fd s)"
    using wf_session_inj [OF wf _ i, of "nat (n_authenticated_id s)"] rng
    by (auto simp: s' authed_fd_def nth_list_update)
  show "\<And>j. j \<noteq> i \<Longrightarrow> sessions s' ! j = sessions s ! j"
    by (simp add: s')
  show "\<not> 0 \<le> slot_fd s' i"
    using cfd i wf_session_length [OF wf] by (simp add: s')
qed

lemma session_close_refines:
  assumes wf: "wf_session s" and fd: "0 \<le> sockfd c" and op: "session_close os s c tr = (st, s', tr')"
  shows "wf_session s'" "st = (if sockfd c \<in> open_fds s then ST_OK else ST_ERR)"
    "open_fds s' = open_fds s - {sockfd c}"
    "authed_fd s' = (if authed_fd s = Some (sockfd c) then None else authed_fd s)"
proof -
  have "wf_session s' \<and> st = (if sockfd c \<in> open_fds s then ST_OK else ST_ERR) \<and>
    open_fds s' = open_fds s - {sockfd c} \<and>
    authed_fd s' = (if authed_fd s = Some (sockfd c) then None else authed_fd s)"
  proof (cases "session_find_private s (sockfd c)")
    case None
    moreover from None have "sockfd c \<notin> open_fds s"
      using session_find_private_None [OF wf fd] by simp
    ultimately show ?thesis
      using op wf fd authed_in_open [OF wf] by (auto simp: session_close_def)
  next
    case (Some i)
    note i = session_find_private_Some [OF wf Some]
    from Some op fd have "session_close_private os s i tr = (st, s', tr')"
      by (auto simp: session_close_def)
    from session_close_private_refines [OF wf i(1) this] show ?thesis
      using i fd by (auto simp: open_fds_slots [OF wf])
  qed
  then show "wf_session s'" "st = (if sockfd c \<in> open_fds s then ST_OK else ST_ERR)"
    "open_fds s' = open_fds s - {sockfd c}"
    "authed_fd s' = (if authed_fd s = Some (sockfd c) then None else authed_fd s)" by auto
qed

lemma close_all_from_refines:
  assumes "wf_session s" "set is \<subseteq> {..<MAX_SESSIONS}" "close_all_from os is s tr = (s', tr')"
  shows "wf_session s' \<and> (\<forall>i. 0 \<le> slot_fd s' i \<longrightarrow> slot_fd s' i = slot_fd s i) \<and> (\<forall>i \<in> set is. \<not> 0 \<le> slot_fd s' i)"
  using assms
proof (induction os "is" s tr rule: close_all_from.induct)
  case (2 os i "is" s tr)
  show ?case
  proof (cases "0 \<le> slot_fd s i")
    case True
    obtain st s1 tr1 where c: "session_close_private os s i tr = (st, s1, tr1)"
      by (metis prod_cases3)
    have i: "i < MAX_SESSIONS" using 2 by auto
    note r = session_close_private_refines [OF \<open>wf_session s\<close> i c]
    have "close_all_from os is s1 tr1 = (s', tr')"
      using 2 True c by (simp add: extnet_is_client_closed_def)
    with 2 True c r(2) have ih: "wf_session s' \<and> (\<forall>j. 0 \<le> slot_fd s' j \<longrightarrow> slot_fd s' j = slot_fd s1 j) \<and>
        (\<forall>j \<in> set is. \<not> 0 \<le> slot_fd s' j)"
      by (simp add: extnet_is_client_closed_def)
    then show ?thesis
      using r(5,6) by (metis set_ConsD)
  next
    case False
    with 2 have ih: "wf_session s' \<and> (\<forall>j. 0 \<le> slot_fd s' j \<longrightarrow> slot_fd s' j = slot_fd s j) \<and>
        (\<forall>j \<in> set is. \<not> 0 \<le> slot_fd s' j)"
      by (simp add: extnet_is_client_closed_def)
    with False show ?thesis by (metis set_ConsD)
  qed
qed simp

lemma session_close_all_refines:
  assumes wf: "wf_session s" and op: "session_close_all os s tr = (s', tr')"
  shows "wf_session s'" "open_fds s' = {}" "authed_fd s' = None"
proof -
  have *: "wf_session s' \<and> (\<forall>i. 0 \<le> slot_fd s' i \<longrightarrow> slot_fd s' i = slot_fd s i) \<and>
      (\<forall>i \<in> set [0..<MAX_SESSIONS]. \<not> 0 \<le> slot_fd s' i)"
    using op wf by (intro close_all_from_refines) (auto simp: session_close_all_def wf_session_initialized)
  then show wf': "wf_session s'" by simp
  from * show e: "open_fds s' = {}" by (auto simp: open_fds_slots [OF wf'])
  then show "authed_fd s' = None"
    using authed_in_open [OF wf'] by (cases "authed_fd s'") auto
qed

text \<open>
  A slot survives the sweep when it is authenticated or its time is not up; a slot that was closed
  was open, not authenticated, and expired at a time the clock showed during the sweep.
\<close>

definition swept :: "os \<Rightarrow> Session \<Rightarrow> Session \<Rightarrow> nat \<Rightarrow> bool" where
  "swept os s s' i \<longleftrightarrow>
     (let x = sessions s ! i; candidate = 0 \<le> slot_fd s i \<and> \<not> b_authenticated x
      in if sessions s' ! i = x then candidate \<longrightarrow> (\<exists>h. fst (os h Sys_time) < t_auth_tout x)
         else candidate \<and> \<not> 0 \<le> slot_fd s' i \<and> (\<exists>h. t_auth_tout x \<le> fst (os h Sys_time)))"

lemma close_expired_from_step:
  assumes wf: "wf_session s" and i: "i < MAX_SESSIONS"
  obtains s1 tr1 where "close_expired_from os (i # is) s tr = close_expired_from os is s1 tr1"
    "wf_session s1" "swept os s s1 i" "\<And>j. j \<noteq> i \<Longrightarrow> sessions s1 ! j = sessions s ! j"
    "authed_fd s1 = authed_fd s" "open_fds s1 \<subseteq> open_fds s"
proof -
  let ?x = "sessions s ! i"
  consider (skip) "\<not> 0 \<le> slot_fd s i \<or> b_authenticated ?x"
    | (fresh) "0 \<le> slot_fd s i" "\<not> b_authenticated ?x" "fst (os tr Sys_time) < t_auth_tout ?x"
    | (expired) "0 \<le> slot_fd s i" "\<not> b_authenticated ?x" "t_auth_tout ?x \<le> fst (os tr Sys_time)"
    by linarith
  then show ?thesis
  proof cases
    case skip
    then show ?thesis
      using wf by (intro that [of s tr]) (auto simp: extnet_is_client_closed_def swept_def Let_def)
  next
    case fresh
    then show ?thesis
      using wf by (intro that [of s "tr @ [Sys_time]"]) (auto simp: extnet_is_client_closed_def swept_def Let_def)
  next
    case expired
    obtain st s1 tr1 where c: "session_close_private os s i (tr @ [Sys_time]) = (st, s1, tr1)"
      by (metis prod_cases3)
    note r = session_close_private_refines [OF wf i c]
    have "authed_fd s \<noteq> Some (slot_fd s i)"
    proof
      assume "authed_fd s = Some (slot_fd s i)"
      then have "nat (n_authenticated_id s) = i" "0 \<le> n_authenticated_id s"
        using wf expired(1) wf_session_inj [OF wf _ i, of "nat (n_authenticated_id s)"]
        by (auto simp: authed_fd_def wf_session_def split: if_splits)
      then show False using wf_session_auth [OF wf i] expired by auto
    qed
    moreover have "swept os s s1 i"
      using expired r(6) by (auto simp: swept_def Let_def)
    ultimately show ?thesis
      using expired c r by (intro that [of s1 tr1]) (auto simp: extnet_is_client_closed_def)
  qed
qed

lemma close_expired_from_refines:
  assumes "wf_session s" "set is \<subseteq> {..<MAX_SESSIONS}" "distinct is" "close_expired_from os is s tr = (s', tr')"
  shows "wf_session s' \<and> authed_fd s' = authed_fd s \<and> open_fds s' \<subseteq> open_fds s \<and>
    (\<forall>i \<in> set is. swept os s s' i) \<and> (\<forall>i. i \<notin> set is \<longrightarrow> sessions s' ! i = sessions s ! i)"
  using assms
proof (induction "is" arbitrary: s tr)
  case (Cons i "is")
  then have i: "i < MAX_SESSIONS" and sub: "set is \<subseteq> {..<MAX_SESSIONS}" "distinct is" by auto
  obtain s1 tr1 where e: "close_expired_from os (i # is) s tr = close_expired_from os is s1 tr1"
    and r: "wf_session s1" "swept os s s1 i" "\<And>j. j \<noteq> i \<Longrightarrow> sessions s1 ! j = sessions s ! j"
    "authed_fd s1 = authed_fd s" "open_fds s1 \<subseteq> open_fds s"
    by (rule close_expired_from_step [OF Cons.prems(1) i]) blast
  note ih = Cons.IH [OF r(1) sub Cons.prems(4) [unfolded e]]
  have "swept os s s' j" if "j \<in> set (i # is)" for j
  proof (cases "j = i")
    case True
    with ih Cons.prems(3) have "sessions s' ! i = sessions s1 ! i" by simp
    with r(2) True show ?thesis by (simp only: swept_def)
  next
    case False
    with that ih have "swept os s1 s' j" by simp
    with r(3) [OF False] show ?thesis by (simp only: swept_def)
  qed
  with ih r show ?case by auto
qed simp

lemma session_close_expired_unauth_refines:
  assumes wf: "wf_session s" and op: "session_close_expired_unauth os s tr = (s', tr')"
  shows "wf_session s'" "authed_fd s' = authed_fd s" "open_fds s' \<subseteq> open_fds s"
    "i < MAX_SESSIONS \<Longrightarrow> swept os s s' i"
proof -
  have *: "close_expired_from os [0..<MAX_SESSIONS] s tr = (s', tr')"
    using op wf by (simp add: session_close_expired_unauth_def wf_session_initialized)
  note r = close_expired_from_refines [OF wf _ _ *]
  show "wf_session s'" "authed_fd s' = authed_fd s" "open_fds s' \<subseteq> open_fds s"
    "i < MAX_SESSIONS \<Longrightarrow> swept os s s' i"
    using r by (simp_all add: lessThan_atLeast0)
qed

lemma session_auth_complete_refines:
  assumes wf: "wf_session s" and fd: "0 \<le> sockfd c" and op: "session_auth_complete s c = (st, s')"
  shows "wf_session s'" "st = (if authed_fd s = None \<and> sockfd c \<in> open_fds s then ST_OK else ST_ERR)"
    "open_fds s' = open_fds s" "authed_fd s' = (if st = ST_OK then Some (sockfd c) else authed_fd s)"
proof -
  have "wf_session s' \<and> st = (if authed_fd s = None \<and> sockfd c \<in> open_fds s then ST_OK else ST_ERR) \<and>
    open_fds s' = open_fds s \<and> authed_fd s' = (if st = ST_OK then Some (sockfd c) else authed_fd s)"
  proof (cases "n_authenticated_id s \<ge> 0 \<or> session_find_private s (sockfd c) = None")
    case True
    with op wf show ?thesis
      using session_find_private_None [OF wf fd]
      by (auto simp: session_auth_complete_def wf_session_initialized authed_fd_def split: if_splits option.splits)
  next
    case False
    then obtain i where Some: "session_find_private s (sockfd c) = Some i" and na: "n_authenticated_id s = - 1"
      using wf by (auto simp: wf_session_def)
    note i = session_find_private_Some [OF wf Some]
    have s': "s' = s\<lparr>sessions := (sessions s)[i := (sessions s ! i)\<lparr>b_authenticated := True\<rparr>],
        n_authenticated_id := int i\<rparr>" and st: "st = ST_OK"
      using op na Some wf by (auto simp: session_auth_complete_def upd_session_def wf_session_initialized wf_session_id i)
    have mem: "sockfd c \<in> open_fds s"
      using Some session_find_private_None [OF wf fd] by auto
    have "wf_session s'"
      unfolding s' using wf i fd na by (intro wf_session_upd) (auto simp: wf_session_id)
    moreover have "open_fds s' = open_fds s"
      unfolding s' open_fds_upd [OF wf i(1)] using i fd mem by auto
    moreover have "authed_fd s' = Some (sockfd c)"
      using i wf by (simp add: s' authed_fd_def wf_session_length)
    ultimately show ?thesis
      using st na mem by (auto simp: authed_fd_def)
  qed
  then show "wf_session s'" "st = (if authed_fd s = None \<and> sockfd c \<in> open_fds s then ST_OK else ST_ERR)"
    "open_fds s' = open_fds s" "authed_fd s' = (if st = ST_OK then Some (sockfd c) else authed_fd s)" by auto
qed

lemma session_set_data_pending_refines:
  assumes wf: "wf_session s" and fd: "0 \<le> sockfd c" and op: "session_set_data_pending s c b = (st, s')"
  shows "wf_session s'" "st = (if sockfd c \<in> open_fds s then ST_OK else ST_ERR)"
    "open_fds s' = open_fds s" "authed_fd s' = authed_fd s"
    "st = ST_OK \<Longrightarrow> session_get_data_pending s' c old = (ST_OK, b)"
proof -
  have "wf_session s' \<and> st = (if sockfd c \<in> open_fds s then ST_OK else ST_ERR) \<and>
    open_fds s' = open_fds s \<and> authed_fd s' = authed_fd s \<and>
    (st = ST_OK \<longrightarrow> session_get_data_pending s' c old = (ST_OK, b))"
  proof (cases "session_find_private s (sockfd c)")
    case None
    with op wf show ?thesis
      using session_find_private_None [OF wf fd]
      by (auto simp: session_set_data_pending_def wf_session_initialized)
  next
    case (Some i)
    note i = session_find_private_Some [OF wf Some]
    have s': "s' = s\<lparr>sessions := (sessions s)[i := (sessions s ! i)\<lparr>sess_data_pending := b\<rparr>],
        n_authenticated_id := n_authenticated_id s\<rparr>" and st: "st = ST_OK"
      using op Some wf by (auto simp: session_set_data_pending_def upd_session_eq wf_session_initialized)
    have mem: "sockfd c \<in> open_fds s"
      using Some session_find_private_None [OF wf fd] by auto
    have wf': "wf_session s'"
      unfolding s' using wf i fd wf_session_auth [OF wf i(1)] wf_session_auth_open [OF wf i(1)]
      by (intro wf_session_upd) (auto simp: wf_session_id)
    moreover have "open_fds s' = open_fds s"
      unfolding s' open_fds_upd [OF wf i(1)] using i fd mem by auto
    moreover have "authed_fd s' = authed_fd s"
      using i wf by (cases "i = nat (n_authenticated_id s)") (auto simp: s' authed_fd_def wf_session_length)
    moreover have "session_find_private s' (sockfd c) = Some i"
      unfolding session_find_private_iff [OF wf' fd] using i wf by (simp add: s' wf_session_length)
    ultimately show ?thesis
      using st Some session_find_private_None [OF wf fd] wf' i wf
      by (auto simp: session_get_data_pending_def wf_session_initialized s' wf_session_length)
  qed
  then show "wf_session s'" "st = (if sockfd c \<in> open_fds s then ST_OK else ST_ERR)"
    "open_fds s' = open_fds s" "authed_fd s' = authed_fd s"
    "st = ST_OK \<Longrightarrow> session_get_data_pending s' c old = (ST_OK, b)" by auto
qed

text \<open>The two queries agree with the abstract view.\<close>

lemma session_get_authenticated_conn_refines:
  assumes wf: "wf_session s"
  shows "\<exists>r. session_get_authenticated_conn s = Some r \<and>
    (case authed_fd s of None \<Rightarrow> r = (ST_ERR, None)
     | Some fd \<Rightarrow> \<exists>c. r = (ST_OK, Some c) \<and> sockfd c = fd)"
proof -
  show ?thesis
    using wf_session_range [OF wf] wf_session_initialized [OF wf] wf_session_length [OF wf]
    by (simp add: session_get_authenticated_conn_def authed_fd_def array_simps)
qed

lemma session_already_authenticated_iff:
  assumes wf: "wf_session s" and fd: "0 \<le> sockfd c"
  shows "session_already_authenticated s c = ST_OK \<longleftrightarrow> authed_fd s = Some (sockfd c)"
proof (cases "session_find_private s (sockfd c)")
  case None
  then have "sockfd c \<notin> open_fds s" using session_find_private_None [OF wf fd] by simp
  with None authed_in_open [OF wf] show ?thesis
    by (auto simp: session_already_authenticated_def)
next
  case (Some i)
  note i = session_find_private_Some [OF wf Some]
  have "authed_fd s = Some (sockfd c) \<longleftrightarrow> n_authenticated_id s = int i"
  proof
    assume a: "authed_fd s = Some (sockfd c)"
    then have n: "0 \<le> n_authenticated_id s" "slot_fd s (nat (n_authenticated_id s)) = sockfd c"
      by (simp_all add: authed_fd_def split: if_splits)
    with wf_session_inj [OF wf wf_session_range [OF wf n(1)] i(1)] i(2) fd
    have "nat (n_authenticated_id s) = i" by simp
    with n(1) show "n_authenticated_id s = int i" by simp
  next
    assume "n_authenticated_id s = int i"
    with i(2) show "authed_fd s = Some (sockfd c)" by (simp add: authed_fd_def)
  qed
  then show ?thesis
    using Some wf_session_auth [OF wf i(1)] fd wf_session_initialized [OF wf]
    by (simp add: session_already_authenticated_def extnet_is_client_closed_def)
qed

section \<open>The table as an interface\<close>

text \<open>
  The commands the server issues against the table.  An \<open>Open\<close> carries a connection just accepted,
  whose descriptor the kernel does not hand out while it is in use; the others carry a descriptor
  that poll reported.
\<close>

datatype session_cmd =
    Cmd_open extnet_conn_t | Cmd_close extnet_conn_t | Cmd_close_all | Cmd_expire
  | Cmd_auth extnet_conn_t | Cmd_pending extnet_conn_t bool

fun session_exec :: "os \<Rightarrow> session_cmd \<Rightarrow> Session \<times> trace \<Rightarrow> STATUS \<times> Session \<times> trace" where
  "session_exec os (Cmd_open c) (s, tr) = session_open os s c tr"
| "session_exec os (Cmd_close c) (s, tr) = session_close os s c tr"
| "session_exec os Cmd_close_all (s, tr) = (ST_OK, session_close_all os s tr)"
| "session_exec os Cmd_expire (s, tr) = (ST_OK, session_close_expired_unauth os s tr)"
| "session_exec os (Cmd_auth c) (s, tr) = (let (st, s') = session_auth_complete s c in (st, s', tr))"
| "session_exec os (Cmd_pending c b) (s, tr) = (let (st, s') = session_set_data_pending s c b in (st, s', tr))"

fun admissible :: "int set \<Rightarrow> session_cmd \<Rightarrow> bool" where
  "admissible fds (Cmd_open c) \<longleftrightarrow> 0 \<le> sockfd c \<and> sockfd c \<notin> fds"
| "admissible fds (Cmd_close c) \<longleftrightarrow> 0 \<le> sockfd c"
| "admissible fds (Cmd_auth c) \<longleftrightarrow> 0 \<le> sockfd c"
| "admissible fds (Cmd_pending c b) \<longleftrightarrow> 0 \<le> sockfd c"
| "admissible fds _ \<longleftrightarrow> True"

fun releases :: "int \<Rightarrow> session_cmd \<Rightarrow> bool" where
  "releases fd (Cmd_close c) \<longleftrightarrow> sockfd c = fd"
| "releases fd Cmd_close_all \<longleftrightarrow> True"
| "releases fd _ \<longleftrightarrow> False"

inductive session_runs ::
    "(session_cmd \<Rightarrow> 's \<Rightarrow> STATUS \<times> 's) \<Rightarrow> ('s \<Rightarrow> int set) \<Rightarrow> 's \<Rightarrow> (session_cmd \<times> STATUS) list \<Rightarrow> 's \<Rightarrow> bool"
  for exec fds s0 where
  start: "session_runs exec fds s0 [] s0"
| step: "session_runs exec fds s0 h s \<Longrightarrow> admissible (fds s) cmd \<Longrightarrow> exec cmd s = (st, s')
           \<Longrightarrow> session_runs exec fds s0 (h @ [(cmd, st)]) s'"

text \<open>
  The contract.  \<open>fds\<close> and \<open>owner\<close> are the open descriptors and the authenticated one; each law is
  the effect of one command on them.
\<close>

locale session_table =
  fixes inv :: "'s \<Rightarrow> bool" and fds :: "'s \<Rightarrow> int set" and owner :: "'s \<Rightarrow> int option"
    and exec :: "session_cmd \<Rightarrow> 's \<Rightarrow> STATUS \<times> 's" and cap :: nat
  assumes keeps_inv: "inv s \<Longrightarrow> admissible (fds s) cmd \<Longrightarrow> exec cmd s = (st, s') \<Longrightarrow> inv s'"
    and bounded: "inv s \<Longrightarrow> finite (fds s) \<and> card (fds s) \<le> cap"
    and owner_open: "inv s \<Longrightarrow> owner s = Some fd \<Longrightarrow> fd \<in> fds s"
    and owner_frame: "inv s \<Longrightarrow> admissible (fds s) cmd \<Longrightarrow> exec cmd s = (st, s') \<Longrightarrow> owner s = Some fd \<Longrightarrow>
      owner s' = (case cmd of Cmd_close c \<Rightarrow> if sockfd c = fd then None else Some fd
                  | Cmd_close_all \<Rightarrow> None | _ \<Rightarrow> Some fd)"
    and owner_gain: "inv s \<Longrightarrow> admissible (fds s) cmd \<Longrightarrow> exec cmd s = (st, s') \<Longrightarrow> owner s = None \<Longrightarrow>
      owner s' = Some fd \<longleftrightarrow> (\<exists>c. cmd = Cmd_auth c \<and> sockfd c = fd \<and> st = ST_OK)"
    and auth_refused: "inv s \<Longrightarrow> 0 \<le> sockfd c \<Longrightarrow> owner s \<noteq> None \<Longrightarrow> exec (Cmd_auth c) s = (st, s') \<Longrightarrow> st = ST_ERR"
begin

lemma runs_inv:
  assumes "session_runs exec fds s0 h s" "inv s0"
  shows "inv s"
  using assms by induction (auto intro: keeps_inv)

text \<open>Once owned, the table stays with its owner until a command closes that descriptor.\<close>

lemma owner_keeps:
  assumes "session_runs exec fds s0 h s" "inv s0" "owner s0 = Some fd" "\<forall>(cmd, st) \<in> set h. \<not> releases fd cmd"
  shows "owner s = Some fd \<and> (\<forall>c. (Cmd_auth c, ST_OK) \<notin> set h)"
  using assms
proof induction
  case (step h s cmd st s')
  then have o: "owner s = Some fd" "\<forall>c. (Cmd_auth c, ST_OK) \<notin> set h" by auto
  have inv: "inv s" by (rule runs_inv [OF step.hyps(1) step.prems(1)])
  have "owner s' = Some fd"
    using owner_frame [OF inv step.hyps(2,3) o(1)] step.prems(3)
    by (cases cmd) auto
  moreover have "cmd = Cmd_auth c \<Longrightarrow> st = ST_ERR" for c
    using auth_refused [OF inv] o(1) step.hyps by auto
  ultimately show ?case using o(2) by auto
qed simp

lemma owner_authenticated:
  assumes "session_runs exec fds s0 h s" "inv s0" "owner s0 = None" "owner s = Some fd"
  shows "fd \<in> fds s \<and> (\<exists>c. (Cmd_auth c, ST_OK) \<in> set h \<and> sockfd c = fd)"
  using assms
proof (induction arbitrary: fd)
  case (step h s cmd st s')
  have inv: "inv s" by (rule runs_inv [OF step.hyps(1) step.prems(1)])
  have "fd \<in> fds s'"
    using owner_open keeps_inv [OF inv step.hyps(2,3)] step.prems by blast
  moreover have "\<exists>c. (Cmd_auth c, ST_OK) \<in> set (h @ [(cmd, st)]) \<and> sockfd c = fd"
  proof (cases "owner s")
    case None
    then show ?thesis
      using owner_gain [OF inv step.hyps(2,3)] step.prems by auto
  next
    case (Some fd')
    with owner_frame [OF inv step.hyps(2,3)] step.prems(3) have "fd' = fd"
      by (auto split: session_cmd.splits if_splits)
    with step.IH [OF step.prems(1,2)] Some show ?thesis by auto
  qed
  ultimately show ?case by simp
qed simp

end

definition session_inv :: "Session \<times> trace \<Rightarrow> bool" where
  "session_inv st = wf_session (fst st)"

lemma session_exec_effect:
  assumes wf: "wf_session s" and a: "admissible (open_fds s) cmd" and e: "session_exec os cmd (s, tr) = (st, s', tr')"
  shows "wf_session s' \<and>
    authed_fd s' = (case cmd of
        Cmd_close c \<Rightarrow> if authed_fd s = Some (sockfd c) then None else authed_fd s
      | Cmd_close_all \<Rightarrow> None
      | Cmd_auth c \<Rightarrow> if st = ST_OK then Some (sockfd c) else authed_fd s
      | _ \<Rightarrow> authed_fd s) \<and>
    (\<forall>c. cmd = Cmd_auth c \<longrightarrow> authed_fd s \<noteq> None \<longrightarrow> st = ST_ERR)"
proof (cases cmd)
  case (Cmd_open c)
  with session_open_refines [OF wf, of c os tr st s' tr'] a e show ?thesis by simp
next
  case (Cmd_close c)
  with session_close_refines [OF wf, of c os tr st s' tr'] a e show ?thesis by simp
next
  case Cmd_close_all
  with session_close_all_refines [OF wf, of os tr s' tr'] e show ?thesis by simp
next
  case Cmd_expire
  with session_close_expired_unauth_refines [OF wf, of os tr s' tr'] e show ?thesis by simp
next
  case (Cmd_auth c)
  with e have "session_auth_complete s c = (st, s')" by (auto split: prod.splits)
  with session_auth_complete_refines [OF wf, of c st s'] a Cmd_auth show ?thesis by auto
next
  case (Cmd_pending c b)
  with e have "session_set_data_pending s c b = (st, s')" by (auto split: prod.splits)
  with session_set_data_pending_refines [OF wf, of c b st s'] a Cmd_pending show ?thesis by simp
qed

interpretation st: session_table session_inv "open_fds \<circ> fst" "authed_fd \<circ> fst" "session_exec os" MAX_SESSIONS
  for os
proof (unfold_locales, goal_cases)
  case (1 s cmd st s')
  then show ?case
    by (cases s; cases s') (use session_exec_effect in \<open>auto simp: session_inv_def\<close>)
next
  case (2 s)
  then show ?case using card_open_fds_le by (simp add: session_inv_def)
next
  case (3 s fd)
  then show ?case using authed_in_open by (simp add: session_inv_def)
next
  case (4 s cmd st s' fd)
  obtain t tr t' tr' where s: "s = (t, tr)" "s' = (t', tr')" by (metis surj_pair)
  from 4 s session_exec_effect [of t cmd os tr st t' tr'] show ?case
    by (cases cmd) (auto simp: session_inv_def)
next
  case (5 s cmd st s' fd)
  obtain t tr t' tr' where s: "s = (t, tr)" "s' = (t', tr')" by (metis surj_pair)
  from 5 s session_exec_effect [of t cmd os tr st t' tr'] show ?case
    by (cases cmd) (auto simp: session_inv_def)
next
  case (6 s c st s')
  obtain t tr t' tr' where s: "s = (t, tr)" "s' = (t', tr')" by (metis surj_pair)
  from 6 s session_exec_effect [of t "Cmd_auth c" os tr st t' tr'] show ?case
    by (auto simp: session_inv_def)
qed

end
