(* ===== verification/Server_Io.thy ===== *)
theory Server_Io
  imports Session
begin

text \<open>
  The part of \<open>server/asd_main.c\<close> through which the message layer talks to the client, with the two
  thin layers above it (\<open>server/asd_server_api.c\<close>, \<open>target/asd_server_interface.c\<close>): sending goes to
  the authenticated session, receiving comes from the session whose descriptor was polled.
\<close>

text \<open>\<open>p_extconn\<close> points into the session table: it is the index of the slot, or NULL.\<close>

record Server =
  session :: Session
  p_extconn :: "nat option"
  b_data_pending :: bool

definition send_out_msg_on_socket :: "os \<Rightarrow> Server \<Rightarrow> u8 list \<Rightarrow> trace \<Rightarrow> (STATUS \<times> trace) option" where
  "send_out_msg_on_socket os srv bs tr = do {
     (st, c) \<leftarrow> session_get_authenticated_conn (session srv);
     case c of
       Some conn \<Rightarrow>
         (let (cnt, tr1) = extnet_send os (extnet (session srv)) conn bs tr
          in Some (if cnt \<noteq> int (length bs) then ST_ERR else ST_OK, tr1))
     | None \<Rightarrow> Some (ST_ERR, tr) }"

text \<open>The number of bytes received, 0 for an error and for the end of the stream, and the buffer.\<close>

definition read_data :: "os \<Rightarrow> Server \<Rightarrow> u8 list \<Rightarrow> trace \<Rightarrow> (nat \<times> u8 list \<times> Server \<times> trace) option" where
  "read_data os srv bf tr =
     (case p_extconn srv of None \<Rightarrow> Some (0, bf, srv, tr)
      | Some i \<Rightarrow> do {
          s \<leftarrow> rd (sessions (session srv)) i;
          let (cnt, bf', pend, tr1) = extnet_recv os (extnet (session srv)) (extconn s) bf (b_data_pending srv) tr;
          Some (if cnt < 1 then 0 else nat cnt, bf', srv\<lparr>b_data_pending := pend\<rparr>, tr1) })"

definition is_data_pending :: "Server \<Rightarrow> bool" where
  "is_data_pending srv = b_data_pending srv"

definition asd_server_read :: "os \<Rightarrow> Server \<Rightarrow> u8 list \<Rightarrow> trace \<Rightarrow> (nat \<times> u8 list \<times> Server \<times> trace) option" where
  "asd_server_read os srv bf tr = read_data os srv bf tr"

definition asd_server_write :: "os \<Rightarrow> Server \<Rightarrow> u8 list \<Rightarrow> trace \<Rightarrow> (nat \<times> trace) option" where
  "asd_server_write os srv bs tr = do {
     (st, tr1) \<leftarrow> send_out_msg_on_socket os srv bs tr;
     Some (if st = ST_OK then length bs else 0, tr1) }"

definition asd_api_server_read :: "os \<Rightarrow> Server \<Rightarrow> u8 list \<Rightarrow> trace \<Rightarrow> (nat \<times> u8 list \<times> Server \<times> trace) option" where
  "asd_api_server_read os srv bf tr = asd_server_read os srv bf tr"

definition asd_api_server_write :: "os \<Rightarrow> Server \<Rightarrow> u8 list \<Rightarrow> trace \<Rightarrow> (nat \<times> trace) option" where
  "asd_api_server_write os srv bs tr = asd_server_write os srv bs tr"

definition wf_server :: "Server \<Rightarrow> bool" where
  "wf_server srv \<longleftrightarrow> wf_session (session srv) \<and> (\<forall>i. p_extconn srv = Some i \<longrightarrow> i < MAX_SESSIONS)"

lemma wf_server_pending [simp]: "wf_server (b_data_pending_update f srv) = wf_server srv"
  by (simp add: wf_server_def)

text \<open>
  A write never misbehaves; it puts its bytes on a connection at most once, and does so whenever it
  reports success.
\<close>

lemma asd_api_server_write_ok:
  assumes "wf_server srv"
  shows "ensures (asd_api_server_write os srv bs tr) (\<lambda>(n, tr').
    (n = 0 \<or> n = length bs) \<and> (sent_on tr' = sent_on tr \<or> sent_on tr' = sent_on tr @ [bs]) \<and>
    (0 < n \<longrightarrow> sent_on tr' = sent_on tr @ [bs]))"
proof -
  have wf: "wf_session (session srv)" using assms by (simp add: wf_server_def)
  obtain r where r: "session_get_authenticated_conn (session srv) = Some r"
    using session_get_authenticated_conn_refines [OF wf] by blast
  have once: "(sent_on (snd (extnet_send os net c bs tr)) = sent_on tr \<or>
      sent_on (snd (extnet_send os net c bs tr)) = sent_on tr @ [bs]) \<and>
      (0 < fst (extnet_send os net c bs tr) \<longrightarrow> sent_on (snd (extnet_send os net c bs tr)) = sent_on tr @ [bs])" for net c
    using extnet_send_once [of os net c bs tr] by (metis surjective_pairing)
  show ?thesis
    using once
    by (auto simp: asd_api_server_write_def asd_server_write_def send_out_msg_on_socket_def r split_def split: option.split)
qed

lemma asd_api_server_read_ok:
  assumes "wf_server srv"
  shows "ensures (asd_api_server_read os srv bf tr) (\<lambda>(n, bf', srv', tr').
    length bf' = length bf \<and> wf_server srv' \<and> session srv' = session srv)"
proof (cases "p_extconn srv")
  case None
  then show ?thesis
    using assms by (simp add: asd_api_server_read_def asd_server_read_def read_data_def)
next
  case (Some i)
  then have i: "i < length (sessions (session srv))"
    using assms by (auto simp: wf_server_def wf_session_length)
  have "length (fst (snd (extnet_recv os net c bf p tr))) = length bf" for net c p
    using extnet_recv_length [of os net c bf p tr] by (metis prod.collapse)
  then show ?thesis
    using assms Some i by (simp add: asd_api_server_read_def asd_server_read_def read_data_def split_def Let_def)
qed

end
