(* ===== verification/Jtag_Handler.thy ===== *)
theory Jtag_Handler
  imports Asd_Protocol
begin

text \<open>
  \<open>target/jtag_handler.c\<close> in its configuration for the mainline driver (\<open>JTAG_LEGACY_DRIVER\<close> is not
  defined): two scan chains with their padding and scan state, the TAP state requests, and the
  shifts, in software mode one transfer per part and in hardware mode one transfer with a padding
  word.  A handler pointer that is NULL makes every operation answer \<open>ST_ERR\<close>; that guard is the
  \<open>None\<close> case of the caller, so the operations here take the handler itself.
\<close>

section \<open>State\<close>

definition MAX_SCAN_CHAINS :: nat where "MAX_SCAN_CHAINS = 2"
definition DRMAXPADSIZE :: nat where "DRMAXPADSIZE = 250"
definition IRMAXPADSIZE :: nat where "IRMAXPADSIZE = 2000"
definition MAX_WAIT_CYCLES :: nat where "MAX_WAIT_CYCLES = 256"
definition APB_FREQ :: nat where "APB_FREQ = 24740000"

datatype JTAGPaddingTypes =
    JTAGPaddingTypes_IRPre | JTAGPaddingTypes_IRPost | JTAGPaddingTypes_DRPre | JTAGPaddingTypes_DRPost

datatype JTAGScanState = JTAGScanState_Done | JTAGScanState_Run

record JTAGShiftPadding =
  drPre :: nat
  drPost :: nat
  irPre :: nat
  irPost :: nat

record JTAG_Chain_State =
  tap_state :: jtag_states
  shift_padding :: JTAGShiftPadding
  scan_state :: JTAGScanState

text \<open>\<open>active_chain\<close> points into \<open>chains\<close>: it is the index of the chain, or NULL.\<close>

record JTAG_Handler =
  chains :: "JTAG_Chain_State list"
  active_chain :: "nat option"
  padDataOne :: "u8 list"
  padDataZero :: "u8 list"
  JTAG_driver_handle :: int
  sw_mode :: bool

definition initial_chain :: JTAG_Chain_State where
  "initial_chain = \<lparr>tap_state = jtag_tlr,
     shift_padding = \<lparr>drPre = 0, drPost = 0, irPre = 0, irPost = 0\<rparr>, scan_state = JTAGScanState_Done\<rparr>"

definition initialize_jtag_chains :: "JTAG_Handler \<Rightarrow> JTAG_Handler" where
  "initialize_jtag_chains state = state\<lparr>chains := replicate MAX_SCAN_CHAINS initial_chain\<rparr>"

definition JTAGHandler :: "os \<Rightarrow> trace \<Rightarrow> JTAG_Handler option \<times> trace" where
  "JTAGHandler os tr =
     (let (ok, tr1) = malloc os ''JTAG_Handler'' 1 tr
      in (if ok then
            Some (initialize_jtag_chains
              \<lparr>chains = [], active_chain = Some 0, padDataOne = replicate (IRMAXPADSIZE div 8) 0xFF,
               padDataZero = replicate (IRMAXPADSIZE div 8) 0, JTAG_driver_handle = - 1,
               sw_mode = True\<rparr>)
          else None, tr1))"

text \<open>Reading and writing through \<open>state->active_chain\<close>.\<close>

definition the_chain :: "JTAG_Handler \<Rightarrow> JTAG_Chain_State option" where
  "the_chain state = do { i \<leftarrow> active_chain state; rd (chains state) i }"

definition upd_chain ::
    "(JTAG_Chain_State \<Rightarrow> JTAG_Chain_State) \<Rightarrow> JTAG_Handler \<Rightarrow> JTAG_Handler option" where
  "upd_chain f state = do {
     i \<leftarrow> active_chain state;
     c \<leftarrow> rd (chains state) i;
     cs \<leftarrow> wr (chains state) i (f c);
     Some (state\<lparr>chains := cs\<rparr>) }"

section \<open>TAP state, padding, clock and chain selection\<close>

definition JTAG_set_tap_state ::
    "os \<Rightarrow> JTAG_Handler \<Rightarrow> jtag_states \<Rightarrow> trace \<Rightarrow> (STATUS \<times> JTAG_Handler \<times> trace) option" where
  "JTAG_set_tap_state os state ts tr = do {
     c \<leftarrow> the_chain state;
     let reset = (ts = jtag_tlr);
     let call = Sys_jtag_state (JTAG_driver_handle state) (tap_state c) ts reset;
     let issue = (reset \<or> sw_mode state);
     let tr1 = (if issue then tr @ [call] else tr);
     if issue \<and> fst (os tr call) < 0 then Some (ST_ERR, state, tr1)
     else do { s' \<leftarrow> upd_chain (tap_state_update (\<lambda>_. ts)) state; Some (ST_OK, s', tr1) } }"

definition JTAG_tap_reset ::
    "os \<Rightarrow> JTAG_Handler \<Rightarrow> trace \<Rightarrow> (STATUS \<times> JTAG_Handler \<times> trace) option" where
  "JTAG_tap_reset os state tr = JTAG_set_tap_state os state jtag_tlr tr"

definition JTAG_get_tap_state :: "JTAG_Handler \<Rightarrow> (STATUS \<times> jtag_states) option" where
  "JTAG_get_tap_state state = do { c \<leftarrow> the_chain state; Some (ST_OK, tap_state c) }"

definition JTAG_initialize ::
    "os \<Rightarrow> JTAG_Handler \<Rightarrow> bool \<Rightarrow> trace \<Rightarrow> (STATUS \<times> JTAG_Handler \<times> trace) option" where
  "JTAG_initialize os state sw tr = do {
     let s0 = state\<lparr>sw_mode := sw\<rparr>;
     let c_open = Sys_open ''/dev/jtag0'';
     let fd = fst (os tr c_open);
     let tr1 = tr @ [c_open];
     let s1 = s0\<lparr>JTAG_driver_handle := fd\<rparr>;
     if fd = - 1 then Some (ST_ERR, s1, tr1)
     else do {
       let c_mode = Sys_jtag_mode fd sw;
       let tr2 = tr1 @ [c_mode];
       if fst (os tr1 c_mode) \<noteq> 0 then
         Some (ST_ERR, s1\<lparr>JTAG_driver_handle := - 1\<rparr>, tr2 @ [Sys_close fd])
       else do {
         (st, s2, tr3) \<leftarrow> JTAG_set_tap_state os s1 jtag_tlr tr2;
         if st \<noteq> ST_OK then Some (ST_ERR, s2\<lparr>JTAG_driver_handle := - 1\<rparr>, tr3 @ [Sys_close fd])
         else Some (ST_OK, initialize_jtag_chains s2, tr3) } } }"

definition JTAG_deinitialize :: "JTAG_Handler \<Rightarrow> trace \<Rightarrow> STATUS \<times> JTAG_Handler \<times> trace" where
  "JTAG_deinitialize state tr =
     (ST_OK, state\<lparr>JTAG_driver_handle := - 1\<rparr>, tr @ [Sys_close (JTAG_driver_handle state)])"

fun set_pad :: "JTAGPaddingTypes \<Rightarrow> nat \<Rightarrow> JTAGShiftPadding \<Rightarrow> JTAGShiftPadding" where
  "set_pad JTAGPaddingTypes_DRPre v p = p\<lparr>drPre := v\<rparr>"
| "set_pad JTAGPaddingTypes_DRPost v p = p\<lparr>drPost := v\<rparr>"
| "set_pad JTAGPaddingTypes_IRPre v p = p\<lparr>irPre := v\<rparr>"
| "set_pad JTAGPaddingTypes_IRPost v p = p\<lparr>irPost := v\<rparr>"

definition JTAG_set_padding ::
    "JTAG_Handler \<Rightarrow> JTAGPaddingTypes \<Rightarrow> nat \<Rightarrow> (STATUS \<times> JTAG_Handler) option" where
  "JTAG_set_padding state padding value =
     (if value > IRMAXPADSIZE then Some (ST_ERR, state)
      else if padding \<in> {JTAGPaddingTypes_DRPre, JTAGPaddingTypes_DRPost} \<and> value > DRMAXPADSIZE
           then Some (ST_ERR, state)
      else do {
        s' \<leftarrow> upd_chain (shift_padding_update (set_pad padding value)) state;
        Some (ST_OK, s') })"

definition JTAG_wait_cycles ::
    "os \<Rightarrow> JTAG_Handler \<Rightarrow> nat \<Rightarrow> trace \<Rightarrow> STATUS \<times> JTAG_Handler \<times> trace" where
  "JTAG_wait_cycles os state number_of_cycles tr =
     (if number_of_cycles > MAX_WAIT_CYCLES then (ST_ERR, state, tr)
      else let call = Sys_jtag_bitbang (JTAG_driver_handle state) number_of_cycles
           in (if fst (os tr call) < 0 then ST_ERR else ST_OK, state, tr @ [call]))"

definition JTAG_set_jtag_tck ::
    "os \<Rightarrow> JTAG_Handler \<Rightarrow> nat \<Rightarrow> trace \<Rightarrow> STATUS \<times> JTAG_Handler \<times> trace" where
  "JTAG_set_jtag_tck os state tck tr =
     (let tck' = (if tck = 0 then 1 else tck);
          call = Sys_jtag_freq (JTAG_driver_handle state) (APB_FREQ div tck')
      in (if fst (os tr call) < 0 then ST_ERR else ST_OK, state, tr @ [call]))"

definition JTAG_set_active_chain :: "JTAG_Handler \<Rightarrow> int \<Rightarrow> STATUS \<times> JTAG_Handler" where
  "JTAG_set_active_chain state chain =
     (if chain < 0 \<or> chain \<ge> int MAX_SCAN_CHAINS then (ST_ERR, state)
      else (ST_OK, state\<lparr>active_chain := Some (nat chain)\<rparr>))"

section \<open>Shifts\<close>

definition DIV_ROUND_UP :: "nat \<Rightarrow> nat \<Rightarrow> nat" where
  "DIV_ROUND_UP n d = (n + d - 1) div d"

text \<open>
  The bytes a transfer hands to the driver.  With an output buffer the input is first copied into
  it, and the driver works in place; \<open>memcpy_s\<close> clears its destination when the source is NULL or
  too long.  Without one a local array of \<open>MAX_DATA_SIZE\<close> bytes takes its place.
\<close>

definition memcpy_s :: "u8 list \<Rightarrow> u8 list option \<Rightarrow> nat \<Rightarrow> u8 list option" where
  "memcpy_s dest src n =
     (case src of None \<Rightarrow> Some (replicate (length dest) 0)
      | Some s \<Rightarrow> if n > length dest then Some (replicate (length dest) 0)
                 else do { bs \<leftarrow> rds s 0 n; wrs dest 0 bs })"

definition jtag_xfer ::
    "os \<Rightarrow> JTAG_Handler \<Rightarrow> nat \<Rightarrow> u32 \<Rightarrow> u8 list option \<Rightarrow> u8 list option \<Rightarrow> jtag_states
       \<Rightarrow> jtag_states \<Rightarrow> trace \<Rightarrow> (STATUS \<times> JTAG_Handler \<times> u8 list option \<times> trace) option" where
  "jtag_xfer os state number_of_bits padding input output cur end_state tr = do {
     let n = DIV_ROUND_UP number_of_bits 8;
     tdio \<leftarrow> memcpy_s (case output of None \<Rightarrow> zero_buffer | Some out \<Rightarrow> out) input n;
     sent \<leftarrow> rds tdio 0 n;
     let call = Sys_jtag_xfer (JTAG_driver_handle state) cur end_state (cur = jtag_shf_ir)
                  number_of_bits padding sent;
     let r = os tr call;
     let out' = map_option (\<lambda>_. overlay tdio (take n (sys_data r))) output;
     if fst r < 0 then Some (ST_ERR, state, out', tr @ [call])
     else do {
       s' \<leftarrow> upd_chain (tap_state_update (\<lambda>_. end_state)) state;
       Some (ST_OK, s', out', tr @ [call]) } }"

definition perform_shift ::
    "os \<Rightarrow> JTAG_Handler \<Rightarrow> nat \<Rightarrow> u8 list option \<Rightarrow> u8 list option \<Rightarrow> jtag_states \<Rightarrow> jtag_states
       \<Rightarrow> trace \<Rightarrow> (STATUS \<times> JTAG_Handler \<times> u8 list option \<times> trace) option" where
  "perform_shift os state number_of_bits input output cur end_state tr =
     jtag_xfer os state number_of_bits 0 input output cur end_state tr"

text \<open>The packed padding word of hardware mode: 12 bits before, 12 bits after, one bit of value.\<close>

definition pad_config :: "nat \<Rightarrow> nat \<Rightarrow> bool \<Rightarrow> u32" where
  "pad_config pre post one =
     of_nat (pre mod 4096 + 4096 * (post mod 4096) + (if one then 16777216 else 0))"

definition JTAG_shift_hw ::
    "os \<Rightarrow> JTAG_Handler \<Rightarrow> nat \<Rightarrow> u8 list option \<Rightarrow> u8 list option \<Rightarrow> jtag_states \<Rightarrow> trace
       \<Rightarrow> (STATUS \<times> JTAG_Handler \<times> u8 list option \<times> trace) option" where
  "JTAG_shift_hw os state number_of_bits input output end_state tr = do {
     c \<leftarrow> the_chain state;
     let cur = tap_state c;
     if cur \<noteq> jtag_shf_ir \<and> cur \<noteq> jtag_shf_dr then Some (ST_ERR, state, output, tr)
     else do {
       let pad = shift_padding c;
       let ir = (cur = jtag_shf_ir);
       let pre = (if scan_state c = JTAGScanState_Done then (if ir then irPre pad else drPre pad) else 0);
       let post = (if cur = end_state then 0 else if ir then irPost pad else drPost pad);
       s1 \<leftarrow> upd_chain (scan_state_update (\<lambda>_. if cur = end_state then JTAGScanState_Run
                                                else JTAGScanState_Done)) state;
       jtag_xfer os s1 number_of_bits (pad_config pre post ir) input output cur end_state tr } }"

text \<open>Software mode: the leading padding of a scan that starts, then the data and the trailing padding.\<close>

definition shift_prefix ::
    "os \<Rightarrow> JTAG_Handler \<Rightarrow> bool \<Rightarrow> nat \<Rightarrow> u8 list \<Rightarrow> jtag_states \<Rightarrow> trace
       \<Rightarrow> (STATUS \<times> JTAG_Handler \<times> trace) option" where
  "shift_prefix os state starting preFix padData cur tr =
     (if starting then do {
        s0 \<leftarrow> upd_chain (scan_state_update (\<lambda>_. JTAGScanState_Run)) state;
        if preFix > 0 then do {
          (st, s, _, t) \<leftarrow> perform_shift os s0 preFix (Some padData) None cur cur tr;
          Some (st, s, t) }
        else Some (ST_OK, s0, tr) }
      else Some (ST_OK, state, tr))"

definition shift_rest ::
    "os \<Rightarrow> JTAG_Handler \<Rightarrow> nat \<Rightarrow> u8 list option \<Rightarrow> u8 list option \<Rightarrow> nat \<Rightarrow> u8 list \<Rightarrow> jtag_states
       \<Rightarrow> jtag_states \<Rightarrow> trace \<Rightarrow> (STATUS \<times> JTAG_Handler \<times> u8 list option \<times> trace) option" where
  "shift_rest os state number_of_bits input output postFix padData cur end_state tr =
     (if postFix > 0 \<and> cur \<noteq> end_state then do {
        s2 \<leftarrow> upd_chain (scan_state_update (\<lambda>_. JTAGScanState_Done)) state;
        (st3, s3, out', tr3) \<leftarrow> perform_shift os s2 number_of_bits input output cur cur tr;
        if st3 \<noteq> ST_OK then Some (ST_ERR, s3, out', tr3)
        else do {
          (st4, s4, _, tr4) \<leftarrow> perform_shift os s3 postFix (Some padData) None cur end_state tr3;
          Some (if st4 \<noteq> ST_OK then ST_ERR else ST_OK, s4, out', tr4) } }
      else do {
        (st3, s3, out', tr3) \<leftarrow> perform_shift os state number_of_bits input output cur end_state tr;
        if st3 \<noteq> ST_OK then Some (ST_ERR, s3, out', tr3)
        else if cur \<noteq> end_state then do {
          s4 \<leftarrow> upd_chain (scan_state_update (\<lambda>_. JTAGScanState_Done)) s3;
          Some (ST_OK, s4, out', tr3) }
        else Some (ST_OK, s3, out', tr3) })"

definition JTAG_shift ::
    "os \<Rightarrow> JTAG_Handler \<Rightarrow> nat \<Rightarrow> u8 list option \<Rightarrow> u8 list option \<Rightarrow> jtag_states \<Rightarrow> trace
       \<Rightarrow> (STATUS \<times> JTAG_Handler \<times> u8 list option \<times> trace) option" where
  "JTAG_shift os state number_of_bits input output end_state tr =
     (if \<not> sw_mode state then JTAG_shift_hw os state number_of_bits input output end_state tr
      else do {
        c \<leftarrow> the_chain state;
        let cur = tap_state c;
        if cur \<noteq> jtag_shf_ir \<and> cur \<noteq> jtag_shf_dr then Some (ST_ERR, state, output, tr)
        else do {
          let pad = shift_padding c;
          let ir = (cur = jtag_shf_ir);
          let preFix = (if ir then irPre pad else drPre pad);
          let postFix = (if ir then irPost pad else drPost pad);
          let padData = (if ir then padDataOne state else padDataZero state);
          (st1, s1, tr1) \<leftarrow>
            shift_prefix os state (scan_state c = JTAGScanState_Done) preFix padData cur tr;
          if st1 \<noteq> ST_OK then Some (ST_ERR, s1, output, tr1)
          else shift_rest os s1 number_of_bits input output postFix padData cur end_state tr1 } })"

section \<open>Invariant\<close>

definition wf_padding :: "JTAGShiftPadding \<Rightarrow> bool" where
  "wf_padding p \<longleftrightarrow> drPre p \<le> DRMAXPADSIZE \<and> drPost p \<le> DRMAXPADSIZE
     \<and> irPre p \<le> IRMAXPADSIZE \<and> irPost p \<le> IRMAXPADSIZE"

definition wf_jtag :: "JTAG_Handler \<Rightarrow> bool" where
  "wf_jtag s \<longleftrightarrow> length (chains s) = MAX_SCAN_CHAINS
     \<and> (case active_chain s of None \<Rightarrow> False | Some i \<Rightarrow> i < MAX_SCAN_CHAINS)
     \<and> (\<forall>c \<in> set (chains s). wf_padding (shift_padding c))
     \<and> padDataOne s = replicate (IRMAXPADSIZE div 8) 0xFF
     \<and> padDataZero s = replicate (IRMAXPADSIZE div 8) 0"

text \<open>On a well-formed handler the pointer to the active chain can be followed.\<close>

definition cur_chain :: "JTAG_Handler \<Rightarrow> JTAG_Chain_State" where
  "cur_chain s = chains s ! the (active_chain s)"

definition set_chain :: "(JTAG_Chain_State \<Rightarrow> JTAG_Chain_State) \<Rightarrow> JTAG_Handler \<Rightarrow> JTAG_Handler" where
  "set_chain f s = s\<lparr>chains := (chains s)[the (active_chain s) := f (cur_chain s)]\<rparr>"

named_theorems jtag_simps \<open>rewriting on well-formed JTAG handlers\<close>

lemma wf_jtag_active:
  assumes "wf_jtag s"
  obtains i where "active_chain s = Some i" "i < length (chains s)"
  using assms by (auto simp: wf_jtag_def split: option.splits)

lemma the_chain_eq [jtag_simps]: "wf_jtag s \<Longrightarrow> the_chain s = Some (cur_chain s)"
  by (auto simp: the_chain_def cur_chain_def rd_def elim: wf_jtag_active)

lemma upd_chain_eq [jtag_simps]: "wf_jtag s \<Longrightarrow> upd_chain f s = Some (set_chain f s)"
  by (auto simp: upd_chain_def set_chain_def cur_chain_def rd_def wr_def elim: wf_jtag_active)

lemma cur_set_chain [jtag_simps]: "wf_jtag s \<Longrightarrow> cur_chain (set_chain f s) = f (cur_chain s)"
  by (auto simp: set_chain_def cur_chain_def elim: wf_jtag_active)

lemma set_chain_frame [jtag_simps]:
  "active_chain (set_chain f s) = active_chain s" "JTAG_driver_handle (set_chain f s) = JTAG_driver_handle s"
  "sw_mode (set_chain f s) = sw_mode s" "padDataOne (set_chain f s) = padDataOne s"
  "padDataZero (set_chain f s) = padDataZero s"
  by (simp_all add: set_chain_def)

lemma set_set_chain [jtag_simps]: "wf_jtag s \<Longrightarrow> set_chain f (set_chain g s) = set_chain (f \<circ> g) s"
  by (auto simp: set_chain_def cur_chain_def elim!: wf_jtag_active)

lemma wf_cur_chain: "wf_jtag s \<Longrightarrow> wf_padding (shift_padding (cur_chain s))"
  by (auto simp: cur_chain_def wf_jtag_def split: option.splits)

lemma wf_set_chain:
  assumes "wf_jtag s" "wf_padding (shift_padding (f (cur_chain s)))"
  shows "wf_jtag (set_chain f s)"
  using assms by (auto simp: wf_jtag_def set_chain_def dest!: set_update_subset_insert [THEN subsetD])

lemma wf_set_chain_states [jtag_simps]:
  assumes "wf_jtag s"
  shows "wf_jtag (set_chain (tap_state_update g) s)" "wf_jtag (set_chain (scan_state_update h) s)"
    "wf_jtag (set_chain (tap_state_update g \<circ> scan_state_update h) s)"
    "wf_jtag (set_chain (scan_state_update h \<circ> tap_state_update g) s)"
  using assms wf_cur_chain [OF assms] by (simp_all add: wf_set_chain)

lemma wf_handle_update [jtag_simps]:
  "wf_jtag (s\<lparr>JTAG_driver_handle := h\<rparr>) = wf_jtag s" "wf_jtag (s\<lparr>sw_mode := w\<rparr>) = wf_jtag s"
  by (simp_all add: wf_jtag_def)

lemma wf_initialize_chains:
  assumes "active_chain s = Some i" "i < MAX_SCAN_CHAINS"
    "padDataOne s = replicate (IRMAXPADSIZE div 8) 0xFF" "padDataZero s = replicate (IRMAXPADSIZE div 8) 0"
  shows "wf_jtag (initialize_jtag_chains s)"
  using assms by (auto simp: wf_jtag_def initialize_jtag_chains_def initial_chain_def wf_padding_def)

lemma JTAGHandler_wf: "JTAGHandler os tr = (Some s, tr') \<Longrightarrow> wf_jtag s \<and> JTAG_driver_handle s = - 1"
  by (auto simp: JTAGHandler_def malloc_def MAX_SCAN_CHAINS_def intro!: wf_initialize_chains
      split: if_splits) (simp add: initialize_jtag_chains_def)

section \<open>Every operation keeps the invariant and never faults\<close>

lemma JTAG_set_tap_state_wf:
  assumes "wf_jtag s"
  shows "ensures (JTAG_set_tap_state os s ts tr) (\<lambda>(st, s', tr'). wf_jtag s' \<and>
     (if st = ST_OK then s' = set_chain (tap_state_update (\<lambda>_. ts)) s else st = ST_ERR \<and> s' = s))"
  using assms by (auto simp: JTAG_set_tap_state_def jtag_simps Let_def)

lemma JTAG_initialize_wf:
  assumes "wf_jtag s"
  shows "ensures (JTAG_initialize os s sw tr) (\<lambda>(st, s', tr'). wf_jtag s' \<and>
     (if st = ST_OK then JTAG_driver_handle s' \<noteq> - 1 \<and> chains s' = replicate MAX_SCAN_CHAINS initial_chain
      else JTAG_driver_handle s' = - 1) \<and> sw_mode s' = sw)"
proof -
  have i: "wf_jtag (t\<lparr>chains := replicate MAX_SCAN_CHAINS initial_chain\<rparr>)" if "wf_jtag t" for t
    using that by (auto simp: wf_jtag_def initial_chain_def wf_padding_def)
  show ?thesis
    using assms
    by (auto simp: JTAG_initialize_def JTAG_set_tap_state_def jtag_simps Let_def i
        initialize_jtag_chains_def)
qed

lemma JTAG_set_padding_wf:
  assumes "wf_jtag s"
  shows "ensures (JTAG_set_padding s p v) (\<lambda>(st, s'). wf_jtag s' \<and>
     (st = ST_OK \<longleftrightarrow> v \<le> (if p \<in> {JTAGPaddingTypes_DRPre, JTAGPaddingTypes_DRPost} then DRMAXPADSIZE else IRMAXPADSIZE))
     \<and> (st \<noteq> ST_OK \<longrightarrow> s' = s))"
proof -
  have "wf_padding (set_pad p v (shift_padding (cur_chain s)))"
    if "v \<le> IRMAXPADSIZE" "p \<in> {JTAGPaddingTypes_DRPre, JTAGPaddingTypes_DRPost} \<Longrightarrow> v \<le> DRMAXPADSIZE"
    using that wf_cur_chain [OF assms] by (cases p) (auto simp: wf_padding_def)
  then show ?thesis
    using assms by (auto simp: JTAG_set_padding_def jtag_simps wf_set_chain DRMAXPADSIZE_def IRMAXPADSIZE_def)
qed

lemma JTAG_set_active_chain_wf:
  "wf_jtag s \<Longrightarrow> wf_jtag (snd (JTAG_set_active_chain s c))"
  by (auto simp: JTAG_set_active_chain_def wf_jtag_def)


section \<open>What a shift puts on the wire\<close>

text \<open>
  The bits of a byte, least significant first, and the bits a transfer clocks out: the leading
  padding of its padding word, the first \<open>length\<close> bits of its data, the trailing padding.
\<close>

definition byte_bits :: "u8 \<Rightarrow> bool list" where
  "byte_bits b = map (bit b) [0..<8]"

definition data_bits :: "nat \<Rightarrow> u8 list \<Rightarrow> bool list" where
  "data_bits n bs = take n (concat (map byte_bits bs))"

fun xfer_bits :: "syscall \<Rightarrow> bool list" where
  "xfer_bits (Sys_jtag_xfer _ _ _ _ n p bs) =
     replicate (unat p mod 4096) (bit p 24) @ data_bits n bs @ replicate (unat p div 4096 mod 4096) (bit p 24)"
| "xfer_bits _ = []"

definition wire :: "trace \<Rightarrow> bool list" where
  "wire tr = concat (map xfer_bits tr)"

lemma wire_append [simp]: "wire (a @ b) = wire a @ wire b"
  by (simp add: wire_def)

lemma wire_Nil [simp]: "wire [] = []"
  by (simp add: wire_def)

lemma length_concat_byte_bits [simp]: "length (concat (map byte_bits bs)) = 8 * length bs"
  by (induction bs) (auto simp: byte_bits_def)

lemma data_bits_const:
  assumes "byte_bits b = replicate 8 v" "n \<le> 8 * k"
  shows "data_bits n (replicate k b) = replicate n v"
proof -
  have "concat (replicate k (replicate 8 v)) = replicate (8 * k) v"
    by (induction k) (auto simp: replicate_add [symmetric])
  then show ?thesis
    using assms by (simp add: data_bits_def map_replicate_const)
qed

lemma byte_bits_FF: "byte_bits 0xFF = replicate 8 True"
  by (simp add: byte_bits_def upt_rec numeral_eq_Suc)

lemma byte_bits_0: "byte_bits 0 = replicate 8 False"
  by (simp add: byte_bits_def upt_rec numeral_eq_Suc)

lemma DIV_ROUND_UP_le: "n \<le> 8 * DIV_ROUND_UP n 8" "n \<le> 8 * k \<Longrightarrow> DIV_ROUND_UP n 8 \<le> k"
  by (auto simp: DIV_ROUND_UP_def)


definition sent_bytes :: "nat \<Rightarrow> u8 list option \<Rightarrow> u8 list" where
  "sent_bytes n input = (case input of None \<Rightarrow> replicate n 0 | Some s \<Rightarrow> take n s)"

text \<open>The buffers of a call: the input is readable, the output has exactly the bytes of the scan.\<close>

definition shift_args :: "nat \<Rightarrow> u8 list option \<Rightarrow> u8 list option \<Rightarrow> bool" where
  "shift_args n input output \<longleftrightarrow> n \<le> MAX_DATA_SIZE
     \<and> (case input of None \<Rightarrow> True | Some s \<Rightarrow> n \<le> length s)
     \<and> (case output of None \<Rightarrow> True | Some out \<Rightarrow> length out = n)"

text \<open>The specification: padding before the first shift of a scan, the data, padding after the last.\<close>

definition shift_bits :: "JTAG_Chain_State \<Rightarrow> nat \<Rightarrow> u8 list \<Rightarrow> jtag_states \<Rightarrow> bool list" where
  "shift_bits c n data end_state =
     (let ir = (tap_state c = jtag_shf_ir); p = shift_padding c
      in (if scan_state c = JTAGScanState_Done then replicate (if ir then irPre p else drPre p) ir else [])
         @ data_bits n data
         @ (if tap_state c \<noteq> end_state then replicate (if ir then irPost p else drPost p) ir else []))"

definition shift_done :: "JTAG_Chain_State \<Rightarrow> jtag_states \<Rightarrow> JTAG_Chain_State" where
  "shift_done c end_state = c\<lparr>tap_state := end_state,
     scan_state := (if tap_state c = end_state then JTAGScanState_Run else JTAGScanState_Done)\<rparr>"

lemma memcpy_s_sent:
  assumes "shift_args n input output"
  shows "\<exists>tdio. memcpy_s (case output of None \<Rightarrow> zero_buffer | Some out \<Rightarrow> out) input n = Some tdio
    \<and> rds tdio 0 n = Some (sent_bytes n input)
    \<and> length tdio = (case output of None \<Rightarrow> MAX_DATA_SIZE | Some out \<Rightarrow> length out)"
  using assms
  by (auto simp: shift_args_def memcpy_s_def sent_bytes_def rds_def wrs_def split: option.splits)

lemma jtag_xfer_ensures:
  assumes "wf_jtag s" "shift_args (DIV_ROUND_UP k 8) input output"
  shows "ensures (jtag_xfer os s k p input output cur e tr) (\<lambda>(st, s', out', tr').
    (if st = ST_OK then s' = set_chain (tap_state_update (\<lambda>_. e)) s else st = ST_ERR \<and> s' = s)
    \<and> map_option length out' = map_option length output
    \<and> tr' = tr @ [Sys_jtag_xfer (JTAG_driver_handle s) cur e (cur = jtag_shf_ir) k p
                   (sent_bytes (DIV_ROUND_UP k 8) input)])"
  using memcpy_s_sent [OF assms(2)] assms(1)
  by (auto simp: jtag_xfer_def Let_def jtag_simps rds_def split: option.splits if_splits)

lemma pad_config_fields:
  assumes "pre < 4096" "post < 4096"
  shows "unat (pad_config pre post one) mod 4096 = pre"
    "unat (pad_config pre post one) div 4096 mod 4096 = post"
    "bit (pad_config pre post one) 24 = one"
proof -
  define w where "w = post + (if one then 4096 else 0)"
  define v where "v = pre + 4096 * w"
  have lt: "v < 2 ^ 32" using assms by (simp add: v_def w_def)
  have pc: "pad_config pre post one = of_nat v"
    using assms by (simp add: pad_config_def v_def w_def algebra_simps)
  have d: "v div 4096 = w" using assms by (simp add: v_def)
  have u: "unat (pad_config pre post one) = v"
    using lt by (simp add: pc unat_of_nat)
  show "unat (pad_config pre post one) mod 4096 = pre"
    unfolding u v_def using assms by simp
  show "unat (pad_config pre post one) div 4096 mod 4096 = post"
    unfolding u d using assms by (simp add: w_def)
  have "bit (pad_config pre post one) 24 = odd (v div 2 ^ 24)"
    using bit_unsigned_iff [of "pad_config pre post one" 24, where ?'a = nat] by (simp add: u bit_iff_odd)
  also have "v div 2 ^ 24 = w div 4096"
    by (simp add: d [symmetric] div_mult2_eq [symmetric])
  also have "odd (w div 4096) = one"
    using assms div_add_self2 [of 4096 post] by (simp add: w_def)
  finally show "bit (pad_config pre post one) 24 = one" .
qed


lemma xfer_bits_plain: "xfer_bits (Sys_jtag_xfer h cur e ir n 0 bs) = data_bits n bs"
  by simp

text \<open>A padding transfer sends constant bits and stays inside the padding arrays.\<close>

lemma pad_transfer:
  assumes "wf_jtag s" "n \<le> IRMAXPADSIZE"
  shows "shift_args (DIV_ROUND_UP n 8) (Some (if ir then padDataOne s else padDataZero s)) None"
    "data_bits n (sent_bytes (DIV_ROUND_UP n 8) (Some (if ir then padDataOne s else padDataZero s))) = replicate n ir"
proof -
  have k: "DIV_ROUND_UP n 8 \<le> IRMAXPADSIZE div 8"
    using assms(2) DIV_ROUND_UP_le(2) [of n "IRMAXPADSIZE div 8"] by (simp add: IRMAXPADSIZE_def)
  show "shift_args (DIV_ROUND_UP n 8) (Some (if ir then padDataOne s else padDataZero s)) None"
    using k assms(1) by (auto simp: shift_args_def wf_jtag_def MAX_DATA_SIZE_def IRMAXPADSIZE_def)
  show "data_bits n (sent_bytes (DIV_ROUND_UP n 8) (Some (if ir then padDataOne s else padDataZero s))) = replicate n ir"
    using k assms(1) data_bits_const [OF byte_bits_FF DIV_ROUND_UP_le(1), of n]
      data_bits_const [OF byte_bits_0 DIV_ROUND_UP_le(1), of n]
    by (auto simp: sent_bytes_def wf_jtag_def min_absorb1)
qed

lemma wf_padding_small:
  "wf_padding p \<Longrightarrow> drPre p \<le> IRMAXPADSIZE \<and> drPost p \<le> IRMAXPADSIZE \<and> irPre p \<le> IRMAXPADSIZE \<and> irPost p \<le> IRMAXPADSIZE"
  by (auto simp: wf_padding_def DRMAXPADSIZE_def IRMAXPADSIZE_def)

text \<open>The contract of a shift, for both modes.\<close>

definition shift_post ::
    "JTAG_Handler \<Rightarrow> nat \<Rightarrow> u8 list option \<Rightarrow> u8 list option \<Rightarrow> jtag_states \<Rightarrow> trace
       \<Rightarrow> STATUS \<times> JTAG_Handler \<times> u8 list option \<times> trace \<Rightarrow> bool" where
  "shift_post s n input output e tr r =
     (case r of (st, s', out', tr') \<Rightarrow>
        wf_jtag s' \<and> map_option length out' = map_option length output \<and> sw_mode s' = sw_mode s
        \<and> JTAG_driver_handle s' = JTAG_driver_handle s \<and> active_chain s' = active_chain s
        \<and> (st = ST_OK \<or> st = ST_ERR)
        \<and> (st = ST_OK \<longrightarrow>
             tap_state (cur_chain s) \<in> {jtag_shf_ir, jtag_shf_dr}
             \<and> wire tr' = wire tr @ shift_bits (cur_chain s) n (sent_bytes (DIV_ROUND_UP n 8) input) e
             \<and> s' = set_chain (\<lambda>c. shift_done c e) s))"

lemma set_chain_cong:
  "wf_jtag s \<Longrightarrow> f (cur_chain s) = g (cur_chain s) \<Longrightarrow> set_chain f s = set_chain g s"
  by (simp add: set_chain_def)

lemma wf_shift_done: "wf_jtag s \<Longrightarrow> wf_jtag (set_chain (\<lambda>c. shift_done c e) s)"
  using wf_cur_chain [of s] by (auto intro!: wf_set_chain simp: shift_done_def)

lemma JTAG_shift_hw_post:
  assumes "wf_jtag s" "shift_args (DIV_ROUND_UP n 8) input output"
  shows "ensures (JTAG_shift_hw os s n input output e tr) (shift_post s n input output e tr)"
proof (cases "tap_state (cur_chain s) \<in> {jtag_shf_ir, jtag_shf_dr}")
  case False
  then show ?thesis
    using assms by (auto simp: JTAG_shift_hw_def jtag_simps shift_post_def Let_def)
next
  case True
  define c where "c = cur_chain s"
  define ir where "ir = (tap_state c = jtag_shf_ir)"
  define pre where "pre = (if scan_state c = JTAGScanState_Done
    then (if ir then irPre (shift_padding c) else drPre (shift_padding c)) else 0)"
  define post where "post = (if tap_state c = e then 0 else if ir then irPost (shift_padding c) else drPost (shift_padding c))"
  define f :: "JTAG_Chain_State \<Rightarrow> JTAG_Chain_State"
    where "f = scan_state_update (\<lambda>_. if tap_state c = e then JTAGScanState_Run else JTAGScanState_Done)"
  have small: "pre < 4096" "post < 4096"
    using wf_padding_small [OF wf_cur_chain [OF assms(1)]] by (auto simp: pre_def post_def c_def IRMAXPADSIZE_def)
  have eq: "JTAG_shift_hw os s n input output e tr =
      jtag_xfer os (set_chain f s) n (pad_config pre post ir) input output (tap_state c) e tr"
    using True assms(1) by (auto simp: JTAG_shift_hw_def jtag_simps Let_def c_def ir_def pre_def post_def f_def)
  have wf: "wf_jtag (set_chain f s)"
    using assms(1) by (simp add: f_def jtag_simps)
  have s': "set_chain (tap_state_update (\<lambda>_. e)) (set_chain f s) = set_chain (\<lambda>c. shift_done c e) s"
    using assms(1) by (auto simp: jtag_simps shift_done_def f_def c_def intro!: set_chain_cong)
  have wf': "wf_jtag (set_chain (\<lambda>c. shift_done c e) s)"
    using assms(1) by (rule wf_shift_done)
  have bits: "replicate pre ir @ data_bits n d @ replicate post ir = shift_bits (cur_chain s) n d e" for d
    by (simp add: shift_bits_def pre_def post_def ir_def c_def Let_def)
  show ?thesis
    unfolding eq
    by (rule ensures_conseq [OF jtag_xfer_ensures [OF wf assms(2)]])
      (use True wf wf' s' in \<open>auto simp: shift_post_def jtag_simps wire_def pad_config_fields [OF small] bits c_def split: if_splits\<close>)
qed


lemma perform_shift_ensures:
  assumes "wf_jtag s" "shift_args (DIV_ROUND_UP k 8) input output"
  shows "ensures (perform_shift os s k input output cur e tr) (\<lambda>(st, s', out', tr').
    (if st = ST_OK then s' = set_chain (tap_state_update (\<lambda>_. e)) s else st = ST_ERR \<and> s' = s)
    \<and> map_option length out' = map_option length output
    \<and> wire tr' = wire tr @ data_bits k (sent_bytes (DIV_ROUND_UP k 8) input))"
  unfolding perform_shift_def
  by (rule ensures_conseq [OF jtag_xfer_ensures [OF assms]]) (auto simp: wire_def xfer_bits_plain simp del: xfer_bits.simps)

lemma perform_shift_pad:
  assumes "wf_jtag s" "k \<le> IRMAXPADSIZE" "pad = (if ir then padDataOne s else padDataZero s)"
  shows "ensures (perform_shift os s k (Some pad) None cur e tr) (\<lambda>(st, s', out', tr').
    (if st = ST_OK then s' = set_chain (tap_state_update (\<lambda>_. e)) s else st = ST_ERR \<and> s' = s)
    \<and> wire tr' = wire tr @ replicate k ir)"
  using perform_shift_ensures [OF assms(1) pad_transfer(1) [OF assms(1,2)]] pad_transfer(2) [OF assms(1,2)]
  unfolding assms(3) by (fastforce elim!: ensures_conseq)

text \<open>The prologue of a software shift: padding, and the scan is running.\<close>

lemma shift_prefix_ensures:
  assumes "wf_jtag s" "pre \<le> IRMAXPADSIZE" "pad = (if ir then padDataOne s else padDataZero s)"
    "cur = tap_state (cur_chain s)" "starting = (scan_state (cur_chain s) = JTAGScanState_Done)"
  shows "ensures (shift_prefix os s starting pre pad cur tr)
    (\<lambda>(st, s', tr'). s' = set_chain (scan_state_update (\<lambda>_. JTAGScanState_Run)) s
       \<and> (st = ST_OK \<or> st = ST_ERR)
       \<and> wire tr' = wire tr @ (if starting then replicate pre ir else []))"
proof (cases starting)
  case False
  then have "scan_state (cur_chain s) = JTAGScanState_Run"
    using assms(5) by (cases "scan_state (cur_chain s)") auto
  then have "set_chain (scan_state_update (\<lambda>_. JTAGScanState_Run)) s = set_chain id s"
    using assms(1) by (intro set_chain_cong) auto
  also have "\<dots> = s"
    by (simp add: set_chain_def cur_chain_def)
  finally show ?thesis using False by (simp add: shift_prefix_def)
next
  case True
  let ?s0 = "set_chain (scan_state_update (\<lambda>_. JTAGScanState_Run)) s"
  have wf: "wf_jtag ?s0" using assms(1) by (simp add: jtag_simps)
  have same: "set_chain (tap_state_update (\<lambda>_. cur)) ?s0 = ?s0"
    using assms(1,4) by (simp add: jtag_simps) (rule set_chain_cong, simp_all)
  have pad: "pad = (if ir then padDataOne ?s0 else padDataZero ?s0)"
    by (simp add: assms(3) jtag_simps)
  show ?thesis
    using True assms(1) perform_shift_pad [OF wf assms(2) pad, of os cur cur tr] same
    by (auto simp: shift_prefix_def jtag_simps elim!: ensures_conseq split: if_splits)
qed

text \<open>Data and epilogue, from a chain whose scan is running.\<close>

lemma shift_rest_ensures:
  assumes "wf_jtag s" "post \<le> IRMAXPADSIZE" "pad = (if ir then padDataOne s else padDataZero s)"
    "cur = tap_state (cur_chain s)" "scan_state (cur_chain s) = JTAGScanState_Run"
    "shift_args (DIV_ROUND_UP n 8) input output"
  shows "ensures (shift_rest os s n input output post pad cur e tr)
    (\<lambda>(st, s', out', tr'). (st = ST_OK \<or> st = ST_ERR) \<and> wf_jtag s'
       \<and> sw_mode s' = sw_mode s \<and> JTAG_driver_handle s' = JTAG_driver_handle s \<and> active_chain s' = active_chain s
       \<and> map_option length out' = map_option length output
       \<and> (st = ST_OK \<longrightarrow> s' = set_chain (\<lambda>c. shift_done c e) s
           \<and> wire tr' = wire tr @ data_bits n (sent_bytes (DIV_ROUND_UP n 8) input)
               @ (if cur \<noteq> e then replicate post ir else [])))"
proof (cases "post > 0 \<and> cur \<noteq> e")
  case True
  let ?s2 = "set_chain (scan_state_update (\<lambda>_. JTAGScanState_Done)) s"
  have wf2: "wf_jtag ?s2" using assms(1) by (simp add: jtag_simps)
  have same: "set_chain (tap_state_update (\<lambda>_. cur)) ?s2 = ?s2"
    using assms(1,4) by (simp add: jtag_simps) (rule set_chain_cong, simp_all)
  have fin: "set_chain (tap_state_update (\<lambda>_. e)) ?s2 = set_chain (\<lambda>c. shift_done c e) s"
    using assms(1,4) True by (simp add: jtag_simps) (rule set_chain_cong, auto simp: shift_done_def)
  have pad: "pad = (if ir then padDataOne ?s2 else padDataZero ?s2)"
    by (simp add: assms(3) jtag_simps)
  show ?thesis
    using True assms(1) same wf_shift_done [OF assms(1), of e]
    by (auto simp: shift_rest_def jtag_simps fin
        intro!: ensures_conseq [OF perform_shift_ensures [OF wf2 assms(6)]]
          ensures_conseq [OF perform_shift_pad [OF wf2 assms(2) pad]] split: if_splits)
next
  case False
  have wfe: "wf_jtag (set_chain (tap_state_update (\<lambda>_. e)) s)" using assms(1) by (simp add: jtag_simps)
  have fin: "set_chain (\<lambda>c. shift_done c e) s = (if cur \<noteq> e
     then set_chain (scan_state_update (\<lambda>_. JTAGScanState_Done)) (set_chain (tap_state_update (\<lambda>_. e)) s)
     else set_chain (tap_state_update (\<lambda>_. e)) s)"
    using assms(1,4,5) by (auto simp: jtag_simps shift_done_def intro!: set_chain_cong)
  show ?thesis
    using False assms(1) wfe
    by (auto simp: shift_rest_def jtag_simps fin
        intro!: ensures_conseq [OF perform_shift_ensures [OF assms(1,6)]] split: if_splits)
qed


lemma JTAG_shift_post:
  assumes "wf_jtag s" "shift_args (DIV_ROUND_UP n 8) input output"
  shows "ensures (JTAG_shift os s n input output e tr) (shift_post s n input output e tr)"
proof -
  define c where "c = cur_chain s"
  define cur where "cur = tap_state c"
  define ir where "ir = (cur = jtag_shf_ir)"
  define pre where "pre = (if ir then irPre (shift_padding c) else drPre (shift_padding c))"
  define post where "post = (if ir then irPost (shift_padding c) else drPost (shift_padding c))"
  define pad where "pad = (if ir then padDataOne s else padDataZero s)"
  define s1 where "s1 = set_chain (scan_state_update (\<lambda>_. JTAGScanState_Run)) s"
  have small: "pre \<le> IRMAXPADSIZE" "post \<le> IRMAXPADSIZE"
    using wf_padding_small [OF wf_cur_chain [OF assms(1)]] by (auto simp: pre_def post_def c_def)
  have wf1: "wf_jtag s1"
    using assms(1) by (simp add: s1_def jtag_simps)
  have s1: "pad = (if ir then padDataOne s1 else padDataZero s1)" "cur = tap_state (cur_chain s1)"
    "scan_state (cur_chain s1) = JTAGScanState_Run" "sw_mode s1 = sw_mode s"
    "JTAG_driver_handle s1 = JTAG_driver_handle s" "active_chain s1 = active_chain s"
    using assms(1) by (simp_all add: s1_def pad_def cur_def c_def jtag_simps)
  have fin: "set_chain (\<lambda>c. shift_done c e) s1 = set_chain (\<lambda>c. shift_done c e) s"
    using assms(1) by (auto simp: s1_def jtag_simps shift_done_def intro!: set_chain_cong)
  have sh: "wire tr @ (if scan_state c = JTAGScanState_Done then replicate pre ir else []) @ data_bits n d
      @ (if cur \<noteq> e then replicate post ir else []) = wire tr @ shift_bits c n d e" for d
    by (simp add: shift_bits_def pre_def post_def ir_def cur_def Let_def)
  note pre' = shift_prefix_ensures [OF assms(1) small(1) pad_def cur_def [unfolded c_def] refl,
      of os tr, folded s1_def c_def]
  note rest' = shift_rest_ensures [OF wf1 small(2) s1(1-3) assms(2), of os e]
  have rest: "ensures (shift_rest os s1 n input output post pad cur e t) (shift_post s n input output e tr)"
    if "wire t = wire tr @ (if scan_state c = JTAGScanState_Done then replicate pre ir else [])"
      "cur = jtag_shf_ir \<or> cur = jtag_shf_dr" for t
    by (rule ensures_conseq [OF rest' [of t]])
      (use that s1(4-6) sh [of "sent_bytes (DIV_ROUND_UP n 8) input"] in
        \<open>simp add: shift_post_def fin c_def [symmetric] cur_def [symmetric] split: prod.splits\<close>)
  have core: "ensures (do {
      (st1, s1, tr1) \<leftarrow> shift_prefix os s (scan_state c = JTAGScanState_Done) pre pad cur tr;
      if st1 \<noteq> ST_OK then Some (ST_ERR, s1, output, tr1)
      else shift_rest os s1 n input output post pad cur e tr1 }) (shift_post s n input output e tr)"
    if sf: "cur = jtag_shf_ir \<or> cur = jtag_shf_dr"
    unfolding ensures_bind
  proof (rule ensures_conseq [OF pre'], clarify)
    fix st t
    assume "st = ST_OK \<or> st = ST_ERR"
      and w: "wire t = wire tr @ (if scan_state c = JTAGScanState_Done then replicate pre ir else [])"
    then show "ensures (if st \<noteq> ST_OK then Some (ST_ERR, s1, output, t)
        else shift_rest os s1 n input output post pad cur e t) (shift_post s n input output e tr)"
      using rest [OF w sf] wf1 s1(4-6) by (auto simp: shift_post_def)
  qed
  consider "\<not> sw_mode s" | "sw_mode s" "cur = jtag_shf_ir \<or> cur = jtag_shf_dr"
    | "sw_mode s" "cur \<noteq> jtag_shf_ir" "cur \<noteq> jtag_shf_dr" by blast
  then show ?thesis
  proof cases
    case 1
    then show ?thesis using JTAG_shift_hw_post [OF assms] by (simp add: JTAG_shift_def)
  next
    case 2
    then have "JTAG_shift os s n input output e tr = do {
      (st1, s1, tr1) \<leftarrow> shift_prefix os s (scan_state c = JTAGScanState_Done) pre pad cur tr;
      if st1 \<noteq> ST_OK then Some (ST_ERR, s1, output, tr1)
      else shift_rest os s1 n input output post pad cur e tr1 }"
      using assms(1) unfolding pre_def post_def pad_def ir_def cur_def c_def
      by (auto simp: JTAG_shift_def jtag_simps Let_def)
    with core [OF 2(2)] show ?thesis by simp
  next
    case 3
    then show ?thesis
      using assms(1) by (auto simp: JTAG_shift_def jtag_simps shift_post_def Let_def cur_def c_def)
  qed
qed

end
