(* ===== verification/Config.thy ===== *)
theory Config
  imports Asd_Protocol
begin

text \<open>
  \<open>include/config.h\<close>, \<open>server/config.c\<close> and the bus tables of \<open>include/asd_common.h\<close>: the configuration
  of a session.  The handlers of the buses share one \<open>bus_config\<close> by pointer and store the selected
  bus in it, so it is threaded through their operations.
\<close>

definition MAX_IxC_BUSES :: nat where "MAX_IxC_BUSES = 8"
definition MAX_SPP_BUSES :: nat where "MAX_SPP_BUSES = 8"

datatype bus_config_type =
  BUS_CONFIG_NOT_ALLOWED | BUS_CONFIG_I2C | BUS_CONFIG_I3C | BUS_CONFIG_SPP | BUS_CONFIG_I3C_DBG

record bus_options =
  opt_enable_i2c :: bool
  opt_enable_i3c :: bool
  opt_enable_spp :: bool
  opt_config_map :: "u8 list"
  opt_config_type :: "bus_config_type list"
  opt_bus :: u8

record bus_config =
  enable_i2c :: bool
  enable_i3c :: bool
  enable_spp :: bool
  default_bus :: u8
  bus_types :: "bus_config_type list"
  bus_map :: "u8 list"

datatype JTAG_DRIVER_MODE = JTAG_DRIVER_MODE_SOFTWARE | JTAG_DRIVER_MODE_HARDWARE

datatype JTAG_CHAIN_SELECT_MODE = JTAG_CHAIN_SELECT_MODE_SINGLE | JTAG_CHAIN_SELECT_MODE_MULTI

record jtag_config =
  jtag_mode :: JTAG_DRIVER_MODE
  chain_mode :: JTAG_CHAIN_SELECT_MODE
  xdp_fail_enable :: bool

record spp_config =
  bulk_send_enable :: bool
  bulk_response_enable :: bool

text \<open>\<open>IPC_LogType_Off\<close> is 5; the two fields of \<open>remote_logging_config\<close> are three bits wide.\<close>

record remote_logging_config =
  logging_level :: "3 word"
  logging_stream :: "3 word"

record timeout_config =
  is_timeout_enabled :: bool
  idle_timeout :: int

record config =
  jtag_cfg :: jtag_config
  spp_cfg :: spp_config
  remote_logging :: remote_logging_config
  ipc_asd_log_map :: "3 word list"
  buscfg :: bus_config
  timecfg :: timeout_config

definition wf_bus_config :: "bus_config \<Rightarrow> bool" where
  "wf_bus_config c \<longleftrightarrow> length (bus_types c) = MAX_IxC_BUSES + MAX_SPP_BUSES
                    \<and> length (bus_map c) = MAX_IxC_BUSES + MAX_SPP_BUSES"

text \<open>\<open>xdp_fail_enable\<close> is not a default: the main program sets it from its command line.\<close>

definition set_config_defaults :: "config \<Rightarrow> bus_options \<Rightarrow> timeout_config \<Rightarrow> STATUS \<times> config" where
  "set_config_defaults cfg opt tmo_cfg =
     (let any = opt_enable_i2c opt \<or> opt_enable_i3c opt \<or> opt_enable_spp opt
      in (ST_OK,
          cfg\<lparr>jtag_cfg := (jtag_cfg cfg)\<lparr>jtag_mode := JTAG_DRIVER_MODE_SOFTWARE,
                                         chain_mode := JTAG_CHAIN_SELECT_MODE_SINGLE\<rparr>,
              remote_logging := \<lparr>logging_level = 5, logging_stream = 0\<rparr>,
              buscfg := \<lparr>enable_i2c = opt_enable_i2c opt, enable_i3c = opt_enable_i3c opt,
                         enable_spp = opt_enable_spp opt, default_bus = opt_bus opt,
                         bus_types = map (\<lambda>i. if any then opt_config_type opt ! i else BUS_CONFIG_NOT_ALLOWED)
                                       [0..<MAX_IxC_BUSES + MAX_SPP_BUSES],
                         bus_map = map (\<lambda>i. if any then opt_config_map opt ! i else 0)
                                       [0..<MAX_IxC_BUSES + MAX_SPP_BUSES]\<rparr>,
              timecfg := tmo_cfg,
              spp_cfg := \<lparr>bulk_send_enable = False, bulk_response_enable = False\<rparr>\<rparr>))"

lemma set_config_defaults_wf: "wf_bus_config (buscfg (snd (set_config_defaults cfg opt tmo)))"
  by (simp add: set_config_defaults_def wf_bus_config_def Let_def)

text \<open>The search for a bus of a given kind among the first \<open>n\<close> entries of the table.\<close>

definition bus_listed :: "bus_config \<Rightarrow> nat \<Rightarrow> bus_config_type \<Rightarrow> u8 \<Rightarrow> bool" where
  "bus_listed c n ty b = list_ex (\<lambda>i. bus_map c ! i = b \<and> bus_types c ! i = ty) [0..<n]"

lemma bus_listed_iff: "bus_listed c n ty b \<longleftrightarrow> (\<exists>i<n. bus_map c ! i = b \<and> bus_types c ! i = ty)"
  by (auto simp: bus_listed_def list_ex_iff)

end
