(* ===== verification/I2c_Msg_Builder.thy ===== *)
theory I2c_Msg_Builder
  imports Asd_Protocol
begin

text \<open>
  \<open>target/i2c_msg_builder.c\<close>: the growing array of I2C messages that one bundle of commands hands to
  the driver.  A heap block of \<open>struct i2c_msg\<close> is the list of the messages counted by \<open>nmsgs\<close>; the
  buffer of a message is the list of its \<open>len\<close> bytes.
\<close>

section \<open>Data\<close>

definition ASD_I2C_BUFFER_LEN :: nat where "ASD_I2C_BUFFER_LEN = 15"

abbreviation I2C_M_RD :: u16 where "I2C_M_RD \<equiv> 1"

record asd_i2c_msg =
  i2c_read :: bool
  force_stop :: bool
  address :: u8
  i2c_length :: u8
  i2c_buffer :: "u8 list"

record i2c_msg =
  addr :: u16
  flags :: u16
  len :: u16
  buf :: "u8 list"

text \<open>\<open>struct i2c_rdwr_ioctl_data\<close>: \<open>msgs\<close> is NULL until the first message is added.\<close>

record i2c_rdwr_ioctl_data =
  nmsgs :: nat
  msgs :: "i2c_msg list option"

record I2C_Msg_Builder =
  msg_set :: "i2c_rdwr_ioctl_data option"

section \<open>Conversions between the two message formats\<close>

definition copy_asd_to_i2c ::
    "os \<Rightarrow> asd_i2c_msg \<Rightarrow> trace \<Rightarrow> (STATUS \<times> i2c_msg option \<times> trace) option" where
  "copy_asd_to_i2c os asd tr =
     (let ln = ucast (i2c_length asd) :: u16;
          fl = (if i2c_read asd then I2C_M_RD else 0);
          (ok, tr1) = malloc os ''__u8'' (unat ln) tr
      in if ok then
           do { bs \<leftarrow> rds (i2c_buffer asd) 0 (unat ln);
                Some (ST_OK, Some \<lparr>addr = ucast (address asd), flags = fl, len = ln, buf = bs\<rparr>, tr1) }
         else Some (ST_ERR, None, tr1))"

text \<open>
  The destination keeps its old bytes beyond the copied ones; at most \<open>ASD_I2C_BUFFER_LEN\<close> bytes are
  copied whatever \<open>len\<close> says.
\<close>

definition copy_i2c_to_asd :: "asd_i2c_msg \<Rightarrow> i2c_msg \<Rightarrow> (STATUS \<times> asd_i2c_msg) option" where
  "copy_i2c_to_asd asd i2c =
     (let n = min (unat (len i2c)) ASD_I2C_BUFFER_LEN
      in do { bs \<leftarrow> rds (buf i2c) 0 n;
              b' \<leftarrow> wrs (i2c_buffer asd) 0 bs;
              Some (ST_OK, asd\<lparr>address := ucast (addr i2c), i2c_length := ucast (len i2c),
                               i2c_read := (flags i2c AND I2C_M_RD = I2C_M_RD),
                               i2c_buffer := b'\<rparr>) })"

section \<open>The builder\<close>

definition I2CMsgBuilder :: "os \<Rightarrow> trace \<Rightarrow> I2C_Msg_Builder option \<times> trace" where
  "I2CMsgBuilder os tr =
     (let (ok, tr1) = malloc os ''I2C_Msg_Builder'' 1 tr in (if ok then Some \<lparr>msg_set = None\<rparr> else None, tr1))"

definition i2c_msg_initialize ::
    "os \<Rightarrow> I2C_Msg_Builder option \<Rightarrow> trace \<Rightarrow> STATUS \<times> I2C_Msg_Builder option \<times> trace" where
  "i2c_msg_initialize os state tr =
     (case state of None \<Rightarrow> (ST_ERR, None, tr)
      | Some b \<Rightarrow>
          (let (ok, tr1) = malloc os ''struct i2c_rdwr_ioctl_data'' 1 tr
           in if ok then (ST_OK, Some (b\<lparr>msg_set := Some \<lparr>nmsgs = 0, msgs = None\<rparr>\<rparr>), tr1)
              else (ST_ERR, Some (b\<lparr>msg_set := None\<rparr>), tr1)))"

definition i2c_msg_reset :: "I2C_Msg_Builder option \<Rightarrow> STATUS \<times> I2C_Msg_Builder option" where
  "i2c_msg_reset state =
     (case state of None \<Rightarrow> (ST_ERR, None)
      | Some b \<Rightarrow> (case msg_set b of None \<Rightarrow> (ST_ERR, Some b)
                  | Some d \<Rightarrow> (ST_OK, Some (b\<lparr>msg_set := Some (d\<lparr>nmsgs := 0, msgs := None\<rparr>)\<rparr>))))"

definition i2c_msg_deinitialize :: "I2C_Msg_Builder option \<Rightarrow> STATUS \<times> I2C_Msg_Builder option" where
  "i2c_msg_deinitialize state =
     (case state of None \<Rightarrow> (ST_ERR, None)
      | Some b \<Rightarrow>
          (case msg_set b of None \<Rightarrow> (ST_OK, Some b)
           | Some d \<Rightarrow>
               (case i2c_msg_reset state of
                  (ST_OK, Some b') \<Rightarrow> (ST_OK, Some (b'\<lparr>msg_set := None\<rparr>))
                | (_, s') \<Rightarrow> (ST_OK, s'))))"

text \<open>
  \<open>i2c_msg_add\<close>: the first message allocates the array, a later one grows it by one element; the
  element counts only when its buffer could be allocated.
\<close>

definition i2c_msg_add ::
    "os \<Rightarrow> I2C_Msg_Builder option \<Rightarrow> asd_i2c_msg \<Rightarrow> trace
       \<Rightarrow> (STATUS \<times> I2C_Msg_Builder option \<times> trace) option" where
  "i2c_msg_add os state msg tr =
     (case state of None \<Rightarrow> Some (ST_ERR, None, tr)
      | Some b \<Rightarrow>
          (case msg_set b of None \<Rightarrow> Some (ST_ERR, Some b, tr)
           | Some d \<Rightarrow>
               (let (ok, tr1) = malloc os ''struct i2c_msg'' (nmsgs d + 1) tr
                in if \<not> ok then
                     Some (ST_ERR,
                           Some (if nmsgs d = 0 then b\<lparr>msg_set := Some (d\<lparr>msgs := None\<rparr>)\<rparr> else b), tr1)
                   else do {
                     let old = (if nmsgs d = 0 then [] else case msgs d of None \<Rightarrow> [] | Some ms \<Rightarrow> ms);
                     (st, m, tr2) \<leftarrow> copy_asd_to_i2c os msg tr1;
                     Some (case m of
                         None \<Rightarrow> (st, Some (b\<lparr>msg_set := Some (d\<lparr>msgs := Some old\<rparr>)\<rparr>), tr2)
                       | Some i \<Rightarrow>
                           (st, Some (b\<lparr>msg_set := Some (d\<lparr>nmsgs := nmsgs d + 1, msgs := Some (old @ [i])\<rparr>)\<rparr>),
                            tr2)) })))"

definition i2c_msg_get_count :: "I2C_Msg_Builder option \<Rightarrow> STATUS \<times> nat option" where
  "i2c_msg_get_count state =
     (case state of None \<Rightarrow> (ST_ERR, None)
      | Some b \<Rightarrow> (case msg_set b of None \<Rightarrow> (ST_ERR, None) | Some d \<Rightarrow> (ST_OK, Some (nmsgs d))))"

definition i2c_msg_get_asd_i2c_msg ::
    "I2C_Msg_Builder option \<Rightarrow> nat \<Rightarrow> asd_i2c_msg \<Rightarrow> (STATUS \<times> asd_i2c_msg) option" where
  "i2c_msg_get_asd_i2c_msg state index msg =
     (case state of None \<Rightarrow> Some (ST_ERR, msg)
      | Some b \<Rightarrow>
          (case msg_set b of None \<Rightarrow> Some (ST_ERR, msg)
           | Some d \<Rightarrow>
               (if nmsgs d > index then
                  (case msgs d of None \<Rightarrow> None
                   | Some ms \<Rightarrow> do { m \<leftarrow> rd ms index; copy_i2c_to_asd msg m })
                else Some (ST_ERR, msg))))"

section \<open>Invariant and abstract contents\<close>

definition wf_asd_i2c :: "asd_i2c_msg \<Rightarrow> bool" where
  "wf_asd_i2c m \<longleftrightarrow> length (i2c_buffer m) = ASD_I2C_BUFFER_LEN \<and> unat (i2c_length m) \<le> ASD_I2C_BUFFER_LEN"

definition wf_i2c_msg :: "i2c_msg \<Rightarrow> bool" where
  "wf_i2c_msg m \<longleftrightarrow> length (buf m) = unat (len m) \<and> unat (len m) \<le> ASD_I2C_BUFFER_LEN
     \<and> unat (addr m) < 256 \<and> (flags m = 0 \<or> flags m = I2C_M_RD)"

text \<open>What a message means: direction, address and the bytes that count.\<close>

definition asd_view :: "asd_i2c_msg \<Rightarrow> bool \<times> u8 \<times> u8 list" where
  "asd_view m = (i2c_read m, address m, take (unat (i2c_length m)) (i2c_buffer m))"

definition i2c_view :: "i2c_msg \<Rightarrow> bool \<times> u8 \<times> u8 list" where
  "i2c_view m = (flags m AND I2C_M_RD = I2C_M_RD, ucast (addr m), buf m)"

definition builder_msgs :: "I2C_Msg_Builder option \<Rightarrow> i2c_msg list" where
  "builder_msgs s =
     (case s of None \<Rightarrow> [] | Some b \<Rightarrow> (case msg_set b of None \<Rightarrow> []
        | Some d \<Rightarrow> (case msgs d of None \<Rightarrow> [] | Some ms \<Rightarrow> ms)))"

definition wf_builder :: "I2C_Msg_Builder option \<Rightarrow> bool" where
  "wf_builder s \<longleftrightarrow>
     (\<exists>b d. s = Some b \<and> msg_set b = Some d \<and> nmsgs d = length (builder_msgs s)
        \<and> (\<forall>m \<in> set (builder_msgs s). wf_i2c_msg m))"

lemma copy_asd_to_i2c_wf:
  assumes "wf_asd_i2c m"
  shows "ensures (copy_asd_to_i2c os m tr) (\<lambda>(st, i, tr').
     case i of None \<Rightarrow> st = ST_ERR | Some i' \<Rightarrow> st = ST_OK \<and> wf_i2c_msg i' \<and> i2c_view i' = asd_view m)"
proof -
  have ln: "unat (ucast (i2c_length m) :: u16) = unat (i2c_length m)"
    by (simp add: unat_ucast_up)
  have ad: "unat (ucast (address m) :: u16) < 256"
    using unat_u8_less [of "address m"] by (simp add: unat_ucast_up)
  show ?thesis
    using assms ad
    by (auto simp: copy_asd_to_i2c_def malloc_def Let_def ucast_up_down ln wf_i2c_msg_def wf_asd_i2c_def i2c_view_def asd_view_def)
qed

lemma copy_i2c_to_asd_wf:
  assumes "wf_i2c_msg i" "length (i2c_buffer m) = ASD_I2C_BUFFER_LEN"
  shows "ensures (copy_i2c_to_asd m i) (\<lambda>(st, m'). st = ST_OK \<and> wf_asd_i2c m' \<and> asd_view m' = i2c_view i)"
proof -
  have n: "min (unat (len i)) ASD_I2C_BUFFER_LEN = unat (len i)" "unat (len i) = length (buf i)"
    and le: "length (buf i) \<le> ASD_I2C_BUFFER_LEN"
    using assms(1) by (auto simp: wf_i2c_msg_def)
  have ln: "unat (ucast (len i) :: u8) = length (buf i)"
    using n le by (simp add: unsigned_ucast_eq take_bit_nat_eq_self ASD_I2C_BUFFER_LEN_def)
  show ?thesis
    using assms(2) ln le unfolding copy_i2c_to_asd_def Let_def n
    by (simp add: wf_asd_i2c_def asd_view_def i2c_view_def)
qed

lemma wf_builderE:
  assumes "wf_builder s"
  obtains b d where "s = Some b" "msg_set b = Some d" "nmsgs d = length (builder_msgs s)"
    "msgs d = None \<and> builder_msgs s = [] \<or> msgs d = Some (builder_msgs s)"
    "\<forall>m \<in> set (builder_msgs s). wf_i2c_msg m"
  using assms by (fastforce simp: wf_builder_def builder_msgs_def split: option.splits)

text \<open>
  Adding a message either appends it, or fails for lack of memory and leaves the contents as they
  were; it never touches memory it does not own.
\<close>

lemma i2c_msg_add_wf:
  assumes "wf_builder s" "wf_asd_i2c m"
  shows "ensures (i2c_msg_add os s m tr) (\<lambda>(st, s', tr'). wf_builder s' \<and>
     (if st = ST_OK then \<exists>i. builder_msgs s' = builder_msgs s @ [i] \<and> i2c_view i = asd_view m
      else st = ST_ERR \<and> builder_msgs s' = builder_msgs s))"
proof -
  from assms(1) obtain b d where s: "s = Some b" "msg_set b = Some d" and n: "nmsgs d = length (builder_msgs s)"
    and ms: "msgs d = None \<and> builder_msgs s = [] \<or> msgs d = Some (builder_msgs s)"
    and wf: "\<forall>m \<in> set (builder_msgs s). wf_i2c_msg m"
    by (rule wf_builderE)
  define q where "q = nmsgs d + 1"
  define old where "old = builder_msgs s"
  have old: "(if nmsgs d = 0 then [] else case msgs d of None \<Rightarrow> [] | Some ms \<Rightarrow> ms) = old"
    using n ms by (auto simp: old_def)
  have z: "nmsgs d = 0 \<Longrightarrow> old = []" and n': "nmsgs d = length old" and wf': "\<forall>m \<in> set old. wf_i2c_msg m"
    using n wf by (simp_all add: old_def)
  have c: "ensures (copy_asd_to_i2c os m (tr @ [Sys_malloc ''struct i2c_msg'' q]))
    (\<lambda>(st, i, tr'). case i of None \<Rightarrow> st = ST_ERR
       | Some i' \<Rightarrow> st = ST_OK \<and> wf_i2c_msg i' \<and> i2c_view i' = asd_view m)"
    by (rule copy_asd_to_i2c_wf [OF assms(2)])
  have q: "q = Suc (length (builder_msgs (Some b)))"
    using n s by (simp add: q_def)
  have bs: "builder_msgs (Some (b\<lparr>msg_set := Some (d\<lparr>nmsgs := k, msgs := Some l\<rparr>)\<rparr>)) = l"
    "builder_msgs (Some (b\<lparr>msg_set := Some (d\<lparr>msgs := Some l\<rparr>)\<rparr>)) = l"
    "builder_msgs (Some (b\<lparr>msg_set := Some (d\<lparr>msgs := None\<rparr>)\<rparr>)) = []" for k l
    by (simp_all add: builder_msgs_def)
  show ?thesis
    unfolding i2c_msg_add_def malloc_def s option.case Let_def prod.case
    using assms(1) z n' wf' c unfolding s old old_def [symmetric] q_def [symmetric]
    by (auto simp: wf_builder_def bs q old_def [unfolded s] elim!: ensures_conseq split: option.splits)
qed

lemma i2c_msg_get_wf:
  assumes "wf_builder s" "length (i2c_buffer m) = ASD_I2C_BUFFER_LEN"
  shows "ensures (i2c_msg_get_asd_i2c_msg s k m) (\<lambda>(st, m').
    if k < length (builder_msgs s) then st = ST_OK \<and> wf_asd_i2c m' \<and> asd_view m' = i2c_view (builder_msgs s ! k)
    else st = ST_ERR \<and> m' = m)"
proof -
  from assms(1) obtain b d where s: "s = Some b" "msg_set b = Some d" and n: "nmsgs d = length (builder_msgs s)"
    and ms: "msgs d = None \<and> builder_msgs s = [] \<or> msgs d = Some (builder_msgs s)"
    and wf: "\<forall>m \<in> set (builder_msgs s). wf_i2c_msg m"
    by (rule wf_builderE)
  show ?thesis
  proof (cases "k < length (builder_msgs s)")
    case True
    with wf have "wf_i2c_msg (builder_msgs s ! k)" by simp
    from copy_i2c_to_asd_wf [OF this assms(2)] True s n ms show ?thesis
      by (auto simp: i2c_msg_get_asd_i2c_msg_def)
  next
    case False
    with s n show ?thesis by (simp add: i2c_msg_get_asd_i2c_msg_def)
  qed
qed

lemma i2c_msg_reset_wf:
  assumes "wf_builder s"
  shows "fst (i2c_msg_reset s) = ST_OK" "wf_builder (snd (i2c_msg_reset s))"
    "builder_msgs (snd (i2c_msg_reset s)) = []"
  using assms by (auto simp: wf_builder_def i2c_msg_reset_def builder_msgs_def)

lemma i2c_msg_initialize_wf:
  "i2c_msg_initialize os (Some b) tr = (ST_OK, s', tr') \<Longrightarrow> wf_builder s' \<and> builder_msgs s' = []"
  by (auto simp: i2c_msg_initialize_def malloc_def wf_builder_def builder_msgs_def split: if_splits)

end
