(* ===== verification/I2c_Handler.thy ===== *)
theory I2c_Handler
  imports Config I2c_Msg_Builder
begin

text \<open>
  \<open>target/i2c_handler.c\<close>: selecting, locking and driving an I2C bus.  The handler's pointer to the
  shared \<open>bus_config\<close> is the argument \<open>cfg\<close>, returned by the operations that store into it.
\<close>

section \<open>Operations\<close>

abbreviation UNINITIALIZED_I2C_DRIVER_HANDLE :: int where "UNINITIALIZED_I2C_DRIVER_HANDLE \<equiv> - 1"

record I2C_Handler =
  i2c_bus :: u8
  i2c_driver_handle :: int

text \<open>\<open>malloc\<close> leaves \<open>i2c_bus\<close> as it found it: \<open>garbage\<close>.\<close>

definition I2CHandler :: "os \<Rightarrow> u8 \<Rightarrow> trace \<Rightarrow> I2C_Handler option \<times> trace" where
  "I2CHandler os garbage tr =
     (let (ok, tr1) = malloc os ''I2C_Handler'' 1 tr
      in (if ok then Some \<lparr>i2c_bus = garbage, i2c_driver_handle = UNINITIALIZED_I2C_DRIVER_HANDLE\<rparr>
          else None, tr1))"

definition i2c_enabled :: "bus_config \<Rightarrow> bool" where
  "i2c_enabled cfg = enable_i2c cfg"

definition i2c_open_driver :: "os \<Rightarrow> I2C_Handler \<Rightarrow> u8 \<Rightarrow> trace \<Rightarrow> STATUS \<times> I2C_Handler \<times> trace" where
  "i2c_open_driver os state bus tr =
     (let (fd, tr1) = sys os (Sys_open (''/dev/i2c-'' @ dec (uint bus))) tr
      in (if fd = - 1 then ST_ERR else ST_OK,
          state\<lparr>i2c_bus := bus, i2c_driver_handle := fd\<rparr>, tr1))"

definition i2c_close_driver :: "os \<Rightarrow> I2C_Handler \<Rightarrow> trace \<Rightarrow> I2C_Handler \<times> trace" where
  "i2c_close_driver os state tr =
     (if i2c_driver_handle state \<noteq> UNINITIALIZED_I2C_DRIVER_HANDLE then
        (state\<lparr>i2c_driver_handle := UNINITIALIZED_I2C_DRIVER_HANDLE\<rparr>,
         snd (sys os (Sys_close (i2c_driver_handle state)) tr))
      else (state, tr))"

definition i2c_bus_allowed :: "bus_config \<Rightarrow> u8 \<Rightarrow> bool" where
  "i2c_bus_allowed cfg bus = bus_listed cfg MAX_IxC_BUSES BUS_CONFIG_I2C bus"

definition i2c_bus_select ::
    "os \<Rightarrow> bus_config \<Rightarrow> I2C_Handler \<Rightarrow> u8 \<Rightarrow> trace \<Rightarrow> STATUS \<times> bus_config \<times> I2C_Handler \<times> trace" where
  "i2c_bus_select os cfg state bus tr =
     (if \<not> i2c_enabled cfg then (ST_ERR, cfg, state, tr)
      else if bus = i2c_bus state then (ST_OK, cfg, state, tr)
      else if i2c_bus_allowed cfg bus then
        (let (s1, tr1) = i2c_close_driver os state tr;
             (st, s2, tr2) = i2c_open_driver os s1 bus tr1
         in (st, if st = ST_OK then cfg\<lparr>default_bus := bus\<rparr> else cfg, s2, tr2))
      else (ST_ERR, cfg, state, tr))"

definition i2c_initialize ::
    "os \<Rightarrow> bus_config \<Rightarrow> I2C_Handler \<Rightarrow> trace \<Rightarrow> STATUS \<times> bus_config \<times> I2C_Handler \<times> trace" where
  "i2c_initialize os cfg state tr =
     (if i2c_enabled cfg then i2c_bus_select os cfg state (default_bus cfg) tr else (ST_ERR, cfg, state, tr))"

definition i2c_deinitialize :: "os \<Rightarrow> I2C_Handler \<Rightarrow> trace \<Rightarrow> STATUS \<times> I2C_Handler \<times> trace" where
  "i2c_deinitialize os state tr = (let (s1, tr1) = i2c_close_driver os state tr in (ST_OK, s1, tr1))"

text \<open>\<open>op\<close> is \<open>LOCK_EX\<close> when true and \<open>LOCK_UN\<close> otherwise.\<close>

definition i2c_bus_flock :: "os \<Rightarrow> I2C_Handler \<Rightarrow> u8 \<Rightarrow> bool \<Rightarrow> trace \<Rightarrow> STATUS \<times> I2C_Handler \<times> trace" where
  "i2c_bus_flock os state bus op tr =
     (let (st, s2, tr2) =
            (if bus \<noteq> i2c_bus state then
               (let (s1, tr1) = i2c_close_driver os state tr in i2c_open_driver os s1 bus tr1)
             else (ST_OK, state, tr))
      in if st = ST_OK then
           (let (r, tr3) = sys os (Sys_flock (i2c_driver_handle s2) op) tr2
            in (if r \<noteq> 0 then ST_ERR else ST_OK, s2, tr3))
         else (st, s2, tr2))"

definition i2c_set_sclk :: "bus_config \<Rightarrow> u16 \<Rightarrow> STATUS" where
  "i2c_set_sclk cfg sclk = (if \<not> i2c_enabled cfg then ST_ERR else ST_OK)"

text \<open>The driver stores into the buffer of every message that reads.\<close>

fun i2c_fill :: "i2c_msg list \<Rightarrow> u8 list list \<Rightarrow> i2c_msg list" where
  "i2c_fill [] ds = []"
| "i2c_fill (m # ms) ds =
     (if flags m AND I2C_M_RD = I2C_M_RD
      then m\<lparr>buf := overlay (buf m) (case ds of [] \<Rightarrow> [] | d # _ \<Rightarrow> d)\<rparr> else m) # i2c_fill ms (tl ds)"

definition i2c_read_write ::
    "os \<Rightarrow> bus_config \<Rightarrow> I2C_Handler \<Rightarrow> i2c_rdwr_ioctl_data option \<Rightarrow> trace
       \<Rightarrow> STATUS \<times> i2c_rdwr_ioctl_data option \<times> trace" where
  "i2c_read_write os cfg state ms_set tr =
     (case ms_set of None \<Rightarrow> (ST_ERR, None, tr)
      | Some d \<Rightarrow>
          (if \<not> i2c_enabled cfg then (ST_ERR, ms_set, tr)
           else let ms = (case msgs d of None \<Rightarrow> [] | Some ms \<Rightarrow> ms);
                    call = Sys_i2c_rdwr (i2c_driver_handle state)
                             (map (\<lambda>m. (addr m, flags m AND I2C_M_RD = I2C_M_RD, buf m)) ms);
                    r = os tr call
                in (if fst r \<noteq> int (nmsgs d) then ST_ERR else ST_OK,
                    Some (d\<lparr>msgs := map_option (\<lambda>ms. i2c_fill ms (snd r)) (msgs d)\<rparr>), tr @ [call])))"

section \<open>Facts\<close>

lemmas i2c_handler_defs =
  i2c_bus_select_def i2c_bus_flock_def i2c_close_driver_def i2c_open_driver_def i2c_enabled_def sys_def

text \<open>A driver call fills read buffers in place: the shape of every message survives.\<close>

lemma i2c_fill_shape:
  "length (i2c_fill ms ds) = length ms \<and>
   (\<forall>i<length ms. addr (i2c_fill ms ds ! i) = addr (ms ! i) \<and> flags (i2c_fill ms ds ! i) = flags (ms ! i) \<and>
      len (i2c_fill ms ds ! i) = len (ms ! i) \<and> length (buf (i2c_fill ms ds ! i)) = length (buf (ms ! i)))"
proof (induction ms ds rule: i2c_fill.induct)
  case (2 m ms ds)
  show ?case
  proof (intro conjI allI impI)
    fix i assume "i < length (m # ms)"
    then show "addr (i2c_fill (m # ms) ds ! i) = addr ((m # ms) ! i)"
      "flags (i2c_fill (m # ms) ds ! i) = flags ((m # ms) ! i)"
      "len (i2c_fill (m # ms) ds ! i) = len ((m # ms) ! i)"
      "length (buf (i2c_fill (m # ms) ds ! i)) = length (buf ((m # ms) ! i))"
      using 2 by (cases i; simp)+
  qed (use 2 in simp)
qed simp

lemma i2c_fill_wf:
  assumes "\<forall>m \<in> set ms. wf_i2c_msg m"
  shows "\<forall>m \<in> set (i2c_fill ms ds). wf_i2c_msg m"
  using assms i2c_fill_shape [of ms ds] by (simp add: all_set_conv_all_nth wf_i2c_msg_def)

lemma filled_msgs:
  assumes wf: "wf_builder (Some b)" and d: "msg_set b = Some d"
    and set': "set' = msg_set b \<or> (\<exists>ds. set' = Some (d\<lparr>msgs := map_option (\<lambda>ms. i2c_fill ms ds) (msgs d)\<rparr>))"
  shows "wf_builder (Some (b\<lparr>msg_set := set'\<rparr>)) \<and>
    (\<exists>ms. ms = builder_msgs (Some (b\<lparr>msg_set := set'\<rparr>)) \<and>
       (ms = builder_msgs (Some b) \<or> (\<exists>ds. ms = i2c_fill (builder_msgs (Some b)) ds)))"
proof (cases "set' = msg_set b")
  case True
  then have "b\<lparr>msg_set := set'\<rparr> = b" by simp
  with wf show ?thesis by simp
next
  case False
  then obtain ds where filled: "set' = Some (d\<lparr>msgs := map_option (\<lambda>ms. i2c_fill ms ds) (msgs d)\<rparr>)"
    using set' by blast
  have n: "nmsgs d = length (builder_msgs (Some b))" "\<forall>m \<in> set (builder_msgs (Some b)). wf_i2c_msg m"
    using wf d by (auto simp: wf_builder_def)
  have m: "builder_msgs (Some (b\<lparr>msg_set := set'\<rparr>)) = i2c_fill (builder_msgs (Some b)) ds"
    using d by (simp add: filled builder_msgs_def split: option.splits)
  have "wf_builder (Some (b\<lparr>msg_set := set'\<rparr>))"
    using i2c_fill_wf [OF n(2)] i2c_fill_shape [of "builder_msgs (Some b)" ds] n(1)
    by (simp add: wf_builder_def m [unfolded filled] filled)
  with m show ?thesis by blast
qed

lemma i2c_read_write_msgs:
  assumes wf: "wf_builder (Some b)" and op: "i2c_read_write os cfg h (msg_set b) tr = (st, set', tr')"
  shows "wf_builder (Some (b\<lparr>msg_set := set'\<rparr>)) \<and>
    (\<exists>ms. ms = builder_msgs (Some (b\<lparr>msg_set := set'\<rparr>)) \<and>
       (ms = builder_msgs (Some b) \<or> (\<exists>ds. ms = i2c_fill (builder_msgs (Some b)) ds)))"
proof -
  obtain d where d: "msg_set b = Some d" using wf by (auto simp: wf_builder_def)
  from op d have "set' = msg_set b \<or> (\<exists>ds. set' = Some (d\<lparr>msgs := map_option (\<lambda>ms. i2c_fill ms ds) (msgs d)\<rparr>))"
    by (auto simp: i2c_read_write_def Let_def split: if_splits)
  then show ?thesis
    using filled_msgs [OF wf d] by blast
qed

text \<open>
  The bus number is stored before the device is opened, so a second request for a bus whose device
  could not be opened is answered \<open>ST_OK\<close> although no device is open.
\<close>

lemma i2c_reselect_after_failed_open:
  assumes "enable_i2c cfg" "i2c_bus_allowed cfg bus" "bus \<noteq> i2c_bus h"
    and "i2c_bus_select os cfg h bus tr = (ST_ERR, cfg', h', tr')"
  shows "i2c_driver_handle h' = - 1" "i2c_bus_select os cfg' h' bus tr' = (ST_OK, cfg', h', tr')"
  using assms by (auto simp: i2c_handler_defs Let_def split: if_splits)

text \<open>A bus that is not selected and not listed is refused without touching the device.\<close>

lemma i2c_bus_select_refused:
  assumes "\<not> i2c_bus_allowed cfg bus" "bus \<noteq> i2c_bus h"
  shows "i2c_bus_select os cfg h bus tr = (ST_ERR, cfg, h, tr)"
  using assms by (simp add: i2c_bus_select_def)

end
