(* ===== verification/Dbus_Helper.thy ===== *)
theory Dbus_Helper
  imports Asd_Prelude
begin

text \<open>
  The connection handle and the power control of \<open>target/dbus_helper.c\<close>.  The calls of sd-bus are
  answered by the environment; building and posting one property request (the sequence of
  \<open>sd_bus_message\<close> calls of \<open>dbus_call_set_property_async\<close>, each skipped once one has failed) is one
  call, named by the property value it sends.  The configuration queries to the entity manager are
  calls of the environment, see \<open>dbus_call\<close>.
\<close>

abbreviation STATE_UNKNOWN :: int where "STATE_UNKNOWN \<equiv> - 1"
abbreviation STATE_OFF :: int where "STATE_OFF \<equiv> 0"
abbreviation STATE_ON :: int where "STATE_ON \<equiv> 1"

record Dbus_Handle =
  bus_open :: bool
  dbus_fd :: int
  power_state :: int

definition POWER_ON_PROPERTY_CHASSIS :: string where
  "POWER_ON_PROPERTY_CHASSIS = ''xyz.openbmc_project.State.Chassis.PowerState.On''"

definition dbus_helper :: "os \<Rightarrow> trace \<Rightarrow> Dbus_Handle option \<times> trace" where
  "dbus_helper os tr =
     (let (ok, tr1) = malloc os ''Dbus_Handle'' 1 tr
      in (if ok then Some \<lparr>bus_open = False, dbus_fd = - 1, power_state = STATE_UNKNOWN\<rparr> else None, tr1))"

text \<open>Each operation answers \<open>ST_ERR\<close> for NULL and for a handle without a connection.\<close>

definition dbus_deinitialize :: "os \<Rightarrow> Dbus_Handle \<Rightarrow> trace \<Rightarrow> STATUS \<times> Dbus_Handle \<times> trace" where
  "dbus_deinitialize os state tr =
     (if bus_open state then
        (let (_, tr1) = sys os (Sys_dbus ''sd_bus_flush_close_unrefp'' []) tr;
             (c, tr2) = sys os (Sys_close (dbus_fd state)) tr1
         in (if c = 0 then ST_OK else ST_ERR,
             \<lparr>bus_open = False, dbus_fd = (if c = 0 then - 1 else dbus_fd state), power_state = STATE_UNKNOWN\<rparr>, tr2))
      else (ST_ERR, state, tr))"

text \<open>The cached state is used when known; the service's answer is compared by prefix.\<close>

definition dbus_get_powerstate :: "os \<Rightarrow> Dbus_Handle \<Rightarrow> int \<Rightarrow> trace \<Rightarrow> STATUS \<times> int \<times> trace" where
  "dbus_get_powerstate os state old tr =
     (if bus_open state then
        (if power_state state \<noteq> STATE_UNKNOWN then (ST_OK, power_state state, tr)
         else let call = Sys_dbus ''CurrentPowerState'' []; r = os tr call
              in if fst r < 0 then (ST_ERR, old, tr @ [call])
                 else (ST_OK, if take (length POWER_ON_PROPERTY_CHASSIS) (sys_data r) = bytes_of POWER_ON_PROPERTY_CHASSIS
                              then STATE_ON else STATE_OFF, tr @ [call]))
      else (ST_ERR, old, tr))"

definition dbus_initialize :: "os \<Rightarrow> Dbus_Handle \<Rightarrow> trace \<Rightarrow> STATUS \<times> Dbus_Handle \<times> trace" where
  "dbus_initialize os state tr =
     (let (r, tr1) = sys os (Sys_dbus ''sd_bus_open_system'' []) tr
      in if r < 0 then (ST_ERR, state, tr1)
         else let (fd, tr2) = sys os (Sys_dbus ''sd_bus_get_fd'' []) tr1;
                  s1 = state\<lparr>bus_open := True, dbus_fd := fd\<rparr>;
                  fail = (\<lambda>t. let (_, s, t') = dbus_deinitialize os s1 t in (ST_ERR, s, t'))
              in if fd < 0 then fail tr2
                 else let (m, tr3) = sys os (Sys_dbus ''sd_bus_add_match'' []) tr2
                      in if m < 0 then fail tr3
                         else let (st, v, tr4) = dbus_get_powerstate os s1 (power_state s1) tr3
                              in if st = ST_ERR then fail tr4 else (st, s1\<lparr>power_state := v\<rparr>, tr4))"

definition dbus_call_set_property_async :: "os \<Rightarrow> string \<Rightarrow> trace \<Rightarrow> STATUS \<times> trace" where
  "dbus_call_set_property_async os argument tr =
     (let (r, tr1) = sys os (Sys_dbus argument []) tr in (if r \<ge> 0 then ST_OK else ST_ERR, tr1))"

definition dbus_power_reset :: "os \<Rightarrow> Dbus_Handle \<Rightarrow> trace \<Rightarrow> STATUS \<times> trace" where
  "dbus_power_reset os state tr =
     (if bus_open state
      then dbus_call_set_property_async os ''xyz.openbmc_project.State.Host.Transition.ForceWarmReboot'' tr
      else (ST_ERR, tr))"

definition dbus_power_off :: "os \<Rightarrow> Dbus_Handle \<Rightarrow> trace \<Rightarrow> STATUS \<times> trace" where
  "dbus_power_off os state tr =
     (if bus_open state
      then dbus_call_set_property_async os ''xyz.openbmc_project.State.Chassis.Transition.Off'' tr
      else (ST_ERR, tr))"

definition dbus_power_on :: "os \<Rightarrow> Dbus_Handle \<Rightarrow> trace \<Rightarrow> STATUS \<times> trace" where
  "dbus_power_on os state tr =
     (if bus_open state
      then dbus_call_set_property_async os ''xyz.openbmc_project.State.Chassis.Transition.On'' tr
      else (ST_ERR, tr))"

text \<open>
  The rounds of \<open>sd_bus_process\<close>, repeated while it reports progress, are one call: it is negative
  when the last round failed, and carries the power state when the match callback stored one.  The
  answer says whether the power came (\<open>Some True\<close>) or went.
\<close>

definition dbus_process_event :: "os \<Rightarrow> Dbus_Handle \<Rightarrow> trace \<Rightarrow> STATUS \<times> bool option \<times> Dbus_Handle \<times> trace" where
  "dbus_process_event os state tr =
     (let call = Sys_dbus ''sd_bus_process'' []; r = os tr call;
          s1 = (if snd r = [] then state else state\<lparr>power_state := sys_int r\<rparr>)
      in if fst r < 0 then (ST_ERR, None, s1, tr @ [call])
         else (ST_OK, if power_state s1 \<noteq> power_state state then Some (power_state s1 = STATE_ON) else None,
               s1, tr @ [call]))"

text \<open>A handle that failed to initialise holds no connection, and one that did holds a descriptor.\<close>

lemma dbus_initialize_state:
  assumes "dbus_initialize os state tr = (st, s', tr')" "\<not> bus_open state"
  shows "bus_open s' \<longleftrightarrow> st = ST_OK" "st = ST_OK \<Longrightarrow> 0 \<le> dbus_fd s'"
  using assms
  by (auto simp: dbus_initialize_def dbus_deinitialize_def dbus_get_powerstate_def sys_def Let_def
      split: if_splits prod.splits)

end
