(* ===== verification/I3c_Handler.thy ===== *)
theory I3c_Handler
  imports I2c_Handler Dbus_Helper
begin

text \<open>
  \<open>target/i3c_handler.c\<close>: the I3C buses behind the same message format as I2C.  The bus is shared
  with the CPU: ownership is requested from, and checked with, a D-Bus service before the devices are
  locked.  The map from platform bus to device directory is read from \<open>/sys/bus/i3c/devices\<close>.
\<close>

section \<open>State\<close>

definition i3C_MAX_DEV_HANDLERS :: nat where "i3C_MAX_DEV_HANDLERS = 16"
abbreviation I3C_BUS_ADDRESS_RESERVED :: u8 where "I3C_BUS_ADDRESS_RESERVED \<equiv> 127"
abbreviation UNINITIALIZED_I3C_DRIVER_HANDLE :: int where "UNINITIALIZED_I3C_DRIVER_HANDLE \<equiv> - 1"
abbreviation UNINITIALIZED_SPD_BUS_MAP_ENTRY :: int where "UNINITIALIZED_SPD_BUS_MAP_ENTRY \<equiv> - 1"
abbreviation UNINITIALIZED_I3C_BUS_TOKEN :: int where "UNINITIALIZED_I3C_BUS_TOKEN \<equiv> - 1"

record I3C_Handler =
  i3c_bus :: u8
  i3c_dbus :: "Dbus_Handle option"
  bus_token :: int
  spd_map :: "int list"
  i3c_driver_handlers :: "int list"

definition wf_i3c :: "I3C_Handler \<Rightarrow> bool" where
  "wf_i3c s \<longleftrightarrow> length (spd_map s) = MAX_IxC_BUSES \<and> length (i3c_driver_handlers s) = i3C_MAX_DEV_HANDLERS"

definition I3CHandler :: "os \<Rightarrow> u8 \<Rightarrow> int list \<Rightarrow> trace \<Rightarrow> I3C_Handler option \<times> trace" where
  "I3CHandler os garbage garbage_map tr =
     (let (ok, tr1) = malloc os ''I3C_Handler'' 1 tr
      in if \<not> ok then (None, tr1)
         else let (dbus, tr2) = dbus_helper os tr1
              in (if dbus = None then None
                  else Some \<lparr>i3c_bus = garbage, i3c_dbus = dbus, bus_token = UNINITIALIZED_I3C_BUS_TOKEN,
                             spd_map = garbage_map,
                             i3c_driver_handlers = replicate i3C_MAX_DEV_HANDLERS UNINITIALIZED_I3C_DRIVER_HANDLE\<rparr>,
                  tr2))"

section \<open>The bus map\<close>

definition I3C_SYS_BUS_DEVICES :: string where "I3C_SYS_BUS_DEVICES = ''/sys/bus/i3c/devices/''"

definition i3c_path :: "string \<Rightarrow> string \<Rightarrow> string" where
  "i3c_path bus_name leaf = take 255 (I3C_SYS_BUS_DEVICES @ bus_name @ leaf)"

definition is_spd_bus :: "os \<Rightarrow> string \<Rightarrow> trace \<Rightarrow> STATUS \<times> bool \<times> trace" where
  "is_spd_bus os bus_name tr =
     (let (fd, tr1) = sys os (Sys_open (i3c_path bus_name ''/of_node/jdec-spd'')) tr
      in if fd < 0 then (ST_ERR, False, tr1)
         else let (_, tr2) = sys os (Sys_close fd) tr1;
                  (hub, tr3) = sys os (Sys_open (i3c_path bus_name ''/of_node/hub@70,3C000000100'')) tr2
              in if hub < 0 then (ST_OK, True, tr3) else (ST_OK, False, snd (sys os (Sys_close hub) tr3)))"

definition get_bound_index :: "string \<Rightarrow> int option" where
  "get_bound_index bus_name = strtol_whole (drop 4 bus_name)"

definition plat_of_name :: "u8 list \<Rightarrow> u8 option" where
  "plat_of_name bs =
     (let s = string_of (takeWhile (\<lambda>b. b \<noteq> 0) bs)
      in if \<not> has_numbered ''i3c'' s then None
         else (case strtol_whole (drop 3 s) of None \<Rightarrow> None
               | Some v \<Rightarrow> if v < int MAX_IxC_BUSES then Some (of_int v) else None))"

text \<open>
  The file is sought to its end for its length, read whole when shorter than the buffer, and its last
  byte overwritten by NUL; for an empty file that store is in front of the buffer.  The outer option
  is undefined behaviour, the inner one the index.
\<close>

definition get_platform_index :: "os \<Rightarrow> string \<Rightarrow> trace \<Rightarrow> (u8 option \<times> trace) option" where
  "get_platform_index os bus_name tr =
     (let (fd, tr1) = sys os (Sys_open (i3c_path bus_name ''/of_node/name'')) tr
      in if fd < 0 then Some (None, tr1)
         else let (len, tr2) = sys os (Sys_seek_end fd) tr1
              in if len < 0 then Some (None, snd (sys os (Sys_close fd) tr2))
                 else let (r2, tr3) = sys os (Sys_lseek fd) tr2
                      in if r2 < 0 then Some (None, snd (sys os (Sys_close fd) tr3))
                         else if len \<ge> 256 then Some (None, snd (sys os (Sys_close fd) tr3))
                         else let call = Sys_read fd (nat len); r = os tr3 call; tr4 = tr3 @ [call];
                                  tr5 = snd (sys os (Sys_close fd) tr4);
                                  bs = take (nat len) (sys_data r)
                              in if length bs \<noteq> nat len then Some (None, tr5)
                                 else if len = 0 then None
                                 else Some (plat_of_name (take (nat len - 1) bs), tr5))"

text \<open>One round per directory entry; the status of a skipped entry does not survive the loop.\<close>

fun spd_scan :: "os \<Rightarrow> u8 list list \<Rightarrow> int list \<Rightarrow> nat \<Rightarrow> trace \<Rightarrow> (int list \<times> nat \<times> trace) option" where
  "spd_scan os [] m n tr = Some (m, n, tr)"
| "spd_scan os (e # es) m n tr =
     (let name = string_of (tl e)
      in if e = [] \<or> hd e = 4 \<or> \<not> has_numbered ''i3c-'' name then spd_scan os es m n tr
         else let (st, found, tr1) = is_spd_bus os name tr
              in if st \<noteq> ST_OK \<or> \<not> found then spd_scan os es m n tr1
                 else case get_bound_index name of None \<Rightarrow> spd_scan os es m n tr1
                 | Some bound \<Rightarrow> do {
                     (plat, tr2) \<leftarrow> get_platform_index os name tr1;
                     case plat of None \<Rightarrow> spd_scan os es m n tr2
                     | Some p \<Rightarrow> (if unat p < MAX_IxC_BUSES
                                  then do { m' \<leftarrow> wr m (unat p) bound; spd_scan os es m' (Suc n) tr2 }
                                  else spd_scan os es m n tr2) })"

definition create_spd_mapping :: "os \<Rightarrow> I3C_Handler \<Rightarrow> trace \<Rightarrow> (STATUS \<times> I3C_Handler \<times> trace) option" where
  "create_spd_mapping os state tr = do {
     let m = replicate MAX_IxC_BUSES UNINITIALIZED_SPD_BUS_MAP_ENTRY;
     let call = Sys_readdir I3C_SYS_BUS_DEVICES;
     let r = os tr call;
     if fst r < 0 then Some (ST_ERR, state\<lparr>spd_map := m\<rparr>, tr @ [call])
     else do {
       (m', n, tr1) \<leftarrow> spd_scan os (snd r) m 0 (tr @ [call]);
       Some (if n mod 256 > 0 then ST_OK else ST_ERR, state\<lparr>spd_map := m'\<rparr>, tr1) } }"

section \<open>Devices and buses\<close>

definition i3c_device_drivers_opened :: "I3C_Handler \<Rightarrow> bool" where
  "i3c_device_drivers_opened state = list_ex (\<lambda>fd. fd \<noteq> UNINITIALIZED_I3C_DRIVER_HANDLE) (i3c_driver_handlers state)"

definition i3c_dev_name :: "int \<Rightarrow> nat \<Rightarrow> string" where
  "i3c_dev_name m i = ''/dev/i3c-'' @ dec m @ ''-3c00000000'' @ [char_of (if i < 10 then 48 + i else 87 + i)]"

fun open_i3c_devs :: "os \<Rightarrow> int \<Rightarrow> nat list \<Rightarrow> trace \<Rightarrow> int list \<times> trace" where
  "open_i3c_devs os m [] tr = ([], tr)"
| "open_i3c_devs os m (i # is) tr =
     (let (fd, tr1) = sys os (Sys_open (i3c_dev_name m i)) tr; (fds, tr2) = open_i3c_devs os m is tr1
      in (fd # fds, tr2))"

definition i3c_open_device_drivers ::
    "os \<Rightarrow> I3C_Handler \<Rightarrow> u8 \<Rightarrow> trace \<Rightarrow> (STATUS \<times> I3C_Handler \<times> trace) option" where
  "i3c_open_device_drivers os state bus tr =
     (if unat bus \<ge> MAX_IxC_BUSES then Some (ST_ERR, state, tr)
      else do {
        (st, s1, tr1) \<leftarrow> create_spd_mapping os state tr;
        if st \<noteq> ST_OK then Some (ST_ERR, s1, tr1)
        else do {
          m \<leftarrow> rd (spd_map s1) (unat bus);
          if m = UNINITIALIZED_SPD_BUS_MAP_ENTRY then Some (ST_ERR, s1, tr1)
          else do {
            let (fds, tr2) = open_i3c_devs os m [0..<i3C_MAX_DEV_HANDLERS] tr1;
            let s2 = s1\<lparr>i3c_driver_handlers := fds, i3c_bus := bus\<rparr>;
            Some (if i3c_device_drivers_opened s2 then ST_OK else ST_ERR, s2, tr2) } } })"

fun close_i3c_devs :: "os \<Rightarrow> int list \<Rightarrow> trace \<Rightarrow> trace" where
  "close_i3c_devs os [] tr = tr"
| "close_i3c_devs os (fd # fds) tr =
     close_i3c_devs os fds (if fd \<noteq> UNINITIALIZED_I3C_DRIVER_HANDLE then snd (sys os (Sys_close fd) tr) else tr)"

definition i3c_close_device_drivers :: "os \<Rightarrow> I3C_Handler \<Rightarrow> trace \<Rightarrow> I3C_Handler \<times> trace" where
  "i3c_close_device_drivers os state tr =
     (state\<lparr>i3c_driver_handlers := map (\<lambda>_. UNINITIALIZED_I3C_DRIVER_HANDLE) (i3c_driver_handlers state)\<rparr>,
      close_i3c_devs os (i3c_driver_handlers state) tr)"

definition i3c_bus_allowed :: "bus_config \<Rightarrow> u8 \<Rightarrow> bool" where
  "i3c_bus_allowed cfg bus = bus_listed cfg MAX_IxC_BUSES BUS_CONFIG_I3C bus"

definition i3c_bus_select ::
    "os \<Rightarrow> bus_config \<Rightarrow> I3C_Handler \<Rightarrow> u8 \<Rightarrow> trace \<Rightarrow> (STATUS \<times> bus_config \<times> I3C_Handler \<times> trace) option" where
  "i3c_bus_select os cfg state bus tr =
     (if \<not> enable_i3c cfg then Some (ST_ERR, cfg, state, tr)
      else if bus = i3c_bus state then
        (if i3c_device_drivers_opened state then Some (ST_OK, cfg, state, tr)
         else do { (st, s1, tr1) \<leftarrow> i3c_open_device_drivers os state bus tr; Some (st, cfg, s1, tr1) })
      else if i3c_bus_allowed cfg bus then do {
        let (s1, tr1) = i3c_close_device_drivers os state tr;
        (st, s2, tr2) \<leftarrow> i3c_open_device_drivers os s1 bus tr1;
        Some (st, if st = ST_OK then cfg\<lparr>default_bus := bus\<rparr> else cfg, s2, tr2) }
      else Some (ST_ERR, cfg, state, tr))"
definition i3c_initialize :: "os \<Rightarrow> bus_config \<Rightarrow> I3C_Handler \<Rightarrow> trace \<Rightarrow> STATUS \<times> I3C_Handler \<times> trace" where
  "i3c_initialize os cfg state tr =
     (if \<not> enable_i3c cfg then (ST_ERR, state, tr)
      else case i3c_dbus state of None \<Rightarrow> (ST_ERR, state\<lparr>i3c_bus := I3C_BUS_ADDRESS_RESERVED\<rparr>, tr)
      | Some d \<Rightarrow>
          (let (st, d1, tr1) = dbus_initialize os d tr
           in if st = ST_OK then
                (let (fd, tr2) = sys os (Sys_dbus ''sd_bus_get_fd'' []) tr1
                 in (if fd < 0 then ST_ERR else ST_OK,
                     state\<lparr>i3c_dbus := Some (d1\<lparr>dbus_fd := fd\<rparr>), i3c_bus := I3C_BUS_ADDRESS_RESERVED\<rparr>, tr2))
              else (st, state\<lparr>i3c_dbus := Some d1, i3c_bus := I3C_BUS_ADDRESS_RESERVED\<rparr>, tr1)))"

definition i3c_deinitialize :: "os \<Rightarrow> I3C_Handler \<Rightarrow> trace \<Rightarrow> STATUS \<times> I3C_Handler \<times> trace" where
  "i3c_deinitialize os state tr =
     (let (s1, tr1) = i3c_close_device_drivers os state tr;
          (st, s2, tr2) =
            (if bus_token s1 \<noteq> UNINITIALIZED_I3C_BUS_TOKEN then
               (let (st, _, t) = dbus_call os ''dbus_rel_i3c_ownership'' [bus_token s1] 0 tr1
                in (st, if st = ST_OK then s1\<lparr>bus_token := UNINITIALIZED_I3C_BUS_TOKEN\<rparr> else s1, t))
             else (ST_OK, s1, tr1));
          tr3 = (case i3c_dbus s2 of None \<Rightarrow> tr2 | Some d \<Rightarrow> snd (snd (dbus_deinitialize os d tr2)))
      in (st, s2\<lparr>i3c_dbus := None\<rparr>, tr3))"

section \<open>Locking and transfers\<close>

text \<open>Unlike the other handlers, a device that refuses the lock does not end the loop.\<close>

fun flock_i3c_devs :: "os \<Rightarrow> int list \<Rightarrow> bool \<Rightarrow> STATUS \<Rightarrow> trace \<Rightarrow> STATUS \<times> trace" where
  "flock_i3c_devs os [] op st tr = (st, tr)"
| "flock_i3c_devs os (fd # fds) op st tr =
     (if fd = UNINITIALIZED_I3C_DRIVER_HANDLE then flock_i3c_devs os fds op st tr
      else let (r, tr1) = sys os (Sys_flock fd op) tr in flock_i3c_devs os fds op (if r \<noteq> 0 then ST_ERR else st) tr1)"

definition i3c_bus_flock_dev_handlers ::
    "os \<Rightarrow> bus_config \<Rightarrow> I3C_Handler \<Rightarrow> u8 \<Rightarrow> bool \<Rightarrow> trace \<Rightarrow> (STATUS \<times> bus_config \<times> I3C_Handler \<times> trace) option" where
  "i3c_bus_flock_dev_handlers os cfg state bus op tr = do {
     (st, cfg1, s1, tr1) \<leftarrow> (if i3c_bus state = I3C_BUS_ADDRESS_RESERVED then i3c_bus_select os cfg state bus tr
                             else Some (ST_OK, cfg, state, tr));
     if st = ST_OK then do {
       let (st2, tr2) = flock_i3c_devs os (i3c_driver_handlers s1) op ST_OK tr1;
       Some (st2, cfg1, s1, tr2) }
     else Some (st, cfg1, s1, tr1) }"

text \<open>The part of \<open>i3c_bus_flock\<close> that takes the bus over from the CPU on first use.\<close>

definition i3c_take_ownership ::
    "os \<Rightarrow> I3C_Handler \<Rightarrow> u8 \<Rightarrow> trace \<Rightarrow> (STATUS \<times> I3C_Handler \<times> trace) option" where
  "i3c_take_ownership os state bus tr =
     (if bus_token state \<noteq> UNINITIALIZED_I3C_BUS_TOKEN then Some (ST_OK, state, tr)
      else let (st, token, tr1) = dbus_call os ''dbus_req_i3c_ownership'' [] (bus_token state) tr
      in if st \<noteq> ST_OK then Some (st, state, tr1)
         else do {
           let s1 = state\<lparr>bus_token := token\<rparr>;
           let (_, tr2) = sys os (Sys_usleep 1000000) tr1;
           (st2, s2, tr3) \<leftarrow> i3c_open_device_drivers os s1 bus tr2;
           if st2 \<noteq> ST_OK then do {
             let (_, _, tr4) = dbus_call os ''dbus_rel_i3c_ownership'' [bus_token s2] 0 tr3;
             Some (ST_ERR, s2\<lparr>bus_token := UNINITIALIZED_I3C_BUS_TOKEN\<rparr>, tr4) }
           else Some (ST_OK, s2, tr3) })"

text \<open>\<open>BMC_OWNER\<close> is 1, \<open>CPU_OWNER\<close> 0.\<close>

definition i3c_bus_flock ::
    "os \<Rightarrow> bus_config \<Rightarrow> I3C_Handler \<Rightarrow> u8 \<Rightarrow> bool \<Rightarrow> trace \<Rightarrow> (STATUS \<times> bus_config \<times> I3C_Handler \<times> trace) option" where
  "i3c_bus_flock os cfg state bus op tr =
     (if i3c_dbus state = None then Some (ST_ERR, cfg, state, tr)
      else do {
        (st, s1, tr1) \<leftarrow> i3c_take_ownership os state bus tr;
        if st \<noteq> ST_OK then Some (st, cfg, s1, tr1)
        else do {
          let (st2, owner, tr2) = dbus_call os ''dbus_read_i3c_ownership'' [] 0 tr1;
          if st2 \<noteq> ST_OK then Some (st2, cfg, s1, tr2)
          else if owner = 1 then do {
            (st3, cfg3, s3, tr3) \<leftarrow> i3c_bus_flock_dev_handlers os cfg s1 bus op tr2;
            if st3 \<noteq> ST_OK \<and> op then do {
              (_, cfg4, s4, tr4) \<leftarrow> i3c_bus_flock_dev_handlers os cfg3 s3 bus False tr3;
              Some (st3, cfg4, s4, tr4) }
            else Some (st3, cfg3, s3, tr3) }
          else Some (ST_ERR, cfg, s1, tr2) } })"

definition i3c_set_sclk :: "bus_config \<Rightarrow> u16 \<Rightarrow> STATUS" where
  "i3c_set_sclk cfg sclk = (if \<not> enable_i3c cfg then ST_ERR else ST_OK)"

text \<open>
  The handle of the first message whose address has an open device is used for all of them.
  \<open>Sys_i2c_rdwr\<close> on an I3C handle is the private transfer of that driver.
\<close>

fun i3c_pick_handle :: "int list \<Rightarrow> i2c_msg list \<Rightarrow> int" where
  "i3c_pick_handle hs [] = UNINITIALIZED_I3C_DRIVER_HANDLE"
| "i3c_pick_handle hs (m # ms) =
     (if unat (addr m) < i3C_MAX_DEV_HANDLERS \<and> hs ! unat (addr m) \<noteq> UNINITIALIZED_I3C_DRIVER_HANDLE
      then hs ! unat (addr m) else i3c_pick_handle hs ms)"

definition i3c_read_write ::
    "os \<Rightarrow> bus_config \<Rightarrow> I3C_Handler \<Rightarrow> i2c_rdwr_ioctl_data option \<Rightarrow> trace
       \<Rightarrow> STATUS \<times> i2c_rdwr_ioctl_data option \<times> trace" where
  "i3c_read_write os cfg state ms_set tr =
     (case ms_set of None \<Rightarrow> (ST_ERR, None, tr)
      | Some d \<Rightarrow>
          (if \<not> enable_i3c cfg then (ST_ERR, ms_set, tr)
           else let (ok, tr1) = malloc os ''struct i3c_ioc_priv_xfer'' (nmsgs d) tr
                in if \<not> ok then (ST_ERR, ms_set, tr1)
                   else let ms = (case msgs d of None \<Rightarrow> [] | Some ms \<Rightarrow> ms);
                            h = i3c_pick_handle (i3c_driver_handlers state) ms
                        in if h = UNINITIALIZED_I3C_DRIVER_HANDLE then (ST_ERR, ms_set, tr1)
                           else let call = Sys_i2c_rdwr h (map (\<lambda>m. (addr m, flags m AND I2C_M_RD = I2C_M_RD, buf m)) ms);
                                    r = os tr1 call
                                in (if fst r < 0 then ST_ERR else ST_OK,
                                    Some (d\<lparr>msgs := map_option (\<lambda>ms. i2c_fill ms (snd r)) (msgs d)\<rparr>), tr1 @ [call])))"

section \<open>The invariant and memory safety\<close>

text \<open>The \<open>name\<close> property of a device tree node holds at least its terminating NUL.\<close>

definition names_nonempty :: "os \<Rightarrow> bool" where
  "names_nonempty os \<longleftrightarrow> (\<forall>tr fd. fst (os tr (Sys_seek_end fd)) \<noteq> 0)"

lemma get_platform_index_ok: "names_nonempty os \<Longrightarrow> ensures (get_platform_index os name tr) (\<lambda>_. True)"
  by (simp add: get_platform_index_def names_nonempty_def sys_def split_def)

lemma spd_scan_wf:
  assumes "names_nonempty os" "length m = MAX_IxC_BUSES"
  shows "ensures (spd_scan os es m n tr) (\<lambda>(m', n', tr'). length m' = MAX_IxC_BUSES)"
  using assms(2)
proof (induction es arbitrary: m n tr)
  case (Cons e es)
  have gp: "ensures (get_platform_index os nm t) P" if "\<And>r. P r" for nm t P
    by (rule ensures_conseq [OF get_platform_index_ok [OF assms(1)]]) (simp add: that)
  show ?case
    using Cons by (auto simp: split_def intro!: gp split: option.split)
qed simp

lemma create_spd_mapping_wf:
  assumes "names_nonempty os" "wf_i3c s"
  shows "ensures (create_spd_mapping os s tr) (\<lambda>(st, s', tr'). wf_i3c s')"
  using assms
  by (auto simp: create_spd_mapping_def wf_i3c_def split_def intro!: ensures_conseq [OF spd_scan_wf])

lemma open_i3c_devs_length: "length (fst (open_i3c_devs os m is tr)) = length is"
  by (induction os m "is" tr rule: open_i3c_devs.induct) (auto simp: Let_def split: prod.splits)

lemma i3c_open_device_drivers_wf:
  assumes "names_nonempty os" "wf_i3c s"
  shows "ensures (i3c_open_device_drivers os s bus tr) (\<lambda>(st, s', tr'). wf_i3c s')"
  using assms
  by (auto simp: i3c_open_device_drivers_def wf_i3c_def split_def open_i3c_devs_length
      intro!: ensures_conseq [OF create_spd_mapping_wf])

lemma i3c_close_device_drivers_wf: "wf_i3c s \<Longrightarrow> wf_i3c (fst (i3c_close_device_drivers os s tr))"
  by (simp add: i3c_close_device_drivers_def wf_i3c_def)

lemma i3c_bus_select_wf:
  assumes "names_nonempty os" "wf_i3c s" "wf_bus_config cfg"
  shows "ensures (i3c_bus_select os cfg s bus tr) (\<lambda>(st, cfg', s', tr'). wf_i3c s' \<and> wf_bus_config cfg')"
  using assms i3c_close_device_drivers_wf [OF assms(2), of os tr]
  by (auto simp: i3c_bus_select_def split_def wf_bus_config_def
      intro!: ensures_conseq [OF i3c_open_device_drivers_wf [OF assms(1)]])

lemma i3c_bus_flock_dev_handlers_wf:
  assumes "names_nonempty os" "wf_i3c s" "wf_bus_config cfg"
  shows "ensures (i3c_bus_flock_dev_handlers os cfg s bus op tr) (\<lambda>(st, cfg', s', tr'). wf_i3c s' \<and> wf_bus_config cfg')"
  using assms
  by (auto simp: i3c_bus_flock_dev_handlers_def split_def intro!: ensures_conseq [OF i3c_bus_select_wf])

lemma i3c_take_ownership_wf:
  assumes "names_nonempty os" "wf_i3c s"
  shows "ensures (i3c_take_ownership os s bus tr) (\<lambda>(st, s', tr'). wf_i3c s')"
proof -
  have w: "wf_i3c (s\<lparr>bus_token := t\<rparr>)" for t using assms(2) by (simp add: wf_i3c_def)
  show ?thesis
    using assms(2)
    by (auto simp: i3c_take_ownership_def split_def wf_i3c_def
        intro!: ensures_conseq [OF i3c_open_device_drivers_wf [OF assms(1) w]])
qed

lemma i3c_bus_flock_wf:
  assumes "names_nonempty os" "wf_i3c s" "wf_bus_config cfg"
  shows "ensures (i3c_bus_flock os cfg s bus op tr) (\<lambda>(st, cfg', s', tr'). wf_i3c s' \<and> wf_bus_config cfg')"
proof -
  note fl = i3c_bus_flock_dev_handlers_wf [OF assms(1)]
  show ?thesis
    using assms
    by (auto simp: i3c_bus_flock_def split_def
        intro!: ensures_conseq [OF i3c_take_ownership_wf] ensures_conseq [OF fl])
qed

lemma i3c_read_write_msgs:
  assumes wf: "wf_builder (Some b)" and op: "i3c_read_write os cfg h (msg_set b) tr = (st, set', tr')"
  shows "wf_builder (Some (b\<lparr>msg_set := set'\<rparr>)) \<and>
    (\<exists>ms. ms = builder_msgs (Some (b\<lparr>msg_set := set'\<rparr>)) \<and>
       (ms = builder_msgs (Some b) \<or> (\<exists>ds. ms = i2c_fill (builder_msgs (Some b)) ds)))"
proof -
  obtain d where d: "msg_set b = Some d" using wf by (auto simp: wf_builder_def)
  from op d have "set' = msg_set b \<or> (\<exists>ds. set' = Some (d\<lparr>msgs := map_option (\<lambda>ms. i2c_fill ms ds) (msgs d)\<rparr>))"
    by (auto simp: i3c_read_write_def Let_def split: if_splits prod.splits)
  then show ?thesis
    using filled_msgs [OF wf d] by blast
qed

end
