(* ===== verification/Gpio.thy ===== *)
theory Gpio
  imports Asd_Prelude
begin

text \<open>\<open>target/gpio.c\<close>: the sysfs interface to GPIO pins.\<close>

datatype GPIO_EDGE = GPIO_EDGE_NONE | GPIO_EDGE_RISING | GPIO_EDGE_FALLING | GPIO_EDGE_BOTH

datatype GPIO_DIRECTION = GPIO_DIRECTION_IN | GPIO_DIRECTION_OUT | GPIO_DIRECTION_HIGH | GPIO_DIRECTION_LOW

definition gpio_path :: "int \<Rightarrow> string \<Rightarrow> string" where
  "gpio_path gpio leaf = take 47 (''/sys/class/gpio/gpio'' @ dec gpio @ leaf)"

definition gpio_export :: "os \<Rightarrow> int \<Rightarrow> trace \<Rightarrow> STATUS \<times> int \<times> trace" where
  "gpio_export os gpio tr =
     (let (gfd, tr1) = sys os (Sys_open (gpio_path gpio ''/value'')) tr
      in if gfd \<noteq> - 1 then (ST_OK, gfd, tr1)
         else let (fd, tr2) = sys os (Sys_open ''/sys/class/gpio/export'') tr1
              in if fd < 0 then (ST_ERR, gfd, tr2)
                 else let (w, tr3) = sys os (Sys_write fd (bytes_of (dec gpio))) tr2
                      in if w < 0 then (ST_ERR, gfd, snd (sys os (Sys_close fd) tr3))
                         else let (g2, tr4) = sys os (Sys_open (gpio_path gpio ''/value'')) tr3
                              in (if g2 = - 1 then ST_ERR else ST_OK, g2, snd (sys os (Sys_close fd) tr4)))"

definition gpio_unexport :: "os \<Rightarrow> int \<Rightarrow> trace \<Rightarrow> STATUS \<times> trace" where
  "gpio_unexport os gpio tr =
     (let (fd, tr1) = sys os (Sys_open (gpio_path gpio ''/value'')) tr
      in if fd < 0 then (ST_OK, tr1)
         else let (_, tr2) = sys os (Sys_close fd) tr1;
                  (u, tr3) = sys os (Sys_open ''/sys/class/gpio/unexport'') tr2
              in if u < 0 then (ST_ERR, tr3)
                 else let (w, tr4) = sys os (Sys_write u (bytes_of (dec gpio))) tr3
                      in (if w < 0 then ST_ERR else ST_OK, snd (sys os (Sys_close u) tr4)))"

text \<open>
  A pin reads as 1 for every character but \<open>0\<close>; a file that ends early leaves the character unset,
  which is taken as NUL.
\<close>

definition gpio_get_value :: "os \<Rightarrow> int \<Rightarrow> int \<Rightarrow> trace \<Rightarrow> STATUS \<times> int \<times> trace" where
  "gpio_get_value os fd old tr =
     (if fd < 0 then (ST_ERR, old, tr)
      else let (p, tr1) = sys os (Sys_lseek fd) tr
           in if p < 0 then (ST_ERR, old, tr1)
              else let call = Sys_read fd 1; r = os tr1 call; tr2 = tr1 @ [call]
                   in if fst r < 0 then (ST_ERR, old, tr2)
                      else (ST_OK, if (case sys_data r of [] \<Rightarrow> 0 | b # _ \<Rightarrow> b) \<noteq> 48 then 1 else 0, tr2))"

definition gpio_set_value :: "os \<Rightarrow> int \<Rightarrow> int \<Rightarrow> trace \<Rightarrow> STATUS \<times> trace" where
  "gpio_set_value os fd value tr =
     (if fd < 0 then (ST_ERR, tr)
      else let (p, tr1) = sys os (Sys_lseek fd) tr
           in if p < 0 then (ST_ERR, tr1)
              else let (w, tr2) = sys os (Sys_write fd (bytes_of (if value = 1 then ''1'' else ''0''))) tr1
                   in (if w = 1 then ST_OK else ST_ERR, tr2))"

fun edge_string :: "GPIO_EDGE \<Rightarrow> string" where
  "edge_string GPIO_EDGE_NONE = ''none''"
| "edge_string GPIO_EDGE_RISING = ''rising''"
| "edge_string GPIO_EDGE_FALLING = ''falling''"
| "edge_string GPIO_EDGE_BOTH = ''both''"

fun direction_string :: "GPIO_DIRECTION \<Rightarrow> string" where
  "direction_string GPIO_DIRECTION_IN = ''in''"
| "direction_string GPIO_DIRECTION_OUT = ''out''"
| "direction_string GPIO_DIRECTION_HIGH = ''high''"
| "direction_string GPIO_DIRECTION_LOW = ''low''"

text \<open>The result of the write is not looked at.\<close>

definition gpio_write_attr :: "os \<Rightarrow> int \<Rightarrow> string \<Rightarrow> string \<Rightarrow> trace \<Rightarrow> STATUS \<times> trace" where
  "gpio_write_attr os gpio leaf v tr =
     (let (fd, tr1) = sys os (Sys_open (gpio_path gpio leaf)) tr
      in if fd < 0 then (ST_ERR, tr1)
         else let (_, tr2) = sys os (Sys_write fd (bytes_of v)) tr1 in (ST_OK, snd (sys os (Sys_close fd) tr2)))"

definition gpio_set_edge :: "os \<Rightarrow> int \<Rightarrow> GPIO_EDGE \<Rightarrow> trace \<Rightarrow> STATUS \<times> trace" where
  "gpio_set_edge os gpio edge tr = gpio_write_attr os gpio ''/edge'' (edge_string edge) tr"

definition gpio_set_direction :: "os \<Rightarrow> int \<Rightarrow> GPIO_DIRECTION \<Rightarrow> trace \<Rightarrow> STATUS \<times> trace" where
  "gpio_set_direction os gpio direction tr = gpio_write_attr os gpio ''/direction'' (direction_string direction) tr"

definition gpio_set_active_low :: "os \<Rightarrow> int \<Rightarrow> bool \<Rightarrow> trace \<Rightarrow> STATUS \<times> trace" where
  "gpio_set_active_low os gpio active_low tr =
     (let (fd, tr1) = sys os (Sys_open (gpio_path gpio ''/active_low'')) tr
      in if fd < 0 then (ST_ERR, tr1)
         else let (w, tr2) = sys os (Sys_write fd (bytes_of (if active_low then ''1'' else ''0''))) tr1
              in (if w = 1 then ST_OK else ST_ERR, snd (sys os (Sys_close fd) tr2)))"

end
