(* ===== verification/Spp_Handler.thy ===== *)
theory Spp_Handler
  imports Config
begin

text \<open>
  \<open>target/spp_handler.c\<close> over \<open>target/i3c_debug_handler.c\<close>: up to eight I3C debug devices behind one
  bus, the selected device, and the bookkeeping of in-band interrupts.  A pointer argument to a
  buffer is the list of the bytes from the pointer to the end of its object, so a length the object
  does not have is undefined behaviour.  \<open>spp_receive_autocommand\<close>, which only a test tool calls, is
  not modelled.
\<close>

section \<open>State\<close>

definition MAX_SPP_BUS_DEVICES :: nat where "MAX_SPP_BUS_DEVICES = 8"
abbreviation UNINITIALIZED_SPP_DEBUG_DRIVER_HANDLE :: int where
  "UNINITIALIZED_SPP_DEBUG_DRIVER_HANDLE \<equiv> - 1"

abbreviation BroadcastResetAction :: u8 where "BroadcastResetAction \<equiv> 0x2A"
abbreviation DirectResetAction :: u8 where "DirectResetAction \<equiv> 0x9A"
abbreviation BpkOpcode :: u8 where "BpkOpcode \<equiv> 0xD7"
abbreviation DebugAction :: u8 where "DebugAction \<equiv> 0xD8"
abbreviation BroadcastDebugAction :: u8 where "BroadcastDebugAction \<equiv> 0x58"

abbreviation SPP_IBI_DATA_READY :: u8 where "SPP_IBI_DATA_READY \<equiv> 0xAD"
abbreviation SPP_IBI_STATUS_CHANGED :: u8 where "SPP_IBI_STATUS_CHANGED \<equiv> 0x5C"
abbreviation SPP_IBI_SUBREASON_BUFFER_THRESHOLD :: u8 where "SPP_IBI_SUBREASON_BUFFER_THRESHOLD \<equiv> 0x00"
abbreviation SPP_IBI_SUBREASON_PRDY :: u8 where "SPP_IBI_SUBREASON_PRDY \<equiv> 0x83"
abbreviation SPP_IBI_SUBREASON_OVERFLOW :: u8 where "SPP_IBI_SUBREASON_OVERFLOW \<equiv> 0xFF"
abbreviation CLEAR_ERROR_ACTION :: u8 where "CLEAR_ERROR_ACTION \<equiv> 0xFD"

text \<open>
  \<open>fail_read_counter\<close> is a global of the file.  \<open>broadcast_filepath\<close> is the string before the first
  NUL, empty when no file was found.
\<close>

record SPP_Handler =
  spp_bus :: u8
  spp_dev_handlers :: "int list"
  spp_device_count :: nat
  device_index :: u8
  spp_driver_handle :: int
  ibi_handled :: bool
  threshold_status :: "bool list"
  bulk_mode :: bool
  bulk_autocmd_count :: "u8 list"
  broadcast_filepath :: string
  fail_read_counter :: u32

definition SPPHandler :: "os \<Rightarrow> u32 \<Rightarrow> trace \<Rightarrow> SPP_Handler option \<times> trace" where
  "SPPHandler os counter tr =
     (let (ok, tr1) = malloc os ''SPP_Handler'' 1 tr
      in (if ok then
            Some \<lparr>spp_bus = 0, spp_dev_handlers = replicate MAX_SPP_BUS_DEVICES UNINITIALIZED_SPP_DEBUG_DRIVER_HANDLE,
                  spp_device_count = 0, device_index = 0, spp_driver_handle = 0, ibi_handled = False,
                  threshold_status = replicate MAX_SPP_BUS_DEVICES False, bulk_mode = False,
                  bulk_autocmd_count = replicate MAX_SPP_BUS_DEVICES 0, broadcast_filepath = '''',
                  fail_read_counter = counter\<rparr>
          else None, tr1))"

definition wf_spp :: "SPP_Handler \<Rightarrow> bool" where
  "wf_spp s \<longleftrightarrow> length (spp_dev_handlers s) = MAX_SPP_BUS_DEVICES \<and>
     length (threshold_status s) = MAX_SPP_BUS_DEVICES \<and> length (bulk_autocmd_count s) = MAX_SPP_BUS_DEVICES \<and>
     unat (device_index s) < MAX_SPP_BUS_DEVICES \<and> spp_device_count s \<le> MAX_SPP_BUS_DEVICES"

section \<open>The driver calls of i3c\_debug\_handler.c\<close>

text \<open>
  \<open>write_len\<close> and \<open>read_len\<close> are \<open>int16_t\<close>: storing a \<open>uint16_t\<close> above 32767 makes them negative,
  and the driver then sees a huge count.
\<close>

definition i16 :: "u16 \<Rightarrow> int" where
  "i16 n = signed_take_bit 15 (uint n)"

definition tx_bytes :: "u8 list \<Rightarrow> int \<Rightarrow> u8 list option" where
  "tx_bytes tx_buffer n = (if n < 0 then None else rds tx_buffer 0 (nat n))"

definition send_i3c_action :: "os \<Rightarrow> SPP_Handler \<Rightarrow> u8 \<Rightarrow> trace \<Rightarrow> STATUS \<times> trace" where
  "send_i3c_action os state act tr =
     (if spp_driver_handle state = 0 then (ST_ERR, tr)
      else let (ret, tr1) = sys os (Sys_i3c_action (spp_driver_handle state) act) tr
           in (if ret < 0 then ST_ERR else ST_OK, tr1))"

definition send_i3c_opcode ::
    "os \<Rightarrow> SPP_Handler \<Rightarrow> u8 \<Rightarrow> u8 list \<Rightarrow> int \<Rightarrow> u8 list \<Rightarrow> nat \<Rightarrow> trace \<Rightarrow> (STATUS \<times> u8 list \<times> trace) option" where
  "send_i3c_opcode os state opc tx_buffer write_len rx_buffer read_len tr =
     (if spp_driver_handle state = 0 then Some (ST_ERR, rx_buffer, tr)
      else do {
        ws \<leftarrow> tx_bytes tx_buffer write_len;
        old \<leftarrow> rds rx_buffer 0 read_len;
        let call = Sys_i3c_opcode (spp_driver_handle state) opc ws read_len;
        let r = os tr call;
        Some (if fst r < 0 then ST_ERR else ST_OK, overlay old (sys_data r) @ drop read_len rx_buffer, tr @ [call]) })"

definition rx_i3c :: "os \<Rightarrow> int \<Rightarrow> u8 list \<Rightarrow> nat \<Rightarrow> trace \<Rightarrow> (int \<times> u8 list \<times> trace) option" where
  "rx_i3c os fd rx_buffer read_len tr = do {
     zeroed \<leftarrow> wrs rx_buffer 0 (replicate read_len 0);
     let call = Sys_read fd read_len;
     let r = os tr call;
     Some (fst r, overlay zeroed (take (min read_len (nat (fst r))) (sys_data r)), tr @ [call]) }"

text \<open>\<open>receive_i3c\<close> answers what \<open>read\<close> answered and stores it, when not negative, as the new length.\<close>

definition receive_i3c ::
    "os \<Rightarrow> SPP_Handler \<Rightarrow> u8 list \<Rightarrow> nat \<Rightarrow> trace \<Rightarrow> (int \<times> int \<times> u8 list \<times> trace) option" where
  "receive_i3c os state rx_buffer read_len tr = do {
     (n, rx, tr1) \<leftarrow> rx_i3c os (spp_driver_handle state) rx_buffer read_len tr;
     Some (n, if n \<ge> 0 then signed_take_bit 15 n else 0, rx, tr1) }"

definition send_i3c_cmd :: "os \<Rightarrow> SPP_Handler \<Rightarrow> u8 list \<Rightarrow> int \<Rightarrow> trace \<Rightarrow> (STATUS \<times> trace) option" where
  "send_i3c_cmd os state tx_buffer write_len tr =
     (if spp_driver_handle state = UNINITIALIZED_SPP_DEBUG_DRIVER_HANDLE then Some (ST_ERR, tr)
      else do {
        ws \<leftarrow> tx_bytes tx_buffer write_len;
        let (ret, tr1) = sys os (Sys_write (spp_driver_handle state) ws) tr;
        Some (if ret < 0 then ST_ERR else ST_OK, tr1) })"

text \<open>
  The interrupt handler has the driver store the event into the caller's buffer, at most \<open>ibi_len\<close>
  bytes, and \<open>data_len\<close> is then the number of bytes stored.  A failed read is reported as handled.
\<close>

definition i3c_ibi_handler ::
    "os \<Rightarrow> SPP_Handler \<Rightarrow> int \<Rightarrow> u8 list \<Rightarrow> nat \<Rightarrow> nat \<Rightarrow> trace
       \<Rightarrow> (STATUS \<times> SPP_Handler \<times> u8 list \<times> nat \<times> trace) option" where
  "i3c_ibi_handler os state fd ibi_buffer ibi_len dev tr =
     (if ibi_len > 65535 then Some (ST_ERR, state, ibi_buffer, ibi_len, tr)
      else if ibi_len > length ibi_buffer then None
      else do {
        let call = Sys_i3c_event fd ibi_len;
        let r = os tr call;
        let tr1 = tr @ [call];
        if fst r < 0 then Some (ST_OK, state, ibi_buffer, ibi_len, tr1)
        else do {
          let bf = overlay ibi_buffer (take ibi_len (sys_data r));
          let n = length (take ibi_len (sys_data r));
          if n \<ge> 2 \<and> bf ! 0 = SPP_IBI_STATUS_CHANGED \<and> bf ! 1 = SPP_IBI_SUBREASON_BUFFER_THRESHOLD then do {
            t \<leftarrow> wr (threshold_status state) dev False;
            Some (ST_OK, state\<lparr>threshold_status := t\<rparr>, bf, n, tr1) }
          else if n \<ge> 2 \<and> bulk_mode state \<and> bf ! 0 = SPP_IBI_DATA_READY
                  \<and> bf ! 1 = SPP_IBI_SUBREASON_BUFFER_THRESHOLD then do {
            c \<leftarrow> rd (bulk_autocmd_count state) dev;
            cs \<leftarrow> wr (bulk_autocmd_count state) dev (if c > 0 then c - 1 else c);
            Some (ST_OK, state\<lparr>bulk_autocmd_count := cs\<rparr>, bf, n, tr1) }
          else Some (ST_OK, state, bf, n, tr1) } })"

section \<open>Devices and buses\<close>

definition spp_bus_allowed :: "bus_config \<Rightarrow> u8 \<Rightarrow> bool" where
  "spp_bus_allowed cfg bus = bus_listed cfg (MAX_IxC_BUSES + MAX_SPP_BUSES) BUS_CONFIG_SPP bus"

text \<open>The device files are opened one after the other; the bus number does not enter their names.\<close>

fun open_devs :: "os \<Rightarrow> nat list \<Rightarrow> trace \<Rightarrow> int list \<times> trace" where
  "open_devs os [] tr = ([], tr)"
| "open_devs os (i # is) tr =
     (let (fd, tr1) = sys os (Sys_open (''/dev/i3c-debug-'' @ dec (int i))) tr;
          (fds, tr2) = open_devs os is tr1
      in (fd # fds, tr2))"

definition spp_open_driver :: "os \<Rightarrow> SPP_Handler \<Rightarrow> u8 \<Rightarrow> trace \<Rightarrow> STATUS \<times> SPP_Handler \<times> trace" where
  "spp_open_driver os state bus tr =
     (let (fds, tr1) = open_devs os [0..<MAX_SPP_BUS_DEVICES] tr;
          n = length (filter (\<lambda>fd. fd \<noteq> UNINITIALIZED_SPP_DEBUG_DRIVER_HANDLE) fds)
      in (if n = 0 then ST_ERR else ST_OK,
          state\<lparr>spp_bus := bus, spp_device_count := n, spp_dev_handlers := fds\<rparr>, tr1))"

fun close_devs :: "os \<Rightarrow> int list \<Rightarrow> trace \<Rightarrow> trace" where
  "close_devs os [] tr = tr"
| "close_devs os (fd # fds) tr =
     close_devs os fds (if fd \<noteq> UNINITIALIZED_SPP_DEBUG_DRIVER_HANDLE then snd (sys os (Sys_close fd) tr) else tr)"

definition spp_close_driver :: "os \<Rightarrow> SPP_Handler \<Rightarrow> trace \<Rightarrow> SPP_Handler \<times> trace" where
  "spp_close_driver os state tr =
     (state\<lparr>spp_dev_handlers := map (\<lambda>_. UNINITIALIZED_SPP_DEBUG_DRIVER_HANDLE) (spp_dev_handlers state),
            spp_driver_handle := UNINITIALIZED_SPP_DEBUG_DRIVER_HANDLE,
            spp_device_count := 0, device_index := 0\<rparr>,
      close_devs os (spp_dev_handlers state) tr)"

definition spp_device_select :: "SPP_Handler \<Rightarrow> u8 \<Rightarrow> (STATUS \<times> SPP_Handler) option" where
  "spp_device_select state device =
     (if unat device \<ge> MAX_SPP_BUS_DEVICES then Some (ST_ERR, state)
      else do {
        fd \<leftarrow> rd (spp_dev_handlers state) (unat device);
        if fd = UNINITIALIZED_SPP_DEBUG_DRIVER_HANDLE then Some (ST_ERR, state)
        else Some (ST_OK, state\<lparr>spp_driver_handle := fd, device_index := device\<rparr>) })"

definition spp_bus_select ::
    "os \<Rightarrow> bus_config \<Rightarrow> SPP_Handler \<Rightarrow> u8 \<Rightarrow> trace \<Rightarrow> (STATUS \<times> bus_config \<times> SPP_Handler \<times> trace) option" where
  "spp_bus_select os cfg state bus tr =
     (if \<not> enable_spp cfg then Some (ST_ERR, cfg, state, tr)
      else if bus = spp_bus state \<and> spp_device_count state > 0 then Some (ST_OK, cfg, state, tr)
      else if spp_bus_allowed cfg bus then do {
        let (s1, tr1) = spp_close_driver os state tr;
        let (st, s2, tr2) = spp_open_driver os s1 bus tr1;
        if st = ST_OK then do {
          (st', s3) \<leftarrow> spp_device_select (s2\<lparr>spp_bus := bus\<rparr>) 0;
          Some (st', cfg\<lparr>default_bus := bus\<rparr>, s3, tr2) }
        else Some (st, cfg, s2, tr2) }
      else Some (ST_ERR, cfg, state, tr))"

definition spp_set_sclk :: "SPP_Handler \<Rightarrow> u16 \<Rightarrow> STATUS" where
  "spp_set_sclk state sclk = ST_OK"

definition spp_bus_device_count :: "SPP_Handler \<Rightarrow> u8" where
  "spp_bus_device_count state = of_nat (spp_device_count state)"

text \<open>The lock loop stops at the first device that refuses.\<close>

fun flock_devs :: "os \<Rightarrow> int list \<Rightarrow> bool \<Rightarrow> nat \<Rightarrow> trace \<Rightarrow> nat \<times> trace" where
  "flock_devs os [] op n tr = (n, tr)"
| "flock_devs os (fd # fds) op n tr =
     (if fd = UNINITIALIZED_SPP_DEBUG_DRIVER_HANDLE then flock_devs os fds op n tr
      else let (r, tr1) = sys os (Sys_flock fd op) tr
           in if r \<noteq> 0 then (n, tr1) else flock_devs os fds op (Suc n) tr1)"

definition spp_bus_flock :: "os \<Rightarrow> SPP_Handler \<Rightarrow> u8 \<Rightarrow> bool \<Rightarrow> trace \<Rightarrow> STATUS \<times> SPP_Handler \<times> trace" where
  "spp_bus_flock os state bus op tr =
     (let (st, s2, tr2) =
            (if bus \<noteq> spp_bus state then
               (let (s1, tr1) = spp_close_driver os state tr in spp_open_driver os s1 bus tr1)
             else (ST_OK, state, tr))
      in if st = ST_OK then
           (let (n, tr3) = flock_devs os (spp_dev_handlers s2) op 0 tr2
            in (if n \<noteq> spp_device_count s2 then ST_ERR else ST_OK, s2, tr3))
         else (st, s2, tr2))"

text \<open>Called before the handlers are initialised: the devices are opened, counted and closed again.\<close>

definition spp_bus_get_device_map ::
    "os \<Rightarrow> bus_config \<Rightarrow> SPP_Handler \<Rightarrow> trace \<Rightarrow> STATUS \<times> u32 \<times> SPP_Handler \<times> trace" where
  "spp_bus_get_device_map os cfg state tr =
     (if \<not> enable_spp cfg then (ST_OK, 0, state, tr)
      else let (s1, tr1) = spp_close_driver os state tr;
               (st, s2, tr2) = spp_open_driver os s1 (spp_bus s1) tr1;
               mask = (if st = ST_OK then
                         fold (\<lambda>i m. if spp_dev_handlers s2 ! i \<noteq> UNINITIALIZED_SPP_DEBUG_DRIVER_HANDLE
                                     then m OR push_bit i 1 else m) [0..<MAX_SPP_BUS_DEVICES] 0
                       else 0);
               (s3, tr3) = spp_close_driver os s2 tr2
           in (st, mask, s3, tr3))"

text \<open>The first directory entry of the form \<open>^i3c-[0-9]+$\<close> names the broadcast file.\<close>

definition is_i3c_bus_name :: "string \<Rightarrow> bool" where
  "is_i3c_bus_name n \<longleftrightarrow> take 4 n = ''i3c-'' \<and> drop 4 n \<noteq> [] \<and> list_all is_digit (drop 4 n)"

definition spp_get_broadcast_action_filepath :: "os \<Rightarrow> trace \<Rightarrow> STATUS \<times> string \<times> trace" where
  "spp_get_broadcast_action_filepath os tr =
     (let call = Sys_readdir ''/sys/bus/platform/devices/1e7a6000.i3c4''; r = os tr call;
          names = map (string_of \<circ> tl) (snd r)
      in if fst r < 0 then (ST_ERR, [], tr @ [call])
         else case find is_i3c_bus_name names of
             None \<Rightarrow> (ST_ERR, [], tr @ [call])
           | Some n \<Rightarrow> (ST_OK, take 319 (''/sys/bus/i3c/devices/'' @ n @ ''/dbgaction_broadcast''), tr @ [call]))"

definition spp_initialize ::
    "os \<Rightarrow> bus_config \<Rightarrow> SPP_Handler \<Rightarrow> trace \<Rightarrow> (STATUS \<times> bus_config \<times> SPP_Handler \<times> trace) option" where
  "spp_initialize os cfg state tr =
     (if \<not> enable_spp cfg then Some (ST_ERR, cfg, state, tr)
      else do {
        (st, cfg', s1, tr1) \<leftarrow> spp_bus_select os cfg state (default_bus cfg) tr;
        if st = ST_OK then do {
          let (_, path, tr2) = spp_get_broadcast_action_filepath os tr1;
          Some (ST_OK, cfg', s1\<lparr>ibi_handled := False, broadcast_filepath := path\<rparr>, tr2) }
        else Some (st, cfg', s1, tr1) })"

definition spp_deinitialize :: "os \<Rightarrow> SPP_Handler \<Rightarrow> trace \<Rightarrow> STATUS \<times> SPP_Handler \<times> trace" where
  "spp_deinitialize os state tr = (let (s, tr1) = spp_close_driver os state tr in (ST_OK, s, tr1))"

section \<open>Transfers\<close>

definition spp_send :: "os \<Rightarrow> SPP_Handler \<Rightarrow> u16 \<Rightarrow> u8 list \<Rightarrow> trace \<Rightarrow> (STATUS \<times> SPP_Handler \<times> trace) option" where
  "spp_send os state wsize write_buffer tr =
     (if wsize = 0 then Some (ST_ERR, state, tr)
      else do {
        _ \<leftarrow> rd write_buffer 0;
        let d = unat (device_index state);
        t \<leftarrow> wr (threshold_status state) d True;
        c \<leftarrow> rd (bulk_autocmd_count state) d;
        let cs = (if bulk_mode state then (bulk_autocmd_count state)[d := c + 1] else bulk_autocmd_count state);
        (st, tr1) \<leftarrow> send_i3c_cmd os state write_buffer (i16 wsize) tr;
        Some (st, state\<lparr>threshold_status := t, bulk_autocmd_count := cs\<rparr>, tr1) })"

text \<open>
  \<open>send_reset_rx\<close> sends the clear action to the first \<open>count\<close> devices, and leaves the last one that
  could be selected as the selected device.
\<close>

fun reset_rx_from :: "os \<Rightarrow> u8 list \<Rightarrow> SPP_Handler \<Rightarrow> trace \<Rightarrow> (SPP_Handler \<times> trace) option" where
  "reset_rx_from os [] state tr = Some (state, tr)"
| "reset_rx_from os (i # is) state tr = do {
     (st, s1) \<leftarrow> spp_device_select state i;
     let tr1 = (if st = ST_OK then snd (send_i3c_action os s1 CLEAR_ERROR_ACTION tr) else tr);
     reset_rx_from os is s1 tr1 }"

definition send_reset_rx :: "os \<Rightarrow> SPP_Handler \<Rightarrow> trace \<Rightarrow> (STATUS \<times> SPP_Handler \<times> trace) option" where
  "send_reset_rx os state tr = do {
     (s1, tr1) \<leftarrow> reset_rx_from os (map of_nat [0..<unat (spp_bus_device_count state)]) state tr;
     Some (ST_OK, s1, tr1) }"

text \<open>\<open>FAILURE_THRESHOLD\<close> is 0: the first failed read resets the receivers.\<close>

definition spp_receive ::
    "os \<Rightarrow> SPP_Handler \<Rightarrow> u8 list \<Rightarrow> trace \<Rightarrow> (STATUS \<times> u16 \<times> SPP_Handler \<times> u8 list \<times> trace) option" where
  "spp_receive os state read_buffer tr = do {
     (ret, read_len, bf, tr1) \<leftarrow> receive_i3c os state read_buffer 255 tr;
     if ret > 0 then do {
       let n = (of_int read_len :: u16);
       Some (ST_OK, if n > 255 then 255 else n, state, bf, tr1) }
     else do {
       let c = fail_read_counter state + 1;
       if c > 0 then do {
         (_, s1, tr2) \<leftarrow> send_reset_rx os (state\<lparr>fail_read_counter := c\<rparr>) tr1;
         Some (ST_ERR, 0, s1\<lparr>fail_read_counter := 0\<rparr>, bf, tr2) }
       else Some (ST_ERR, 0, state\<lparr>fail_read_counter := c\<rparr>, bf, tr1) } }"

text \<open>\<open>%x\<close> of a byte, in the five byte buffer that \<open>BroadcastDebugAction\<close> writes out whole.\<close>

definition hex_digit :: "nat \<Rightarrow> u8" where
  "hex_digit n = of_nat (if n < 10 then 48 + n else 87 + n)"

definition dbg_byte :: "u8 \<Rightarrow> u8 list" where
  "dbg_byte b = (let n = unat b; ds = (if n < 16 then [hex_digit n] else [hex_digit (n div 16), hex_digit (n mod 16)])
                 in ds @ replicate (5 - length ds) 0)"

definition broadcast_debug_action :: "os \<Rightarrow> SPP_Handler \<Rightarrow> u8 \<Rightarrow> trace \<Rightarrow> STATUS \<times> trace" where
  "broadcast_debug_action os state b tr =
     (if broadcast_filepath state = [] then (ST_ERR, tr)
      else let (fd, tr1) = sys os (Sys_open (broadcast_filepath state)) tr
           in if fd = - 1 then (ST_ERR, tr1)
              else let (w, tr2) = sys os (Sys_write fd (dbg_byte b)) tr1;
                       (c, tr3) = sys os (Sys_close fd) tr2
                   in (if w = - 1 \<or> c = - 1 then ST_ERR else ST_OK, tr3))"

definition spp_send_cmd ::
    "os \<Rightarrow> SPP_Handler \<Rightarrow> u8 \<Rightarrow> u16 \<Rightarrow> u8 list \<Rightarrow> trace \<Rightarrow> (STATUS \<times> trace) option" where
  "spp_send_cmd os state cmd wsize write_buffer tr =
     (if cmd = BpkOpcode then do {
        b \<leftarrow> rd write_buffer 0;
        (st, _, tr1) \<leftarrow> send_i3c_opcode os state b (tl write_buffer) (i16 (if wsize > 0 then wsize - 1 else wsize)) [] 0 tr;
        Some (st, tr1) }
      else if cmd = DebugAction then do {
        b \<leftarrow> rd write_buffer 0;
        Some (send_i3c_action os state b tr) }
      else if cmd = BroadcastDebugAction then do {
        if broadcast_filepath state = [] then Some (ST_ERR, tr)
        else do { b \<leftarrow> rd write_buffer 0; Some (broadcast_debug_action os state b tr) } }
      else Some (ST_ERR, tr))"

text \<open>The opcode form always asks the device for 32 bytes, whatever \<open>rsize\<close> says.\<close>

definition spp_send_receive_cmd ::
    "os \<Rightarrow> SPP_Handler \<Rightarrow> u8 \<Rightarrow> u16 \<Rightarrow> u8 list \<Rightarrow> u8 list \<Rightarrow> trace \<Rightarrow> (STATUS \<times> u8 list \<times> trace) option" where
  "spp_send_receive_cmd os state cmd wsize write_buffer read_buffer tr =
     (if cmd = BpkOpcode then do {
        b \<leftarrow> rd write_buffer 0;
        send_i3c_opcode os state b (tl write_buffer) (i16 (if wsize > 0 then wsize - 1 else wsize)) read_buffer 32 tr }
      else if cmd = DebugAction then do {
        b \<leftarrow> rd write_buffer 0;
        let (st, tr1) = send_i3c_action os state b tr;
        Some (st, read_buffer, tr1) }
      else Some (ST_OK, read_buffer, tr))"

definition spp_set_sim_data_cmd :: "SPP_Handler \<Rightarrow> u16 \<Rightarrow> STATUS" where
  "spp_set_sim_data_cmd state wsize = ST_OK"

definition SPASENCLEAR_CMD :: "u8 list" where
  "SPASENCLEAR_CMD = [0x52, 0x30, 0x04, 0x00, 0xcc, 0x00, 0x00, 0x00, 0xff, 0xff, 0xff, 0xff]"

text \<open>\<open>disconnect\<close> stops at the first device it cannot select; a failed send ends the loop with \<open>ST_OK\<close>.\<close>

fun disconnect_from :: "os \<Rightarrow> u8 list \<Rightarrow> SPP_Handler \<Rightarrow> u8 list \<Rightarrow> trace \<Rightarrow> (STATUS \<times> SPP_Handler \<times> trace) option" where
  "disconnect_from os [] state read_data tr = Some (ST_OK, state, tr)"
| "disconnect_from os (i # is) state read_data tr = do {
     (st, s1) \<leftarrow> spp_device_select state i;
     if st = ST_OK then do {
       (st2, s2, tr2) \<leftarrow> spp_send os s1 12 SPASENCLEAR_CMD tr;
       if st2 \<noteq> ST_OK then Some (ST_OK, s2, tr2)
       else do {
         (_, _, s3, bf, tr3) \<leftarrow> spp_receive os s2 read_data tr2;
         disconnect_from os is s3 bf tr3 } }
     else Some (ST_ERR, s1, tr) }"

definition disconnect :: "os \<Rightarrow> SPP_Handler \<Rightarrow> trace \<Rightarrow> (STATUS \<times> SPP_Handler \<times> trace) option" where
  "disconnect os state tr =
     disconnect_from os (map of_nat [0..<unat (spp_bus_device_count state)]) state (replicate 255 0) tr"

definition check_spp_prdy_event :: "bool \<Rightarrow> u8 list \<Rightarrow> bool" where
  "check_spp_prdy_event is_bpk data \<longleftrightarrow>
     is_bpk \<and> length data \<ge> 2 \<and> data ! 0 = SPP_IBI_STATUS_CHANGED \<and>
     (data ! 1 = SPP_IBI_SUBREASON_PRDY \<or> data ! 1 = SPP_IBI_SUBREASON_OVERFLOW)"

definition check_spp_auto_cmd_event :: "bool \<Rightarrow> u8 list \<Rightarrow> bool" where
  "check_spp_auto_cmd_event is_bpk data \<longleftrightarrow>
     is_bpk \<and> length data \<ge> 2 \<and> (data ! 0 = SPP_IBI_DATA_READY \<or> data ! 0 = SPP_IBI_STATUS_CHANGED) \<and>
     data ! 1 = SPP_IBI_SUBREASON_BUFFER_THRESHOLD"

section \<open>The invariant and memory safety\<close>

lemma SPPHandler_wf: "SPPHandler os c tr = (Some s, tr') \<Longrightarrow> wf_spp s"
  by (auto simp: SPPHandler_def malloc_def wf_spp_def MAX_SPP_BUS_DEVICES_def split: if_splits)

lemma open_devs_length: "length (fst (open_devs os is tr)) = length is"
  by (induction os "is" tr rule: open_devs.induct) (auto simp: Let_def split: prod.splits)

lemma spp_open_driver_wf:
  assumes "wf_spp s"
  shows "wf_spp (fst (snd (spp_open_driver os s bus tr)))"
proof -
  have "length (fst (open_devs os [0..<MAX_SPP_BUS_DEVICES] tr)) = MAX_SPP_BUS_DEVICES"
    by (simp add: open_devs_length)
  then show ?thesis
    using assms length_filter_le [of "\<lambda>fd. fd \<noteq> - 1" "fst (open_devs os [0..<MAX_SPP_BUS_DEVICES] tr)"]
    by (auto simp: spp_open_driver_def wf_spp_def Let_def split: prod.splits)
qed

lemma spp_close_driver_wf: "wf_spp s \<Longrightarrow> wf_spp (fst (spp_close_driver os s tr))"
  by (simp add: spp_close_driver_def wf_spp_def MAX_SPP_BUS_DEVICES_def)

lemma spp_device_select_wf:
  assumes "wf_spp s"
  shows "ensures (spp_device_select s d) (\<lambda>(st, s'). wf_spp s' \<and>
    (if st = ST_OK then s' = s\<lparr>spp_driver_handle := spp_dev_handlers s ! unat d, device_index := d\<rparr>
                        \<and> spp_dev_handlers s ! unat d \<noteq> - 1 \<and> unat d < MAX_SPP_BUS_DEVICES
     else s' = s))"
  using assms by (auto simp: spp_device_select_def wf_spp_def)

lemma wf_spp_frame [simp]:
  "wf_spp (s\<lparr>spp_bus := b\<rparr>) = wf_spp s" "wf_spp (s\<lparr>ibi_handled := i\<rparr>) = wf_spp s"
  "wf_spp (s\<lparr>broadcast_filepath := p\<rparr>) = wf_spp s" "wf_spp (s\<lparr>fail_read_counter := c\<rparr>) = wf_spp s"
  "wf_spp (s\<lparr>bulk_mode := m\<rparr>) = wf_spp s" "wf_spp (s\<lparr>spp_driver_handle := h\<rparr>) = wf_spp s"
  by (simp_all add: wf_spp_def)

lemma spp_bus_select_wf:
  assumes "wf_spp s" "wf_bus_config cfg"
  shows "ensures (spp_bus_select os cfg s bus tr) (\<lambda>(st, cfg', s', tr'). wf_spp s' \<and> wf_bus_config cfg')"
proof -
  obtain s1 tr1 where c: "spp_close_driver os s tr = (s1, tr1)" by fastforce
  obtain st s2 tr2 where o: "spp_open_driver os s1 bus tr1 = (st, s2, tr2)" by (metis prod_cases3)
  have wf1: "wf_spp s1" using spp_close_driver_wf [OF assms(1), of os tr] c by simp
  then have wf2: "wf_spp s2" using spp_open_driver_wf [of s1 os bus tr1] o by simp
  have "ensures (spp_device_select (s2\<lparr>spp_bus := bus\<rparr>) 0) (\<lambda>r. wf_spp (snd r))"
    by (rule ensures_conseq [OF spp_device_select_wf]) (use wf2 in auto)
  then show ?thesis
    using assms wf2 by (simp add: spp_bus_select_def c o split_def Let_def wf_bus_config_def)
qed

lemma spp_bus_flock_wf:
  assumes "wf_spp s"
  shows "wf_spp (fst (snd (spp_bus_flock os s bus op tr)))"
  using assms spp_open_driver_wf [OF spp_close_driver_wf [OF assms, of os tr], of os bus "snd (spp_close_driver os s tr)"]
  by (auto simp: spp_bus_flock_def Let_def split: prod.splits)

lemma spp_initialize_wf:
  assumes "wf_spp s" "wf_bus_config cfg"
  shows "ensures (spp_initialize os cfg s tr) (\<lambda>(st, cfg', s', tr'). wf_spp s' \<and> wf_bus_config cfg')"
  using assms
  by (auto simp: spp_initialize_def split_def Let_def intro!: ensures_conseq [OF spp_bus_select_wf [OF assms]])

lemma tx_bytes_ok:
  assumes "unat n < 32768" "unat n \<le> length bs"
  shows "tx_bytes bs (i16 n) = Some (take (unat n) bs)"
proof -
  have "uint n < 2 ^ 15"
    using assms(1) by (simp add: nat_less_iff flip: nat_uint_eq)
  then have "i16 n = uint n"
    by (auto simp: i16_def intro!: signed_take_bit_int_eq_self order_trans [OF _ unsigned_greater_eq])
  then show ?thesis using assms by (simp add: tx_bytes_def array_simps)
qed

lemma send_i3c_cmd_ok:
  assumes "unat n < 32768" "unat n \<le> length bs"
  shows "ensures (send_i3c_cmd os s bs (i16 n) tr) (\<lambda>_. True)"
  using assms by (simp add: send_i3c_cmd_def tx_bytes_ok split_def)

lemma spp_send_wf:
  assumes "wf_spp s" "unat n < 32768" "unat n \<le> length bs"
  shows "ensures (spp_send os s n bs tr) (\<lambda>(st, s', tr'). wf_spp s' \<and> spp_dev_handlers s' = spp_dev_handlers s)"
proof -
  have "n \<noteq> 0 \<Longrightarrow> bs \<noteq> []" using assms(3) by (auto simp: unat_eq_zero)
  then show ?thesis
    using assms
    by (auto simp: spp_send_def wf_spp_def split_def intro!: ensures_conseq [OF send_i3c_cmd_ok])
qed

lemma reset_rx_from_wf:
  assumes "wf_spp s"
  shows "ensures (reset_rx_from os is s tr) (\<lambda>(s', tr'). wf_spp s')"
  using assms
proof (induction "is" arbitrary: s tr)
  case (Cons i "is")
  then show ?case
    by (auto simp: split_def Let_def intro!: ensures_conseq [OF spp_device_select_wf [OF Cons.prems, of i]])
qed simp

lemma spp_receive_wf:
  assumes "wf_spp s" "255 \<le> length bf"
  shows "ensures (spp_receive os s bf tr) (\<lambda>(st, n, s', bf', tr').
    wf_spp s' \<and> length bf' = length bf \<and> unat n \<le> 255 \<and> (st \<noteq> ST_OK \<longrightarrow> n = 0))"
proof -
  have "ensures (send_reset_rx os (s\<lparr>fail_read_counter := c\<rparr>) tr1) (\<lambda>r. wf_spp (fst (snd r)))" for c tr1
    unfolding send_reset_rx_def
    by (auto simp: split_def assms(1) intro!: ensures_conseq [OF reset_rx_from_wf])
  moreover have "\<not> 255 < (w::u16) \<Longrightarrow> unat w \<le> 255" for w
    by (simp add: not_less word_le_nat_alt)
  ultimately show ?thesis
    using assms
    by (simp add: spp_receive_def receive_i3c_def rx_i3c_def split_def Let_def) 
qed

lemma spp_send_cmd_ok:
  assumes "unat n < 32768" "unat n \<le> length bs" "bs \<noteq> []"
  shows "ensures (spp_send_cmd os s c n bs tr) (\<lambda>_. True)"
proof -
  have "unat (n - 1) = unat n - 1" if "n \<noteq> 0"
    using that by (metis unat_minus_one)
  then have "tx_bytes (tl bs) (i16 (if n > 0 then n - 1 else n)) \<noteq> None"
    using assms by (cases "n = 0") (auto simp: tx_bytes_ok word_gt_0)
  then show ?thesis
    using assms(3) by (auto simp: spp_send_cmd_def send_i3c_opcode_def split_def)
qed

lemma spp_send_receive_cmd_ok:
  assumes "unat n < 32768" "unat n \<le> length bs" "bs \<noteq> []" "32 \<le> length rb"
  shows "ensures (spp_send_receive_cmd os s c n bs rb tr) (\<lambda>(st, rb', tr'). length rb' = length rb)"
proof -
  have "unat (n - 1) = unat n - 1" if "n \<noteq> 0"
    using that by (metis unat_minus_one)
  then have "tx_bytes (tl bs) (i16 (if n > 0 then n - 1 else n)) \<noteq> None"
    using assms by (cases "n = 0") (auto simp: tx_bytes_ok word_gt_0)
  then show ?thesis
    using assms(3,4) by (auto simp: spp_send_receive_cmd_def send_i3c_opcode_def split_def)
qed

lemma disconnect_wf:
  assumes "wf_spp s"
  shows "ensures (disconnect os s tr) (\<lambda>(st, s', tr'). wf_spp s')"
proof -
  have cmd: "unat (12 :: u16) \<le> length SPASENCLEAR_CMD" "unat (12 :: u16) < 32768"
    by (simp_all add: SPASENCLEAR_CMD_def)
  have "ensures (disconnect_from os is s bf tr) (\<lambda>(st, s', tr'). wf_spp s')" if "wf_spp s" "255 \<le> length bf"
    for "is" s bf tr
    using that
  proof (induction "is" arbitrary: s bf tr)
    case (Cons i "is")
    note sel = spp_device_select_wf [OF Cons.prems(1), of i]
    have snd: "ensures (spp_send os s1 12 SPASENCLEAR_CMD tr) (\<lambda>r. wf_spp (fst (snd r)))" if "wf_spp s1" for s1
      by (rule ensures_conseq [OF spp_send_wf [OF that cmd(2,1)]]) auto
    have rcv: "ensures (spp_receive os s2 bf tr2) (\<lambda>(st, n, s', bf', tr').
        ensures (disconnect_from os is s' bf' tr') (\<lambda>(st, s', tr'). wf_spp s'))" if "wf_spp s2" for s2 tr2
      by (rule ensures_conseq [OF spp_receive_wf [OF that Cons.prems(2)]]) (auto intro: Cons.IH simp: Cons.prems(2))
    show ?case
      by (auto simp: split_def intro!: ensures_conseq [OF sel] ensures_conseq [OF snd] rcv [unfolded split_def])
  qed simp
  then show ?thesis using assms by (simp add: disconnect_def)
qed

lemma i3c_ibi_handler_wf:
  assumes "wf_spp s" "dev < MAX_SPP_BUS_DEVICES" "n \<le> length bf" "2 \<le> length bf"
  shows "ensures (i3c_ibi_handler os s fd bf n dev tr) (\<lambda>(st, s', bf', n', tr').
    wf_spp s' \<and> length bf' = length bf \<and> n' \<le> n \<and> spp_dev_handlers s' = spp_dev_handlers s)"
  using assms by (auto simp: i3c_ibi_handler_def wf_spp_def)

end
