(* ===== verification/Target_Handler.thy ===== *)
theory Target_Handler
  imports Gpio Dbus_Helper Spp_Handler
begin

text \<open>
  \<open>target/target_handler.c\<close>: the fourteen control pins of the target, reading and writing them through
  sysfs, libgpiod or D-Bus, the event configuration, and the reaction to events.  The function
  pointers of a pin are data types with one constructor per function they may hold, and a call through
  NULL is undefined behaviour.  The SPP handler that \<open>state->spp_handler\<close> points to is owned by the
  message layer and passed along; \<open>spp_attached\<close> says whether the pointer is set.
\<close>

section \<open>Data\<close>

definition NUM_GPIOS :: nat where "NUM_GPIOS = 14"
definition NUM_DBUS_FDS :: nat where "NUM_DBUS_FDS = 1"

abbreviation (input) BMC_TCK_MUX_SEL :: nat where "BMC_TCK_MUX_SEL \<equiv> 0"
abbreviation (input) BMC_PREQ_N :: nat where "BMC_PREQ_N \<equiv> 1"
abbreviation (input) BMC_PRDY_N :: nat where "BMC_PRDY_N \<equiv> 2"
abbreviation (input) BMC_RSMRST_B :: nat where "BMC_RSMRST_B \<equiv> 3"
abbreviation (input) BMC_CPU_PWRGD :: nat where "BMC_CPU_PWRGD \<equiv> 4"
abbreviation (input) BMC_PLTRST_B :: nat where "BMC_PLTRST_B \<equiv> 5"
abbreviation (input) BMC_SYSPWROK :: nat where "BMC_SYSPWROK \<equiv> 6"
abbreviation (input) BMC_PWR_DEBUG_N :: nat where "BMC_PWR_DEBUG_N \<equiv> 7"
abbreviation (input) BMC_DEBUG_EN_N :: nat where "BMC_DEBUG_EN_N \<equiv> 8"
abbreviation (input) BMC_XDP_PRST_IN :: nat where "BMC_XDP_PRST_IN \<equiv> 9"
abbreviation (input) POWER_BTN :: nat where "POWER_BTN \<equiv> 10"
abbreviation (input) RESET_BTN :: nat where "RESET_BTN \<equiv> 11"
abbreviation (input) BMC_PWRGD2 :: nat where "BMC_PWRGD2 \<equiv> 12"
abbreviation (input) BMC_PWRGD3 :: nat where "BMC_PWRGD3 \<equiv> 13"

datatype Pin_Type = PIN_NONE | PIN_GPIO | PIN_DBUS | PIN_GPIOD

datatype TargetReadFunctionPtr = Read_gpio_pin | Read_gpiod_pin | Read_pin_none | Read_dbus_pwrgood_pin

datatype TargetWriteFunctionPtr =
  Write_gpio_pin | Write_gpiod_pin | Write_pin_none | Write_dbus_power_button | Write_dbus_reset

datatype TargetEventFunctionPtr =
  On_power_event | On_platform_reset_event | On_prdy_event | On_xdp_present_event | On_power2_event | On_power3_event

datatype ASD_EVENT =
    ASD_EVENT_PLRSTASSERT | ASD_EVENT_PLRSTDEASSRT | ASD_EVENT_PRDY_EVENT | ASD_EVENT_PWRRESTORE | ASD_EVENT_PWRFAIL
  | ASD_EVENT_XDP_PRESENT | ASD_EVENT_MBP | ASD_EVENT_PWRRESTORE2 | ASD_EVENT_PWRFAIL2 | ASD_EVENT_PWRRESTORE3
  | ASD_EVENT_PWRFAIL3 | ASD_EVENT_RSV1 | ASD_EVENT_RSV2 | ASD_EVENT_BPK | ASD_EVENT_BULK_BPK | ASD_EVENT_NONE

record Target_Control_GPIO =
  pin_name :: string
  pin_number :: int
  pin_read :: "TargetReadFunctionPtr option"
  pin_write :: "TargetWriteFunctionPtr option"
  pin_handler :: "TargetEventFunctionPtr option"
  pin_fd :: int
  pin_direction :: GPIO_DIRECTION
  pin_edge :: GPIO_EDGE
  pin_line :: nat
  pin_chip :: nat
  active_low :: bool
  pin_type :: Pin_Type

record event_configuration =
  break_all :: bool
  reset_break :: bool
  report_PRDY :: bool
  report_PLTRST :: bool
  report_MBP :: bool

text \<open>\<open>platform_reset\<close> is the static variable of \<open>target_wait_PRDY\<close>.\<close>

record Target_Control_Handle =
  event_cfg :: event_configuration
  tgt_initialized :: bool
  gpios :: "Target_Control_GPIO list"
  tgt_dbus :: "Dbus_Handle option"
  is_controller_probe :: bool
  xdp_present :: bool
  spp_fd :: int
  spp_attached :: bool
  chain_select_delay_us :: u32
  platform_reset :: bool

text \<open>The pins of the protocol and the GPIOs they stand for.\<close>

datatype Pin =
    PIN_PWRGOOD | PIN_PREQ | PIN_RESET_BUTTON | PIN_POWER_BUTTON | PIN_EARLY_BOOT_STALL | PIN_SYS_PWR_OK | PIN_PRDY
  | PIN_TCK_MUX_SELECT

fun ASD_PIN_TO_GPIO :: "Pin \<Rightarrow> nat" where
  "ASD_PIN_TO_GPIO PIN_PWRGOOD = BMC_CPU_PWRGD"
| "ASD_PIN_TO_GPIO PIN_PREQ = BMC_PREQ_N"
| "ASD_PIN_TO_GPIO PIN_RESET_BUTTON = RESET_BTN"
| "ASD_PIN_TO_GPIO PIN_POWER_BUTTON = POWER_BTN"
| "ASD_PIN_TO_GPIO PIN_EARLY_BOOT_STALL = BMC_PWR_DEBUG_N"
| "ASD_PIN_TO_GPIO PIN_SYS_PWR_OK = BMC_SYSPWROK"
| "ASD_PIN_TO_GPIO PIN_PRDY = BMC_PRDY_N"
| "ASD_PIN_TO_GPIO PIN_TCK_MUX_SELECT = BMC_TCK_MUX_SEL"

definition pin_of_nat :: "nat \<Rightarrow> Pin option" where
  "pin_of_nat n = (if n < 8 then Some ([PIN_PWRGOOD, PIN_PREQ, PIN_RESET_BUTTON, PIN_POWER_BUTTON,
     PIN_EARLY_BOOT_STALL, PIN_SYS_PWR_OK, PIN_PRDY, PIN_TCK_MUX_SELECT] ! n) else None)"

section \<open>Reading and writing one pin\<close>

text \<open>
  A read answers the status and the value, which keeps what the caller had in it on the paths that
  do not store.  libgpiod is called on the line of the pin.
\<close>

fun read_pin ::
    "os \<Rightarrow> TargetReadFunctionPtr \<Rightarrow> Target_Control_Handle \<Rightarrow> nat \<Rightarrow> int \<Rightarrow> trace \<Rightarrow> (STATUS \<times> int \<times> trace) option" where
  "read_pin os Read_gpio_pin state i old tr = do {
     g \<leftarrow> rd (gpios state) i;
     Some (if pin_type g = PIN_GPIO then gpio_get_value os (pin_fd g) old tr else (ST_ERR, old, tr)) }"
| "read_pin os Read_gpiod_pin state i old tr = do {
     g \<leftarrow> rd (gpios state) i;
     Some (if pin_type g = PIN_GPIOD then
             (let (v, tr1) = sys os (Sys_gpiod_get_value (pin_line g)) tr in (if v = - 1 then ST_ERR else ST_OK, v, tr1))
           else (ST_ERR, old, tr)) }"
| "read_pin os Read_pin_none state i old tr = Some (ST_OK, 0, tr)"
| "read_pin os Read_dbus_pwrgood_pin state i old tr =
     Some (case tgt_dbus state of None \<Rightarrow> (ST_OK, 1, tr)
           | Some d \<Rightarrow> (let (st, v, tr1) = dbus_get_powerstate os d old tr
                       in (ST_OK, if st \<noteq> ST_OK then 1 else v, tr1)))"

definition read_gpio_index :: "os \<Rightarrow> Target_Control_Handle \<Rightarrow> nat \<Rightarrow> int \<Rightarrow> trace \<Rightarrow> (STATUS \<times> int \<times> trace) option" where
  "read_gpio_index os state i old tr = do { g \<leftarrow> rd (gpios state) i; f \<leftarrow> pin_read g; read_pin os f state i old tr }"

fun write_pin ::
    "os \<Rightarrow> TargetWriteFunctionPtr \<Rightarrow> Target_Control_Handle \<Rightarrow> nat \<Rightarrow> int \<Rightarrow> trace \<Rightarrow> (STATUS \<times> trace) option" where
  "write_pin os Write_gpio_pin state i v tr = do {
     g \<leftarrow> rd (gpios state) i;
     Some (if pin_type g = PIN_GPIO then gpio_set_value os (pin_fd g) v tr else (ST_ERR, tr)) }"
| "write_pin os Write_gpiod_pin state i v tr = do {
     g \<leftarrow> rd (gpios state) i;
     Some (if pin_type g = PIN_GPIOD then
             (let (r, tr1) = sys os (Sys_gpiod_set_value (pin_line g) v) tr in (if r = 0 then ST_OK else ST_ERR, tr1))
           else (ST_ERR, tr)) }"
| "write_pin os Write_pin_none state i v tr = Some (ST_OK, tr)"
| "write_pin os Write_dbus_power_button state i v tr =
     (if v = 0 then Some (ST_OK, tr)
      else do {
        (st, powerstate, tr1) \<leftarrow> read_gpio_index os state BMC_CPU_PWRGD 0 tr;
        Some (case tgt_dbus state of None \<Rightarrow> (ST_ERR, tr1)
              | Some d \<Rightarrow> if powerstate \<noteq> 0 then dbus_power_off os d tr1 else dbus_power_on os d tr1) })"
| "write_pin os Write_dbus_reset state i v tr =
     Some (if v \<noteq> 0 then (case tgt_dbus state of None \<Rightarrow> (ST_ERR, tr) | Some d \<Rightarrow> dbus_power_reset os d tr)
           else (ST_OK, tr))"

definition write_gpio_index :: "os \<Rightarrow> Target_Control_Handle \<Rightarrow> nat \<Rightarrow> int \<Rightarrow> trace \<Rightarrow> (STATUS \<times> trace) option" where
  "write_gpio_index os state i v tr = do { g \<leftarrow> rd (gpios state) i; f \<leftarrow> pin_write g; write_pin os f state i v tr }"

text \<open>\<open>target_write\<close> and \<open>target_read\<close> accept only some of the pins.\<close>

definition target_write :: "os \<Rightarrow> Target_Control_Handle \<Rightarrow> Pin \<Rightarrow> bool \<Rightarrow> trace \<Rightarrow> (STATUS \<times> trace) option" where
  "target_write os state pin assert tr =
     (if \<not> tgt_initialized state then Some (ST_ERR, tr)
      else if pin \<in> {PIN_RESET_BUTTON, PIN_POWER_BUTTON, PIN_PREQ, PIN_TCK_MUX_SELECT, PIN_SYS_PWR_OK, PIN_EARLY_BOOT_STALL}
      then write_gpio_index os state (ASD_PIN_TO_GPIO pin) (if assert then 1 else 0) tr
      else Some (ST_ERR, tr))"

text \<open>\<open>asserted\<close> is stored on every path but the first.\<close>

definition target_read ::
    "os \<Rightarrow> Target_Control_Handle \<Rightarrow> Pin \<Rightarrow> int \<Rightarrow> bool \<Rightarrow> trace \<Rightarrow> (STATUS \<times> bool \<times> trace) option" where
  "target_read os state pin garbage asserted tr =
     (if \<not> tgt_initialized state then Some (ST_ERR, asserted, tr)
      else if pin \<in> {PIN_PWRGOOD, PIN_PRDY, PIN_PREQ, PIN_SYS_PWR_OK, PIN_EARLY_BOOT_STALL} then do {
        (st, v, tr1) \<leftarrow> read_gpio_index os state (ASD_PIN_TO_GPIO pin) garbage tr;
        Some (st, st = ST_OK \<and> v \<noteq> 0, tr1) }
      else Some (ST_ERR, False, tr))"

section \<open>Events\<close>

text \<open>Setting an option of the event configuration; \<open>cfg\<close> counts them from 0.\<close>

definition target_write_event_config ::
    "os \<Rightarrow> Target_Control_Handle \<Rightarrow> nat \<Rightarrow> bool \<Rightarrow> trace \<Rightarrow> (STATUS \<times> Target_Control_Handle \<times> trace) option" where
  "target_write_event_config os state cfg enable tr =
     (if \<not> tgt_initialized state then Some (ST_ERR, state, tr)
      else if cfg = 0 then Some (ST_OK, event_cfg_update (break_all_update (\<lambda>_. enable)) state, tr)
      else if cfg = 1 then Some (ST_OK, event_cfg_update (reset_break_update (\<lambda>_. enable)) state, tr)
      else if cfg = 2 then do {
        (_, _, tr1) \<leftarrow> read_gpio_index os state BMC_PRDY_N 0 tr;
        Some (ST_OK, event_cfg_update (report_PRDY_update (\<lambda>_. enable)) state, tr1) }
      else if cfg = 3 then Some (ST_OK, event_cfg_update (report_PLTRST_update (\<lambda>_. enable)) state, tr)
      else if cfg = 4 then Some (ST_OK, event_cfg_update (report_MBP_update (\<lambda>_. enable)) state, tr)
      else Some (ST_ERR, state, tr))"

definition target_clear_gpio_event :: "os \<Rightarrow> Target_Control_GPIO \<Rightarrow> trace \<Rightarrow> STATUS \<times> trace" where
  "target_clear_gpio_event os pin tr =
     (if pin_type pin = PIN_GPIO then (ST_OK, snd (snd (gpio_get_value os (pin_fd pin) 0 tr)))
      else if pin_type pin = PIN_GPIOD then
        (let (r, tr1) = sys os (Sys_gpiod_event_read (pin_line pin)) tr in (if r \<noteq> 0 then ST_ERR else ST_OK, tr1))
      else (ST_OK, tr))"

text \<open>\<open>POLLIN\<close>, \<open>POLLPRI\<close> and \<open>POLLERR\<close> are 1, 2 and 8; a pin of another type keeps \<open>old\<close>.\<close>

definition get_pin_events :: "Target_Control_GPIO \<Rightarrow> nat \<Rightarrow> nat" where
  "get_pin_events gpio old = (if pin_type gpio = PIN_GPIO then 10 else if pin_type gpio = PIN_GPIOD then 3 else old)"

text \<open>
  \<open>target_wait_PRDY\<close>.  The wait is clamped, but after a time-out the wait is computed again without
  the clamp, and shifting the \<open>int\<close> 1 by 31 or more is undefined.
\<close>

definition LOG2TIME_SHIFT_MAX :: nat where "LOG2TIME_SHIFT_MAX = 30"

definition prdy_timeout_ms :: "u8 \<Rightarrow> nat" where
  "prdy_timeout_ms log2time = max 1 (2 ^ min (unat log2time) LOG2TIME_SHIFT_MAX div 1000)"

definition target_wait_PRDY ::
    "os \<Rightarrow> Target_Control_Handle \<Rightarrow> u8 \<Rightarrow> trace \<Rightarrow> (STATUS \<times> Target_Control_Handle \<times> trace) option" where
  "target_wait_PRDY os state log2time tr =
     (if \<not> tgt_initialized state then Some (ST_ERR, state, tr)
      else do {
        prdy \<leftarrow> rd (gpios state) BMC_PRDY_N;
        let events = get_pin_events prdy 0;
        let timeout = (if platform_reset state then 0 else prdy_timeout_ms log2time);
        let call = Sys_poll (pin_fd prdy) events (int timeout);
        let r = os tr call;
        let revents = (case sys_data r of [] \<Rightarrow> 0 | b # _ \<Rightarrow> b);
        (st, v, tr1) \<leftarrow> read_gpio_index os state BMC_PLTRST_B 0 (tr @ [call]);
        let s1 = (if st \<noteq> ST_OK then state else state\<lparr>platform_reset := (v \<noteq> 0)\<rparr>);
        if fst r = 0 then (if unat log2time > LOG2TIME_SHIFT_MAX then None else Some (ST_OK, s1, tr1))
        else if fst r > 0 then
          (if revents AND of_nat events \<noteq> 0
           then (let (st2, tr2) = target_clear_gpio_event os prdy tr1 in Some (st2, s1, tr2))
           else Some (ST_OK, s1, tr1))
        else Some (ST_ERR, s1, tr1) })"

definition on_powergood_event ::
    "os \<Rightarrow> Target_Control_Handle \<Rightarrow> nat \<Rightarrow> ASD_EVENT \<Rightarrow> ASD_EVENT \<Rightarrow> ASD_EVENT \<Rightarrow> trace
       \<Rightarrow> (STATUS \<times> ASD_EVENT \<times> trace) option" where
  "on_powergood_event os state i restore fail event tr = do {
     (st, v, tr1) \<leftarrow> read_gpio_index os state i 0 tr;
     Some (st, if st \<noteq> ST_OK then event else if v = 1 then restore else fail, tr1) }"

definition on_platform_reset_event ::
    "os \<Rightarrow> Target_Control_Handle \<Rightarrow> ASD_EVENT \<Rightarrow> trace \<Rightarrow> (STATUS \<times> ASD_EVENT \<times> trace) option" where
  "on_platform_reset_event os state event tr = do {
     (st, v, tr1) \<leftarrow> read_gpio_index os state BMC_PLTRST_B 0 tr;
     if st \<noteq> ST_OK then Some (st, event, tr1)
     else if v = 0 then
       (if reset_break (event_cfg state)
        then do { (st2, tr2) \<leftarrow> write_gpio_index os state BMC_PREQ_N 1 tr1; Some (st2, ASD_EVENT_PLRSTDEASSRT, tr2) }
        else Some (st, ASD_EVENT_PLRSTDEASSRT, tr1))
     else Some (st, ASD_EVENT_PLRSTASSERT, tr1) }"

definition on_prdy_event :: "os \<Rightarrow> Target_Control_Handle \<Rightarrow> trace \<Rightarrow> (STATUS \<times> ASD_EVENT \<times> trace) option" where
  "on_prdy_event os state tr =
     (if break_all (event_cfg state) then do {
        (st, tr1) \<leftarrow> write_gpio_index os state BMC_PREQ_N 1 tr;
        if st = ST_OK \<and> \<not> reset_break (event_cfg state) then do {
          let (_, tr2) = sys os (Sys_usleep 10000) tr1;
          (st2, tr3) \<leftarrow> write_gpio_index os state BMC_PREQ_N 0 tr2;
          Some (st2, ASD_EVENT_PRDY_EVENT, tr3) }
        else Some (st, ASD_EVENT_PRDY_EVENT, tr1) }
      else Some (ST_OK, ASD_EVENT_PRDY_EVENT, tr))"

fun run_handler ::
    "os \<Rightarrow> TargetEventFunctionPtr \<Rightarrow> Target_Control_Handle \<Rightarrow> ASD_EVENT \<Rightarrow> trace \<Rightarrow> (STATUS \<times> ASD_EVENT \<times> trace) option" where
  "run_handler os On_power_event state e tr =
     on_powergood_event os state BMC_CPU_PWRGD ASD_EVENT_PWRRESTORE ASD_EVENT_PWRFAIL e tr"
| "run_handler os On_power2_event state e tr =
     on_powergood_event os state BMC_PWRGD2 ASD_EVENT_PWRRESTORE2 ASD_EVENT_PWRFAIL2 e tr"
| "run_handler os On_power3_event state e tr =
     on_powergood_event os state BMC_PWRGD3 ASD_EVENT_PWRRESTORE3 ASD_EVENT_PWRFAIL3 e tr"
| "run_handler os On_platform_reset_event state e tr = on_platform_reset_event os state e tr"
| "run_handler os On_prdy_event state e tr = on_prdy_event os state tr"
| "run_handler os On_xdp_present_event state e tr = Some (ST_OK, ASD_EVENT_XDP_PRESENT, tr)"

text \<open>What the caller of \<open>target_event\<close> passes for the data of an in-band interrupt.\<close>

record ASD_EVENT_DATA =
  ev_addr :: u32
  ev_size :: nat
  ev_buffer :: "u8 list"

fun find_index :: "('a \<Rightarrow> bool) \<Rightarrow> 'a list \<Rightarrow> nat option" where
  "find_index P [] = None"
| "find_index P (x # xs) = (if P x then Some 0 else map_option Suc (find_index P xs))"

text \<open>The event on a descriptor of one of the first \<open>count\<close> SPP devices.\<close>

definition spp_event_index :: "SPP_Handler \<Rightarrow> int \<Rightarrow> u16 \<Rightarrow> nat option" where
  "spp_event_index spp fd revents =
     (if revents AND 1 = 1
      then find_index (\<lambda>h. h = fd) (take (unat (spp_bus_device_count spp)) (spp_dev_handlers spp)) else None)"

text \<open>
  The events on a pin or on the D-Bus connection.  \<open>result\<close> is the status so far, answered when no
  pin has the descriptor.
\<close>

definition target_gpio_event ::
    "os \<Rightarrow> Target_Control_Handle \<Rightarrow> int \<Rightarrow> u16 \<Rightarrow> STATUS \<Rightarrow> trace
       \<Rightarrow> (STATUS \<times> ASD_EVENT \<times> Target_Control_Handle \<times> trace) option" where
  "target_gpio_event os state fd revents result tr =
     (if revents AND 3 \<noteq> 0 \<or> revents AND 10 = 10 then
        (case find (\<lambda>g. pin_fd g = fd) (gpios state) of
           None \<Rightarrow> Some (result, ASD_EVENT_NONE, state, tr)
         | Some g \<Rightarrow>
             (let (st, tr1) = target_clear_gpio_event os g tr
              in if st \<noteq> ST_OK then Some (st, ASD_EVENT_NONE, state, tr1)
                 else case pin_handler g of None \<Rightarrow> Some (ST_ERR, ASD_EVENT_NONE, state, tr1)
                 | Some h \<Rightarrow> do { (st2, e, tr2) \<leftarrow> run_handler os h state ASD_EVENT_NONE tr1; Some (st2, e, state, tr2) }))
      else Some (ST_OK, ASD_EVENT_NONE, state, tr))"

definition target_pin_event ::
    "os \<Rightarrow> Target_Control_Handle \<Rightarrow> int \<Rightarrow> u16 \<Rightarrow> STATUS \<Rightarrow> trace
       \<Rightarrow> (STATUS \<times> ASD_EVENT \<times> Target_Control_Handle \<times> trace) option" where
  "target_pin_event os state fd revents result tr =
     (case tgt_dbus state of
        Some d \<Rightarrow>
          (if dbus_fd d = fd \<and> revents AND 1 = 1 then
             (let (st, p, d', tr1) = dbus_process_event os d tr
              in Some (st, case p of None \<Rightarrow> ASD_EVENT_NONE | Some True \<Rightarrow> ASD_EVENT_PWRRESTORE | Some False \<Rightarrow> ASD_EVENT_PWRFAIL,
                       state\<lparr>tgt_dbus := Some d'\<rparr>, tr1))
           else target_gpio_event os state fd revents result tr)
      | None \<Rightarrow> target_gpio_event os state fd revents result tr)"

definition target_event ::
    "os \<Rightarrow> Target_Control_Handle \<Rightarrow> SPP_Handler option \<Rightarrow> int \<Rightarrow> u16 \<Rightarrow> ASD_EVENT_DATA \<Rightarrow> trace
       \<Rightarrow> (STATUS \<times> ASD_EVENT \<times> Target_Control_Handle \<times> SPP_Handler option \<times> ASD_EVENT_DATA \<times> trace) option" where
  "target_event os state spp fd revents data tr =
     (if \<not> tgt_initialized state then Some (ST_ERR, ASD_EVENT_NONE, state, spp, data, tr)
      else if spp_attached state then
        (case spp of None \<Rightarrow> None
         | Some sp \<Rightarrow>
             (case spp_event_index sp fd revents of
                Some i \<Rightarrow> do {
                  (st, sp1, bf, n, tr1) \<leftarrow> i3c_ibi_handler os sp fd (ev_buffer data) (ev_size data) i tr;
                  let data1 = data\<lparr>ev_buffer := bf, ev_size := n\<rparr>;
                  if st = ST_OK
                  then Some (ST_OK, ASD_EVENT_BPK, state, Some (sp1\<lparr>ibi_handled := True\<rparr>), data1\<lparr>ev_addr := of_nat i\<rparr>, tr1)
                  else Some (ST_ERR, ASD_EVENT_NONE, state, Some sp1, data1, tr1) }
              | None \<Rightarrow> do {
                  (st, e, s1, tr1) \<leftarrow> target_pin_event os state fd revents ST_OK tr;
                  Some (st, e, s1, spp, data, tr1) }))
      else do {
        (st, e, s1, tr1) \<leftarrow> target_pin_event os state fd revents ST_ERR tr;
        Some (st, e, s1, spp, data, tr1) })"

section \<open>Descriptors to poll, synchronisation, delays\<close>

definition push_fd :: "(int \<times> nat) list \<Rightarrow> int \<Rightarrow> nat \<Rightarrow> (int \<times> nat) list option" where
  "push_fd fds fd events = (if length fds < NUM_GPIOS + NUM_DBUS_FDS then Some (fds @ [(fd, events)]) else None)"

text \<open>One pin: its descriptor is added under a condition; the events carry over from pin to pin.\<close>

definition push_pin ::
    "Target_Control_Handle \<Rightarrow> nat \<Rightarrow> (Target_Control_GPIO \<Rightarrow> bool) \<Rightarrow> nat \<times> (int \<times> nat) list \<Rightarrow> (nat \<times> (int \<times> nat) list) option" where
  "push_pin state i cond ef = do {
     g \<leftarrow> rd (gpios state) i;
     let ev = get_pin_events g (fst ef);
     if cond g \<and> pin_fd g \<noteq> - 1 then do { fds \<leftarrow> push_fd (snd ef) (pin_fd g) ev; Some (ev, fds) }
     else Some (ev, snd ef) }"

fun push_spp :: "int list \<Rightarrow> (int \<times> nat) list \<Rightarrow> (int \<times> nat) list option" where
  "push_spp [] fds = Some fds"
| "push_spp (h # hs) fds =
     (if length fds \<ge> NUM_GPIOS + NUM_DBUS_FDS then Some fds
      else do { fds' \<leftarrow> push_fd fds h 1; push_spp hs fds' })"

text \<open>The pins that are polled, in the order of the code, each with its condition.\<close>

definition polled_pins :: "Target_Control_Handle \<Rightarrow> (nat \<times> (Target_Control_GPIO \<Rightarrow> bool)) list" where
  "polled_pins state =
     [(BMC_PRDY_N, \<lambda>_. report_PRDY (event_cfg state)), (BMC_PLTRST_B, \<lambda>_. True),
      (BMC_CPU_PWRGD, \<lambda>g. pin_type g = PIN_GPIOD \<or> pin_type g = PIN_GPIO), (BMC_XDP_PRST_IN, \<lambda>_. True),
      (BMC_PWRGD2, \<lambda>_. True), (BMC_PWRGD3, \<lambda>_. True)]"

fun push_pins ::
    "Target_Control_Handle \<Rightarrow> (nat \<times> (Target_Control_GPIO \<Rightarrow> bool)) list \<Rightarrow> nat \<times> (int \<times> nat) list
       \<Rightarrow> (nat \<times> (int \<times> nat) list) option" where
  "push_pins state [] ef = Some ef"
| "push_pins state ((i, c) # ps) ef = do { ef' \<leftarrow> push_pin state i c ef; push_pins state ps ef' }"

definition target_get_fds ::
    "Target_Control_Handle \<Rightarrow> SPP_Handler option \<Rightarrow> (STATUS \<times> (int \<times> nat) list) option" where
  "target_get_fds state spp =
     (if \<not> tgt_initialized state then Some (ST_ERR, [])
      else do {
        (_, f) \<leftarrow> push_pins state (polled_pins state) (0, []);
        g \<leftarrow> (case tgt_dbus state of None \<Rightarrow> Some f
              | Some db \<Rightarrow> if dbus_fd db \<noteq> - 1 then push_fd f (dbus_fd db) 1 else Some f);
        h \<leftarrow> (if spp_attached state then
                (case spp of None \<Rightarrow> None
                 | Some sp \<Rightarrow> push_spp (take (min (unat (spp_bus_device_count sp)) MAX_SPP_BUS_DEVICES) (spp_dev_handlers sp)) g)
              else Some g);
        Some (ST_OK, h) })"

definition target_get_spp_fds ::
    "Target_Control_Handle \<Rightarrow> SPP_Handler option \<Rightarrow> (STATUS \<times> (int \<times> nat) list) option" where
  "target_get_spp_fds state spp =
     (if \<not> tgt_initialized state then Some (ST_ERR, [])
      else if spp_attached state then
        (case spp of None \<Rightarrow> None
         | Some sp \<Rightarrow> do {
             hs \<leftarrow> rds (spp_dev_handlers sp) 0 (unat (spp_bus_device_count sp));
             Some (ST_OK, map (\<lambda>h. (h, 1)) hs) })
      else Some (ST_OK, []))"

definition target_wait_sync :: "os \<Rightarrow> Target_Control_Handle \<Rightarrow> u16 \<Rightarrow> u16 \<Rightarrow> trace \<Rightarrow> STATUS \<times> trace" where
  "target_wait_sync os state timeout delay tr =
     (if \<not> tgt_initialized state then (ST_ERR, tr)
      else if is_controller_probe state then (ST_ERR, snd (sys os (Sys_usleep (unat delay * 1000)) tr))
      else (ST_TIMEOUT, snd (sys os (Sys_usleep (unat timeout * 1000)) tr)))"

definition target_chain_select_delay :: "os \<Rightarrow> Target_Control_Handle \<Rightarrow> trace \<Rightarrow> trace" where
  "target_chain_select_delay os state tr =
     (if chain_select_delay_us state > 0 then snd (sys os (Sys_usleep (unat (chain_select_delay_us state))) tr) else tr)"

section \<open>Creation\<close>

definition blank_pin :: Target_Control_GPIO where
  "blank_pin = \<lparr>pin_name = [], pin_number = - 1, pin_read = None, pin_write = None, pin_handler = None, pin_fd = - 1,
     pin_direction = GPIO_DIRECTION_IN, pin_edge = GPIO_EDGE_NONE, pin_line = 0, pin_chip = 0, active_low = False,
     pin_type = PIN_GPIOD\<rparr>"

text \<open>The table of pins, in the order of the enum.\<close>

definition default_pins :: "Target_Control_GPIO list" where
  "default_pins = [
     blank_pin\<lparr>pin_name := ''TCK_MUX_SEL'', pin_direction := GPIO_DIRECTION_LOW\<rparr>,
     blank_pin\<lparr>pin_name := ''PREQ_N'', pin_direction := GPIO_DIRECTION_HIGH, active_low := True\<rparr>,
     blank_pin\<lparr>pin_name := ''PRDY_N'', pin_edge := GPIO_EDGE_FALLING, active_low := True, pin_handler := Some On_prdy_event\<rparr>,
     blank_pin\<lparr>pin_name := ''RSMRST_N''\<rparr>,
     blank_pin\<lparr>pin_name := ''SIO_POWER_GOOD'', pin_edge := GPIO_EDGE_BOTH, pin_type := PIN_DBUS,
               pin_read := Some Read_dbus_pwrgood_pin, pin_handler := Some On_power_event\<rparr>,
     blank_pin\<lparr>pin_name := ''PLTRST_N'', pin_edge := GPIO_EDGE_BOTH, active_low := True,
               pin_handler := Some On_platform_reset_event\<rparr>,
     blank_pin\<lparr>pin_name := ''SYSPWROK'', pin_direction := GPIO_DIRECTION_HIGH, active_low := True\<rparr>,
     blank_pin\<lparr>pin_name := ''PWR_DEBUG_N'', pin_direction := GPIO_DIRECTION_HIGH, active_low := True\<rparr>,
     blank_pin\<lparr>pin_name := ''DEBUG_EN_N'', pin_direction := GPIO_DIRECTION_HIGH, active_low := True\<rparr>,
     blank_pin\<lparr>pin_name := ''XDP_PRST_N'', active_low := True, pin_edge := GPIO_EDGE_BOTH,
               pin_handler := Some On_xdp_present_event\<rparr>,
     blank_pin\<lparr>pin_name := ''POWER_BTN'', pin_direction := GPIO_DIRECTION_HIGH, active_low := True, pin_type := PIN_DBUS,
               pin_write := Some Write_dbus_power_button\<rparr>,
     blank_pin\<lparr>pin_name := ''RESET_BTN'', pin_direction := GPIO_DIRECTION_HIGH, active_low := True, pin_type := PIN_DBUS,
               pin_write := Some Write_dbus_reset\<rparr>,
     blank_pin\<lparr>pin_name := ''BMC_PWRGD2'', pin_edge := GPIO_EDGE_BOTH, pin_handler := Some On_power2_event\<rparr>,
     blank_pin\<lparr>pin_name := ''BMC_PWRGD3'', pin_edge := GPIO_EDGE_BOTH, pin_handler := Some On_power3_event\<rparr>]"

text \<open>The names of the enumerators, as the entity manager spells them.\<close>

definition string_to_enum :: "string \<Rightarrow> (string \<times> 'a) list \<Rightarrow> 'a \<Rightarrow> 'a" where
  "string_to_enum s names old = (case map_of names s of None \<Rightarrow> old | Some v \<Rightarrow> v)"

definition direction_names :: "(string \<times> GPIO_DIRECTION) list" where
  "direction_names = [(''GPIO_DIRECTION_IN'', GPIO_DIRECTION_IN), (''GPIO_DIRECTION_OUT'', GPIO_DIRECTION_OUT),
     (''GPIO_DIRECTION_HIGH'', GPIO_DIRECTION_HIGH), (''GPIO_DIRECTION_LOW'', GPIO_DIRECTION_LOW)]"

definition edge_names :: "(string \<times> GPIO_EDGE) list" where
  "edge_names = [(''GPIO_EDGE_NONE'', GPIO_EDGE_NONE), (''GPIO_EDGE_RISING'', GPIO_EDGE_RISING),
     (''GPIO_EDGE_FALLING'', GPIO_EDGE_FALLING), (''GPIO_EDGE_BOTH'', GPIO_EDGE_BOTH)]"

definition type_names :: "(string \<times> Pin_Type) list" where
  "type_names = [(''PIN_NONE'', PIN_NONE), (''PIN_GPIO'', PIN_GPIO), (''PIN_DBUS'', PIN_DBUS), (''PIN_GPIOD'', PIN_GPIOD)]"

text \<open>One query of \<open>dbus_read_asd_config\<close> for the pin \<open>i\<close>; \<open>None\<close> when it fails.\<close>

definition asd_config_item :: "os \<Rightarrow> string \<Rightarrow> nat \<Rightarrow> trace \<Rightarrow> u8 list option \<times> trace" where
  "asd_config_item os item i tr =
     (let call = Sys_dbus item [int i]; r = os tr call in (if fst r = 0 then Some (sys_data r) else None, tr @ [call]))"

definition platform_override_gpio :: "os \<Rightarrow> nat \<Rightarrow> Target_Control_GPIO \<Rightarrow> trace \<Rightarrow> Target_Control_GPIO \<times> trace" where
  "platform_override_gpio os i gpio tr =
     (let (nm, tr1) = asd_config_item os ''PinName'' i tr;
          g1 = (case nm of None \<Rightarrow> gpio | Some bs \<Rightarrow> gpio\<lparr>pin_name := take 40 (string_of bs)\<rparr>);
          (dr, tr2) = asd_config_item os ''PinDirection'' i tr1;
          g2 = (case dr of None \<Rightarrow> g1
                | Some bs \<Rightarrow> g1\<lparr>pin_direction := string_to_enum (string_of bs) direction_names (pin_direction g1)\<rparr>);
          (ed, tr3) = asd_config_item os ''PinEdge'' i tr2;
          g3 = (case ed of None \<Rightarrow> g2
                | Some bs \<Rightarrow> g2\<lparr>pin_edge := string_to_enum (string_of bs) edge_names (pin_edge g2)\<rparr>);
          (al, tr4) = asd_config_item os ''PinActiveLow'' i tr3;
          g4 = (case al of None \<Rightarrow> g3 | Some bs \<Rightarrow> g3\<lparr>active_low := (bs \<noteq> [] \<and> hd bs \<noteq> 0)\<rparr>);
          (ty, tr5) = asd_config_item os ''PinType'' i tr4;
          g5 = (case ty of None \<Rightarrow> g4
                | Some bs \<Rightarrow> g4\<lparr>pin_type := string_to_enum (string_of bs) type_names (pin_type g4)\<rparr>)
      in (g5, tr5))"

fun override_pins :: "os \<Rightarrow> u8 list list \<Rightarrow> nat \<Rightarrow> Target_Control_GPIO list \<Rightarrow> trace \<Rightarrow> Target_Control_GPIO list \<times> trace" where
  "override_pins os paths i [] tr = ([], tr)"
| "override_pins os paths i (g # gs) tr =
     (let (g', tr1) = (if i < length paths \<and> paths ! i \<noteq> [] then platform_override_gpio os i g tr else (g, tr));
          (gs', tr2) = override_pins os paths (Suc i) gs tr1
      in (g' # gs', tr2))"

definition platform_init :: "os \<Rightarrow> Target_Control_Handle \<Rightarrow> trace \<Rightarrow> Target_Control_Handle \<times> trace" where
  "platform_init os state tr =
     (let (dbus, tr1) = dbus_helper os tr
      in case dbus of None \<Rightarrow> (state, tr1)
         | Some d \<Rightarrow>
             (let (r, tr2) = sys os (Sys_dbus ''sd_bus_open_system'' []) tr1
              in if r < 0 then (state, tr2)
                 else let (fd, tr3) = sys os (Sys_dbus ''sd_bus_get_fd'' []) tr2;
                          d1 = d\<lparr>bus_open := True, dbus_fd := fd\<rparr>;
                          (s1, tr4) =
                            (if fd < 0 then (state, tr3)
                             else let call = Sys_dbus ''dbus_get_asd_interface_paths'' []; r = os tr3 call;
                                      (gs, t1) = override_pins os (snd r) 0 (gpios state) (tr3 @ [call]);
                                      (st, v, t2) = dbus_call os ''dbus_get_chain_select_delay'' [] 0 t1
                                  in (state\<lparr>gpios := gs,
                                            chain_select_delay_us := (if st = ST_OK then of_int v else chain_select_delay_us state)\<rparr>, t2))
                      in (s1, snd (snd (dbus_deinitialize os d1 tr4)))))"

text \<open>Pins that have no functions yet get those of their type.\<close>

definition default_handlers :: "Target_Control_GPIO \<Rightarrow> Target_Control_GPIO" where
  "default_handlers g =
     (let r = (case pin_type g of PIN_GPIO \<Rightarrow> Read_gpio_pin | PIN_GPIOD \<Rightarrow> Read_gpiod_pin | _ \<Rightarrow> Read_pin_none);
          w = (case pin_type g of PIN_GPIO \<Rightarrow> Write_gpio_pin | PIN_GPIOD \<Rightarrow> Write_gpiod_pin | _ \<Rightarrow> Write_pin_none)
      in g\<lparr>pin_read := Some (case pin_read g of None \<Rightarrow> r | Some f \<Rightarrow> f),
           pin_write := Some (case pin_write g of None \<Rightarrow> w | Some f \<Rightarrow> f)\<rparr>)"

definition TargetHandler :: "os \<Rightarrow> int \<Rightarrow> bool \<Rightarrow> trace \<Rightarrow> Target_Control_Handle option \<times> trace" where
  "TargetHandler os garbage reset_flag tr =
     (let (ok, tr1) = malloc os ''Target_Control_Handle'' 1 tr
      in if \<not> ok then (None, tr1)
         else let (dbus, tr2) = dbus_helper os tr1;
                  s0 = \<lparr>event_cfg = \<lparr>break_all = False, reset_break = False, report_PRDY = False, report_PLTRST = False,
                                     report_MBP = False\<rparr>,
                        tgt_initialized = False, gpios = default_pins, tgt_dbus = dbus, is_controller_probe = False,
                        xdp_present = False, spp_fd = garbage, spp_attached = False, chain_select_delay_us = 0,
                        platform_reset = reset_flag\<rparr>;
                  (s1, tr3) = platform_init os s0 tr2
              in (Some (gpios_update (map default_handlers) s1), tr3))"

section \<open>Initialisation\<close>

text \<open>
  The base of the sysfs numbering: every digit of the file counts.  The file is read one character
  at a time; the characters are the answer of one call.
\<close>

definition find_gpio_base :: "os \<Rightarrow> trace \<Rightarrow> STATUS \<times> int \<times> trace" where
  "find_gpio_base os tr =
     (let (fd, tr1) = sys os (Sys_open ''/sys/class/gpio/gpiochip0/base'') tr
      in if fd < 0 then (ST_ERR, 0, tr1)
         else let (p, tr2) = sys os (Sys_lseek fd) tr1
              in if p < 0 then (ST_ERR, 0, snd (sys os (Sys_close fd) tr2))
                 else let call = Sys_read fd 1; r = os tr2 call
                      in (ST_OK, digits_value (filter is_digit (string_of (sys_data r))),
                          snd (sys os (Sys_close fd) (tr2 @ [call]))))"

definition gpio_offsets :: "(string \<times> int) list" where
  "gpio_offsets = [(''TCK_MUX_SEL'', 213), (''PREQ_N'', 212), (''PRDY_N'', 47), (''RSMRST_N'', 146), (''SIO_POWER_GOOD'', 201),
     (''PLTRST_N'', 46), (''SYSPWROK'', 145), (''PWR_DEBUG_N'', 135), (''DEBUG_EN_N'', 37), (''XDP_PRST_N'', 137)]"

definition find_gpio :: "os \<Rightarrow> string \<Rightarrow> trace \<Rightarrow> STATUS \<times> int \<times> trace" where
  "find_gpio os nm tr =
     (let (st, base, tr1) = find_gpio_base os tr
      in if st \<noteq> ST_OK then (st, 0, tr1)
         else case map_of gpio_offsets nm of None \<Rightarrow> (ST_ERR, 0, tr1) | Some k \<Rightarrow> (ST_OK, base + k, tr1))"

definition initialize_gpio :: "os \<Rightarrow> Target_Control_GPIO \<Rightarrow> trace \<Rightarrow> STATUS \<times> Target_Control_GPIO \<times> trace" where
  "initialize_gpio os gpio tr =
     (let (st, num, tr1) = find_gpio os (pin_name gpio) tr
      in if st \<noteq> ST_OK then (st, gpio, tr1)
         else let (st2, fd, tr2) = gpio_export os num tr1; g = gpio\<lparr>pin_fd := fd\<rparr>
              in if st2 \<noteq> ST_OK then (st2, g, tr2)
                 else let (st3, tr3) = gpio_set_active_low os num (active_low g) tr2
                      in if st3 \<noteq> ST_OK then (st3, g, tr3)
                         else let (st4, tr4) = gpio_set_direction os num (pin_direction g) tr3
                              in if st4 \<noteq> ST_OK then (st4, g, tr4)
                                 else let (st5, tr5) = gpio_set_edge os num (pin_edge g) tr4
                                      in if st5 \<noteq> ST_OK then (st5, g, tr5) else (ST_OK, g\<lparr>pin_number := num\<rparr>, tr5))"

definition has_edge :: "Target_Control_GPIO \<Rightarrow> bool" where
  "has_edge g \<longleftrightarrow> pin_direction g = GPIO_DIRECTION_IN \<and> pin_edge g \<noteq> GPIO_EDGE_NONE"

fun request_type :: "GPIO_DIRECTION \<Rightarrow> GPIO_EDGE \<Rightarrow> string" where
  "request_type GPIO_DIRECTION_IN GPIO_EDGE_RISING = ''EVENT_RISING_EDGE''"
| "request_type GPIO_DIRECTION_IN GPIO_EDGE_FALLING = ''EVENT_FALLING_EDGE''"
| "request_type GPIO_DIRECTION_IN GPIO_EDGE_BOTH = ''EVENT_BOTH_EDGES''"
| "request_type GPIO_DIRECTION_IN GPIO_EDGE_NONE = ''DIRECTION_INPUT''"
| "request_type _ _ = ''DIRECTION_OUTPUT''"

definition default_val :: "Target_Control_GPIO \<Rightarrow> int" where
  "default_val g = (case pin_direction g of GPIO_DIRECTION_IN \<Rightarrow> 0
     | GPIO_DIRECTION_HIGH \<Rightarrow> if active_low g then 0 else 1 | _ \<Rightarrow> if active_low g then 1 else 0)"

text \<open>
  \<open>gpiod_ctxless_find_line\<close> answers the name of the chip and the offset of the line; an event
  descriptor is wanted only for an input with an edge.
\<close>

definition chip_path :: "u8 list \<Rightarrow> string" where
  "chip_path bs = take 31 (''/dev/'' @ string_of bs)"

definition initialize_gpiod :: "os \<Rightarrow> Target_Control_GPIO \<Rightarrow> trace \<Rightarrow> STATUS \<times> Target_Control_GPIO \<times> trace" where
  "initialize_gpiod os gpio tr =
     (let call = Sys_gpiod_find (pin_name gpio); r = os tr call; tr1 = tr @ [call]
      in if fst r \<le> 0 then (ST_ERR, gpio, tr1)
         else let chip_name = chip_path (sys_data r);
                  offset = sys_int (0, tl (snd r));
                  (c, tr2) = sys os (Sys_gpiod_chip_open chip_name) tr1;
                  g1 = gpio\<lparr>pin_chip := nat c\<rparr>
              in if nat c = 0 then (ST_ERR, g1, tr2)
                 else let (l, tr3) = sys os (Sys_gpiod_get_line (nat c) offset) tr2;
                          g2 = g1\<lparr>pin_line := nat l\<rparr>
                      in if nat l = 0 then (ST_ERR, g2, snd (sys os (Sys_gpiod_chip_close (nat c)) tr3))
                         else let (rq, tr4) = sys os (Sys_gpiod_request (nat l) (request_type (pin_direction g2) (pin_edge g2))
                                                        (active_low g2) (default_val g2)) tr3
                              in if rq \<noteq> 0 then (ST_ERR, g2, snd (sys os (Sys_gpiod_chip_close (nat c)) tr4))
                                 else if has_edge g2 then
                                   (let (fd, tr5) = sys os (Sys_gpiod_event_fd (nat l)) tr4; g3 = g2\<lparr>pin_fd := fd\<rparr>
                                    in if fd = - 1 then (ST_ERR, g3, tr5) else (ST_OK, g3\<lparr>pin_number := offset\<rparr>, tr5))
                                 else (ST_OK, g2\<lparr>pin_number := offset\<rparr>, tr4))"

text \<open>A pin that cannot be set up becomes \<open>PIN_NONE\<close>; one pin that can makes the whole a success.\<close>

definition init_pin :: "os \<Rightarrow> Target_Control_GPIO \<Rightarrow> trace \<Rightarrow> bool \<times> Target_Control_GPIO \<times> trace" where
  "init_pin os g tr =
     (case pin_type g of
        PIN_GPIO \<Rightarrow>
          (let (st, g1, tr1) = initialize_gpio os g tr
           in if st \<noteq> ST_OK then (False, g1\<lparr>pin_type := PIN_NONE\<rparr>, tr1)
              else let (st2, _, tr2) = gpio_get_value os (pin_fd g1) 0 tr1 in (st2 = ST_OK, g1, tr2))
      | PIN_GPIOD \<Rightarrow>
          (let (st, g1, tr1) = initialize_gpiod os g tr
           in if st \<noteq> ST_OK then (False, g1\<lparr>pin_type := PIN_NONE\<rparr>, tr1) else (True, g1, tr1))
      | _ \<Rightarrow> (False, g, tr))"

fun init_pins :: "os \<Rightarrow> Target_Control_GPIO list \<Rightarrow> trace \<Rightarrow> bool \<times> Target_Control_GPIO list \<times> trace" where
  "init_pins os [] tr = (False, [], tr)"
| "init_pins os (g # gs) tr =
     (let (b, g', tr1) = init_pin os g tr; (bs, gs', tr2) = init_pins os gs tr1 in (b \<or> bs, g' # gs', tr2))"

definition initialize_gpios :: "os \<Rightarrow> Target_Control_Handle \<Rightarrow> trace \<Rightarrow> STATUS \<times> Target_Control_Handle \<times> trace" where
  "initialize_gpios os state tr =
     (let (b, gs, tr1) = init_pins os (gpios state) tr in (if b then ST_OK else ST_ERR, state\<lparr>gpios := gs\<rparr>, tr1))"

definition deinit_pin :: "os \<Rightarrow> Target_Control_GPIO \<Rightarrow> trace \<Rightarrow> bool \<times> trace" where
  "deinit_pin os g tr =
     (case pin_type g of
        PIN_GPIO \<Rightarrow> (let (st, tr1) = gpio_set_direction os (pin_number g) GPIO_DIRECTION_IN tr;
                         (st2, tr2) = gpio_unexport os (pin_number g) tr1
                     in (st = ST_OK \<and> st2 = ST_OK, tr2))
      | PIN_GPIOD \<Rightarrow> (let (_, tr1) = sys os (Sys_gpiod_release (pin_line g)) tr;
                          (r, tr2) = sys os (Sys_gpiod_request_input (pin_line g)) tr1;
                          (_, tr3) = sys os (Sys_gpiod_chip_close (pin_chip g)) tr2
                      in (r = 0, tr3))
      | _ \<Rightarrow> (True, tr))"

fun deinit_pins :: "os \<Rightarrow> Target_Control_GPIO list \<Rightarrow> trace \<Rightarrow> bool \<times> trace" where
  "deinit_pins os [] tr = (True, tr)"
| "deinit_pins os (g # gs) tr = (let (b, tr1) = deinit_pin os g tr; (bs, tr2) = deinit_pins os gs tr1 in (b \<and> bs, tr2))"

definition deinitialize_gpios :: "os \<Rightarrow> Target_Control_Handle \<Rightarrow> trace \<Rightarrow> STATUS \<times> trace" where
  "deinitialize_gpios os state tr =
     (let (b, tr1) = deinit_pins os (gpios state) tr in (if b then ST_OK else ST_ERR, tr1))"

definition target_initialize ::
    "os \<Rightarrow> Target_Control_Handle \<Rightarrow> bool \<Rightarrow> trace \<Rightarrow> (STATUS \<times> Target_Control_Handle \<times> trace) option" where
  "target_initialize os state xdp_fail tr =
     (if tgt_initialized state then Some (ST_ERR, state, tr)
      else do {
        let (st, s1, tr1) = initialize_gpios os state tr;
        (st2, s2, tr2) \<leftarrow>
          (if st = ST_OK then do {
             (r, v, t) \<leftarrow> read_gpio_index os s1 BMC_XDP_PRST_IN 0 tr1;
             Some (if r \<noteq> ST_OK then (r, s1, t)
                   else if v = 1 then (if xdp_fail then ST_ERR else ST_OK, s1\<lparr>xdp_present := True\<rparr>, t)
                   else (ST_OK, s1, t)) }
           else Some (st, s1, tr1));
        (st3, tr3) \<leftarrow> (if st2 = ST_OK then write_gpio_index os s2 BMC_DEBUG_EN_N 1 tr2 else Some (st2, tr2));
        let (st4, s4, tr4) =
          (if st3 = ST_OK then
             (case tgt_dbus s2 of None \<Rightarrow> (ST_ERR, s2, tr3)
              | Some d \<Rightarrow> (let (r, d', t) = dbus_initialize os d tr3 in (r, s2\<lparr>tgt_dbus := Some d'\<rparr>, t)))
           else (st3, s2, tr3));
        Some (if st4 = ST_OK then (ST_OK, s4\<lparr>tgt_initialized := True\<rparr>, tr4)
              else (st4, s4, snd (deinitialize_gpios os s4 tr4))) })"

fun close_pin_fds :: "os \<Rightarrow> Target_Control_GPIO list \<Rightarrow> trace \<Rightarrow> Target_Control_GPIO list \<times> trace" where
  "close_pin_fds os [] tr = ([], tr)"
| "close_pin_fds os (g # gs) tr =
     (let (g', tr1) = (if pin_type g = PIN_GPIO \<and> pin_fd g \<noteq> - 1
                       then (g\<lparr>pin_fd := - 1\<rparr>, snd (sys os (Sys_close (pin_fd g)) tr)) else (g, tr));
          (gs', tr2) = close_pin_fds os gs tr1
      in (g' # gs', tr2))"

text \<open>The handle keeps its \<open>initialized\<close> flag; its owner frees it right after.\<close>

definition target_deinitialize :: "os \<Rightarrow> Target_Control_Handle \<Rightarrow> trace \<Rightarrow> STATUS \<times> Target_Control_Handle \<times> trace" where
  "target_deinitialize os state tr =
     (if \<not> tgt_initialized state then (ST_ERR, state, tr)
      else let (gs, tr1) = close_pin_fds os (gpios state) tr;
               tr2 = (case tgt_dbus state of None \<Rightarrow> tr1 | Some d \<Rightarrow> snd (snd (dbus_deinitialize os d tr1)));
               s1 = state\<lparr>gpios := gs, tgt_dbus := None\<rparr>;
               (st, tr3) = deinitialize_gpios os s1 tr2
           in (st, s1, tr3))"

section \<open>The invariant and memory safety\<close>

definition wf_target :: "Target_Control_Handle \<Rightarrow> bool" where
  "wf_target s \<longleftrightarrow> length (gpios s) = NUM_GPIOS \<and> (\<forall>g \<in> set (gpios s). pin_read g \<noteq> None \<and> pin_write g \<noteq> None)"

lemma wf_target_frame [simp]:
  "wf_target (event_cfg_update f s) = wf_target s" "wf_target (tgt_initialized_update b s) = wf_target s"
  "wf_target (tgt_dbus_update d s) = wf_target s" "wf_target (xdp_present_update b s) = wf_target s"
  "wf_target (platform_reset_update b s) = wf_target s" "wf_target (spp_attached_update b s) = wf_target s"
  "wf_target (spp_fd_update i s) = wf_target s"
  by (simp_all add: wf_target_def)

lemma platform_override_length: "length (fst (override_pins os ps i gs tr)) = length gs"
  by (induction os ps i gs tr rule: override_pins.induct) (auto simp: Let_def split: prod.splits)

lemma TargetHandler_wf:
  assumes "TargetHandler os g r tr = (Some s, tr')"
  shows "wf_target s \<and> \<not> tgt_initialized s \<and> \<not> spp_attached s"
proof -
  have len: "length default_pins = NUM_GPIOS" by (simp add: default_pins_def NUM_GPIOS_def)
  have pi: "length (gpios (fst (platform_init os t tr))) = length (gpios t)
      \<and> tgt_initialized (fst (platform_init os t tr)) = tgt_initialized t
      \<and> spp_attached (fst (platform_init os t tr)) = spp_attached t" for t tr
    by (auto simp: platform_init_def Let_def platform_override_length split_def split: option.splits)
  show ?thesis
    using assms len pi
    by (auto simp: TargetHandler_def wf_target_def default_handlers_def Let_def split_def split: if_splits)
qed

lemma wf_target_nth:
  assumes "wf_target s" "i < NUM_GPIOS"
  shows "\<exists>f. pin_read (gpios s ! i) = Some f" "\<exists>f. pin_write (gpios s ! i) = Some f" "i < length (gpios s)"
  using assms by (auto simp: wf_target_def)

lemma read_gpio_index_ok:
  assumes "wf_target s" "i < NUM_GPIOS"
  shows "ensures (read_gpio_index os s i old tr) (\<lambda>_. True)"
proof -
  obtain f where f: "pin_read (gpios s ! i) = Some f" using wf_target_nth [OF assms] by blast
  show ?thesis
    using wf_target_nth(3) [OF assms] f by (cases f) (auto simp: read_gpio_index_def)
qed

lemma write_gpio_index_ok:
  assumes "wf_target s" "i < NUM_GPIOS"
  shows "ensures (write_gpio_index os s i v tr) (\<lambda>_. True)"
proof -
  obtain f where f: "pin_write (gpios s ! i) = Some f" using wf_target_nth [OF assms] by blast
  have "4 < NUM_GPIOS" by (simp add: NUM_GPIOS_def)
  then show ?thesis
    using wf_target_nth(3) [OF assms] f assms(1)
    by (cases f) (auto simp: write_gpio_index_def split_def intro!: ensures_conseq [OF read_gpio_index_ok])
qed

lemma ASD_PIN_TO_GPIO_less: "ASD_PIN_TO_GPIO p < NUM_GPIOS"
  by (cases p) (simp_all add: NUM_GPIOS_def)

lemma target_write_ok: "wf_target s \<Longrightarrow> ensures (target_write os s p a tr) (\<lambda>_. True)"
  by (simp add: target_write_def write_gpio_index_ok ASD_PIN_TO_GPIO_less)

lemma target_read_ok: "wf_target s \<Longrightarrow> ensures (target_read os s p g a tr) (\<lambda>_. True)"
  by (auto simp: target_read_def split_def NUM_GPIOS_def intro!: ensures_conseq [OF read_gpio_index_ok])

lemma target_write_event_config_wf:
  "wf_target s \<Longrightarrow> ensures (target_write_event_config os s c e tr) (\<lambda>(st, s', tr'). wf_target s')"
  by (auto simp: target_write_event_config_def split_def NUM_GPIOS_def intro!: ensures_conseq [OF read_gpio_index_ok])

text \<open>No undefined shift when the exponent is small or the wait never times out.\<close>

definition poll_answers :: "os \<Rightarrow> bool" where
  "poll_answers os \<longleftrightarrow> (\<forall>tr fd ev t. fst (os tr (Sys_poll fd ev t)) \<noteq> 0)"

lemma target_wait_PRDY_wf:
  assumes "wf_target s" "unat l \<le> LOG2TIME_SHIFT_MAX \<or> poll_answers os"
  shows "ensures (target_wait_PRDY os s l tr) (\<lambda>(st, s', tr'). wf_target s')"
proof -
  have "2 < length (gpios s)" using assms(1) by (simp add: wf_target_def NUM_GPIOS_def)
  moreover have "5 < NUM_GPIOS" by (simp add: NUM_GPIOS_def)
  moreover have "fst (os tr (Sys_poll fd ev t)) = 0 \<Longrightarrow> \<not> LOG2TIME_SHIFT_MAX < unat l" for fd ev t
    using assms(2) by (auto simp: poll_answers_def)
  ultimately show ?thesis
    using assms(1)
    by (auto simp: target_wait_PRDY_def split_def intro!: ensures_conseq [OF read_gpio_index_ok])
qed

lemma run_handler_ok: "wf_target s \<Longrightarrow> ensures (run_handler os h s e tr) (\<lambda>_. True)"
  by (cases h) (auto simp: on_powergood_event_def on_platform_reset_event_def on_prdy_event_def split_def NUM_GPIOS_def
      intro!: ensures_conseq [OF read_gpio_index_ok] ensures_conseq [OF write_gpio_index_ok])

lemma target_pin_event_wf:
  assumes "wf_target s"
  shows "ensures (target_pin_event os s fd ev r tr) (\<lambda>(st, e, s', tr'). wf_target s')"
proof -
  have "ensures (target_gpio_event os s fd ev r tr) (\<lambda>(st, e, s', tr'). wf_target s')"
    using assms
    by (auto simp: target_gpio_event_def split_def intro!: ensures_conseq [OF run_handler_ok] split: option.split)
  then show ?thesis
    using assms by (auto simp: target_pin_event_def split_def split: option.split)
qed

lemma find_index_less: "find_index P xs = Some i \<Longrightarrow> i < length xs \<and> P (xs ! i)"
  by (induction xs arbitrary: i) (auto split: if_splits)

lemma target_event_wf:
  assumes "wf_target s" "spp_attached s \<longrightarrow> (\<exists>sp. spp = Some sp \<and> wf_spp sp)"
    "ev_size data \<le> length (ev_buffer data)" "2 \<le> length (ev_buffer data)"
  shows "ensures (target_event os s spp fd ev data tr) (\<lambda>(st, e, s', spp', data', tr').
    wf_target s' \<and> (\<forall>sp. spp = Some sp \<longrightarrow> wf_spp sp \<longrightarrow> (\<exists>sp'. spp' = Some sp' \<and> wf_spp sp')) \<and>
    ev_size data' \<le> ev_size data \<and> length (ev_buffer data') = length (ev_buffer data))"
proof (cases "tgt_initialized s \<and> spp_attached s")
  case False
  then show ?thesis
    using assms by (auto simp: target_event_def split_def intro!: ensures_conseq [OF target_pin_event_wf])
next
  case True
  then obtain sp where sp: "spp = Some sp" "wf_spp sp" using assms by blast
  show ?thesis
  proof (cases "spp_event_index sp fd ev")
    case None
    then show ?thesis
      using assms True sp by (auto simp: target_event_def split_def intro!: ensures_conseq [OF target_pin_event_wf])
  next
    case (Some i)
    have i: "i < MAX_SPP_BUS_DEVICES"
      using Some sp(2) by (auto simp: spp_event_index_def wf_spp_def split: if_splits dest!: find_index_less)
    show ?thesis
      using assms True sp Some
      by (auto simp: target_event_def split_def intro!: ensures_conseq [OF i3c_ibi_handler_wf [OF sp(2) i assms(3,4)]])
  qed
qed

text \<open>The array of descriptors never overflows, whatever is attached.\<close>

lemma push_spp_length:
  "length fds \<le> NUM_GPIOS + NUM_DBUS_FDS \<Longrightarrow> ensures (push_spp hs fds) (\<lambda>r. length r \<le> NUM_GPIOS + NUM_DBUS_FDS)"
  by (induction hs fds rule: push_spp.induct) (auto simp: push_fd_def)

lemma push_pins_length:
  assumes "wf_target s" "\<forall>(i, c) \<in> set ps. i < NUM_GPIOS" "length (snd ef) + length ps \<le> NUM_GPIOS"
  shows "ensures (push_pins s ps ef) (\<lambda>r. length (snd r) \<le> length (snd ef) + length ps)"
  using assms(2,3)
proof (induction ps arbitrary: ef)
  case (Cons p ps)
  obtain i c where p: "p = (i, c)" by fastforce
  have "ensures (push_pin s i c ef) (\<lambda>r. length (snd r) \<le> Suc (length (snd ef)))"
    using assms(1) Cons.prems p by (auto simp: push_pin_def push_fd_def wf_target_def)
  then show ?case
    unfolding p push_pins.simps ensures_bind
  proof (rule ensures_conseq)
    fix r :: "nat \<times> (int \<times> nat) list" assume "length (snd r) \<le> Suc (length (snd ef))"
    moreover from this have "ensures (push_pins s ps r) (\<lambda>q. length (snd q) \<le> length (snd r) + length ps)"
      using Cons.prems by (intro Cons.IH) auto
    ultimately show "ensures (push_pins s ps r) (\<lambda>r. length (snd r) \<le> length (snd ef) + length ((i, c) # ps))"
      by (auto elim: ensures_conseq)
  qed
qed simp

lemma target_get_fds_bounded:
  assumes "wf_target s" "spp_attached s \<longrightarrow> spp \<noteq> None"
  shows "ensures (target_get_fds s spp) (\<lambda>(st, fds). length fds \<le> NUM_GPIOS + NUM_DBUS_FDS \<and>
    (st = ST_OK \<longleftrightarrow> tgt_initialized s))"
proof -
  have pins: "ensures (push_pins s (polled_pins s) (0, [])) (\<lambda>r. length (snd r) \<le> 6)"
    by (rule ensures_conseq [OF push_pins_length [OF assms(1)]]) (simp_all add: polled_pins_def NUM_GPIOS_def)
  have spp: "ensures (push_spp hs fds) (\<lambda>r. length r \<le> NUM_GPIOS + NUM_DBUS_FDS)" if "length fds \<le> 7" for hs fds
    by (rule push_spp_length) (use that in \<open>simp add: NUM_GPIOS_def NUM_DBUS_FDS_def\<close>)
  have dbus: "length fds \<le> 6 \<Longrightarrow> push_fd fds fd ev = Some (fds @ [(fd, ev)])" for fds fd ev
    by (simp add: push_fd_def NUM_GPIOS_def NUM_DBUS_FDS_def)
  have room: "6 \<le> NUM_GPIOS + NUM_DBUS_FDS" "7 \<le> NUM_GPIOS + NUM_DBUS_FDS"
    by (simp_all add: NUM_GPIOS_def NUM_DBUS_FDS_def)
  show ?thesis
    using assms(2) room
    by (auto simp: target_get_fds_def split_def dbus spp intro!: ensures_conseq [OF pins] split: option.split)
qed

lemma initialize_gpio_functions:
  assumes "initialize_gpio os g tr = (st, g', tr')"
  shows "pin_read g' = pin_read g \<and> pin_write g' = pin_write g"
  using assms by (auto simp: initialize_gpio_def Let_def split: prod.splits if_splits)

lemma initialize_gpiod_functions:
  assumes "initialize_gpiod os g tr = (st, g', tr')"
  shows "pin_read g' = pin_read g \<and> pin_write g' = pin_write g"
  using assms by (auto simp: initialize_gpiod_def sys_def Let_def split: if_splits)

lemma init_pin_functions:
  "pin_read (fst (snd (init_pin os g tr))) = pin_read g \<and> pin_write (fst (snd (init_pin os g tr))) = pin_write g"
  by (auto simp: init_pin_def Let_def split: Pin_Type.splits prod.splits
      dest!: initialize_gpio_functions initialize_gpiod_functions)

lemma init_pins_functions:
  "map pin_read (fst (snd (init_pins os gs tr))) = map pin_read gs \<and>
   map pin_write (fst (snd (init_pins os gs tr))) = map pin_write gs"
  by (induction gs arbitrary: tr) (auto simp: Let_def split_def init_pin_functions)

lemma wf_target_functions:
  "wf_target s \<longleftrightarrow> length (map pin_read (gpios s)) = NUM_GPIOS \<and> None \<notin> set (map pin_read (gpios s)) \<and>
     None \<notin> set (map pin_write (gpios s))"
  by (simp add: wf_target_def None_notin_image ball_conj_distrib)

lemma initialize_gpios_wf: "wf_target s \<Longrightarrow> wf_target (fst (snd (initialize_gpios os s tr)))"
  unfolding wf_target_functions initialize_gpios_def split_def Let_def
  by (simp add: init_pins_functions del: set_map length_map)

lemma target_initialize_wf:
  assumes "wf_target s"
  shows "ensures (target_initialize os s x tr) (\<lambda>(st, s', tr').
    wf_target s' \<and> (if st = ST_OK then tgt_initialized s' else tgt_initialized s' = tgt_initialized s) \<and>
    spp_attached s' = spp_attached s)"
proof -
  obtain st s1 tr1 where i: "initialize_gpios os s tr = (st, s1, tr1)" by (metis prod_cases3)
  have s1: "wf_target s1" "tgt_initialized s1 = tgt_initialized s" "spp_attached s1 = spp_attached s"
    using initialize_gpios_wf [OF assms, of os tr] i by (auto simp: initialize_gpios_def split_def Let_def)
  show ?thesis
    using assms s1
    by (auto simp: target_initialize_def i split_def Let_def NUM_GPIOS_def
        intro!: ensures_conseq [OF read_gpio_index_ok] ensures_conseq [OF write_gpio_index_ok] split: option.split)
qed

end
