(* ===== verification/Vprobe_Handler.thy ===== *)
theory Vprobe_Handler
  imports Asd_Protocol Dbus_Helper
begin

text \<open>
  \<open>target/vprobe_handler.c\<close>: the XML description of remote probes.  \<open>probesConfig\<close> is the C string
  that was built, without its NUL; nothing in the sources sets \<open>remoteConfigs\<close> above 0.
\<close>

record vProbe_Handler =
  remoteProbes :: u8
  remoteConfigs :: u8
  probesConfig :: string
  vp_initialized :: bool
  vp_dbus :: "Dbus_Handle option"

definition vProbeHandler :: "os \<Rightarrow> trace \<Rightarrow> vProbe_Handler option \<times> trace" where
  "vProbeHandler os tr =
     (let (ok, tr1) = malloc os ''vProbe_Handler'' 1 tr
      in if \<not> ok then (None, tr1)
         else let (dbus, tr2) = dbus_helper os tr1
              in (if dbus = None then None
                  else Some \<lparr>remoteProbes = 0, remoteConfigs = 0, probesConfig = [], vp_initialized = False, vp_dbus = dbus\<rparr>,
                  tr2))"

text \<open>
  Appending to the string so far fails when the copy with its NUL does not fit the space that is left.
\<close>

definition vProbeConfigAppend :: "string \<Rightarrow> string \<Rightarrow> string option" where
  "vProbeConfigAppend cfg str = (if length cfg + length str + 1 > MAX_DATA_SIZE then None else Some (cfg @ str))"

definition probe_lines :: "nat \<Rightarrow> string list" where
  "probe_lines i =
     [''<Probe UniqueId='' @ [CHR 0x22] @ dec (2 + int i) @ [CHR 0x22] @ ''>'' @ [CHR 0x0D, CHR 0x0A],
      ''<Interface.Jtag Protocol_Value='' @ [CHR 0x22] @ dec (2 + int i) @ [CHR 0x22] @ '' JTAG_Speed='' @ [CHR 0x22] @
        ''1000000'' @ [CHR 0x22] @ '' Divisor='' @ [CHR 0x22] @ ''1'' @ [CHR 0x22] @ ''/>'' @ [CHR 0x0D, CHR 0x0A],
      ''</Probe>'' @ [CHR 0x0D, CHR 0x0A]]"

definition config_lines :: "nat \<Rightarrow> string list" where
  "config_lines n =
     [''<ASD_JTAG Enable='' @ [CHR 0x22] @ ''true'' @ [CHR 0x22] @ ''>'' @ [CHR 0x0D, CHR 0x0A]]
     @ concat (map probe_lines [0..<n]) @ [''</ASD_JTAG>'' @ [CHR 0x0D, CHR 0x0A]]"

fun append_lines :: "string list \<Rightarrow> string \<Rightarrow> string \<times> STATUS" where
  "append_lines [] cfg = (cfg, ST_OK)"
| "append_lines (l # ls) cfg =
     (case vProbeConfigAppend cfg l of None \<Rightarrow> (cfg, ST_ERR) | Some cfg' \<Rightarrow> append_lines ls cfg')"

definition vProbe_initialize :: "vProbe_Handler \<Rightarrow> STATUS \<times> vProbe_Handler" where
  "vProbe_initialize state =
     (let (cfg, st) = append_lines (config_lines (unat (remoteConfigs state))) []
      in if st = ST_OK then (ST_OK, state\<lparr>probesConfig := cfg, vp_initialized := True\<rparr>)
         else (st, state\<lparr>probesConfig := cfg\<rparr>))"

definition vProbe_deinitialize :: "os \<Rightarrow> vProbe_Handler \<Rightarrow> trace \<Rightarrow> STATUS \<times> vProbe_Handler \<times> trace" where
  "vProbe_deinitialize os state tr =
     (if \<not> vp_initialized state then (ST_ERR, state, tr)
      else (ST_OK, state\<lparr>vp_dbus := None\<rparr>,
            case vp_dbus state of None \<Rightarrow> tr | Some d \<Rightarrow> snd (snd (dbus_deinitialize os d tr))))"

text \<open>The string always leaves room for its NUL in the buffer.\<close>

lemma append_lines_length:
  "length cfg < MAX_DATA_SIZE \<Longrightarrow> length (fst (append_lines ls cfg)) < MAX_DATA_SIZE"
  by (induction ls cfg rule: append_lines.induct)
     (auto simp: vProbeConfigAppend_def split: option.split if_splits)

lemma vProbe_initialize_length:
  "length (probesConfig (snd (vProbe_initialize s))) < MAX_DATA_SIZE"
  using append_lines_length [of "[]" "config_lines (unat (remoteConfigs s))"]
  by (auto simp: vProbe_initialize_def MAX_DATA_SIZE_def split_def Let_def)

end
