(* ===== verification/Asd_Msg_State.thy ===== *)
theory Asd_Msg_State
  imports Server_Io Jtag_Handler I3c_Handler Target_Handler Vprobe_Handler
begin

text \<open>
  The state of \<open>target/asd_msg.c\<close> (\<open>msg_state\<close> and the other globals of the file) and its output
  primitives.  A handler pointer is an option, \<open>None\<close> for NULL.  \<open>msg_state.buscfg\<close> points into the
  configuration, so it is \<open>buscfg (asd_cfg s)\<close>.
\<close>

section \<open>State\<close>

datatype ReadState = READ_STATE_INITIAL | READ_STATE_HEADER | READ_STATE_BUFFER

record ASD_MSG =
  inst :: bool
  asd_cfg :: config
  read_index :: nat
  data_size :: nat
  read_state :: ReadState
  in_msg :: asd_message
  out_msg :: asd_message
  jtag_handler :: "JTAG_Handler option"
  target_handler :: "Target_Control_Handle option"
  i2c_handler :: "I2C_Handler option"
  i3c_handler :: "I3C_Handler option"
  vprobe_handler :: "vProbe_Handler option"
  spp_handler :: "SPP_Handler option"
  handlers_initialized :: bool
  prdy_timeout :: u8
  jtag_chain_mode :: JTAG_CHAIN_SELECT_MODE
  bmc_version :: "u8 list"
  bmc_version_size :: int
  spp_bulk_out_msg :: asd_message
  spp_bulk_response_buffer_count :: u16
  spp_bulk_response_ibi_count :: u8
  asd_poll_timeout_ms :: int

abbreviation buses :: "ASD_MSG \<Rightarrow> bus_config" where
  "buses s \<equiv> buscfg (asd_cfg s)"

definition set_buses :: "bus_config \<Rightarrow> ASD_MSG \<Rightarrow> ASD_MSG" where
  "set_buses b = asd_cfg_update (buscfg_update (\<lambda>_. b))"

section \<open>Sending\<close>

definition packet_bytes :: "asd_message \<Rightarrow> nat \<Rightarrow> u8 list" where
  "packet_bytes m n = header_bytes (header m) @ take n (buffer m)"

definition send_response :: "os \<Rightarrow> Server \<Rightarrow> asd_message \<Rightarrow> trace \<Rightarrow> (STATUS \<times> trace) option" where
  "send_response os srv message tr =
     (let size = get_message_size message
      in if size = - 1 then Some (ST_ERR, tr)
         else do {
           bs \<leftarrow> rds (buffer message) 0 (nat size);
           let out = header_bytes (header message) @ bs;
           (n, tr1) \<leftarrow> asd_api_server_write os srv out tr;
           Some (if n \<noteq> length out then ST_ERR else ST_OK, tr1) })"

definition error_message :: "asd_message \<Rightarrow> ASDError \<Rightarrow> asd_message" where
  "error_message m e =
     \<lparr>header = (header m)\<lparr>mtype := 1, size_lsb := 0, size_msb := 0, cmd_stat := asd_error_code e\<rparr>, buffer = zero_buffer\<rparr>"

definition send_error_message :: "os \<Rightarrow> Server \<Rightarrow> asd_message \<Rightarrow> ASDError \<Rightarrow> trace \<Rightarrow> trace option" where
  "send_error_message os srv input_message e tr = do {
     (st, tr1) \<leftarrow> send_response os srv (error_message input_message e) tr;
     Some tr1 }"

text \<open>
  What the sender of a message owes the receiver: the size in the header counts the bytes that
  follow it.
\<close>

lemma send_response_ok:
  assumes "wf_server srv" "wf_message m"
  shows "ensures (send_response os srv m tr) (\<lambda>(st, tr').
    (sent_on tr' = sent_on tr \<or> sent_on tr' = sent_on tr @ [packet_bytes m (nat (get_message_size m))]) \<and>
    (st = ST_OK \<longrightarrow> sent_on tr' = sent_on tr @ [packet_bytes m (nat (get_message_size m))]))"
proof (cases "get_message_size m = - 1")
  case True
  then show ?thesis by (simp add: send_response_def)
next
  case False
  then have sz: "nat (get_message_size m) \<le> length (buffer m)"
    using get_message_size_range [of m] assms(2) by (auto simp: wf_message_def)
  show ?thesis
    using False sz
    by (auto simp: send_response_def packet_bytes_def HEADER_SIZE_def
        intro!: ensures_conseq [OF asd_api_server_write_ok [OF assms(1)]] split: if_splits)
qed

lemma send_error_message_ok:
  assumes "wf_server srv"
  shows "ensures (send_error_message os srv m e tr) (\<lambda>tr'.
    sent_on tr' = sent_on tr \<or> sent_on tr' = sent_on tr @ [header_bytes (header (error_message m e))])"
proof -
  have wf: "wf_message (error_message m e)" by (simp add: error_message_def wf_message_def)
  have sz: "get_message_size (error_message m e) = 0"
    by (simp add: get_message_size_eq error_message_def)
  show ?thesis
    unfolding send_error_message_def
    using sz by (auto simp: packet_bytes_def intro!: ensures_conseq [OF send_response_ok [OF assms wf]])
qed

section \<open>The invariant\<close>

text \<open>Where a read of the incoming message stands.\<close>

definition wf_read :: "ASD_MSG \<Rightarrow> bool" where
  "wf_read s \<longleftrightarrow> (case read_state s of
       READ_STATE_INITIAL \<Rightarrow> True
     | READ_STATE_HEADER \<Rightarrow> read_index s < HEADER_SIZE
     | READ_STATE_BUFFER \<Rightarrow> read_index s < data_size s \<and> data_size s \<le> MAX_DATA_SIZE)"

definition opt_ok :: "('a \<Rightarrow> bool) \<Rightarrow> 'a option \<Rightarrow> bool" where
  "opt_ok P m \<longleftrightarrow> (case m of None \<Rightarrow> True | Some x \<Rightarrow> P x)"

lemma opt_ok_simps [simp]: "opt_ok P None" "opt_ok P (Some x) = P x"
  by (simp_all add: opt_ok_def)

definition wf_msg :: "ASD_MSG \<Rightarrow> bool" where
  "wf_msg s \<longleftrightarrow>
     wf_bus_config (buses s) \<and> wf_message (in_msg s) \<and> wf_message (out_msg s) \<and> wf_message (spp_bulk_out_msg s) \<and>
     opt_ok wf_jtag (jtag_handler s) \<and> opt_ok wf_target (target_handler s) \<and> opt_ok wf_i3c (i3c_handler s) \<and>
     opt_ok wf_spp (spp_handler s) \<and>
     opt_ok (\<lambda>t. spp_attached t \<longrightarrow> spp_handler s \<noteq> None) (target_handler s)"

lemma wf_msg_jtag [simp]: "wf_msg s \<Longrightarrow> opt_ok wf_jtag h \<Longrightarrow> wf_msg (s\<lparr>jtag_handler := h\<rparr>)"
  by (simp add: wf_msg_def)

lemma wf_msg_target [simp]:
  "wf_msg s \<Longrightarrow> opt_ok wf_target t \<Longrightarrow> opt_ok (\<lambda>t. spp_attached t \<longrightarrow> spp_handler s \<noteq> None) t \<Longrightarrow>
   wf_msg (s\<lparr>target_handler := t\<rparr>)"
  by (simp add: wf_msg_def)

lemma wf_msg_bulk [simp]: "wf_msg s \<Longrightarrow> wf_message m \<Longrightarrow> wf_msg (s\<lparr>spp_bulk_out_msg := m\<rparr>)"
  by (simp add: wf_msg_def)

lemma wf_msg_out [simp]: "wf_msg s \<Longrightarrow> wf_message m \<Longrightarrow> wf_msg (s\<lparr>out_msg := m\<rparr>)"
  by (simp add: wf_msg_def)

lemma wf_msg_frame [simp]: "wf_msg (prdy_timeout_update f s) = wf_msg s"
  "wf_msg (jtag_chain_mode_update g s) = wf_msg s" "wf_msg (read_index_update k s) = wf_msg s"
  "wf_msg (data_size_update k s) = wf_msg s" "wf_msg (read_state_update q s) = wf_msg s"
  "wf_msg (asd_poll_timeout_ms_update i s) = wf_msg s" "wf_msg (spp_bulk_response_buffer_count_update c s) = wf_msg s"
  "wf_msg (spp_bulk_response_ibi_count_update d s) = wf_msg s"
  by (simp_all add: wf_msg_def)

lemma wf_msgD:
  assumes "wf_msg s"
  shows "wf_bus_config (buses s)" "wf_message (in_msg s)" "wf_message (out_msg s)"
    "opt_ok wf_jtag (jtag_handler s)" "opt_ok wf_target (target_handler s)" "opt_ok wf_i3c (i3c_handler s)"
    "opt_ok wf_spp (spp_handler s)" "opt_ok (\<lambda>t. spp_attached t \<longrightarrow> spp_handler s \<noteq> None) (target_handler s)"
  using assms by (simp_all add: wf_msg_def)

lemma wf_msg_buses [simp]: "wf_msg s \<Longrightarrow> wf_bus_config b \<Longrightarrow> wf_msg (set_buses b s)"
  by (simp add: wf_msg_def set_buses_def)

lemma wf_msg_handlers [simp]:
  "wf_msg (s\<lparr>i2c_handler := h\<rparr>) = wf_msg s"
  "wf_msg s \<Longrightarrow> opt_ok wf_i3c i \<Longrightarrow> wf_msg (s\<lparr>i3c_handler := i\<rparr>)"
  "wf_msg s \<Longrightarrow> wf_spp p \<Longrightarrow> wf_msg (s\<lparr>spp_handler := Some p\<rparr>)"
  by (auto simp: wf_msg_def opt_ok_def split: option.splits)

section \<open>Framing\<close>

text \<open>
  A packet is framed when its header announces the number of bytes that follow it.  Everything the
  message layer puts on a connection is: \<open>sends_framed tr tr'\<close> says so of the packets between two
  points of a run.
\<close>

definition framed :: "u8 list \<Rightarrow> bool" where
  "framed p \<longleftrightarrow> HEADER_SIZE \<le> length p \<and>
     get_message_size \<lparr>header = header_of_bytes (take HEADER_SIZE p), buffer = []\<rparr> = int (length p - HEADER_SIZE)"

definition sends_framed :: "trace \<Rightarrow> trace \<Rightarrow> bool" where
  "sends_framed tr tr' \<longleftrightarrow> (\<exists>ps. sent_on tr' = sent_on tr @ ps \<and> list_all framed ps)"

lemma sends_framed_refl [simp]: "sends_framed tr tr"
  by (simp add: sends_framed_def)

lemma sends_framed_trans: "sends_framed a b \<Longrightarrow> sends_framed b c \<Longrightarrow> sends_framed a c"
  by (auto simp: sends_framed_def)

lemma sends_framed_quiet: "sent_on tr' = sent_on tr \<Longrightarrow> sends_framed tr tr'"
  by (simp add: sends_framed_def)



lemma get_message_size_header: "get_message_size m = get_message_size \<lparr>header = header m, buffer = bs\<rparr>"
  by (simp add: get_message_size_def)

lemma framed_packet:
  assumes "wf_message m" "get_message_size m \<noteq> - 1"
  shows "framed (packet_bytes m (nat (get_message_size m)))"
proof -
  have sz: "0 \<le> get_message_size m" "nat (get_message_size m) \<le> length (buffer m)"
    using get_message_size_range [of m] assms by (auto simp: wf_message_def)
  then show ?thesis
    using get_message_size_header [of m "[]"]
    by (simp add: framed_def packet_bytes_def header_of_header_bytes)
qed

lemma framed_header_only:
  assumes "size_lsb h = 0" "size_msb h = 0"
  shows "framed (header_bytes h)"
  using assms by (simp add: framed_def header_of_header_bytes get_message_size_eq)

lemma send_response_framed:
  assumes "wf_server srv" "wf_message m"
  shows "ensures (send_response os srv m tr) (\<lambda>(st, tr'). sends_framed tr tr')"
proof (cases "get_message_size m = - 1")
  case False
  then show ?thesis
    using send_response_ok [OF assms, of os tr] framed_packet [OF assms(2) False]
    by (auto elim!: ensures_conseq simp: sends_framed_def)
qed (simp add: send_response_def)

lemma send_error_message_framed:
  assumes "wf_server srv"
  shows "ensures (send_error_message os srv m e tr) (sends_framed tr)"
proof -
  have "framed (header_bytes (header (error_message m e)))"
    by (rule framed_header_only) (simp_all add: error_message_def)
  then show ?thesis
    using send_error_message_ok [OF assms, of os m e tr] by (auto elim!: ensures_conseq simp: sends_framed_def)
qed

end
