(* ===== verification/Handler_Quiet.thy ===== *)
theory Handler_Quiet
  imports Ext_Network Jtag_Handler Target_Handler
begin

text \<open>
  The operations of the handlers never put anything on the client's connection: whatever they do to
  the hardware, the list of the payloads sent stays as it was.  \<open>whenever m P\<close> is the partial
  companion of \<open>ensures\<close>: it claims nothing when the computation faults, so that these facts need no
  invariant; \<open>ensures_whenever\<close> joins them with the facts on safety.
\<close>

definition whenever :: "'a option \<Rightarrow> ('a \<Rightarrow> bool) \<Rightarrow> bool" where
  "whenever m P \<longleftrightarrow> (case m of None \<Rightarrow> True | Some r \<Rightarrow> P r)"

lemma whenever_Some [simp]: "whenever (Some r) P = P r"
  by (simp add: whenever_def)

lemma whenever_None [simp]: "whenever None P"
  by (simp add: whenever_def)

lemma whenever_bind [simp]: "whenever (Option.bind m f) P = whenever m (\<lambda>r. whenever (f r) P)"
  by (cases m) simp_all

lemma whenever_Let [simp]: "whenever (Let x f) P = whenever (f x) P"
  by (simp add: Let_def)

lemma whenever_conseq: "whenever m Q \<Longrightarrow> (\<And>r. Q r \<Longrightarrow> P r) \<Longrightarrow> whenever m P"
  by (cases m) simp_all

lemma whenever_any: "(\<And>r. P r) \<Longrightarrow> whenever m P"
  by (cases m) simp_all

lemma ensures_whenever: "ensures m P \<Longrightarrow> whenever m Q \<Longrightarrow> ensures m (\<lambda>r. P r \<and> Q r)"
  by (cases m) simp_all

named_theorems quiet \<open>operations that send nothing to the client\<close>

definition silent :: "syscall \<Rightarrow> bool" where
  "silent c \<longleftrightarrow> sent_payload c = None"

lemma sent_on_silent [simp]: "silent c \<Longrightarrow> sent_on (c # cs) = sent_on cs"
  by (simp add: sent_on_def silent_def)

lemma sys_quiet [simp]: "silent c \<Longrightarrow> sent_on (snd (sys os c tr)) = sent_on tr"
  by (simp add: sys_def)

section \<open>Pins and D-Bus\<close>

lemma gpio_get_value_quiet [quiet]: "sent_on (snd (snd (gpio_get_value os fd old tr))) = sent_on tr"
  by (simp add: gpio_get_value_def split_def Let_def silent_def)

lemma gpio_set_value_quiet [quiet]: "sent_on (snd (gpio_set_value os fd v tr)) = sent_on tr"
  by (simp add: gpio_set_value_def split_def Let_def silent_def)

lemma dbus_get_powerstate_quiet [quiet]: "sent_on (snd (snd (dbus_get_powerstate os d old tr))) = sent_on tr"
  by (simp add: dbus_get_powerstate_def Let_def silent_def)

lemma dbus_power_quiet [quiet]:
  "sent_on (snd (dbus_power_on os d tr)) = sent_on tr" "sent_on (snd (dbus_power_off os d tr)) = sent_on tr"
  "sent_on (snd (dbus_power_reset os d tr)) = sent_on tr"
  by (simp_all add: dbus_power_on_def dbus_power_off_def dbus_power_reset_def dbus_call_set_property_async_def
      split_def silent_def)

lemma read_gpio_index_quiet: "whenever (read_gpio_index os t i old tr) (\<lambda>(st, v, tr'). sent_on tr' = sent_on tr)"
proof -
  have "whenever (read_pin os f t i old tr) (\<lambda>(st, v, tr'). sent_on tr' = sent_on tr)" for f
    by (cases f) (auto simp: split_def Let_def quiet silent_def split: option.split intro!: whenever_any)
  then show ?thesis by (simp add: read_gpio_index_def whenever_any)
qed

lemma write_gpio_index_quiet: "whenever (write_gpio_index os t i v tr) (\<lambda>(st, tr'). sent_on tr' = sent_on tr)"
proof -
  have "whenever (write_pin os f t i v tr) (\<lambda>(st, tr'). sent_on tr' = sent_on tr)" for f
    by (cases f) (auto simp: split_def Let_def quiet silent_def split: option.split
        intro!: whenever_any whenever_conseq [OF read_gpio_index_quiet])
  then show ?thesis by (simp add: write_gpio_index_def whenever_any)
qed

lemma target_clear_gpio_event_quiet [quiet]: "sent_on (snd (target_clear_gpio_event os g tr)) = sent_on tr"
  by (simp add: target_clear_gpio_event_def split_def Let_def quiet silent_def)

section \<open>The target handler\<close>

lemma target_write_quiet: "whenever (target_write os t p a tr) (\<lambda>(st, tr'). sent_on tr' = sent_on tr)"
  by (simp add: target_write_def write_gpio_index_quiet)

lemma target_read_quiet: "whenever (target_read os t p g a tr) (\<lambda>(st, v, tr'). sent_on tr' = sent_on tr)"
  by (auto simp: target_read_def split_def intro!: whenever_conseq [OF read_gpio_index_quiet])

lemma target_write_event_config_quiet:
  "whenever (target_write_event_config os t c e tr) (\<lambda>(st, t', tr'). sent_on tr' = sent_on tr)"
  by (auto simp: target_write_event_config_def split_def intro!: whenever_conseq [OF read_gpio_index_quiet])

lemma target_wait_PRDY_quiet:
  "whenever (target_wait_PRDY os t l tr) (\<lambda>(st, t', tr'). sent_on tr' = sent_on tr)"
  by (auto simp: target_wait_PRDY_def split_def Let_def quiet silent_def
      intro!: whenever_any whenever_conseq [OF read_gpio_index_quiet])

lemma target_wait_sync_quiet [quiet]: "sent_on (snd (target_wait_sync os t a b tr)) = sent_on tr"
  by (simp add: target_wait_sync_def silent_def)

lemma target_chain_select_delay_quiet [quiet]: "sent_on (target_chain_select_delay os t tr) = sent_on tr"
  by (simp add: target_chain_select_delay_def silent_def)

section \<open>The JTAG handler\<close>

lemma JTAG_set_tap_state_quiet:
  "whenever (JTAG_set_tap_state os h ts tr) (\<lambda>(st, h', tr'). sent_on tr' = sent_on tr)"
  by (auto simp: JTAG_set_tap_state_def silent_def intro!: whenever_any)

lemma JTAG_plain_quiet [quiet]:
  "sent_on (snd (snd (JTAG_set_jtag_tck os h n tr))) = sent_on tr"
  "sent_on (snd (snd (JTAG_wait_cycles os h n tr))) = sent_on tr"
  by (simp_all add: JTAG_set_jtag_tck_def JTAG_wait_cycles_def Let_def silent_def)

lemma jtag_xfer_quiet:
  "whenever (jtag_xfer os h n p i out c e tr) (\<lambda>(st, h', o', tr'). sent_on tr' = sent_on tr)"
  by (auto simp: jtag_xfer_def silent_def intro!: whenever_any)

lemma JTAG_shift_quiet:
  "whenever (JTAG_shift os h n i out e tr) (\<lambda>(st, h', o', tr'). sent_on tr' = sent_on tr)"
proof -
  note x = whenever_conseq [OF jtag_xfer_quiet]
  have hw: "whenever (JTAG_shift_hw os h n i out e tr) (\<lambda>(st, h', o', tr'). sent_on tr' = sent_on tr)"
    by (auto simp: JTAG_shift_hw_def intro!: whenever_any jtag_xfer_quiet)
  have pre: "whenever (shift_prefix os h st pre pad cur tr) (\<lambda>(st, h', tr'). sent_on tr' = sent_on tr)" for st pre pad cur
    by (auto simp: shift_prefix_def perform_shift_def split_def intro!: whenever_any x)
  have rest: "whenever (shift_rest os h1 n i out post pad cur e t) (\<lambda>(st, h', o', tr'). sent_on tr' = sent_on t)"
    for h1 post pad cur t
    by (auto simp: shift_rest_def perform_shift_def split_def intro!: whenever_any x)
  show ?thesis
    using hw
    by (auto simp: JTAG_shift_def split_def intro!: whenever_any whenever_conseq [OF pre] whenever_conseq [OF rest])
qed

section \<open>Events\<close>

lemma run_handler_quiet: "whenever (run_handler os h t e tr) (\<lambda>(st, e', tr'). sent_on tr' = sent_on tr)"
proof -
  note r = whenever_conseq [OF read_gpio_index_quiet] and w = whenever_conseq [OF write_gpio_index_quiet]
  have "whenever (on_prdy_event os t tr) (\<lambda>(st, e', tr'). sent_on tr' = sent_on tr)"
    by (auto simp: on_prdy_event_def split_def Let_def silent_def intro!: w)
  moreover have "whenever (on_platform_reset_event os t e tr) (\<lambda>(st, e', tr'). sent_on tr' = sent_on tr)"
    by (auto simp: on_platform_reset_event_def split_def intro!: r w)
  moreover have "whenever (on_powergood_event os t i a b e tr) (\<lambda>(st, e', tr'). sent_on tr' = sent_on tr)" for i a b
    by (auto simp: on_powergood_event_def split_def intro!: r)
  ultimately show ?thesis by (cases h) simp_all
qed

lemma dbus_process_event_quiet [quiet]: "sent_on (snd (snd (snd (dbus_process_event os d tr)))) = sent_on tr"
  by (simp add: dbus_process_event_def Let_def silent_def)

lemma i3c_ibi_handler_quiet:
  "whenever (i3c_ibi_handler os sp fd bf n dev tr) (\<lambda>(st, sp', bf', n', tr'). sent_on tr' = sent_on tr)"
  by (auto simp: i3c_ibi_handler_def silent_def Let_def intro!: whenever_any)

text \<open>An event changes neither whether the SPP handler is attached nor whether the target is initialised.\<close>

definition event_keeps :: "Target_Control_Handle \<Rightarrow> Target_Control_Handle \<Rightarrow> bool" where
  "event_keeps t t' \<longleftrightarrow> spp_attached t' = spp_attached t \<and> tgt_initialized t' = tgt_initialized t"

lemma target_pin_event_quiet:
  "whenever (target_pin_event os t fd revents res tr) (\<lambda>(st, e, t', tr'). sent_on tr' = sent_on tr \<and> event_keeps t t')"
proof -
  have "whenever (target_gpio_event os t fd revents res tr) (\<lambda>(st, e, t', tr'). sent_on tr' = sent_on tr \<and> event_keeps t t')"
    by (auto simp: target_gpio_event_def split_def Let_def quiet event_keeps_def split: option.split
        intro!: whenever_conseq [OF run_handler_quiet])
  then show ?thesis
    by (auto simp: target_pin_event_def split_def Let_def quiet event_keeps_def split: option.split)
qed

lemma target_event_quiet:
  "whenever (target_event os t spp fd revents d tr) (\<lambda>(st, e, t', spp', d', tr').
     sent_on tr' = sent_on tr \<and> event_keeps t t' \<and> (spp = None \<longrightarrow> spp' = None))"
  by (auto simp: target_event_def split_def Let_def event_keeps_def split: option.split
      intro!: whenever_conseq [OF target_pin_event_quiet [unfolded event_keeps_def]] whenever_conseq [OF i3c_ibi_handler_quiet])

lemma whenever_ensures: "ensures m P \<Longrightarrow> whenever m P"
  by (cases m) simp_all

lemma whenever_iff: "whenever m P \<longleftrightarrow> (\<forall>r. m = Some r \<longrightarrow> P r)"
  by (cases m) simp_all

lemma whenever_arrays:
  "whenever (rd xs i) P \<longleftrightarrow> (i < length xs \<longrightarrow> P (xs ! i))"
  "whenever (wr xs i v) Q \<longleftrightarrow> (i < length xs \<longrightarrow> Q (xs[i := v]))"
  "whenever (rds xs i n) Q \<longleftrightarrow> (i + n \<le> length xs \<longrightarrow> Q (take n (drop i xs)))"
  "whenever (wrs xs i vs) Q \<longleftrightarrow> (i + length vs \<le> length xs \<longrightarrow> Q (take i xs @ vs @ drop (i + length vs) xs))"
  by (simp_all add: rd_def wr_def rds_def wrs_def)

lemma wheneverD: "whenever m P \<Longrightarrow> m = Some r \<Longrightarrow> P r"
  by simp

end
