(* ===== verification/Jtag_Msg.thy ===== *)
theory Jtag_Msg
  imports Asd_Msg_State Handler_Quiet
begin

text \<open>
  The JTAG command interpreter of \<open>target/asd_msg.c\<close>: \<open>process_jtag_message\<close> with \<open>write_cfg\<close>,
  \<open>write_event_config\<close>, \<open>read_status\<close>, \<open>determine_shift_end_state\<close> and
  \<open>asd_write_set_active_chain_event\<close>.  The locals of the loop are the record \<open>jtag_run\<close>; each branch
  of the \<open>if\<close> chain over the command byte is one definition.  Every \<open>break\<close> out of the loop leaves a
  status other than \<open>ST_OK\<close> and nothing else does, so the loop goes on exactly while a command
  answers \<open>ST_OK\<close>.
\<close>

section \<open>Command bytes\<close>

abbreviation WRITE_EVENT_CONFIG :: u8 where "WRITE_EVENT_CONFIG \<equiv> 0"
abbreviation JTAG_FREQ :: u8 where "JTAG_FREQ \<equiv> 1"
abbreviation DR_PREFIX :: u8 where "DR_PREFIX \<equiv> 2"
abbreviation DR_POSTFIX :: u8 where "DR_POSTFIX \<equiv> 3"
abbreviation IR_PREFIX :: u8 where "IR_PREFIX \<equiv> 4"
abbreviation IR_POSTFIX :: u8 where "IR_POSTFIX \<equiv> 5"
abbreviation PRDY_TIMEOUT :: u8 where "PRDY_TIMEOUT \<equiv> 6"
abbreviation WRITE_PINS :: u8 where "WRITE_PINS \<equiv> 7"
abbreviation WAIT_CYCLES_TCK_DISABLE :: u8 where "WAIT_CYCLES_TCK_DISABLE \<equiv> 0x10"
abbreviation WAIT_CYCLES_TCK_ENABLE :: u8 where "WAIT_CYCLES_TCK_ENABLE \<equiv> 0x11"
abbreviation WAIT_PRDY :: u8 where "WAIT_PRDY \<equiv> 0x12"
abbreviation CLEAR_TIMEOUT :: u8 where "CLEAR_TIMEOUT \<equiv> 0x13"
abbreviation TAP_RESET :: u8 where "TAP_RESET \<equiv> 0x14"
abbreviation WAIT_SYNC :: u8 where "WAIT_SYNC \<equiv> 0x19"

definition is_tap_state :: "u8 \<Rightarrow> bool" where "is_tap_state b \<longleftrightarrow> 0x20 \<le> b \<and> b \<le> 0x2F"
definition is_write_scan :: "u8 \<Rightarrow> bool" where "is_write_scan b \<longleftrightarrow> 0x40 \<le> b \<and> b \<le> 0x7F"
definition is_read_scan :: "u8 \<Rightarrow> bool" where "is_read_scan b \<longleftrightarrow> 0x80 \<le> b \<and> b \<le> 0xBF"
definition is_read_write_scan :: "u8 \<Rightarrow> bool" where "is_read_write_scan b \<longleftrightarrow> 0xC0 \<le> b"

definition tap_of :: "u8 \<Rightarrow> jtag_states" where
  "tap_of b = [jtag_tlr, jtag_rti, jtag_sel_dr, jtag_cap_dr, jtag_shf_dr, jtag_ex1_dr, jtag_pau_dr, jtag_ex2_dr,
     jtag_upd_dr, jtag_sel_ir, jtag_cap_ir, jtag_shf_ir, jtag_ex1_ir, jtag_pau_ir, jtag_ex2_ir, jtag_upd_ir]
     ! unat (b AND 0xF)"

datatype ScanType = ScanType_Read | ScanType_Write | ScanType_ReadWrite

text \<open>Two bytes, least significant first.\<close>

definition le16 :: "u8 \<Rightarrow> u8 \<Rightarrow> u16" where
  "le16 lo hi = push_bit 8 (ucast hi) OR ucast lo"

section \<open>The state of the interpreter\<close>

record jtag_run =
  jmsg :: ASD_MSG
  jpkt :: packet_data
  jcnt :: u32
  jtr :: trace

definition with_data ::
    "u8 list \<Rightarrow> nat \<Rightarrow> jtag_run \<Rightarrow> (u8 list \<Rightarrow> jtag_run \<Rightarrow> (STATUS \<times> jtag_run) option) \<Rightarrow> (STATUS \<times> jtag_run) option" where
  "with_data pl n r k =
     (case get_packet_data (jpkt r) n of
        None \<Rightarrow> Some (ST_ERR, r)
      | Some (i, p) \<Rightarrow> do { bs \<leftarrow> rds pl i n; k bs (r\<lparr>jpkt := p\<rparr>) })"

text \<open>A call on one of the handlers; the callee refuses NULL.\<close>

definition on_jtag ::
    "jtag_run \<Rightarrow> (JTAG_Handler \<Rightarrow> trace \<Rightarrow> (STATUS \<times> JTAG_Handler \<times> trace) option) \<Rightarrow> (STATUS \<times> jtag_run) option" where
  "on_jtag r f =
     (case jtag_handler (jmsg r) of
        None \<Rightarrow> Some (ST_ERR, r)
      | Some h \<Rightarrow> do {
          (st, h', tr') \<leftarrow> f h (jtr r);
          Some (st, r\<lparr>jmsg := (jmsg r)\<lparr>jtag_handler := Some h'\<rparr>, jtr := tr'\<rparr>) })"

definition on_target ::
    "jtag_run \<Rightarrow> (Target_Control_Handle \<Rightarrow> trace \<Rightarrow> (STATUS \<times> Target_Control_Handle \<times> trace) option)
       \<Rightarrow> (STATUS \<times> jtag_run) option" where
  "on_target r f =
     (case target_handler (jmsg r) of
        None \<Rightarrow> Some (ST_ERR, r)
      | Some t \<Rightarrow> do {
          (st, t', tr') \<leftarrow> f t (jtr r);
          Some (st, r\<lparr>jmsg := (jmsg r)\<lparr>target_handler := Some t'\<rparr>, jtr := tr'\<rparr>) })"

section \<open>Configuration commands\<close>

definition write_event_config :: "os \<Rightarrow> u8 \<Rightarrow> jtag_run \<Rightarrow> (STATUS \<times> jtag_run) option" where
  "write_event_config os data_byte r =
     (let enable = (drop_bit 7 data_byte = 1);
          event_cfg_raw = data_byte AND 0x7F
      in if event_cfg_raw < 5
         then on_target r (\<lambda>t tr. target_write_event_config os t (unat event_cfg_raw) enable tr)
         else Some (ST_OK, r))"

definition jtag_prescale :: "u8 \<Rightarrow> nat" where
  "jtag_prescale d =
     (let v = drop_bit 5 d in if v = 0 then 1 else if v = 1 then 2 else if v = 2 then 4 else if v = 3 then 8 else 1)"

definition jtag_divisor :: "u8 \<Rightarrow> nat" where
  "jtag_divisor d = (let v = d AND 0x1F in if v = 0 then 64 else unat v)"

definition set_padding :: "JTAGPaddingTypes \<Rightarrow> nat \<Rightarrow> jtag_run \<Rightarrow> (STATUS \<times> jtag_run) option" where
  "set_padding ty v r =
     on_jtag r (\<lambda>h tr. do { (st, h') \<leftarrow> JTAG_set_padding h ty v; Some (st, h', tr) })"

definition write_cfg :: "os \<Rightarrow> u8 list \<Rightarrow> u8 \<Rightarrow> jtag_run \<Rightarrow> (STATUS \<times> jtag_run) option" where
  "write_cfg os pl cmd r =
     (if cmd = JTAG_FREQ then
        with_data pl 1 r (\<lambda>d r1.
          on_jtag r1 (\<lambda>h tr. Some (JTAG_set_jtag_tck os h (jtag_prescale (d ! 0) * jtag_divisor (d ! 0)) tr)))
      else if cmd = DR_PREFIX then with_data pl 1 r (\<lambda>d. set_padding JTAGPaddingTypes_DRPost (unat (d ! 0)))
      else if cmd = DR_POSTFIX then with_data pl 1 r (\<lambda>d. set_padding JTAGPaddingTypes_DRPre (unat (d ! 0)))
      else if cmd = IR_PREFIX then
        with_data pl 2 r (\<lambda>d. set_padding JTAGPaddingTypes_IRPost (unat (le16 (d ! 0) (d ! 1))))
      else if cmd = IR_POSTFIX then
        with_data pl 2 r (\<lambda>d. set_padding JTAGPaddingTypes_IRPre (unat (le16 (d ! 0) (d ! 1))))
      else with_data pl 1 r (\<lambda>d r1. Some (ST_OK, r1\<lparr>jmsg := (jmsg r1)\<lparr>prdy_timeout := d ! 0\<rparr>\<rparr>)))"

section \<open>Pins\<close>

definition asd_write_set_active_chain_event :: "os \<Rightarrow> u8 \<Rightarrow> jtag_run \<Rightarrow> (STATUS \<times> jtag_run) option" where
  "asd_write_set_active_chain_event os scan_chain r = do {
     (st, r1) \<leftarrow> on_target r (\<lambda>t tr. do {
        (st, tr') \<leftarrow> target_write os t PIN_TCK_MUX_SELECT (scan_chain = 1) tr;
        Some (st, t, if st = ST_OK then target_chain_select_delay os t tr' else tr') });
     if st \<noteq> ST_OK then Some (st, r1)
     else on_jtag r1 (\<lambda>h tr. let (st2, h') = JTAG_set_active_chain h (uint scan_chain) in Some (st2, h', tr)) }"

text \<open>
  The wait commands after an asserted reset are dropped.  A single byte that remains is a short
  packet.  The fuel bounds the number of pairs of bytes.
\<close>

fun skip_wait_cycles :: "nat \<Rightarrow> u8 list \<Rightarrow> packet_data \<Rightarrow> (STATUS \<times> packet_data) option" where
  "skip_wait_cycles 0 pl p = None"
| "skip_wait_cycles (Suc fuel) pl p =
     (if \<not> used p < total p then Some (ST_OK, p)
      else case get_packet_data p 2 of
        None \<Rightarrow> Some (ST_ERR, p)
      | Some (i, q) \<Rightarrow> do {
          d \<leftarrow> rd pl i;
          if d \<noteq> WAIT_CYCLES_TCK_DISABLE then Some (ST_OK, q\<lparr>next_data := next_data q - 2, used := used q - 2\<rparr>)
          else skip_wait_cycles fuel pl q })"

definition write_pin_cmd :: "os \<Rightarrow> u8 list \<Rightarrow> Pin \<Rightarrow> bool \<Rightarrow> jtag_run \<Rightarrow> (STATUS \<times> jtag_run) option" where
  "write_pin_cmd os pl pin assert r = do {
     (st, r1) \<leftarrow> on_target r (\<lambda>t tr. do { (st, tr') \<leftarrow> target_write os t pin assert tr; Some (st, t, tr') });
     if st \<noteq> ST_OK then Some (st, r1)
     else if pin = PIN_RESET_BUTTON \<and> assert then do {
       (st2, p) \<leftarrow> skip_wait_cycles (Suc (remaining (jpkt r1))) pl (jpkt r1);
       Some (st2, r1\<lparr>jpkt := p\<rparr>) }
     else Some (ST_OK, r1) }"

text \<open>Multi-chain selection only consumes its operand.\<close>

fun read_chain_bytes :: "u8 list \<Rightarrow> nat \<Rightarrow> packet_data \<Rightarrow> (STATUS \<times> packet_data) option" where
  "read_chain_bytes pl 0 p = Some (ST_OK, p)"
| "read_chain_bytes pl (Suc n) p =
     (case get_packet_data p 1 of
        None \<Rightarrow> Some (ST_ERR, p)
      | Some (i, q) \<Rightarrow> do { _ \<leftarrow> rd pl i; read_chain_bytes pl n q })"

definition select_chain_cmd :: "os \<Rightarrow> u8 list \<Rightarrow> u8 \<Rightarrow> jtag_run \<Rightarrow> (STATUS \<times> jtag_run) option" where
  "select_chain_cmd os pl index r =
     (if jtag_chain_mode (jmsg r) = JTAG_CHAIN_SELECT_MODE_SINGLE then
        (let scan_chain = index AND 0xF
         in if unat scan_chain \<ge> MAX_SCAN_CHAINS then Some (ST_ERR, r)
            else asd_write_set_active_chain_event os scan_chain r)
      else do {
        (st, p) \<leftarrow> read_chain_bytes pl (unat (index AND 0xF) + 1) (jpkt r);
        Some (st, r\<lparr>jpkt := p\<rparr>) })"

definition write_pins_cmd :: "os \<Rightarrow> u8 list \<Rightarrow> jtag_run \<Rightarrow> (STATUS \<times> jtag_run) option" where
  "write_pins_cmd os pl r =
     with_data pl 1 r (\<lambda>d r1.
       let assert = (drop_bit 7 (d ! 0) = 1);
           index = (d ! 0) AND 0x7F
       in case pin_of_nat (unat index) of
            Some pin \<Rightarrow> write_pin_cmd os pl pin assert r1
          | None \<Rightarrow> if index AND 0x40 = 0x40 then select_chain_cmd os pl index r1 else Some (ST_ERR, r1))"

text \<open>
  \<open>read_status\<close> answers the bytes it stores at the end of the response; \<open>garbage\<close> is the value of
  an uninitialised local of \<open>target_read\<close>.
\<close>

definition read_status ::
    "os \<Rightarrow> int \<Rightarrow> u8 \<Rightarrow> u8 \<Rightarrow> Target_Control_Handle option \<Rightarrow> trace \<Rightarrow> (STATUS \<times> u8 list \<times> trace) option" where
  "read_status os garbage index pin target tr =
     (case (target, pin_of_nat (unat pin)) of
        (Some t, Some p) \<Rightarrow> do {
          (st, asserted, tr1) \<leftarrow> target_read os t p garbage False tr;
          Some (if st = ST_OK then (ST_OK, [8 + index, if asserted then pin OR 0x80 else pin], tr1)
                else (st, [], tr1)) }
      | _ \<Rightarrow> Some (ST_ERR, [], tr))"

text \<open>Bytes stored at \<open>out_msg.buffer[response_cnt]\<close>.\<close>

definition put_out :: "u8 list \<Rightarrow> jtag_run \<Rightarrow> jtag_run option" where
  "put_out bs r = do {
     b \<leftarrow> wrs (buffer (out_msg (jmsg r))) (unat (jcnt r)) bs;
     Some (r\<lparr>jmsg := (jmsg r)\<lparr>out_msg := (out_msg (jmsg r))\<lparr>buffer := b\<rparr>\<rparr>\<rparr>) }"

definition read_status_cmd :: "os \<Rightarrow> int \<Rightarrow> u8 list \<Rightarrow> u8 \<Rightarrow> jtag_run \<Rightarrow> (STATUS \<times> jtag_run) option" where
  "read_status_cmd os garbage pl cmd r =
     with_data pl 1 r (\<lambda>d r1.
       if jcnt r1 + 2 > of_nat MAX_DATA_SIZE then Some (ST_ERR, r1)
       else do {
         (st, bs, tr') \<leftarrow> read_status os garbage (cmd AND 7) ((d ! 0) AND 0x7F) (target_handler (jmsg r1)) (jtr r1);
         r2 \<leftarrow> put_out bs r1;
         Some (st, r2\<lparr>jcnt := jcnt r2 + of_nat (length bs), jtr := tr'\<rparr>) })"

section \<open>Scans\<close>

definition check_shift_state_bundle_start :: "ASD_MSG \<Rightarrow> asd_message \<Rightarrow> int \<Rightarrow> bool option" where
  "check_shift_state_bundle_start s m sz =
     (case jtag_handler s of
        None \<Rightarrow> Some False
      | Some h \<Rightarrow> do {
          (_, current_state) \<leftarrow> JTAG_get_tap_state h;
          if (current_state \<noteq> jtag_shf_dr \<and> current_state \<noteq> jtag_shf_ir) \<or> sz \<le> 0 then Some False
          else do {
            first_cmd \<leftarrow> rd (buffer m) 0;
            Some (\<not> is_write_scan first_cmd \<and> \<not> is_read_scan first_cmd \<and> \<not> is_read_write_scan first_cmd) } })"

definition get_scan_length :: "u8 \<Rightarrow> nat \<times> nat" where
  "get_scan_length cmd =
     (let bits = unat (cmd AND 0x3F) in if bits = 0 then (64, 8) else (bits, (bits + 7) div 8))"

text \<open>
  The search for a second TAP state command in hardware mode.  The position answered is
  \<open>next_cmd2_ptr\<close>: after an operand it is the place of the operand, and \<open>None\<close> after a failed read.
\<close>

fun look_ahead :: "nat \<Rightarrow> u8 list \<Rightarrow> packet_data \<Rightarrow> nat option \<Rightarrow> u32 \<Rightarrow> (nat option \<times> u32 \<times> packet_data) option" where
  "look_ahead 0 pl p ptr cnt = None"
| "look_ahead (Suc fuel) pl p ptr cnt =
     (if \<not> used p < total p then Some (ptr, cnt, p)
      else case get_packet_data p 1 of
        None \<Rightarrow> Some (None, cnt, p)
      | Some (i, p1) \<Rightarrow> do {
          b \<leftarrow> rd pl i;
          if is_tap_state b then Some (Some i, cnt + 1, p1)
          else if b \<in> {WRITE_EVENT_CONFIG, DR_PREFIX, DR_POSTFIX, WAIT_CYCLES_TCK_DISABLE, WAIT_CYCLES_TCK_ENABLE, JTAG_FREQ}
          then (case get_packet_data p1 1 of
                  None \<Rightarrow> Some (None, cnt + 1, p1)
                | Some (j, p2) \<Rightarrow> look_ahead fuel pl p2 (Some j) (cnt + 1 + 1))
          else if b \<in> {IR_PREFIX, IR_POSTFIX}
          then (case get_packet_data p1 2 of
                  None \<Rightarrow> Some (None, cnt + 1, p1)
                | Some (j, p2) \<Rightarrow> look_ahead fuel pl p2 (Some j) (cnt + 1 + 2))
          else Some (Some i, cnt + 1, p1) })"

definition end_state_from :: "u8 \<Rightarrow> u8 \<Rightarrow> jtag_states" where
  "end_state_from next_cmd next_cmd2 =
     (if is_tap_state next_cmd2 then
        (if tap_of next_cmd2 \<in> {jtag_pau_dr, jtag_pau_ir} then tap_of next_cmd2
         else if tap_of next_cmd2 = jtag_rti then jtag_rti
         else if tap_of next_cmd = jtag_ex1_dr \<and> tap_of next_cmd2 = jtag_sel_dr then jtag_rti
         else tap_of next_cmd)
      else tap_of next_cmd)"

fun same_scan :: "ScanType \<Rightarrow> u8 \<Rightarrow> bool" where
  "same_scan ScanType_Read b = is_read_scan b"
| "same_scan ScanType_Write b = is_write_scan b"
| "same_scan ScanType_ReadWrite b = is_read_write_scan b"

definition unpeek :: "u32 \<Rightarrow> packet_data \<Rightarrow> packet_data" where
  "unpeek n p = p\<lparr>next_data := next_data p - unat n, used := used p - n\<rparr>"

definition determine_shift_end_state ::
    "JTAG_DRIVER_MODE \<Rightarrow> JTAG_Handler \<Rightarrow> ScanType \<Rightarrow> u8 list \<Rightarrow> packet_data \<Rightarrow> (STATUS \<times> jtag_states \<times> packet_data) option" where
  "determine_shift_end_state mode h scan_type pl p = do {
     (st, cur) \<leftarrow> JTAG_get_tap_state h;
     if st \<noteq> ST_OK then Some (st, cur, p)
     else case get_packet_data p 1 of
       None \<Rightarrow> Some (ST_OK, cur, p)
     | Some (i, p1) \<Rightarrow> do {
         next_cmd \<leftarrow> rd pl i;
         if is_tap_state next_cmd then
           (if mode = JTAG_DRIVER_MODE_HARDWARE then do {
              (ptr, cnt, p2) \<leftarrow> look_ahead (Suc (remaining p1)) pl p1 None 0;
              case ptr of
                None \<Rightarrow> Some (ST_OK, tap_of next_cmd, unpeek 1 p2)
              | Some j \<Rightarrow> do {
                  next_cmd2 \<leftarrow> rd pl j;
                  Some (ST_OK, end_state_from next_cmd next_cmd2, unpeek cnt (unpeek 1 p2)) } }
            else Some (ST_OK, tap_of next_cmd, unpeek 1 p1))
         else Some (if same_scan scan_type next_cmd then ST_OK else ST_ERR, cur, unpeek 1 p1) } }"

definition tap_state_cmd :: "os \<Rightarrow> u8 \<Rightarrow> jtag_run \<Rightarrow> (STATUS \<times> jtag_run) option" where
  "tap_state_cmd os cmd r = do {
     h \<leftarrow> jtag_handler (jmsg r);
     if active_chain h = None then Some (ST_ERR, r)
     else on_jtag r (\<lambda>h tr. JTAG_set_tap_state os h (tap_of cmd) tr) }"

text \<open>
  The end of a scan command: find the end state, shift, keep what the scan read.  \<open>out\<close> is the place of
  the result in the response, if there is one.
\<close>

definition shift_cmd ::
    "os \<Rightarrow> u8 list \<Rightarrow> ScanType \<Rightarrow> nat \<Rightarrow> nat \<Rightarrow> u8 list option \<Rightarrow> bool \<Rightarrow> jtag_run \<Rightarrow> (STATUS \<times> jtag_run) option" where
  "shift_cmd os pl scan_type num_of_bits num_of_bytes input store r = do {
     h \<leftarrow> jtag_handler (jmsg r);
     (st, end_state, p) \<leftarrow> determine_shift_end_state (jtag_mode (jtag_cfg (asd_cfg (jmsg r)))) h scan_type pl (jpkt r);
     let r1 = r\<lparr>jpkt := p\<rparr>;
     if st \<noteq> ST_OK then Some (st, r1)
     else do {
       out \<leftarrow> (if store then do { b \<leftarrow> rds (buffer (out_msg (jmsg r1))) (unat (jcnt r1)) num_of_bytes; Some (Some b) }
              else Some None);
       (st2, h', out', tr') \<leftarrow> JTAG_shift os h num_of_bits input out end_state (jtr r1);
       r2 \<leftarrow> put_out (case out' of None \<Rightarrow> [] | Some b \<Rightarrow> b) r1;
       let r3 = r2\<lparr>jmsg := (jmsg r2)\<lparr>jtag_handler := Some h'\<rparr>, jtr := tr'\<rparr>;
       Some (st2, if st2 = ST_OK \<and> store then r3\<lparr>jcnt := jcnt r3 + of_nat num_of_bytes\<rparr> else r3) } }"

definition write_scan_cmd :: "os \<Rightarrow> u8 list \<Rightarrow> u8 \<Rightarrow> jtag_run \<Rightarrow> (STATUS \<times> jtag_run) option" where
  "write_scan_cmd os pl cmd r = do {
     h \<leftarrow> jtag_handler (jmsg r);
     if active_chain h = None then Some (ST_ERR, r)
     else let (bits, bytes) = get_scan_length cmd
          in with_data pl bytes r (\<lambda>d. shift_cmd os pl ScanType_Write bits bytes (Some d) False) }"

text \<open>The command byte that goes before the data of a scan in the response.\<close>

definition put_cmd :: "u8 \<Rightarrow> jtag_run \<Rightarrow> jtag_run option" where
  "put_cmd cmd r = do { r1 \<leftarrow> put_out [cmd] r; Some (r1\<lparr>jcnt := jcnt r1 + 1\<rparr>) }"

definition read_scan_cmd :: "os \<Rightarrow> u8 list \<Rightarrow> u8 \<Rightarrow> jtag_run \<Rightarrow> (STATUS \<times> jtag_run) option" where
  "read_scan_cmd os pl cmd r = do {
     h \<leftarrow> jtag_handler (jmsg r);
     if active_chain h = None then Some (ST_ERR, r)
     else let (bits, bytes) = get_scan_length cmd
          in if unat (jcnt r) + 1 + bytes > MAX_DATA_SIZE then Some (ST_ERR, r)
             else do {
               r1 \<leftarrow> put_cmd cmd r;
               shift_cmd os pl ScanType_Read bits bytes None True r1 } }"

definition read_write_scan_cmd :: "os \<Rightarrow> u8 list \<Rightarrow> u8 \<Rightarrow> jtag_run \<Rightarrow> (STATUS \<times> jtag_run) option" where
  "read_write_scan_cmd os pl cmd r = do {
     h \<leftarrow> jtag_handler (jmsg r);
     if active_chain h = None then Some (ST_ERR, r)
     else let (bits, bytes) = get_scan_length cmd
          in if unat (jcnt r) + 1 + bytes > MAX_DATA_SIZE then Some (ST_ERR, r)
             else do {
               r1 \<leftarrow> put_cmd cmd r;
               with_data pl bytes r1 (\<lambda>d. shift_cmd os pl ScanType_ReadWrite bits bytes (Some d) True) } }"

section \<open>The interpreter\<close>

definition wait_cycles_cmd :: "os \<Rightarrow> u8 list \<Rightarrow> jtag_run \<Rightarrow> (STATUS \<times> jtag_run) option" where
  "wait_cycles_cmd os pl r =
     with_data pl 1 r (\<lambda>d r1.
       on_jtag r1 (\<lambda>h tr. Some (JTAG_wait_cycles os h (if d ! 0 = 0 then 256 else unat (d ! 0)) tr)))"

definition wait_sync_cmd :: "os \<Rightarrow> u8 list \<Rightarrow> jtag_run \<Rightarrow> (STATUS \<times> jtag_run) option" where
  "wait_sync_cmd os pl r =
     with_data pl 4 r (\<lambda>d r1. do {
       (st, r2) \<leftarrow> on_target r1 (\<lambda>t tr.
          let (st, tr') = target_wait_sync os t (le16 (d ! 0) (d ! 1)) (le16 (d ! 2) (d ! 3)) tr in Some (st, t, tr'));
       Some (if st = ST_TIMEOUT then ST_OK else st, r2) })"

definition jtag_command :: "os \<Rightarrow> int \<Rightarrow> u8 list \<Rightarrow> u8 \<Rightarrow> jtag_run \<Rightarrow> (STATUS \<times> jtag_run) option" where
  "jtag_command os garbage pl cmd r =
     (if cmd = WRITE_EVENT_CONFIG then with_data pl 1 r (\<lambda>d. write_event_config os (d ! 0))
      else if 1 \<le> cmd \<and> cmd \<le> 6 then write_cfg os pl cmd r
      else if cmd = WRITE_PINS then write_pins_cmd os pl r
      else if 8 \<le> cmd \<and> cmd \<le> 0xF then read_status_cmd os garbage pl cmd r
      else if cmd = WAIT_CYCLES_TCK_DISABLE \<or> cmd = WAIT_CYCLES_TCK_ENABLE then wait_cycles_cmd os pl r
      else if cmd = WAIT_PRDY then on_target r (\<lambda>t tr. target_wait_PRDY os t (prdy_timeout (jmsg r)) tr)
      else if cmd = CLEAR_TIMEOUT then Some (ST_OK, r)
      else if cmd = TAP_RESET then on_jtag r (JTAG_tap_reset os)
      else if cmd = WAIT_SYNC then wait_sync_cmd os pl r
      else if is_tap_state cmd then tap_state_cmd os cmd r
      else if is_write_scan cmd then write_scan_cmd os pl cmd r
      else if is_read_scan cmd then read_scan_cmd os pl cmd r
      else if is_read_write_scan cmd then read_write_scan_cmd os pl cmd r
      else Some (ST_ERR, r))"

definition jtag_step :: "os \<Rightarrow> int \<Rightarrow> u8 list \<Rightarrow> jtag_run \<Rightarrow> (STATUS \<times> jtag_run) option" where
  "jtag_step os garbage pl r = with_data pl 1 r (\<lambda>d. jtag_command os garbage pl (d ! 0))"

text \<open>Each command consumes its command byte, so \<open>Suc size\<close> rounds are enough.\<close>

fun jtag_loop :: "nat \<Rightarrow> os \<Rightarrow> int \<Rightarrow> u8 list \<Rightarrow> jtag_run \<Rightarrow> (STATUS \<times> jtag_run) option" where
  "jtag_loop 0 os garbage pl r = None"
| "jtag_loop (Suc fuel) os garbage pl r =
     (if \<not> used (jpkt r) < total (jpkt r) then Some (ST_OK, r)
      else do {
        (st, r1) \<leftarrow> jtag_step os garbage pl r;
        if st \<noteq> ST_OK then Some (st, r1) else jtag_loop fuel os garbage pl r1 })"

text \<open>The message sent for a request that was executed.\<close>

definition finish_response :: "asd_message \<Rightarrow> u32 \<Rightarrow> asd_message \<Rightarrow> asd_message" where
  "finish_response request cnt out = out\<lparr>header := (set_msg_size cnt (header request))\<lparr>cmd_stat := asd_error_code ASD_SUCCESS\<rparr>\<rparr>"

definition jtag_start :: "ASD_MSG \<Rightarrow> int \<Rightarrow> trace \<Rightarrow> jtag_run" where
  "jtag_start s sz tr = \<lparr>jmsg = s\<lparr>out_msg := zero_message\<rparr>,
     jpkt = \<lparr>next_data = 0, used = 0, total = of_int sz\<rparr>, jcnt = 0, jtr = tr\<rparr>"

definition process_jtag_message ::
    "os \<Rightarrow> Server \<Rightarrow> int \<Rightarrow> asd_message \<Rightarrow> ASD_MSG \<Rightarrow> trace \<Rightarrow> (STATUS \<times> ASD_MSG \<times> trace) option" where
  "process_jtag_message os srv garbage m s tr =
     (let size = get_message_size m
      in if size = - 1 then Some (ST_ERR, s, tr)
         else do {
           _ \<leftarrow> check_shift_state_bundle_start s m size;
           (st, r) \<leftarrow> jtag_loop (Suc (nat size)) os garbage (buffer m) (jtag_start s size tr);
           if st \<noteq> ST_OK then Some (st, jmsg r, jtr r)
           else do {
             let s1 = (jmsg r)\<lparr>out_msg := finish_response m (jcnt r) (out_msg (jmsg r))\<rparr>;
             (st2, tr2) \<leftarrow> send_response os srv (out_msg s1) (jtr r);
             Some (st2, s1, tr2) } })"

section \<open>Safety of the interpreter\<close>

text \<open>
  The invariant of the loop, and what one command may change: it never gives bytes back that were
  consumed before it, sends nothing, and touches only the handlers, the response and the PRDY
  time-out.
\<close>

text \<open>
  \<open>target_wait_PRDY\<close> is only defined for exponents up to 30 (a time-out shifts without the clamp), or
  when its poll never times out.
\<close>

definition prdy_ok :: "os \<Rightarrow> u8 \<Rightarrow> bool" where
  "prdy_ok os l \<longleftrightarrow> unat l \<le> LOG2TIME_SHIFT_MAX \<or> poll_answers os"

definition jinv :: "os \<Rightarrow> jtag_run \<Rightarrow> bool" where
  "jinv os r \<longleftrightarrow> wf_msg (jmsg r) \<and> jtag_handler (jmsg r) \<noteq> None \<and> wf_packet (jpkt r) \<and>
     unat (jcnt r) \<le> MAX_DATA_SIZE \<and> prdy_ok os (prdy_timeout (jmsg r))"

definition jtag_frame :: "ASD_MSG \<Rightarrow> ASD_MSG" where
  "jtag_frame s = s\<lparr>out_msg := zero_message, jtag_handler := None, target_handler := None, prdy_timeout := 0\<rparr>"

definition jnext :: "os \<Rightarrow> jtag_run \<Rightarrow> STATUS \<times> jtag_run \<Rightarrow> bool" where
  "jnext os r = (\<lambda>(st, r'). jinv os r' \<and> remaining (jpkt r') \<le> remaining (jpkt r) \<and> total (jpkt r') = total (jpkt r) \<and>
     sent_on (jtr r') = sent_on (jtr r) \<and> jtag_frame (jmsg r') = jtag_frame (jmsg r))"

lemma jtag_frame_simps [simp]:
  "jtag_frame (s\<lparr>out_msg := m\<rparr>) = jtag_frame s" "jtag_frame (s\<lparr>jtag_handler := h\<rparr>) = jtag_frame s"
  "jtag_frame (s\<lparr>target_handler := t\<rparr>) = jtag_frame s" "jtag_frame (s\<lparr>prdy_timeout := p\<rparr>) = jtag_frame s"
  by (simp_all add: jtag_frame_def)

lemma jinvD:
  assumes "jinv os r"
  shows "wf_msg (jmsg r)" "\<exists>h. jtag_handler (jmsg r) = Some h \<and> wf_jtag h" "wf_packet (jpkt r)"
    "unat (jcnt r) \<le> MAX_DATA_SIZE" "prdy_ok os (prdy_timeout (jmsg r))"
    "wf_message (out_msg (jmsg r))"
  using assms wf_msgD(3,4) [of "jmsg r"] by (auto simp: jinv_def)

lemma jnext_refl: "jinv os r \<Longrightarrow> jnext os r (st, r)"
  by (simp add: jnext_def)

lemma jnext_trans: "jnext os r (st, r') \<Longrightarrow> jnext os r' x \<Longrightarrow> jnext os r x"
  by (auto simp: jnext_def)

lemma jnext_bind:
  assumes "ensures m (jnext os r)" "\<And>st q. jinv os q \<Longrightarrow> jnext os r (st, q) \<Longrightarrow> ensures (k st q) (jnext os q)"
  shows "ensures (Option.bind m (\<lambda>(st, q). k st q)) (jnext os r)"
proof -
  have "ensures (k st q) (jnext os r)" if "jnext os r (st, q)" for st q
  proof (rule ensures_conseq [OF assms(2) [OF _ that]])
    show "jinv os q" using that by (simp add: jnext_def)
  qed (rule jnext_trans [OF that])
  with assms(1) show ?thesis by (auto elim: ensures_conseq)
qed

lemma jinv_pkt: "jinv os r \<Longrightarrow> wf_packet p \<Longrightarrow> jinv os (r\<lparr>jpkt := p\<rparr>)"
  by (simp add: jinv_def)

lemma jnext_pkt:
  "jinv os r \<Longrightarrow> wf_packet p \<Longrightarrow> remaining p \<le> remaining (jpkt r) \<Longrightarrow> total p = total (jpkt r) \<Longrightarrow> jnext os r (st, r\<lparr>jpkt := p\<rparr>)"
  by (simp add: jnext_def jinv_pkt)

lemma with_data_ensures:
  assumes "jinv os r" "length pl = MAX_DATA_SIZE" "n < 2 ^ 16" "P (ST_ERR, r)"
    "\<And>p. wf_packet p \<Longrightarrow> remaining p + n = remaining (jpkt r) \<Longrightarrow> total p = total (jpkt r) \<Longrightarrow>
       next_data p = next_data (jpkt r) + n \<Longrightarrow>
       ensures (k (take n (drop (next_data (jpkt r)) pl)) (r\<lparr>jpkt := p\<rparr>)) P"
  shows "ensures (with_data pl n r k) P"
proof (cases "get_packet_data (jpkt r) n")
  case None
  then show ?thesis using assms(4) by (simp add: with_data_def)
next
  case (Some x)
  obtain i p where x: "x = (i, p)" by force
  note w = get_packet_data_wf [OF jinvD(3) [OF assms(1)] assms(3) Some [unfolded x]]
  have "i + n \<le> length pl" using w(5) assms(2) by simp
  then show ?thesis
    using Some x assms(5) [OF w(1,2,6,4)] w(3) by (simp add: with_data_def)
qed

lemma with_data_jnext:
  assumes "jinv os r" "length pl = MAX_DATA_SIZE" "n < 2 ^ 16"
    "\<And>p d. jinv os (r\<lparr>jpkt := p\<rparr>) \<Longrightarrow> length d = n \<Longrightarrow> d = take n (drop (next_data (jpkt r)) pl) \<Longrightarrow>
       n \<le> remaining (jpkt r) \<Longrightarrow> ensures (k d (r\<lparr>jpkt := p\<rparr>)) (jnext os (r\<lparr>jpkt := p\<rparr>))"
  shows "ensures (with_data pl n r k) (jnext os r)"
proof (rule with_data_ensures [OF assms(1-3)])
  show "jnext os r (ST_ERR, r)" by (rule jnext_refl [OF assms(1)])
next
  fix p assume p: "wf_packet p" "remaining p + n = remaining (jpkt r)" "total p = total (jpkt r)"
    "next_data p = next_data (jpkt r) + n"
  have "next_data (jpkt r) + n \<le> length pl"
    using wf_packetD(4) [OF p(1)] p(4) assms(2) by simp
  then have len: "length (take n (drop (next_data (jpkt r)) pl)) = n" by simp
  note nx = jnext_pkt [OF assms(1) p(1) _ p(3)]
  show "ensures (k (take n (drop (next_data (jpkt r)) pl)) (r\<lparr>jpkt := p\<rparr>)) (jnext os r)"
    using p by (intro ensures_conseq [OF assms(4) [OF jinv_pkt [OF assms(1) p(1)] len refl]])
      (auto intro: jnext_trans [OF nx])
qed

lemma on_jtag_jnext:
  assumes "jinv os r"
    "\<And>h. wf_jtag h \<Longrightarrow> ensures (f h (jtr r)) (\<lambda>(st, h', tr'). wf_jtag h' \<and> sent_on tr' = sent_on (jtr r))"
  shows "ensures (on_jtag r f) (jnext os r)"
proof -
  obtain h where h: "jtag_handler (jmsg r) = Some h" "wf_jtag h" using jinvD(2) [OF assms(1)] by blast
  show ?thesis
    using h assms(1)
    by (auto simp: on_jtag_def split_def jnext_def jinv_def intro!: ensures_conseq [OF assms(2) [OF h(2)]])
qed

lemma on_target_jnext:
  assumes "jinv os r"
    "\<And>t. wf_target t \<Longrightarrow> ensures (f t (jtr r)) (\<lambda>(st, t', tr').
       wf_target t' \<and> spp_attached t' = spp_attached t \<and> sent_on tr' = sent_on (jtr r))"
  shows "ensures (on_target r f) (jnext os r)"
proof (cases "target_handler (jmsg r)")
  case None
  then show ?thesis using jnext_refl [OF assms(1)] by (simp add: on_target_def)
next
  case (Some t)
  have t: "wf_target t" "spp_attached t \<longrightarrow> spp_handler (jmsg r) \<noteq> None"
    using Some wf_msgD(5,8) [OF jinvD(1) [OF assms(1)]] by auto
  show ?thesis
    using Some t assms(1)
    by (auto simp: on_target_def split_def jnext_def jinv_def intro!: ensures_conseq [OF assms(2) [OF t(1)]])
qed

text \<open>The contracts of the handlers' operations, with their silence.\<close>

lemma target_write_event_config_safe:
  assumes "wf_target t"
  shows "ensures (target_write_event_config os t c e tr) (\<lambda>(st, t', tr').
    wf_target t' \<and> spp_attached t' = spp_attached t \<and> sent_on tr' = sent_on tr)"
proof -
  have "whenever (target_write_event_config os t c e tr) (\<lambda>(st, t', tr'). spp_attached t' = spp_attached t)"
    by (auto simp: target_write_event_config_def split_def intro!: whenever_any)
  then show ?thesis
    using target_write_event_config_wf [OF assms, of os c e tr] target_write_event_config_quiet [of os t c e tr]
    by (auto simp: ensures_iff)
qed

lemma target_wait_PRDY_safe:
  assumes "wf_target t" "prdy_ok os l"
  shows "ensures (target_wait_PRDY os t l tr) (\<lambda>(st, t', tr').
    wf_target t' \<and> spp_attached t' = spp_attached t \<and> sent_on tr' = sent_on tr)"
proof -
  have "whenever (target_wait_PRDY os t l tr) (\<lambda>(st, t', tr'). spp_attached t' = spp_attached t)"
    by (auto simp: target_wait_PRDY_def split_def Let_def intro!: whenever_any)
  then show ?thesis
    using target_wait_PRDY_wf [of t l os tr] target_wait_PRDY_quiet [of os t l tr] assms
    by (auto simp: ensures_iff prdy_ok_def)
qed

lemma target_write_safe:
  "wf_target t \<Longrightarrow> ensures (target_write os t p a tr) (\<lambda>(st, tr'). sent_on tr' = sent_on tr)"
  using target_write_ok [of t os p a tr] target_write_quiet [of os t p a tr] by (auto simp: ensures_iff)

lemma target_read_safe:
  "wf_target t \<Longrightarrow> ensures (target_read os t p g a tr) (\<lambda>(st, v, tr'). sent_on tr' = sent_on tr)"
  using target_read_ok [of t os p g a tr] target_read_quiet [of os t p g a tr] by (auto simp: ensures_iff)

lemma JTAG_set_tap_state_safe:
  "wf_jtag h \<Longrightarrow> ensures (JTAG_set_tap_state os h ts tr) (\<lambda>(st, h', tr'). wf_jtag h' \<and> sent_on tr' = sent_on tr)"
  using JTAG_set_tap_state_wf [of h os ts tr] JTAG_set_tap_state_quiet [of os h ts tr] by (auto simp: ensures_iff)

lemma JTAG_shift_safe:
  assumes "wf_jtag h" "shift_args (DIV_ROUND_UP n 8) i out"
  shows "ensures (JTAG_shift os h n i out e tr) (\<lambda>(st, h', out', tr').
    wf_jtag h' \<and> map_option length out' = map_option length out \<and> sent_on tr' = sent_on tr)"
  using JTAG_shift_post [OF assms, of os e tr] JTAG_shift_quiet [of os h n i out e tr]
  by (auto simp: ensures_iff shift_post_def)

lemma JTAG_set_padding_safe:
  "wf_jtag h \<Longrightarrow> ensures (JTAG_set_padding h ty v) (\<lambda>(st, h'). wf_jtag h')"
  by (auto intro: ensures_conseq [OF JTAG_set_padding_wf])

text \<open>The simple commands.\<close>

lemma write_event_config_next: "jinv os r \<Longrightarrow> ensures (write_event_config os b r) (jnext os r)"
  by (auto simp: write_event_config_def jnext_refl intro!: on_target_jnext target_write_event_config_safe)

lemma set_padding_next: "jinv os r \<Longrightarrow> ensures (set_padding ty v r) (jnext os r)"
  by (auto simp: set_padding_def split_def intro!: on_jtag_jnext ensures_conseq [OF JTAG_set_padding_safe])

lemma write_cfg_next:
  assumes "jinv os r" "length pl = MAX_DATA_SIZE"
    "cmd = PRDY_TIMEOUT \<Longrightarrow> 1 \<le> remaining (jpkt r) \<Longrightarrow> prdy_ok os (pl ! next_data (jpkt r))"
    "1 \<le> cmd" "cmd \<le> 6"
  shows "ensures (write_cfg os pl cmd r) (jnext os r)"
proof -
  have p: "jnext os (r\<lparr>jpkt := p\<rparr>) (ST_OK, r\<lparr>jpkt := p, jmsg := (jmsg r)\<lparr>prdy_timeout := b\<rparr>\<rparr>)"
    if "jinv os (r\<lparr>jpkt := p\<rparr>)" "prdy_ok os b" for p b
    using that by (simp add: jnext_def jinv_def)
  have six: "cmd = PRDY_TIMEOUT" if "cmd \<notin> {JTAG_FREQ, DR_PREFIX, DR_POSTFIX, IR_PREFIX, IR_POSTFIX}"
  proof -
    have "uint cmd \<in> {1..6}" using assms(4,5) by (simp add: word_le_def)
    then have "uint cmd \<in> {1, 2, 3, 4, 5, 6}" by auto
    then show ?thesis using that by (auto simp: word_uint_eq_iff)
  qed
  have "next_data (jpkt r) < length pl" if "1 \<le> remaining (jpkt r)"
    using wf_packetD(4) [OF jinvD(3) [OF assms(1)]] that assms(2) by simp
  then have hd: "d ! 0 = pl ! next_data (jpkt r)"
    if "d = take 1 (drop (next_data (jpkt r)) pl)" "1 \<le> remaining (jpkt r)" for d
    using that by simp
  have tck: "ensures (on_jtag q (\<lambda>h tr. Some (JTAG_set_jtag_tck os h n tr))) (jnext os q)" if "jinv os q" for q n
    using that by (intro on_jtag_jnext) (auto simp: JTAG_set_jtag_tck_def Let_def silent_def)
  show ?thesis
    unfolding write_cfg_def
    using assms(1,2) six assms(3) hd
    by (auto intro!: with_data_jnext tck set_padding_next p)
qed

lemma asd_write_set_active_chain_event_next:
  assumes "jinv os r"
  shows "ensures (asd_write_set_active_chain_event os c r) (jnext os r)"
proof -
  have 1: "ensures (on_target r (\<lambda>t tr. do {
        (st, tr') \<leftarrow> target_write os t PIN_TCK_MUX_SELECT (c = 1) tr;
        Some (st, t, if st = ST_OK then target_chain_select_delay os t tr' else tr') })) (jnext os r)"
    using assms
    by (intro on_target_jnext) (auto simp: split_def quiet intro!: ensures_conseq [OF target_write_safe])
  have 2: "ensures (on_jtag q (\<lambda>h tr. case JTAG_set_active_chain h (uint c) of (st2, h') \<Rightarrow> Some (st2, h', tr))) (jnext os q)"
    if "jinv os q" for q
    using that by (intro on_jtag_jnext) (auto simp: split_def JTAG_set_active_chain_wf)
  show ?thesis
    unfolding asd_write_set_active_chain_event_def
    by (rule jnext_bind [OF 1]) (simp add: 2 jnext_refl)
qed

lemma skip_wait_cycles_ok:
  assumes "wf_packet p" "remaining p < fuel" "length pl = MAX_DATA_SIZE"
  shows "ensures (skip_wait_cycles fuel pl p) (\<lambda>(st, q). wf_packet q \<and> remaining q \<le> remaining p \<and> total q = total p)"
  using assms(1,2)
proof (induction fuel arbitrary: p)
  case (Suc fuel)
  show ?case
  proof (cases "get_packet_data p 2")
    case None
    then show ?thesis using Suc.prems by simp
  next
    case (Some x)
    obtain i q where x: "x = (i, q)" by force
    note w = get_packet_data_wf [OF Suc.prems(1) _ Some [unfolded x]]
    have undo: "q\<lparr>next_data := next_data q - 2, used := used q - 2\<rparr> = p"
      using Some x by (auto simp: get_packet_data_def split: if_splits)
    have "i < length pl" using w(5) assms(3) by simp
    then show ?thesis
      using Some x Suc.prems w Suc.IH [of q] undo
      by (auto intro: ensures_conseq)
  qed
qed simp

lemma read_chain_bytes_ok:
  assumes "wf_packet p" "length pl = MAX_DATA_SIZE"
  shows "ensures (read_chain_bytes pl n p) (\<lambda>(st, q). wf_packet q \<and> remaining q \<le> remaining p \<and> total q = total p)"
  using assms(1)
proof (induction n arbitrary: p)
  case (Suc n)
  show ?case
  proof (cases "get_packet_data p 1")
    case None
    then show ?thesis using Suc.prems by simp
  next
    case (Some x)
    obtain i q where x: "x = (i, q)" by force
    note w = get_packet_data_wf [OF Suc.prems(1) _ Some [unfolded x]]
    then show ?thesis
      using Some x assms(2) by (auto intro!: ensures_conseq [OF Suc.IH [of q]])
  qed
qed simp

declare skip_wait_cycles.simps [simp del] read_chain_bytes.simps [simp del]

lemma write_pin_cmd_next:
  assumes "jinv os r" "length pl = MAX_DATA_SIZE"
  shows "ensures (write_pin_cmd os pl pin a r) (jnext os r)"
proof -
  have 1: "ensures (on_target r (\<lambda>t tr. do { (st, tr') \<leftarrow> target_write os t pin a tr; Some (st, t, tr') })) (jnext os r)"
    using assms(1) by (intro on_target_jnext) (auto simp: split_def intro!: ensures_conseq [OF target_write_safe])
  have 2: "ensures (skip_wait_cycles (Suc (remaining (jpkt q))) pl (jpkt q)) (\<lambda>(st, p). jnext os q (st, q\<lparr>jpkt := p\<rparr>))"
    if "jinv os q" for q
    using skip_wait_cycles_ok [OF jinvD(3) [OF that] _ assms(2), of "Suc (remaining (jpkt q))"] that
    by (auto elim!: ensures_conseq intro: jnext_pkt)
  show ?thesis
    unfolding write_pin_cmd_def
    by (rule jnext_bind [OF 1]) (auto simp: jnext_refl split_def intro!: ensures_conseq [OF 2])
qed

lemma select_chain_cmd_next:
  assumes "jinv os r" "length pl = MAX_DATA_SIZE"
  shows "ensures (select_chain_cmd os pl i r) (jnext os r)"
proof -
  have "ensures (read_chain_bytes pl n (jpkt r)) (\<lambda>(st, p). jnext os r (st, r\<lparr>jpkt := p\<rparr>))" for n
    using read_chain_bytes_ok [OF jinvD(3) [OF assms(1)] assms(2), of n] assms(1)
    by (auto elim!: ensures_conseq intro: jnext_pkt)
  then show ?thesis
    using assms(1)
    by (auto simp: select_chain_cmd_def Let_def split_def jnext_refl asd_write_set_active_chain_event_next elim: ensures_conseq)
qed

lemma write_pins_cmd_next:
  assumes "jinv os r" "length pl = MAX_DATA_SIZE"
  shows "ensures (write_pins_cmd os pl r) (jnext os r)"
  unfolding write_pins_cmd_def
  by (rule with_data_jnext [OF assms])
    (auto simp: Let_def write_pin_cmd_next select_chain_cmd_next assms(2) jnext_refl split: option.split)

lemma put_out_ok:
  assumes "jinv os r" "unat (jcnt r) + length bs \<le> MAX_DATA_SIZE"
  shows "ensures (put_out bs r) (\<lambda>r'. jinv os r' \<and> jpkt r' = jpkt r \<and> jcnt r' = jcnt r \<and> jtr r' = jtr r \<and>
    jtag_handler (jmsg r') = jtag_handler (jmsg r) \<and> jtag_frame (jmsg r') = jtag_frame (jmsg r) \<and>
    take (unat (jcnt r)) (buffer (out_msg (jmsg r'))) = take (unat (jcnt r)) (buffer (out_msg (jmsg r))) \<and>
    take (length bs) (drop (unat (jcnt r)) (buffer (out_msg (jmsg r')))) = bs)"
proof -
  have "length (buffer (out_msg (jmsg r))) = MAX_DATA_SIZE"
    using jinvD(6) [OF assms(1)] by (simp add: wf_message_def)
  then show ?thesis
    using assms by (auto simp: put_out_def jinv_def wf_message_def)
qed

lemma cnt_add:
  assumes "unat c \<le> MAX_DATA_SIZE" "n \<le> MAX_DATA_SIZE"
  shows "unat (c + of_nat n :: u32) = unat c + n"
proof -
  have "unat (of_nat n :: u32) = n" using assms(2) by (simp add: unat_of_nat MAX_DATA_SIZE_def)
  then show ?thesis
    using assms by (simp add: unat_word_ariths MAX_DATA_SIZE_def)
qed

lemma read_status_ok:
  "opt_ok wf_target t \<Longrightarrow> ensures (read_status os g i p t tr) (\<lambda>(st, bs, tr').
     length bs = (if st = ST_OK then 2 else 0) \<and> sent_on tr' = sent_on tr)"
  by (cases t) (auto simp: read_status_def split_def intro!: ensures_conseq [OF target_read_safe] split: option.split)

lemma read_status_cmd_next:
  assumes "jinv os r" "length pl = MAX_DATA_SIZE"
  shows "ensures (read_status_cmd os g pl cmd r) (jnext os r)"
proof -
  have core: "ensures (do {
       (st, bs, tr') \<leftarrow> read_status os g c b (target_handler (jmsg q)) (jtr q);
       r2 \<leftarrow> put_out bs q;
       Some (st, r2\<lparr>jcnt := jcnt r2 + of_nat (length bs), jtr := tr'\<rparr>) }) (jnext os q)"
    if q: "jinv os q" "\<not> of_nat MAX_DATA_SIZE < jcnt q + 2" for q c b
  proof -
    have cnt: "unat (jcnt q) + 2 \<le> MAX_DATA_SIZE"
      using q(2) cnt_add [OF jinvD(4) [OF q(1)], of 2]
      by (simp add: word_less_nat_alt MAX_DATA_SIZE_def)
    have put: "ensures (put_out bs q) (\<lambda>r2. jnext os q (st, r2\<lparr>jcnt := jcnt r2 + of_nat (length bs), jtr := t\<rparr>))"
      if "length bs \<le> 2" "sent_on t = sent_on (jtr q)" for bs st t
      using put_out_ok [OF q(1), of bs] that cnt cnt_add [of "jcnt q" "length bs"]
      by (auto elim!: ensures_conseq simp: jnext_def jinv_def)
    have "ensures (put_out bs q) (\<lambda>r2. jnext os q (st, r2\<lparr>jcnt := jcnt r2 + of_nat (length bs), jtr := t\<rparr>))"
      if "length bs = (if st = ST_OK then 2 else 0) \<and> sent_on t = sent_on (jtr q)" for st bs t
      using that by (intro put) (simp_all split: if_splits)
    then show ?thesis
      using read_status_ok [OF wf_msgD(5) [OF jinvD(1) [OF q(1)]], of os g c b "jtr q"]
      by (fastforce simp: ensures_iff)
  qed
  show ?thesis
    unfolding read_status_cmd_def
    by (rule with_data_jnext [OF assms], simp, simp only: split: if_split, intro conjI impI)
      (simp only: ensures_Some jnext_refl, rule core)
qed

text \<open>The look-ahead only moves forward, and the peeked bytes are given back.\<close>

lemma look_ahead_ok:
  assumes "length pl = MAX_DATA_SIZE" "wf_packet p" "remaining p < fuel" "opt_ok (\<lambda>i. i < MAX_DATA_SIZE) ptr"
    "unat cnt + remaining p \<le> MAX_DATA_SIZE"
  shows "ensures (look_ahead fuel pl p ptr cnt) (\<lambda>(ptr', cnt', q). opt_ok (\<lambda>i. i < MAX_DATA_SIZE) ptr' \<and>
    wf_packet q \<and> total q = total p \<and> unat cnt \<le> unat cnt' \<and> remaining q + unat cnt' = remaining p + unat cnt)"
  using assms(2-5)
proof (induction fuel arbitrary: p ptr cnt)
  case (Suc fuel)
  show ?case
  proof (cases "get_packet_data p 1")
    case None
    then show ?thesis using Suc.prems by simp
  next
    case (Some x)
    obtain i p1 where x: "x = (i, p1)" by force
    note w = get_packet_data_wf [OF Suc.prems(1) _ Some [unfolded x]]
    have w1: "remaining p1 + 1 = remaining p" using w(2) by simp
    have c1: "unat (cnt + 1) = unat cnt + 1"
      using cnt_add [of cnt 1] Suc.prems(4) by (simp add: MAX_DATA_SIZE_def)
    have more: "ensures (case get_packet_data p1 n of None \<Rightarrow> Some (None, cnt + 1, p1)
         | Some (j, p2) \<Rightarrow> look_ahead fuel pl p2 (Some j) (cnt + 1 + of_nat n))
       (\<lambda>(ptr', cnt', q). opt_ok (\<lambda>i. i < MAX_DATA_SIZE) ptr' \<and> wf_packet q \<and> total q = total p \<and>
          unat cnt \<le> unat cnt' \<and> remaining q + unat cnt' = remaining p + unat cnt)" if "0 < n" "n < 2 ^ 8" for n
    proof (cases "get_packet_data p1 n")
      case None
      then show ?thesis using w c1 by simp
    next
      case (Some y)
      obtain j p2 where y: "y = (j, p2)" by force
      have n16: "n < 2 ^ 16" using that(2) by simp
      note v = get_packet_data_wf [OF w(1) n16 Some [unfolded y]]
      have c2: "unat (cnt + 1 + of_nat n) = unat cnt + 1 + n"
        using cnt_add [of "cnt + 1" n] c1 w1 Suc.prems(4) that(2) by (simp add: MAX_DATA_SIZE_def)
      show ?thesis
        using Some y v w w1 c2 Suc.prems that Suc.IH [of p2 "Some j" "cnt + 1 + of_nat n"]
        by (auto elim!: ensures_conseq)
    qed
    have i: "i < length pl" "i < MAX_DATA_SIZE" using w(5) assms(1) by simp_all
    have "(1::u32) = of_nat 1" "(2::u32) = of_nat 2" by simp_all
    note more1 = more [of 1, folded this(1)] and more2 = more [of 2, folded this(2)]
    show ?thesis
      using Some x w w1 c1 i Suc.prems more1 more2 by auto
  qed
qed simp

declare look_ahead.simps [simp del]

lemma wf_packet_eqI:
  assumes "wf_packet p" "wf_packet q" "remaining p = remaining q" "total p = total q"
  shows "p = q"
proof -
  have "unat (used p) = unat (used q)"
    using wf_packetD(2) [OF assms(1)] wf_packetD(2) [OF assms(2)] assms(3,4) by (simp add: remaining_def)
  then have "used p = used q" "next_data p = next_data q"
    using wf_packetD(1) [OF assms(1)] wf_packetD(1) [OF assms(2)] by (simp_all add: unsigned_word_eqI)
  then show ?thesis using assms(4) by (cases p; cases q) simp
qed

lemma unpeek_wf:
  assumes "wf_packet q" "unat n \<le> unat (used q)"
  shows "wf_packet (unpeek n q)" "remaining (unpeek n q) = remaining q + unat n" "total (unpeek n q) = total q"
    "unat (used (unpeek n q)) = unat (used q) - unat n"
proof -
  have "unat (used q - n) = unat (used q) - unat n"
    using assms(2) by (simp add: unat_sub word_le_nat_alt)
  then show "wf_packet (unpeek n q)" "remaining (unpeek n q) = remaining q + unat n" "total (unpeek n q) = total q"
    "unat (used (unpeek n q)) = unat (used q) - unat n"
    using assms by (auto simp: wf_packet_def unpeek_def remaining_def word_le_nat_alt)
qed

text \<open>The end state in software mode, and when nothing is peeked at.\<close>

definition shift_end :: "ScanType \<Rightarrow> jtag_states \<Rightarrow> u8 \<Rightarrow> STATUS \<times> jtag_states" where
  "shift_end scan_type cur next =
     (if is_tap_state next then (ST_OK, tap_of next)
      else (if same_scan scan_type next then ST_OK else ST_ERR, cur))"

lemma determine_shift_end_state_ok:
  assumes "wf_jtag h" "wf_packet p" "length pl = MAX_DATA_SIZE"
  shows "ensures (determine_shift_end_state mode h ty pl p) (\<lambda>(st, e, q).
    wf_packet q \<and> remaining q \<le> remaining p \<and> total q = total p \<and>
    (st = ST_OK \<or> st = ST_ERR) \<and>
    (mode = JTAG_DRIVER_MODE_SOFTWARE \<longrightarrow> q = p) \<and>
    (remaining p = 0 \<longrightarrow> st = ST_OK \<and> e = tap_state (cur_chain h)) \<and>
    (mode = JTAG_DRIVER_MODE_SOFTWARE \<and> 0 < remaining p \<longrightarrow>
       (st, e) = shift_end ty (tap_state (cur_chain h)) (pl ! next_data p)))"
proof (cases "get_packet_data p 1")
  case None
  then show ?thesis
    using assms get_packet_data_eq [OF assms(2), of 1]
    by (auto simp: determine_shift_end_state_def JTAG_get_tap_state_def jtag_simps split: if_splits)
next
  case (Some x)
  obtain i p1 where x: "x = (i, p1)" by force
  note w = get_packet_data_wf [OF assms(2) _ Some [unfolded x]]
  have i: "i < length pl" using w(5) assms(3) by simp
  have u1: "unat (used p1) = unat (used p) + 1" "remaining p1 + 1 = remaining p"
    using w wf_packetD(1) [OF assms(2)] wf_packetD(1) [OF w(1)] by simp_all
  have pos: "0 < remaining p" using u1 by simp
  have p1: "unpeek 1 p1 = p"
    using unpeek_wf [of p1 1] w u1 by (intro wf_packet_eqI [OF _ assms(2)]) auto
  have la: "ensures (look_ahead (Suc (remaining p1)) pl p1 None 0) (\<lambda>(ptr, cnt, q).
     opt_ok (\<lambda>i. i < MAX_DATA_SIZE) ptr \<and> wf_packet (unpeek 1 q) \<and> total (unpeek 1 q) = total p \<and>
     remaining (unpeek 1 q) \<le> remaining p \<and> unpeek cnt (unpeek 1 q) = p)"
  proof -
    have L: "ensures (look_ahead (Suc (remaining p1)) pl p1 None 0) (\<lambda>(ptr, cnt, q).
       opt_ok (\<lambda>i. i < MAX_DATA_SIZE) ptr \<and> wf_packet q \<and> total q = total p1 \<and> unat (0::u32) \<le> unat cnt \<and>
       remaining q + unat cnt = remaining p1 + unat (0::u32))"
      by (rule look_ahead_ok [OF assms(3) w(1)]) (use wf_packetD [OF w(1)] in \<open>simp_all add: remaining_def\<close>)
    have "wf_packet (unpeek 1 q) \<and> total (unpeek 1 q) = total p \<and> remaining (unpeek 1 q) \<le> remaining p \<and>
        unpeek cnt (unpeek 1 q) = p"
      if q: "wf_packet q" "total q = total p1" "remaining q + unat cnt = remaining p1" for cnt q
    proof -
      have uq: "unat (used q) = unat (used p) + 1 + unat cnt"
        using q u1 w(6) wf_packetD(2) [OF q(1)] wf_packetD(2) [OF w(1)] by (simp add: remaining_def)
      note a = unpeek_wf [OF q(1), of 1] and b = unpeek_wf [of "unpeek 1 q" cnt]
      have "unpeek cnt (unpeek 1 q) = p"
        using a b uq q u1 w(6) by (intro wf_packet_eqI [OF _ assms(2)]) auto
      then show ?thesis using q a uq u1 w(6) by auto
    qed
    then show ?thesis by (intro ensures_conseq [OF L]) auto
  qed
  show ?thesis
    using assms(1,2) Some x i w(3) assms(3) pos
    by (auto simp: p1 determine_shift_end_state_def JTAG_get_tap_state_def jtag_simps shift_end_def split_def
        intro!: ensures_conseq [OF la] split: option.split)
qed

lemma get_scan_length_ok:
  assumes "get_scan_length cmd = (bits, bytes)"
  shows "bytes = DIV_ROUND_UP bits 8" "0 < bits" "bits \<le> 64" "bytes \<le> 8"
proof -
  have "unat (cmd AND 0x3F) \<le> 63"
    using word_and_le1 [of cmd "0x3F"] by (simp add: word_le_nat_alt)
  then show "bytes = DIV_ROUND_UP bits 8" "0 < bits" "bits \<le> 64" "bytes \<le> 8"
    using assms by (auto simp: get_scan_length_def DIV_ROUND_UP_def Let_def split: if_splits)
qed

lemma tap_state_cmd_next: "jinv os r \<Longrightarrow> ensures (tap_state_cmd os cmd r) (jnext os r)"
  using jinvD(2) [of os r]
  by (auto simp: tap_state_cmd_def jnext_refl intro!: on_jtag_jnext JTAG_set_tap_state_safe)

lemma shift_cmd_next:
  assumes "jinv os r" "length pl = MAX_DATA_SIZE" "bytes = DIV_ROUND_UP bits 8" "bytes \<le> 8"
    "opt_ok (\<lambda>d. length d = bytes) input" "store \<longrightarrow> unat (jcnt r) + bytes \<le> MAX_DATA_SIZE"
  shows "ensures (shift_cmd os pl ty bits bytes input store r) (jnext os r)"
proof -
  obtain h where h: "jtag_handler (jmsg r) = Some h" "wf_jtag h" using jinvD(2) [OF assms(1)] by blast
  have outlen: "length (buffer (out_msg (jmsg r))) = MAX_DATA_SIZE"
    using jinvD(6) [OF assms(1)] by (simp add: wf_message_def)
  define fin where "fin st2 h' out' tr' q = do {
       r2 \<leftarrow> put_out (case out' of None \<Rightarrow> [] | Some b \<Rightarrow> b) q;
       let r3 = r2\<lparr>jmsg := (jmsg r2)\<lparr>jtag_handler := Some h'\<rparr>, jtr := tr'\<rparr>;
       Some (st2, if st2 = ST_OK \<and> store then r3\<lparr>jcnt := jcnt r3 + of_nat bytes\<rparr> else r3) }" for st2 h' out' tr' q
  have fin: "ensures (fin st2 h' out' tr' q) (jnext os q)"
    if "jinv os q" "jcnt q = jcnt r" "wf_jtag h'" "map_option length out' = (if store then Some bytes else None)"
      "sent_on tr' = sent_on (jtr q)" for st2 h' out' tr' q
  proof -
    have len: "length (case out' of None \<Rightarrow> [] | Some b \<Rightarrow> b) = (if store then bytes else 0)"
      using that(4) by (cases out') (auto split: if_splits)
    have cnt: "store \<Longrightarrow> unat (jcnt r + of_nat bytes) = unat (jcnt r) + bytes"
      using cnt_add [of "jcnt r" bytes] assms(6) by simp
    have "ensures (put_out (case out' of None \<Rightarrow> [] | Some b \<Rightarrow> b) q) (\<lambda>r2.
        jnext os q (st2, r2\<lparr>jmsg := (jmsg r2)\<lparr>jtag_handler := Some h'\<rparr>, jtr := tr'\<rparr>) \<and>
        (store \<longrightarrow> jnext os q (st2, r2\<lparr>jmsg := (jmsg r2)\<lparr>jtag_handler := Some h'\<rparr>, jtr := tr', jcnt := jcnt r2 + of_nat bytes\<rparr>)))"
      using that len cnt assms(6) jinvD(4) [OF that(1)]
      by (intro ensures_conseq [OF put_out_ok [OF that(1)]]) (auto simp: jnext_def jinv_def)
    then show ?thesis by (auto simp: fin_def elim!: ensures_conseq)
  qed
  have run: "ensures (do {
       out \<leftarrow> (if store then do { b \<leftarrow> rds (buffer (out_msg (jmsg q))) (unat (jcnt q)) bytes; Some (Some b) } else Some None);
       (st2, h', out', tr') \<leftarrow> JTAG_shift os h bits input out e (jtr q);
       fin st2 h' out' tr' q }) (jnext os q)" if q: "jinv os q" "jcnt q = jcnt r" "jmsg q = jmsg r" for q e
  proof -
    have "ensures (JTAG_shift os h bits input out e (jtr q)) (\<lambda>(st2, h', out', tr'). ensures (fin st2 h' out' tr' q) (jnext os q))"
      if out: "map_option length out = (if store then Some bytes else None)" for out
    proof (rule ensures_conseq [OF JTAG_shift_safe [OF h(2)]])
      show "shift_args (DIV_ROUND_UP bits 8) input out"
        using out assms(3,4,5)
        by (cases input; cases out) (auto simp: shift_args_def MAX_DATA_SIZE_def split: if_splits)
    qed (use q out in \<open>auto intro!: fin\<close>)
    then show ?thesis
      using q(2,3) assms(6) outlen by (auto simp: split_def)
  qed
  define tail where "tail st e p = (if st \<noteq> ST_OK then Some (st, r\<lparr>jpkt := p\<rparr>)
     else do {
       out \<leftarrow> (if store then do { b \<leftarrow> rds (buffer (out_msg (jmsg r))) (unat (jcnt r)) bytes; Some (Some b) } else Some None);
       (st2, h', out', tr') \<leftarrow> JTAG_shift os h bits input out e (jtr r);
       fin st2 h' out' tr' (r\<lparr>jpkt := p\<rparr>) })" for st e p
  have tail: "ensures (tail st e p) (jnext os r)"
    if p: "wf_packet p" "remaining p \<le> remaining (jpkt r)" "total p = total (jpkt r)" for st e p
  proof (cases "st = ST_OK")
    case True
    have "ensures (tail st e p) (jnext os (r\<lparr>jpkt := p\<rparr>))"
      using run [of "r\<lparr>jpkt := p\<rparr>" e] True jinv_pkt [OF assms(1) p(1)] by (cases store) (simp_all add: tail_def)
    then show ?thesis
      by (rule ensures_conseq) (rule jnext_trans [OF jnext_pkt [OF assms(1) p]])
  qed (use p assms(1) in \<open>simp add: tail_def jnext_pkt\<close>)
  have "shift_cmd os pl ty bits bytes input store r =
      do { (st, e, p) \<leftarrow> determine_shift_end_state (jtag_mode (jtag_cfg (asd_cfg (jmsg r)))) h ty pl (jpkt r); tail st e p }"
    by (simp add: shift_cmd_def h tail_def fin_def Let_def cong: if_cong)
  then show ?thesis
    using determine_shift_end_state_ok [OF h(2) jinvD(3) [OF assms(1)] assms(2), of "jtag_mode (jtag_cfg (asd_cfg (jmsg r)))" ty]
    by (auto elim!: ensures_conseq intro: tail)
qed

lemma put_cmd_next:
  assumes "jinv os r" "unat (jcnt r) + 1 \<le> MAX_DATA_SIZE"
  shows "ensures (put_cmd cmd r) (\<lambda>q. jnext os r (ST_OK, q) \<and> unat (jcnt q) = unat (jcnt r) + 1 \<and> jpkt q = jpkt r)"
proof -
  have "unat (jcnt r + 1) = unat (jcnt r) + 1"
    using cnt_add [of "jcnt r" 1] assms(2) by (simp add: MAX_DATA_SIZE_def)
  then show ?thesis
    using assms
    by (auto simp: put_cmd_def jnext_def jinv_def intro!: ensures_conseq [OF put_out_ok [OF assms(1)]])
qed

lemma scan_cmds_next:
  assumes "jinv os r" "length pl = MAX_DATA_SIZE"
  shows "ensures (write_scan_cmd os pl cmd r) (jnext os r)" "ensures (read_scan_cmd os pl cmd r) (jnext os r)"
    "ensures (read_write_scan_cmd os pl cmd r) (jnext os r)"
proof -
  obtain h where h: "jtag_handler (jmsg r) = Some h" using jinvD(2) [OF assms(1)] by blast
  obtain bits bytes where len: "get_scan_length cmd = (bits, bytes)" by fastforce
  note sl = get_scan_length_ok [OF len]
  have b16: "bytes < 2 ^ 16" using sl(4) by simp
  have w: "ensures (with_data pl bytes q (\<lambda>d. shift_cmd os pl ty bits bytes (Some d) store)) (jnext os q)"
    if "jinv os q" "store \<longrightarrow> unat (jcnt q) + bytes \<le> MAX_DATA_SIZE" for q ty store
    using that sl assms(2) by (intro with_data_jnext [OF that(1) assms(2) b16] shift_cmd_next) auto
  show "ensures (write_scan_cmd os pl cmd r) (jnext os r)"
    using w [OF assms(1)] by (simp add: write_scan_cmd_def h len jnext_refl [OF assms(1)])
  have put: "ensures (do { q \<leftarrow> put_cmd cmd r; k q }) (jnext os r)"
    if room: "unat (jcnt r) + 1 + bytes \<le> MAX_DATA_SIZE"
      and k: "\<And>q. jinv os q \<Longrightarrow> unat (jcnt q) + bytes \<le> MAX_DATA_SIZE \<Longrightarrow> ensures (k q) (jnext os q)" for k
  proof -
    have "ensures (k q) (jnext os r)" if q: "jnext os r (ST_OK, q)" "unat (jcnt q) + bytes \<le> MAX_DATA_SIZE" for q
    proof (rule ensures_conseq [OF k [OF _ q(2)]])
      show "jinv os q" using q(1) by (simp add: jnext_def)
    qed (rule jnext_trans [OF q(1)])
    then show ?thesis
      using room by (auto intro!: ensures_conseq [OF put_cmd_next [OF assms(1)]])
  qed
  show "ensures (read_scan_cmd os pl cmd r) (jnext os r)"
    using put [of "shift_cmd os pl ScanType_Read bits bytes None True"] sl assms(2)
    by (auto simp: read_scan_cmd_def h len jnext_refl [OF assms(1)] shift_cmd_next)
  show "ensures (read_write_scan_cmd os pl cmd r) (jnext os r)"
    using put [of "\<lambda>q. with_data pl bytes q (\<lambda>d. shift_cmd os pl ScanType_ReadWrite bits bytes (Some d) True)"] w
    by (auto simp: read_write_scan_cmd_def h len jnext_refl [OF assms(1)])
qed

lemma jtag_command_next:
  assumes "jinv os r" "length pl = MAX_DATA_SIZE"
    "cmd = PRDY_TIMEOUT \<Longrightarrow> 1 \<le> remaining (jpkt r) \<Longrightarrow> prdy_ok os (pl ! next_data (jpkt r))"
  shows "ensures (jtag_command os g pl cmd r) (jnext os r)"
proof -
  have wait: "ensures (wait_cycles_cmd os pl r) (jnext os r)"
    unfolding wait_cycles_cmd_def
    by (rule with_data_jnext [OF assms(1,2)], simp, rule on_jtag_jnext)
      (auto simp: JTAG_wait_cycles_def Let_def silent_def)
  have sync: "ensures (wait_sync_cmd os pl r) (jnext os r)"
  proof -
    have "ensures (on_target q (\<lambda>t tr. let (st, tr') = target_wait_sync os t a b tr in Some (st, t, tr'))) (jnext os q)"
      if "jinv os q" for q a b
      using that by (intro on_target_jnext) (auto simp: split_def Let_def quiet)
    then have "ensures (do {
       (st, r2) \<leftarrow> on_target q (\<lambda>t tr. let (st, tr') = target_wait_sync os t a b tr in Some (st, t, tr'));
       Some (if st = ST_TIMEOUT then ST_OK else st, r2) }) (jnext os q)" if "jinv os q" for q a b
      using that by (intro jnext_bind) (auto simp: jnext_refl)
    then show ?thesis
      unfolding wait_sync_cmd_def by (intro with_data_jnext [OF assms(1,2)]) auto
  qed
  have prdy: "ensures (on_target r (\<lambda>t tr. target_wait_PRDY os t (prdy_timeout (jmsg r)) tr)) (jnext os r)"
    by (intro on_target_jnext target_wait_PRDY_safe jinvD(5) assms(1))
  have reset: "ensures (on_jtag r (JTAG_tap_reset os)) (jnext os r)"
    unfolding JTAG_tap_reset_def by (intro on_jtag_jnext JTAG_set_tap_state_safe assms(1))
  have ev: "ensures (with_data pl 1 r (\<lambda>d. write_event_config os (d ! 0))) (jnext os r)"
    by (intro with_data_jnext [OF assms(1,2)] write_event_config_next) auto
  note cfg = write_cfg_next [OF assms(1,2), of cmd] assms(3)
  show ?thesis
    unfolding jtag_command_def
    using ev wait sync prdy reset cfg scan_cmds_next [OF assms(1,2)] tap_state_cmd_next [OF assms(1)]
      write_pins_cmd_next [OF assms(1,2)] read_status_cmd_next [OF assms(1,2)] jnext_refl [OF assms(1)]
    by simp
qed

text \<open>The PRDY time-out stored by a message is an exponent.\<close>

definition prdy_bounded :: "os \<Rightarrow> u8 list \<Rightarrow> nat \<Rightarrow> bool" where
  "prdy_bounded os pl n \<longleftrightarrow> (\<forall>i < n. Suc i < n \<and> pl ! i = PRDY_TIMEOUT \<longrightarrow> prdy_ok os (pl ! Suc i))"

lemma prdy_bounded_list:
  "list_all (\<lambda>i. pl ! i = PRDY_TIMEOUT \<longrightarrow> unat (pl ! Suc i) \<le> LOG2TIME_SHIFT_MAX) [0..<n - 1] \<Longrightarrow> prdy_bounded os pl n"
  by (auto simp: prdy_bounded_def list_all_iff prdy_ok_def)

lemma prdy_bounded_answers: "poll_answers os \<Longrightarrow> prdy_bounded os pl n"
  by (simp add: prdy_bounded_def prdy_ok_def)

lemma jtag_step_next:
  assumes "jinv os r" "length pl = MAX_DATA_SIZE" "0 < remaining (jpkt r)" "prdy_bounded os pl (unat (total (jpkt r)))"
  shows "ensures (jtag_step os g pl r) (\<lambda>(st, r'). jnext os r (st, r') \<and> (st = ST_OK \<longrightarrow> remaining (jpkt r') < remaining (jpkt r)))"
  unfolding jtag_step_def
proof (rule with_data_ensures [OF assms(1,2)])
  fix p assume p: "wf_packet p" "remaining p + 1 = remaining (jpkt r)" "total p = total (jpkt r)"
    "next_data p = next_data (jpkt r) + 1"
  define d where "d = take 1 (drop (next_data (jpkt r)) pl)"
  have "next_data (jpkt r) < length pl"
    using wf_packetD(4) [OF p(1)] p(4) assms(2) by simp
  then have d: "d ! 0 = pl ! next_data (jpkt r)" by (simp add: d_def)
  have prdy: "prdy_ok os (pl ! next_data p)" if "d ! 0 = PRDY_TIMEOUT" "1 \<le> remaining p"
  proof -
    have "next_data p < unat (total p)"
      using that(2) wf_packetD(1,2) [OF p(1)] by (simp add: remaining_def)
    then show ?thesis
      using that(1) d p(3,4) assms(4) by (simp add: prdy_bounded_def)
  qed
  have nx: "jnext os r (ST_OK, r\<lparr>jpkt := p\<rparr>)" using p by (intro jnext_pkt [OF assms(1)]) auto
  show "ensures (jtag_command os g pl (take 1 (drop (next_data (jpkt r)) pl) ! 0) (r\<lparr>jpkt := p\<rparr>))
     (\<lambda>(st, r'). jnext os r (st, r') \<and> (st = ST_OK \<longrightarrow> remaining (jpkt r') < remaining (jpkt r)))"
    unfolding d_def [symmetric]
  proof (rule ensures_conseq [OF jtag_command_next [OF jinv_pkt [OF assms(1) p(1)] assms(2)]])
    fix x assume x: "jnext os (r\<lparr>jpkt := p\<rparr>) x"
    then show "case x of (st, r') \<Rightarrow> jnext os r (st, r') \<and> (st = ST_OK \<longrightarrow> remaining (jpkt r') < remaining (jpkt r))"
      using jnext_trans [OF nx x] p(2) by (auto simp: jnext_def)
  qed (use prdy in simp_all)
qed (use assms(1) jnext_refl in auto)

lemma jtag_loop_next:
  assumes "jinv os r" "length pl = MAX_DATA_SIZE" "remaining (jpkt r) < fuel" "prdy_bounded os pl (unat (total (jpkt r)))"
  shows "ensures (jtag_loop fuel os g pl r) (jnext os r)"
  using assms(1,3,4)
proof (induction fuel arbitrary: r)
  case (Suc fuel)
  show ?case
  proof (cases "used (jpkt r) < total (jpkt r)")
    case False
    then show ?thesis using Suc.prems by (simp add: jnext_refl)
  next
    case True
    then have pos: "0 < remaining (jpkt r)" by (simp add: remaining_def word_less_nat_alt)
    have "ensures (if st \<noteq> ST_OK then Some (st, q) else jtag_loop fuel os g pl q) (jnext os r)"
      if q: "jnext os r (st, q)" "st = ST_OK \<longrightarrow> remaining (jpkt q) < remaining (jpkt r)" for st q
    proof (cases "st = ST_OK")
      case True
      have "jinv os q" "total (jpkt q) = total (jpkt r)" using q(1) by (simp_all add: jnext_def)
      then have "ensures (jtag_loop fuel os g pl q) (jnext os q)"
        using q(2) True Suc.prems by (intro Suc.IH) auto
      then show ?thesis using True by (auto elim!: ensures_conseq intro: jnext_trans [OF q(1)])
    qed (use q in simp)
    then show ?thesis
      using True jtag_step_next [OF Suc.prems(1) assms(2) pos Suc.prems(3), of g]
      by (auto elim!: ensures_conseq)
  qed
qed simp

declare jtag_loop.simps [simp del]

lemma jinv_start:
  assumes "wf_msg s" "jtag_handler s \<noteq> None" "prdy_ok os (prdy_timeout s)"
    "0 \<le> sz" "sz \<le> int MAX_DATA_SIZE"
  shows "jinv os (jtag_start s sz tr)" "remaining (jpkt (jtag_start s sz tr)) = nat sz"
    "unat (total (jpkt (jtag_start s sz tr))) = nat sz"
proof -
  have "uint (of_int sz :: u32) = sz"
    using assms(4,5) by (simp add: unsigned_of_int MAX_DATA_SIZE_def take_bit_int_eq_self)
  then have "unat (of_int sz :: u32) = nat sz" by (simp add: unat_eq_nat_uint)
  then show "jinv os (jtag_start s sz tr)" "remaining (jpkt (jtag_start s sz tr)) = nat sz"
    "unat (total (jpkt (jtag_start s sz tr))) = nat sz"
    using assms by (auto simp: jinv_def jtag_start_def wf_packet_def remaining_def)
qed

lemma finish_response_size:
  "unat cnt \<le> MAX_DATA_SIZE \<Longrightarrow> get_message_size (finish_response m cnt out) = uint cnt"
  using get_set_msg_size [where m = out and h = "header m"] by (simp add: finish_response_def get_message_size_def)

text \<open>
  What is left after a JTAG message: the state is well-formed and only its JTAG part changed; nothing
  was sent, or the response was, once, with the request's header and its own size.
\<close>

definition jtag_reply :: "os \<Rightarrow> asd_message \<Rightarrow> ASD_MSG \<Rightarrow> trace \<Rightarrow> STATUS \<times> ASD_MSG \<times> trace \<Rightarrow> bool" where
  "jtag_reply os m s tr = (\<lambda>(st, s', tr').
     wf_msg s' \<and> jtag_handler s' \<noteq> None \<and> prdy_ok os (prdy_timeout s') \<and>
     jtag_frame s' = jtag_frame s \<and>
     (sent_on tr' = sent_on tr \<or>
      (\<exists>n \<le> MAX_DATA_SIZE. get_message_size (out_msg s') = int n \<and>
         header (out_msg s') = (set_msg_size (of_nat n) (header m))\<lparr>cmd_stat := 0\<rparr> \<and>
         sent_on tr' = sent_on tr @ [packet_bytes (out_msg s') n])) \<and>
     (st = ST_OK \<longrightarrow> sent_on tr' \<noteq> sent_on tr))"

definition jtag_tail :: "os \<Rightarrow> Server \<Rightarrow> asd_message \<Rightarrow> STATUS \<Rightarrow> jtag_run \<Rightarrow> (STATUS \<times> ASD_MSG \<times> trace) option" where
  "jtag_tail os srv m st r =
     (if st \<noteq> ST_OK then Some (st, jmsg r, jtr r)
      else do {
        (st2, tr2) \<leftarrow> send_response os srv (finish_response m (jcnt r) (out_msg (jmsg r))) (jtr r);
        Some (st2, (jmsg r)\<lparr>out_msg := finish_response m (jcnt r) (out_msg (jmsg r))\<rparr>, tr2) })"

lemma jtag_tail_ok:
  assumes "wf_server srv" "jinv os r" "sent_on (jtr r) = sent_on tr" "jtag_frame (jmsg r) = jtag_frame s"
  shows "ensures (jtag_tail os srv m st r) (jtag_reply os m s tr)"
proof (cases "st = ST_OK")
  case False
  then show ?thesis using assms by (simp add: jtag_tail_def jtag_reply_def jinv_def)
next
  case True
  define out where "out = finish_response m (jcnt r) (out_msg (jmsg r))"
  have out: "wf_message out" "get_message_size out = int (unat (jcnt r))"
    "header out = (set_msg_size (of_nat (unat (jcnt r))) (header m))\<lparr>cmd_stat := 0\<rparr>"
    using jinvD(4,6) [OF assms(2)] finish_response_size
    by (simp_all add: out_def wf_message_def finish_response_def get_message_size_def set_msg_size_def)
  have "wf_msg (jmsg r\<lparr>out_msg := out\<rparr>)" using jinvD(1) [OF assms(2)] out(1) by simp
  then show ?thesis
    using send_response_ok [OF assms(1) out(1), of os "jtr r"] True assms out jinvD(2,4,5) [OF assms(2)]
    by (auto elim!: ensures_conseq intro!: exI [of _ "unat (jcnt r)"]
        simp: jtag_reply_def jtag_tail_def out_def [symmetric])
qed

lemma process_jtag_message_safe:
  assumes "wf_msg s" "jtag_handler s \<noteq> None" "prdy_ok os (prdy_timeout s)"
    "wf_message m" "prdy_bounded os (buffer m) (nat (get_message_size m))" "wf_server srv"
  shows "ensures (process_jtag_message os srv g m s tr) (jtag_reply os m s tr)"
proof (cases "get_message_size m = - 1")
  case True
  then show ?thesis using assms by (simp add: process_jtag_message_def jtag_reply_def)
next
  case False
  define sz where "sz = get_message_size m"
  have sz: "0 \<le> sz" "sz \<le> int MAX_DATA_SIZE" "sz \<noteq> - 1"
    using get_message_size_range [of m] False by (auto simp: sz_def)
  have len: "length (buffer m) = MAX_DATA_SIZE" using assms(4) by (simp add: wf_message_def)
  obtain h where h: "jtag_handler s = Some h" "wf_jtag h"
    using assms(1,2) wf_msgD(4) [OF assms(1)] by auto
  have chk: "ensures (check_shift_state_bundle_start s m sz) (\<lambda>_. True)"
    using h len by (auto simp: check_shift_state_bundle_start_def JTAG_get_tap_state_def jtag_simps MAX_DATA_SIZE_def)
  note i = jinv_start [OF assms(1-3) sz(1,2), of tr]
  have "ensures (jtag_loop (Suc (nat sz)) os g (buffer m) (jtag_start s sz tr)) (jnext os (jtag_start s sz tr))"
    using i assms(5) by (intro jtag_loop_next len) (simp_all add: sz_def)
  then have loop: "ensures (jtag_loop (Suc (nat sz)) os g (buffer m) (jtag_start s sz tr)) (\<lambda>(st, r).
      ensures (jtag_tail os srv m st r) (jtag_reply os m s tr))"
    by (rule ensures_conseq) (auto simp: jnext_def jtag_start_def intro!: jtag_tail_ok [OF assms(6)])
  have "process_jtag_message os srv g m s tr = do {
      _ \<leftarrow> check_shift_state_bundle_start s m sz;
      (st, r) \<leftarrow> jtag_loop (Suc (nat sz)) os g (buffer m) (jtag_start s sz tr);
      jtag_tail os srv m st r }"
    using sz(3) by (simp add: process_jtag_message_def sz_def [symmetric] jtag_tail_def Let_def cong: if_cong)
  then show ?thesis
    using chk loop by (auto simp: split_def elim!: ensures_conseq)
qed

end
