(* ===== verification/Bus_Quiet.thy ===== *)
theory Bus_Quiet
  imports Handler_Quiet I3c_Handler
begin

text \<open>
  The operations of the bus handlers put nothing on the client's connection, as \<open>Handler_Quiet\<close> shows
  for the target and JTAG handlers.
\<close>

lemma silent_simps [simp]:
  "silent (Sys_malloc a b)" "silent (Sys_open p)" "silent (Sys_close fd)" "silent (Sys_flock fd e)"
  "silent (Sys_i2c_rdwr fd ms)" "silent (Sys_lseek fd)" "silent (Sys_seek_end fd)" "silent (Sys_read fd k)"
  "silent (Sys_write fd bs)" "silent (Sys_poll fd k i)" "silent (Sys_usleep k)" "silent (Sys_readdir p)"
  "silent (Sys_i3c_action fd u)" "silent (Sys_i3c_opcode fd u bs k)" "silent (Sys_i3c_event fd k)"
  "silent (Sys_dbus f args)" "silent Sys_time" "silent (Sys_net f g args)" "silent (Sys_pam f bs)" "silent (Sys_rand k)"
  "silent Sys_timeofday" "silent (Sys_journal p)"
  by (simp_all add: silent_def)

lemma malloc_quiet [quiet]: "sent_on (snd (malloc os ty n tr)) = sent_on tr"
  by (simp add: malloc_def)

lemma dbus_call_quiet [quiet]: "sent_on (snd (snd (dbus_call os f args old tr))) = sent_on tr"
  by (simp add: dbus_call_def Let_def)

section \<open>I2C\<close>

lemma i2c_driver_quiet [quiet]:
  "sent_on (snd (i2c_close_driver os h tr)) = sent_on tr"
  "sent_on (snd (snd (i2c_open_driver os h bus tr))) = sent_on tr"
  by (simp_all add: i2c_close_driver_def i2c_open_driver_def split_def Let_def)

lemma i2c_bus_quiet [quiet]:
  "sent_on (snd (snd (i2c_bus_flock os h bus e tr))) = sent_on tr"
  "sent_on (snd (snd (snd (i2c_bus_select os cfg h bus tr)))) = sent_on tr"
  "sent_on (snd (snd (i2c_read_write os cfg h d tr))) = sent_on tr"
  by (simp_all add: i2c_bus_flock_def i2c_bus_select_def i2c_read_write_def split_def Let_def quiet split: option.split)

lemma copy_asd_to_i2c_quiet: "whenever (copy_asd_to_i2c os m tr) (\<lambda>(st, i, tr'). sent_on tr' = sent_on tr)"
  by (auto simp: copy_asd_to_i2c_def split_def Let_def quiet intro!: whenever_any)

lemma i2c_msg_add_quiet: "whenever (i2c_msg_add os b m tr) (\<lambda>(st, b', tr'). sent_on tr' = sent_on tr)"
  by (auto simp: i2c_msg_add_def split_def Let_def quiet split: option.split
      intro!: whenever_any whenever_conseq [OF copy_asd_to_i2c_quiet])

section \<open>I3C\<close>

lemma is_spd_bus_quiet [quiet]: "sent_on (snd (snd (is_spd_bus os name tr))) = sent_on tr"
  by (simp add: is_spd_bus_def split_def Let_def)

lemma get_platform_index_quiet: "whenever (get_platform_index os name tr) (\<lambda>(p, tr'). sent_on tr' = sent_on tr)"
  by (simp add: get_platform_index_def split_def Let_def)

lemma spd_scan_quiet: "whenever (spd_scan os es m n tr) (\<lambda>(m', n', tr'). sent_on tr' = sent_on tr)"
proof (induction es arbitrary: m n tr)
  case (Cons e es)
  have step: "whenever (spd_scan os es m n t) (\<lambda>(m', n', tr'). sent_on tr' = sent_on tr)"
    if "sent_on t = sent_on tr" for m n t
    using Cons.IH [of m n t] that by simp
  show ?case
    by (auto simp: split_def quiet split: option.split intro!: whenever_any step [unfolded split_def]
        whenever_conseq [OF get_platform_index_quiet [unfolded split_def]])
qed simp

lemma create_spd_mapping_quiet: "whenever (create_spd_mapping os s tr) (\<lambda>(st, s', tr'). sent_on tr' = sent_on tr)"
  by (auto simp: create_spd_mapping_def intro!: whenever_conseq [OF spd_scan_quiet])

lemma open_i3c_devs_quiet [quiet]: "sent_on (snd (open_i3c_devs os m is tr)) = sent_on tr"
  by (induction "is" arbitrary: tr) (simp_all add: split_def Let_def)

lemma i3c_open_device_drivers_quiet:
  "whenever (i3c_open_device_drivers os s bus tr) (\<lambda>(st, s', tr'). sent_on tr' = sent_on tr)"
  by (auto simp: i3c_open_device_drivers_def split_def quiet
      intro!: whenever_any whenever_conseq [OF create_spd_mapping_quiet])

lemma close_i3c_devs_quiet: "sent_on (close_i3c_devs os fds tr) = sent_on tr"
  by (induction fds arbitrary: tr) simp_all

lemma i3c_close_device_drivers_quiet [quiet]: "sent_on (snd (i3c_close_device_drivers os s tr)) = sent_on tr"
  by (simp add: i3c_close_device_drivers_def close_i3c_devs_quiet)

lemma i3c_bus_select_quiet:
  "whenever (i3c_bus_select os cfg s bus tr) (\<lambda>(st, cfg', s', tr'). sent_on tr' = sent_on tr)"
  by (auto simp: i3c_bus_select_def split_def quiet intro!: whenever_conseq [OF i3c_open_device_drivers_quiet])

lemma flock_i3c_devs_quiet [quiet]: "sent_on (snd (flock_i3c_devs os fds e st tr)) = sent_on tr"
  by (induction fds arbitrary: st tr) (simp_all add: split_def Let_def)

lemma i3c_bus_flock_dev_handlers_quiet:
  "whenever (i3c_bus_flock_dev_handlers os cfg s bus e tr) (\<lambda>(st, cfg', s', tr'). sent_on tr' = sent_on tr)"
  by (auto simp: i3c_bus_flock_dev_handlers_def split_def quiet intro!: whenever_conseq [OF i3c_bus_select_quiet])

lemma i3c_take_ownership_quiet:
  "whenever (i3c_take_ownership os s bus tr) (\<lambda>(st, s', tr'). sent_on tr' = sent_on tr)"
  by (auto simp: i3c_take_ownership_def split_def quiet intro!: whenever_conseq [OF i3c_open_device_drivers_quiet])

lemma i3c_bus_flock_quiet:
  "whenever (i3c_bus_flock os cfg s bus e tr) (\<lambda>(st, cfg', s', tr'). sent_on tr' = sent_on tr)"
  by (auto simp: i3c_bus_flock_def split_def quiet
      intro!: whenever_conseq [OF i3c_take_ownership_quiet] whenever_conseq [OF i3c_bus_flock_dev_handlers_quiet])

lemma i3c_read_write_quiet [quiet]: "sent_on (snd (snd (i3c_read_write os cfg h d tr))) = sent_on tr"
  by (simp add: i3c_read_write_def split_def Let_def quiet split: option.split)

section \<open>SPP\<close>

lemma open_devs_quiet [quiet]: "sent_on (snd (open_devs os is tr)) = sent_on tr"
  by (induction "is" arbitrary: tr) (simp_all add: split_def Let_def)

lemma close_devs_quiet [quiet]: "sent_on (close_devs os fds tr) = sent_on tr"
  by (induction fds arbitrary: tr) simp_all

lemma spp_driver_quiet [quiet]:
  "sent_on (snd (snd (spp_open_driver os s bus tr))) = sent_on tr"
  "sent_on (snd (spp_close_driver os s tr)) = sent_on tr"
  by (simp_all add: spp_open_driver_def spp_close_driver_def split_def Let_def quiet)

lemma spp_bus_select_quiet:
  "whenever (spp_bus_select os cfg s bus tr) (\<lambda>(st, cfg', s', tr'). sent_on tr' = sent_on tr)"
  by (auto simp: spp_bus_select_def split_def quiet intro!: whenever_any)

lemma flock_devs_quiet [quiet]: "sent_on (snd (flock_devs os fds e n tr)) = sent_on tr"
  by (induction fds arbitrary: n tr) (simp_all add: split_def Let_def)

lemma spp_bus_flock_quiet [quiet]: "sent_on (snd (snd (spp_bus_flock os s bus e tr))) = sent_on tr"
  by (simp add: spp_bus_flock_def split_def Let_def quiet)

lemma spp_send_quiet: "whenever (spp_send os s n bs tr) (\<lambda>(st, s', tr'). sent_on tr' = sent_on tr)"
proof -
  have "whenever (send_i3c_cmd os s bs k tr) (\<lambda>(st, tr'). sent_on tr' = sent_on tr)" for k
    by (auto simp: send_i3c_cmd_def split_def intro!: whenever_any)
  from whenever_conseq [OF this] show ?thesis
    by (auto simp: spp_send_def split_def whenever_arrays Let_def)
qed

lemma send_i3c_action_quiet [quiet]: "sent_on (snd (send_i3c_action os s a tr)) = sent_on tr"
  by (simp add: send_i3c_action_def split_def Let_def)

lemma send_i3c_opcode_quiet: "whenever (send_i3c_opcode os s c tx w rx k tr) (\<lambda>(st, rx', tr'). sent_on tr' = sent_on tr)"
  by (auto simp: send_i3c_opcode_def Let_def intro!: whenever_any)

lemma spp_send_cmd_quiet: "whenever (spp_send_cmd os s c n bs tr) (\<lambda>(st, tr'). sent_on tr' = sent_on tr)"
  by (auto simp: spp_send_cmd_def broadcast_debug_action_def split_def Let_def whenever_arrays quiet
      intro!: whenever_conseq [OF send_i3c_opcode_quiet])

lemma spp_send_receive_cmd_quiet:
  "whenever (spp_send_receive_cmd os s c n bs rb tr) (\<lambda>(st, rb', tr'). sent_on tr' = sent_on tr \<and> length rb' = length rb)"
proof -
  have "whenever (send_i3c_opcode os s a tx w rx k tr) (\<lambda>(st, rx', tr'). sent_on tr' = sent_on tr \<and> length rx' = length rx)" for a tx w rx k
    by (auto simp: send_i3c_opcode_def Let_def whenever_arrays intro!: whenever_any)
  from whenever_conseq [OF this] show ?thesis
    by (auto simp: spp_send_receive_cmd_def split_def Let_def whenever_arrays quiet)
qed

lemma send_reset_rx_quiet: "whenever (send_reset_rx os s tr) (\<lambda>(st, s', tr'). sent_on tr' = sent_on tr)"
proof -
  have "whenever (reset_rx_from os is s tr) (\<lambda>(s', tr'). sent_on tr' = sent_on tr)" for "is"
  proof (induction "is" arbitrary: s tr)
    case (Cons i "is")
    have "whenever (reset_rx_from os is s1 t) (\<lambda>(s', tr'). sent_on tr' = sent_on tr)" if "sent_on t = sent_on tr" for s1 t
      using Cons.IH [of s1 t] that by simp
    then show ?case by (auto simp: split_def quiet intro!: whenever_any)
  qed simp
  from whenever_conseq [OF this] show ?thesis by (auto simp: send_reset_rx_def)
qed

lemma spp_receive_quiet: "whenever (spp_receive os s bf tr) (\<lambda>(st, n, s', bf', tr'). sent_on tr' = sent_on tr)"
  by (auto simp: spp_receive_def receive_i3c_def rx_i3c_def split_def Let_def whenever_arrays
      intro!: whenever_conseq [OF send_reset_rx_quiet])

text \<open>A receive asks for 255 bytes whatever room there is.\<close>

lemma spp_receive_short: "length bf < 255 \<Longrightarrow> spp_receive os s bf tr = None"
  by (simp add: spp_receive_def receive_i3c_def rx_i3c_def wrs_def)

end
