(* ===== verification/I2c_Msg.thy ===== *)
theory I2c_Msg
  imports Asd_Msg_State Bus_Quiet
begin

text \<open>
  The I2C and I3C commands of \<open>target/asd_msg.c\<close>: \<open>process_i2c_messages\<close> with \<open>dev_flock\<close>, the bus
  selection, the bundling of reads and writes in an \<open>I2C_Msg_Builder\<close>, and \<open>build_responses\<close>, which
  splits a long reply over several packets.  The locals of the loop are the record \<open>i2c_run\<close>.  \<open>g\<close>
  is what an uninitialised \<open>asd_i2c_msg\<close> on the stack holds.
\<close>

section \<open>Buses\<close>

definition bus_type :: "bus_config \<Rightarrow> u8 \<Rightarrow> bus_config_type" where
  "bus_type cfg bus =
     (case find (\<lambda>i. bus_map cfg ! i = bus) [0..<MAX_IxC_BUSES] of
        None \<Rightarrow> BUS_CONFIG_NOT_ALLOWED
      | Some i \<Rightarrow> bus_types cfg ! i)"

text \<open>\<open>op\<close> is \<open>LOCK_EX\<close> when true and \<open>LOCK_UN\<close> otherwise.\<close>

definition dev_flock :: "os \<Rightarrow> u8 \<Rightarrow> bool \<Rightarrow> ASD_MSG \<Rightarrow> trace \<Rightarrow> (STATUS \<times> ASD_MSG \<times> trace) option" where
  "dev_flock os bus op s tr =
     (case bus_type (buses s) bus of
        BUS_CONFIG_I2C \<Rightarrow>
          (case i2c_handler s of None \<Rightarrow> Some (ST_ERR, s, tr)
           | Some h \<Rightarrow> (let (st, h', tr') = i2c_bus_flock os h bus op tr in Some (st, s\<lparr>i2c_handler := Some h'\<rparr>, tr')))
      | BUS_CONFIG_I3C \<Rightarrow>
          (case i3c_handler s of None \<Rightarrow> Some (ST_ERR, s, tr)
           | Some h \<Rightarrow> do {
               (st, cfg', h', tr') \<leftarrow> i3c_bus_flock os (buses s) h bus op tr;
               Some (st, set_buses cfg' (s\<lparr>i3c_handler := Some h'\<rparr>), tr') })
      | BUS_CONFIG_SPP \<Rightarrow>
          (case spp_handler s of None \<Rightarrow> Some (ST_ERR, s, tr)
           | Some h \<Rightarrow> (let (st, h', tr') = spp_bus_flock os h bus op tr in Some (st, s\<lparr>spp_handler := Some h'\<rparr>, tr')))
      | _ \<Rightarrow> Some (ST_ERR, s, tr))"

text \<open>The \<open>switch\<close> of \<open>do_bus_select_command\<close>.\<close>

definition select_bus :: "os \<Rightarrow> u8 \<Rightarrow> ASD_MSG \<Rightarrow> trace \<Rightarrow> (STATUS \<times> ASD_MSG \<times> trace) option" where
  "select_bus os bus s tr =
     (case bus_type (buses s) bus of
        BUS_CONFIG_I2C \<Rightarrow>
          (case i2c_handler s of None \<Rightarrow> Some (ST_ERR, s, tr)
           | Some h \<Rightarrow> (let (st, cfg', h', tr') = i2c_bus_select os (buses s) h bus tr
                       in Some (st, set_buses cfg' (s\<lparr>i2c_handler := Some h'\<rparr>), tr')))
      | BUS_CONFIG_I3C \<Rightarrow>
          (case i3c_handler s of None \<Rightarrow> Some (ST_ERR, s, tr)
           | Some h \<Rightarrow> do {
               (st, cfg', h', tr') \<leftarrow> i3c_bus_select os (buses s) h bus tr;
               Some (st, set_buses cfg' (s\<lparr>i3c_handler := Some h'\<rparr>), tr') })
      | BUS_CONFIG_SPP \<Rightarrow>
          (case spp_handler s of None \<Rightarrow> Some (ST_ERR, s, tr)
           | Some h \<Rightarrow> do {
               (st, cfg', h', tr') \<leftarrow> spp_bus_select os (buses s) h bus tr;
               Some (st, set_buses cfg' (s\<lparr>spp_handler := Some h'\<rparr>), tr') })
      | _ \<Rightarrow> Some (ST_ERR, s, tr))"

text \<open>A failure to unlock the old bus is reported to the client and otherwise ignored.\<close>

definition switch_bus ::
    "os \<Rightarrow> Server \<Rightarrow> asd_message \<Rightarrow> u8 \<Rightarrow> ASD_MSG \<Rightarrow> trace \<Rightarrow> (STATUS \<times> ASD_MSG \<times> trace) option" where
  "switch_bus os srv msg bus s tr =
     (if default_bus (buses s) = bus then Some (ST_OK, s, tr)
      else do {
        (st, s1, tr1) \<leftarrow> dev_flock os (default_bus (buses s)) False s tr;
        tr2 \<leftarrow> (if st \<noteq> ST_OK then send_error_message os srv msg ASD_FAILURE_REMOVE_I2C_LOCK tr1 else Some tr1);
        (st2, s2, tr3) \<leftarrow> dev_flock os bus True s1 tr2;
        if st2 \<noteq> ST_OK then do {
          tr4 \<leftarrow> send_error_message os srv msg ASD_FAILURE_PROCESS_I2C_LOCK tr3;
          Some (ST_ERR, s2, tr4) }
        else Some (ST_OK, s2, tr3) })"

section \<open>Commands\<close>

abbreviation I2C_WRITE_CFG_BUS_SELECT :: u8 where "I2C_WRITE_CFG_BUS_SELECT \<equiv> 1"
abbreviation I2C_WRITE_CFG_SCLK :: u8 where "I2C_WRITE_CFG_SCLK \<equiv> 2"
abbreviation I2C_READ_MIN :: u8 where "I2C_READ_MIN \<equiv> 0x20"
abbreviation I2C_WRITE_MIN :: u8 where "I2C_WRITE_MIN \<equiv> 0x60"
abbreviation I2C_ADDRESS_ACK :: u8 where "I2C_ADDRESS_ACK \<equiv> 0x80"
definition is_i2c_read :: "u8 \<Rightarrow> bool" where "is_i2c_read c \<longleftrightarrow> I2C_READ_MIN \<le> c \<and> c \<le> 0x3F"
definition is_i2c_write :: "u8 \<Rightarrow> bool" where "is_i2c_write c \<longleftrightarrow> I2C_WRITE_MIN \<le> c \<and> c \<le> 0x7F"

record i2c_run =
  imsg :: ASD_MSG
  ipkt :: packet_data
  ibld :: "I2C_Msg_Builder option"
  icnt :: nat
  i2c_command_pending :: bool
  istop :: bool
  itr :: trace

definition do_bus_select_command ::
    "os \<Rightarrow> Server \<Rightarrow> asd_message \<Rightarrow> i2c_run \<Rightarrow> (STATUS \<times> i2c_run) option" where
  "do_bus_select_command os srv msg r =
     (case get_packet_data (ipkt r) 1 of None \<Rightarrow> Some (ST_ERR, r)
      | Some (i, p) \<Rightarrow> do {
          bus \<leftarrow> rd (buffer msg) i;
          (st, s1, tr1) \<leftarrow> switch_bus os srv msg bus (imsg r) (itr r);
          (st2, s2, tr2) \<leftarrow> (if st \<noteq> ST_OK then Some (st, s1, tr1) else select_bus os bus s1 tr1);
          Some (st2, r\<lparr>ipkt := p, imsg := s2, itr := tr2\<rparr>) })"

definition do_set_sclk_command :: "u8 list \<Rightarrow> i2c_run \<Rightarrow> (STATUS \<times> i2c_run) option" where
  "do_set_sclk_command pl r =
     (case get_packet_data (ipkt r) 2 of None \<Rightarrow> Some (ST_ERR, r)
      | Some (i, p) \<Rightarrow> do {
          d \<leftarrow> rds pl i 2;
          let s = imsg r;
          let sclk = (push_bit 8 (ucast (d ! 1)) + ucast (d ! 0) :: u16);
          let st = (case bus_type (buses s) (default_bus (buses s)) of
              BUS_CONFIG_I2C \<Rightarrow> if i2c_handler s = None then ST_ERR else i2c_set_sclk (buses s) sclk
            | BUS_CONFIG_I3C \<Rightarrow> if i3c_handler s = None then ST_ERR else i3c_set_sclk (buses s) sclk
            | BUS_CONFIG_SPP \<Rightarrow> (case spp_handler s of None \<Rightarrow> ST_ERR | Some h \<Rightarrow> spp_set_sclk h sclk)
            | _ \<Rightarrow> ST_ERR);
          Some (st, r\<lparr>ipkt := p\<rparr>) })"

text \<open>Address and force stop bit share a byte.\<close>

definition i2c_command_msg :: "asd_i2c_msg \<Rightarrow> bool \<Rightarrow> u8 \<Rightarrow> u8 \<Rightarrow> asd_i2c_msg" where
  "i2c_command_msg g rw cmd d =
     g\<lparr>i2c_read := rw, i2c_length := cmd AND 0xF, address := drop_bit 1 (d AND 0xFE)\<rparr>"

definition add_command ::
    "os \<Rightarrow> asd_i2c_msg \<Rightarrow> i2c_run \<Rightarrow> (STATUS \<times> i2c_run) option" where
  "add_command os msg r = do {
     (st, b, tr) \<leftarrow> i2c_msg_add os (ibld r) msg (itr r);
     Some (st, r\<lparr>ibld := b, itr := tr\<rparr>) }"

definition do_read_command ::
    "os \<Rightarrow> asd_i2c_msg \<Rightarrow> u8 list \<Rightarrow> u8 \<Rightarrow> i2c_run \<Rightarrow> (STATUS \<times> i2c_run) option" where
  "do_read_command os g pl cmd r0 =
     (let r = r0\<lparr>istop := False\<rparr>
      in case get_packet_data (ipkt r) 1 of None \<Rightarrow> Some (ST_ERR, r)
         | Some (i, p) \<Rightarrow> do {
             d \<leftarrow> rd pl i;
             add_command os ((i2c_command_msg g True cmd d)\<lparr>i2c_buffer := replicate ASD_I2C_BUFFER_LEN 0\<rparr>)
               (r\<lparr>ipkt := p, istop := (d AND 1 = 1)\<rparr>) })"

definition do_write_command ::
    "os \<Rightarrow> asd_i2c_msg \<Rightarrow> u8 list \<Rightarrow> u8 \<Rightarrow> i2c_run \<Rightarrow> (STATUS \<times> i2c_run) option" where
  "do_write_command os g pl cmd r0 =
     (let r = r0\<lparr>istop := False\<rparr>
      in case get_packet_data (ipkt r) 1 of None \<Rightarrow> Some (ST_ERR, r)
         | Some (i, p) \<Rightarrow> do {
             d \<leftarrow> rd pl i;
             let msg = i2c_command_msg g False cmd d;
             let r1 = r\<lparr>ipkt := p, istop := (d AND 1 = 1)\<rparr>;
             case get_packet_data p (unat (i2c_length msg)) of None \<Rightarrow> Some (ST_ERR, r1)
             | Some (j, q) \<Rightarrow> do {
                 bs \<leftarrow> rds pl j (unat (i2c_length msg));
                 b \<leftarrow> wrs (i2c_buffer msg) 0 bs;
                 add_command os (msg\<lparr>i2c_buffer := b\<rparr>) (r1\<lparr>ipkt := q\<rparr>) } })"

section \<open>Transfers and replies\<close>

text \<open>A transfer stores into the messages of the builder through the pointer \<open>msg_set\<close>.\<close>

definition do_read_write ::
    "os \<Rightarrow> ASD_MSG \<Rightarrow> i2c_rdwr_ioctl_data option \<Rightarrow> trace \<Rightarrow> STATUS \<times> i2c_rdwr_ioctl_data option \<times> trace" where
  "do_read_write os s ms_set tr =
     (if ms_set = None then (ST_ERR, ms_set, tr)
      else case bus_type (buses s) (default_bus (buses s)) of
        BUS_CONFIG_I2C \<Rightarrow>
          (case i2c_handler s of None \<Rightarrow> (ST_ERR, ms_set, tr) | Some h \<Rightarrow> i2c_read_write os (buses s) h ms_set tr)
      | BUS_CONFIG_I3C \<Rightarrow>
          (case i3c_handler s of None \<Rightarrow> (ST_ERR, ms_set, tr) | Some h \<Rightarrow> i3c_read_write os (buses s) h ms_set tr)
      | _ \<Rightarrow> (ST_ERR, ms_set, tr))"

text \<open>The size fields of an I2C response are stored without the clamp of \<open>msb_from_msg_size\<close>.\<close>

definition i2c_header :: "nat \<Rightarrow> u8 \<Rightarrow> message_header \<Rightarrow> message_header" where
  "i2c_header cnt stat h =
     h\<lparr>size_lsb := of_nat (cnt mod 256), size_msb := of_nat (cnt div 256 mod 32), cmd_stat := stat\<rparr>"

definition flush_response ::
    "os \<Rightarrow> Server \<Rightarrow> asd_message \<Rightarrow> nat \<Rightarrow> trace \<Rightarrow> (STATUS \<times> asd_message \<times> nat \<times> trace) option" where
  "flush_response os srv out cnt tr = do {
     let out1 = out\<lparr>header := i2c_header cnt (asd_error_code ASD_PACKET_CONTINUATION) (header out)\<rparr>;
     (st, tr1) \<leftarrow> send_response os srv out1 tr;
     Some (if st \<noteq> ST_OK then (st, out1, cnt, tr1) else (ST_OK, out1\<lparr>buffer := zero_buffer\<rparr>, 0, tr1)) }"

definition reply_bytes :: "bool \<Rightarrow> asd_i2c_msg \<Rightarrow> u8 list option" where
  "reply_bytes ack msg = do {
     data \<leftarrow> rds (i2c_buffer msg) 0 (unat (i2c_length msg));
     Some (((if i2c_read msg then I2C_READ_MIN else I2C_WRITE_MIN) + i2c_length msg)
           # (if ack then I2C_ADDRESS_ACK + i2c_length msg else i2c_length msg)
           # (if i2c_read msg then data else [])) }"

fun build_responses_from ::
    "os \<Rightarrow> Server \<Rightarrow> bool \<Rightarrow> I2C_Msg_Builder option \<Rightarrow> nat list \<Rightarrow> asd_i2c_msg \<Rightarrow> asd_message \<Rightarrow> nat \<Rightarrow> trace
       \<Rightarrow> (STATUS \<times> asd_message \<times> nat \<times> trace) option" where
  "build_responses_from os srv ack b [] msg out cnt tr = Some (ST_OK, out, cnt, tr)"
| "build_responses_from os srv ack b (i # is) msg out cnt tr = do {
     (st, msg1) \<leftarrow> i2c_msg_get_asd_i2c_msg b i msg;
     if st \<noteq> ST_OK then Some (st, out, cnt, tr)
     else do {
       (st1, out1, cnt1, tr1) \<leftarrow>
         (if unat (i2c_length msg1) + cnt + 2 > MAX_DATA_SIZE then flush_response os srv out cnt tr
          else Some (ST_OK, out, cnt, tr));
       if st1 \<noteq> ST_OK then Some (st1, out1, cnt1, tr1)
       else do {
         bs \<leftarrow> reply_bytes ack msg1;
         buf' \<leftarrow> wrs (buffer out1) cnt1 bs;
         build_responses_from os srv ack b is msg1 (out1\<lparr>buffer := buf'\<rparr>) (cnt1 + length bs) tr1 } } }"

definition build_responses ::
    "os \<Rightarrow> Server \<Rightarrow> asd_i2c_msg \<Rightarrow> bool \<Rightarrow> I2C_Msg_Builder option \<Rightarrow> asd_message \<Rightarrow> nat \<Rightarrow> trace
       \<Rightarrow> (STATUS \<times> asd_message \<times> nat \<times> trace) option" where
  "build_responses os srv g ack b out cnt tr =
     (case i2c_msg_get_count b of
        (st, Some n) \<Rightarrow> if st \<noteq> ST_OK then Some (st, out, cnt, tr)
                        else build_responses_from os srv ack b [0..<n] g out cnt tr
      | (st, None) \<Rightarrow> Some (ST_ERR, out, cnt, tr))"

section \<open>The loop\<close>

definition flush_commands :: "os \<Rightarrow> Server \<Rightarrow> asd_i2c_msg \<Rightarrow> i2c_run \<Rightarrow> (STATUS \<times> i2c_run) option" where
  "flush_commands os srv g r =
     (case ibld r of None \<Rightarrow> None
      | Some b \<Rightarrow> do {
          let (st, set', tr1) = do_read_write os (imsg r) (msg_set b) (itr r);
          let b1 = Some (b\<lparr>msg_set := set'\<rparr>);
          (st2, out, cnt, tr2) \<leftarrow> build_responses os srv g (st = ST_OK) b1 (out_msg (imsg r)) (icnt r) tr1;
          let r1 = r\<lparr>imsg := (imsg r)\<lparr>out_msg := out\<rparr>, icnt := cnt, ibld := b1, i2c_command_pending := False,
                     istop := False, itr := tr2\<rparr>;
          if st2 \<noteq> ST_OK then Some (st2, r1)
          else let (st3, b2) = i2c_msg_reset b1 in Some (st3, r1\<lparr>ibld := b2\<rparr>) })"

text \<open>
  A bus that cannot be selected is answered with an error response, after which the loop goes on with
  the status of that response.  The first component tells whether the loop goes on.
\<close>

definition refuse_bus :: "os \<Rightarrow> Server \<Rightarrow> i2c_run \<Rightarrow> (bool \<times> STATUS \<times> i2c_run) option" where
  "refuse_bus os srv r = do {
     let s = imsg r;
     let out = (out_msg s)\<lparr>header := i2c_header (icnt r) (asd_error_code ASD_FAILURE_PROCESS_I2C_MSG) (header (out_msg s))\<rparr>;
     (st, tr1) \<leftarrow> send_response os srv out (itr r);
     Some (True, st, r\<lparr>imsg := s\<lparr>out_msg := out\<rparr>, itr := tr1\<rparr>) }"

definition i2c_command ::
    "os \<Rightarrow> Server \<Rightarrow> asd_i2c_msg \<Rightarrow> asd_message \<Rightarrow> u8 \<Rightarrow> i2c_run \<Rightarrow> (STATUS \<times> i2c_run) option" where
  "i2c_command os srv g m cmd r =
     (if cmd = I2C_WRITE_CFG_BUS_SELECT then do_bus_select_command os srv m r
      else if cmd = I2C_WRITE_CFG_SCLK then do_set_sclk_command (buffer m) r
      else if is_i2c_read cmd then do_read_command os g (buffer m) cmd (r\<lparr>i2c_command_pending := True\<rparr>)
      else if is_i2c_write cmd then do_write_command os g (buffer m) cmd (r\<lparr>i2c_command_pending := True\<rparr>)
      else Some (ST_ERR, r))"

definition i2c_step ::
    "os \<Rightarrow> Server \<Rightarrow> asd_i2c_msg \<Rightarrow> asd_message \<Rightarrow> i2c_run \<Rightarrow> (bool \<times> STATUS \<times> i2c_run) option" where
  "i2c_step os srv g m r =
     (case get_packet_data (ipkt r) 1 of None \<Rightarrow> Some (False, ST_ERR, r)
      | Some (i, p) \<Rightarrow> do {
          cmd \<leftarrow> rd (buffer m) i;
          (st, r1) \<leftarrow> i2c_command os srv g m cmd (r\<lparr>ipkt := p\<rparr>);
          if st \<noteq> ST_OK then
            (if cmd = I2C_WRITE_CFG_BUS_SELECT then refuse_bus os srv r1 else Some (False, st, r1))
          else if i2c_command_pending r1 \<and> (used (ipkt r1) = total (ipkt r1) \<or> istop r1) then do {
            (st2, r2) \<leftarrow> flush_commands os srv g r1;
            Some (st2 = ST_OK, st2, r2) }
          else Some (True, st, r1) })"

fun i2c_loop ::
    "nat \<Rightarrow> os \<Rightarrow> Server \<Rightarrow> asd_i2c_msg \<Rightarrow> asd_message \<Rightarrow> STATUS \<Rightarrow> i2c_run \<Rightarrow> (STATUS \<times> i2c_run) option" where
  "i2c_loop 0 os srv g m st r = None"
| "i2c_loop (Suc fuel) os srv g m st r =
     (if \<not> used (ipkt r) < total (ipkt r) then Some (st, r)
      else do {
        (go_on, st1, r1) \<leftarrow> i2c_step os srv g m r;
        if go_on then i2c_loop fuel os srv g m st1 r1 else Some (st1, r1) })"

definition i2c_start :: "ASD_MSG \<Rightarrow> int \<Rightarrow> I2C_Msg_Builder option \<Rightarrow> trace \<Rightarrow> i2c_run" where
  "i2c_start s sz b tr =
     \<lparr>imsg = s, ipkt = \<lparr>next_data = 0, used = 0, total = of_int sz\<rparr>, ibld = b, icnt = 0,
      i2c_command_pending = False, istop = False, itr = tr\<rparr>"

definition finish_i2c :: "os \<Rightarrow> Server \<Rightarrow> STATUS \<Rightarrow> i2c_run \<Rightarrow> (STATUS \<times> ASD_MSG \<times> trace) option" where
  "finish_i2c os srv st r =
     (if st \<noteq> ST_OK then Some (st, imsg r, itr r)
      else do {
        let s = imsg r;
        let out = (out_msg s)\<lparr>header := i2c_header (icnt r) 0 (header (out_msg s))\<rparr>;
        (st2, tr2) \<leftarrow> send_response os srv out (itr r);
        Some (st2, s\<lparr>out_msg := out\<rparr>, tr2) })"

definition process_i2c_messages ::
    "os \<Rightarrow> Server \<Rightarrow> asd_i2c_msg \<Rightarrow> asd_message \<Rightarrow> ASD_MSG \<Rightarrow> trace \<Rightarrow> (STATUS \<times> ASD_MSG \<times> trace) option" where
  "process_i2c_messages os srv g in_message s tr =
     (let (b, tr1) = I2CMsgBuilder os tr; size = get_message_size in_message
      in if b = None \<or> size = - 1 then Some (ST_ERR, s, tr1)
         else let s1 = s\<lparr>out_msg := \<lparr>header = header in_message, buffer = zero_buffer\<rparr>\<rparr>;
                  (st, b1, tr2) = i2c_msg_initialize os b tr1
              in if st \<noteq> ST_OK then Some (st, s1, tr2)
                 else do {
                   (st1, r) \<leftarrow> i2c_loop (Suc (nat size)) os srv g in_message ST_OK (i2c_start s1 size b1 tr2);
                   finish_i2c os srv st1 r })"

section \<open>The invariant of the loop\<close>

text \<open>What an I2C message never changes.\<close>

definition i2c_frame :: "ASD_MSG \<Rightarrow> ASD_MSG" where
  "i2c_frame s = s\<lparr>out_msg := zero_message, asd_cfg := (asd_cfg s)\<lparr>buscfg := (buses s)\<lparr>default_bus := 0\<rparr>\<rparr>,
     i2c_handler := None, i3c_handler := None, spp_handler := None\<rparr>"

definition bus_next :: "ASD_MSG \<Rightarrow> trace \<Rightarrow> STATUS \<times> ASD_MSG \<times> trace \<Rightarrow> bool" where
  "bus_next s tr = (\<lambda>(st, s', tr').
     wf_msg s' \<and> sends_framed tr tr' \<and> i2c_frame s' = i2c_frame s \<and> out_msg s' = out_msg s)"

lemma bus_select_cfg:
  "fst (snd (i2c_bus_select os cfg h bus tr)) = cfg \<or> fst (snd (i2c_bus_select os cfg h bus tr)) = cfg\<lparr>default_bus := bus\<rparr>"
  "whenever (i3c_bus_select os cfg i bus tr) (\<lambda>(st, cfg', i', tr'). cfg' = cfg \<or> cfg' = cfg\<lparr>default_bus := bus\<rparr>)"
  "whenever (spp_bus_select os cfg p bus tr) (\<lambda>(st, cfg', p', tr'). cfg' = cfg \<or> cfg' = cfg\<lparr>default_bus := bus\<rparr>)"
  by (auto simp: i2c_bus_select_def i3c_bus_select_def spp_bus_select_def split_def Let_def intro!: whenever_any)

lemma i3c_bus_flock_cfg:
  "whenever (i3c_bus_flock os cfg i bus e tr) (\<lambda>(st, cfg', i', tr'). cfg' = cfg \<or> cfg' = cfg\<lparr>default_bus := bus\<rparr>)"
proof -
  have "whenever (i3c_bus_flock_dev_handlers os c i bus e tr) (\<lambda>(st, cfg', i', tr'). cfg' = c \<or> cfg' = c\<lparr>default_bus := bus\<rparr>)"
    for c i e tr
    by (auto simp: i3c_bus_flock_dev_handlers_def split_def intro!: whenever_conseq [OF bus_select_cfg(2)])
  note d = whenever_conseq [OF this]
  show ?thesis
    by (auto simp: i3c_bus_flock_def split_def intro!: whenever_any d)
qed

lemma i2c_frame_simps [simp]:
  "i2c_frame (set_buses (buses s) s) = i2c_frame s"
  "i2c_frame (set_buses ((buses s)\<lparr>default_bus := b\<rparr>) s) = i2c_frame s"
  "i2c_frame (set_buses c (s\<lparr>i2c_handler := x\<rparr>)) = i2c_frame (set_buses c s)"
  "i2c_frame (set_buses c (s\<lparr>i3c_handler := y\<rparr>)) = i2c_frame (set_buses c s)"
  "i2c_frame (set_buses c (s\<lparr>spp_handler := z\<rparr>)) = i2c_frame (set_buses c s)"
  "i2c_frame (s\<lparr>out_msg := m\<rparr>) = i2c_frame s"
  by (simp_all add: i2c_frame_def set_buses_def)

lemma out_msg_set_buses [simp]: "out_msg (set_buses c s) = out_msg s"
  by (simp add: set_buses_def)

lemma dev_flock_next:
  assumes "wf_msg s" "names_nonempty os"
  shows "ensures (dev_flock os bus e s tr) (bus_next s tr)"
proof -
  have i3: "ensures (i3c_bus_flock os (buses s) h bus e tr) (\<lambda>(st, cfg', h', tr').
      bus_next s tr (st, set_buses cfg' (s\<lparr>i3c_handler := Some h'\<rparr>), tr'))" if "i3c_handler s = Some h" for h
  proof -
    have w: "wf_i3c h" "wf_bus_config (buses s)" using wf_msgD(1,6) [OF assms(1)] that by auto
    show ?thesis
      by (rule ensures_conseq [OF ensures_whenever [OF ensures_whenever [OF i3c_bus_flock_wf [OF assms(2) w]
          i3c_bus_flock_quiet] i3c_bus_flock_cfg]])
        (use assms(1) in \<open>auto simp: bus_next_def sends_framed_quiet\<close>)
  qed
  have sp: "wf_spp (fst (snd (spp_bus_flock os h bus e tr)))" if "spp_handler s = Some h" for h
    using spp_bus_flock_wf wf_msgD(7) [OF assms(1)] that by simp
  show ?thesis
    using assms(1) i3 sp
    by (auto simp: dev_flock_def bus_next_def split_def Let_def quiet sends_framed_quiet i2c_frame_def
        elim!: ensures_conseq split: option.split bus_config_type.split)
qed

lemma select_bus_next:
  assumes "wf_msg s" "names_nonempty os"
  shows "ensures (select_bus os bus s tr) (bus_next s tr)"
proof -
  have cfg: "wf_bus_config (buses s)" by (rule wf_msgD [OF assms(1)])
  have i3: "ensures (i3c_bus_select os (buses s) h bus tr) (\<lambda>(st, cfg', h', tr').
      bus_next s tr (st, set_buses cfg' (s\<lparr>i3c_handler := Some h'\<rparr>), tr'))" if "i3c_handler s = Some h" for h
  proof -
    have w: "wf_i3c h" using wf_msgD(6) [OF assms(1)] that by auto
    show ?thesis
      by (rule ensures_conseq [OF ensures_whenever [OF ensures_whenever [OF i3c_bus_select_wf [OF assms(2) w cfg]
          i3c_bus_select_quiet] bus_select_cfg(2)]])
        (use assms(1) in \<open>auto simp: bus_next_def sends_framed_quiet\<close>)
  qed
  have sp: "ensures (spp_bus_select os (buses s) h bus tr) (\<lambda>(st, cfg', h', tr').
      bus_next s tr (st, set_buses cfg' (s\<lparr>spp_handler := Some h'\<rparr>), tr'))" if "spp_handler s = Some h" for h
  proof -
    have w: "wf_spp h" using wf_msgD(7) [OF assms(1)] that by auto
    show ?thesis
      by (rule ensures_conseq [OF ensures_whenever [OF ensures_whenever [OF spp_bus_select_wf [OF w cfg]
          spp_bus_select_quiet] bus_select_cfg(3)]])
        (use assms(1) in \<open>auto simp: bus_next_def sends_framed_quiet\<close>)
  qed
  have i2: "bus_next s tr (st, set_buses cfg' (s\<lparr>i2c_handler := Some h'\<rparr>), tr')"
    if "i2c_bus_select os (buses s) h bus tr = (st, cfg', h', tr')" for h st cfg' h' tr'
    using bus_select_cfg(1) [of os "buses s" h bus tr] i2c_bus_quiet(2) [of os "buses s" h bus tr] assms(1) cfg that
    by (auto simp: bus_next_def sends_framed_quiet wf_bus_config_def)
  have refl: "bus_next s tr (st, s, tr)" for st using assms(1) by (simp add: bus_next_def)
  show ?thesis
    using i2 i3 sp refl
    by (auto simp: select_bus_def split: option.split bus_config_type.split prod.split elim!: ensures_conseq)
qed

lemma bus_next_trans: "bus_next s tr (st, s1, tr1) \<Longrightarrow> bus_next s1 tr1 x \<Longrightarrow> bus_next s tr x"
  by (auto simp: bus_next_def intro: sends_framed_trans)

lemma switch_bus_next:
  assumes "wf_msg s" "names_nonempty os" "wf_server srv"
  shows "ensures (switch_bus os srv m bus s tr) (bus_next s tr)"
proof (cases "default_bus (buses s) = bus")
  case True
  then show ?thesis using assms(1) by (simp add: switch_bus_def bus_next_def)
next
  case False
  have err: "ensures (send_error_message os srv m e t) (\<lambda>t'. bus_next s tr (ST_ERR, s1, t'))"
    if "bus_next s tr (st, s1, t)" for st s1 t e
    using that send_error_message_framed [OF assms(3), of os m e t]
    by (auto elim!: ensures_conseq simp: bus_next_def intro: sends_framed_trans)
  have lock: "ensures (dev_flock os b e s1 t) (bus_next s tr)" if "bus_next s tr (st, s1, t)" for b e st s1 t
  proof -
    have "wf_msg s1" using that by (simp add: bus_next_def)
    from dev_flock_next [OF this assms(2)] show ?thesis
      by (rule ensures_conseq) (rule bus_next_trans [OF that])
  qed
  have second: "ensures (do {
        (st2, s2, tr3) \<leftarrow> dev_flock os bus True s1 t;
        if st2 \<noteq> ST_OK then do {
          tr4 \<leftarrow> send_error_message os srv m ASD_FAILURE_PROCESS_I2C_LOCK tr3;
          Some (ST_ERR, s2, tr4) }
        else Some (ST_OK, s2, tr3) }) (bus_next s tr)" if "bus_next s tr (st, s1, t)" for st s1 t
    using err by (auto intro!: ensures_conseq [OF lock [OF that]])
  have "ensures (dev_flock os (default_bus (buses s)) False s tr) (bus_next s tr)"
    by (rule dev_flock_next [OF assms(1,2)])
  then show ?thesis
    unfolding switch_bus_def using False
    by (auto elim!: ensures_conseq intro!: ensures_conseq [OF err] second [unfolded ensures_bind])
qed

definition iinv :: "i2c_run \<Rightarrow> bool" where
  "iinv r \<longleftrightarrow> wf_msg (imsg r) \<and> wf_packet (ipkt r) \<and> wf_builder (ibld r) \<and> icnt r \<le> MAX_DATA_SIZE"

definition inext :: "i2c_run \<Rightarrow> STATUS \<times> i2c_run \<Rightarrow> bool" where
  "inext r = (\<lambda>(st, r'). iinv r' \<and> remaining (ipkt r') \<le> remaining (ipkt r) \<and> total (ipkt r') = total (ipkt r) \<and>
     sends_framed (itr r) (itr r') \<and> i2c_frame (imsg r') = i2c_frame (imsg r) \<and>
     i2c_header 0 0 (header (out_msg (imsg r'))) = i2c_header 0 0 (header (out_msg (imsg r))))"

lemma inext_refl: "iinv r \<Longrightarrow> inext r (st, r)"
  by (simp add: inext_def)

lemma inext_trans: "inext r (st, r1) \<Longrightarrow> inext r1 x \<Longrightarrow> inext r x"
  by (auto simp: inext_def intro: sends_framed_trans)

lemma ipkt_step:
  assumes "iinv r" "n < 2 ^ 16" "get_packet_data (ipkt r) n = Some (i, p)"
  shows "iinv (r\<lparr>ipkt := p\<rparr>)" "inext r (st, r\<lparr>ipkt := p\<rparr>)" "i + n \<le> MAX_DATA_SIZE" "remaining p + n = remaining (ipkt r)"
  using get_packet_data_wf [OF _ assms(2,3)] assms(1) by (simp_all add: iinv_def inext_def)

lemma inext_flags [simp]:
  "inext (r\<lparr>istop := a\<rparr>) x = inext r x" "inext (r\<lparr>i2c_command_pending := a\<rparr>) x = inext r x"
  "iinv (r\<lparr>istop := a\<rparr>) = iinv r" "iinv (r\<lparr>i2c_command_pending := a\<rparr>) = iinv r"
  "inext r (st, q\<lparr>istop := a\<rparr>) = inext r (st, q)"
  by (simp_all add: inext_def iinv_def)

lemma do_bus_select_command_next:
  assumes "iinv r" "names_nonempty os" "wf_server srv" "wf_message m"
  shows "ensures (do_bus_select_command os srv m r) (inext r)"
proof (cases "get_packet_data (ipkt r) 1")
  case None
  then show ?thesis using assms(1) by (simp add: do_bus_select_command_def inext_refl)
next
  case (Some x)
  obtain i p where x: "x = (i, p)" by force
  note p = ipkt_step [OF assms(1) _ Some [unfolded x]]
  have wf: "wf_msg (imsg r)" using assms(1) by (simp add: iinv_def)
  have sel: "ensures (if st \<noteq> ST_OK then Some (st, s1, tr1) else select_bus os bus s1 tr1) (bus_next (imsg r) (itr r))"
    if "bus_next (imsg r) (itr r) (st, s1, tr1)" for st s1 tr1 bus
  proof -
    have "wf_msg s1" using that by (simp add: bus_next_def)
    then show ?thesis
      using that select_bus_next [OF _ assms(2)] by (auto intro!: ensures_conseq [OF select_bus_next] bus_next_trans [OF that] assms(2))
  qed
  have i: "i < length (buffer m)" using p(3) assms(4) by (simp add: wf_message_def)
  have nx: "inext r (st, r\<lparr>ipkt := p, imsg := s2, itr := tr2\<rparr>)" if "bus_next (imsg r) (itr r) (st, s2, tr2)" for st s2 tr2
    using that p(1) p(2) [of ST_OK] by (simp add: bus_next_def inext_def iinv_def)
  have fin: "ensures (do {
       (st2, s2, tr2) \<leftarrow> (if st \<noteq> ST_OK then Some (st, s1, tr1) else select_bus os bus s1 tr1);
       Some (st2, r\<lparr>ipkt := p, imsg := s2, itr := tr2\<rparr>) }) (inext r)"
    if "bus_next (imsg r) (itr r) (st, s1, tr1)" for st s1 tr1 bus
    unfolding ensures_bind by (rule ensures_conseq [OF sel [OF that]]) (use nx in auto)
  show ?thesis
    unfolding do_bus_select_command_def Some x option.case prod.case ensures_bind ensures_rd
  proof (intro conjI i, rule ensures_conseq [OF switch_bus_next [OF wf assms(2,3)]])
    fix y assume "bus_next (imsg r) (itr r) y"
    then show "ensures (case y of (st, s1, tr1) \<Rightarrow> do {
       (st2, s2, tr2) \<leftarrow> (if st \<noteq> ST_OK then Some (st, s1, tr1) else select_bus os (buffer m ! i) s1 tr1);
       Some (st2, r\<lparr>ipkt := p, imsg := s2, itr := tr2\<rparr>) }) (inext r)"
      using fin by (cases y) simp
  qed
qed

lemma do_set_sclk_command_next:
  assumes "iinv r" "length pl = MAX_DATA_SIZE"
  shows "ensures (do_set_sclk_command pl r) (inext r)"
proof (cases "get_packet_data (ipkt r) 2")
  case (Some x)
  obtain i p where x: "x = (i, p)" by force
  note p = ipkt_step [OF assms(1) _ Some [unfolded x]]
  show ?thesis using p assms(2) by (simp add: do_set_sclk_command_def Some x)
qed (use assms in \<open>simp add: do_set_sclk_command_def inext_refl\<close>)

lemma add_command_next:
  assumes "iinv r" "wf_asd_i2c msg"
  shows "ensures (add_command os msg r) (inext r)"
proof -
  have wf: "wf_builder (ibld r)" using assms(1) by (simp add: iinv_def)
  show ?thesis
    unfolding add_command_def ensures_bind
    by (rule ensures_conseq [OF ensures_whenever [OF i2c_msg_add_wf [OF wf assms(2)] i2c_msg_add_quiet]])
      (use assms(1) in \<open>auto simp: inext_def iinv_def sends_framed_quiet\<close>)
qed

lemma i2c_command_msg_wf:
  "length (i2c_buffer g) = ASD_I2C_BUFFER_LEN \<Longrightarrow> wf_asd_i2c (i2c_command_msg g rw cmd d)"
  "unat (i2c_length (i2c_command_msg g rw cmd d)) \<le> ASD_I2C_BUFFER_LEN"
proof -
  have "unat (cmd AND 0xF) \<le> 15" using word_and_le1 [of cmd "0xF"] by (simp add: word_le_nat_alt)
  then show "length (i2c_buffer g) = ASD_I2C_BUFFER_LEN \<Longrightarrow> wf_asd_i2c (i2c_command_msg g rw cmd d)"
    "unat (i2c_length (i2c_command_msg g rw cmd d)) \<le> ASD_I2C_BUFFER_LEN"
    by (simp_all add: wf_asd_i2c_def i2c_command_msg_def ASD_I2C_BUFFER_LEN_def)
qed

lemma do_read_command_next:
  assumes "iinv r" "length pl = MAX_DATA_SIZE"
  shows "ensures (do_read_command os g pl cmd r) (inext r)"
proof (cases "get_packet_data (ipkt r) 1")
  case (Some x)
  obtain i p where x: "x = (i, p)" by force
  note p = ipkt_step [OF assms(1) _ Some [unfolded x]]
  have wf: "wf_asd_i2c ((i2c_command_msg g True cmd d)\<lparr>i2c_buffer := replicate ASD_I2C_BUFFER_LEN 0\<rparr>)" for d
    using i2c_command_msg_wf(2) [of g True cmd d] by (simp add: wf_asd_i2c_def)
  have "inext r y" if "inext (r\<lparr>ipkt := p\<rparr>) y" for y
    using inext_trans [OF p(2) that] by simp
  then show ?thesis
    using p(1,3) assms(2) Some x
    by (auto simp: do_read_command_def intro!: ensures_conseq [OF add_command_next [OF _ wf]])
qed (use assms in \<open>simp add: do_read_command_def inext_refl\<close>)

lemma do_write_command_next:
  assumes "iinv r" "length pl = MAX_DATA_SIZE" "length (i2c_buffer g) = ASD_I2C_BUFFER_LEN"
  shows "ensures (do_write_command os g pl cmd r) (inext r)"
proof (cases "get_packet_data (ipkt r) 1")
  case (Some x)
  obtain i p where x: "x = (i, p)" by force
  note p = ipkt_step [OF assms(1) _ Some [unfolded x]]
  have wf: "wf_asd_i2c ((i2c_command_msg g False cmd d)\<lparr>i2c_buffer := b\<rparr>)" if "length b = ASD_I2C_BUFFER_LEN" for d b
    using i2c_command_msg_wf(2) [of g False cmd d] that by (simp add: wf_asd_i2c_def)
  note i2c_command_msg_wf(2) [of g False cmd]
  then have le: "unat (i2c_length (i2c_command_msg g False cmd d)) \<le> 15" for d
    by (simp add: ASD_I2C_BUFFER_LEN_def)
  have q: "iinv (r\<lparr>ipkt := q\<rparr>)" "inext r (st, r\<lparr>ipkt := q\<rparr>)" "j + unat (i2c_length (i2c_command_msg g False cmd d)) \<le> MAX_DATA_SIZE"
    if "get_packet_data p (unat (i2c_length (i2c_command_msg g False cmd d))) = Some (j, q)" for d j q st
  proof -
    have lt: "unat (i2c_length (i2c_command_msg g False cmd d)) < 2 ^ 16" using le [of d] by simp
    note a = ipkt_step [where r = "r\<lparr>ipkt := p\<rparr>" and i = j and p = q, OF p(1) lt]
    show "iinv (r\<lparr>ipkt := q\<rparr>)" "j + unat (i2c_length (i2c_command_msg g False cmd d)) \<le> MAX_DATA_SIZE"
      using a that by simp_all
    have "inext (r\<lparr>ipkt := p\<rparr>) (st, r\<lparr>ipkt := q\<rparr>)" using a(2) that by simp
    then show "inext r (st, r\<lparr>ipkt := q\<rparr>)" using inext_trans p(2) [of ST_OK] by simp
  qed
  have len: "length (i2c_buffer (i2c_command_msg g False cmd d)) = ASD_I2C_BUFFER_LEN" for d
    using assms(3) by (simp add: i2c_command_msg_def)
  have fin: "ensures (add_command os ((i2c_command_msg g False cmd d)\<lparr>i2c_buffer := b\<rparr>) (r\<lparr>istop := a, ipkt := q\<rparr>)) (inext r)"
    if "iinv (r\<lparr>ipkt := q\<rparr>)" "inext r (ST_OK, r\<lparr>ipkt := q\<rparr>)" "length b = ASD_I2C_BUFFER_LEN" for d b a q
  proof -
    have "iinv (r\<lparr>istop := a, ipkt := q\<rparr>)" "inext r (ST_OK, r\<lparr>istop := a, ipkt := q\<rparr>)"
      using that(1,2) by (simp_all add: iinv_def inext_def)
    then show ?thesis
      using add_command_next [OF _ wf [OF that(3)], of "r\<lparr>istop := a, ipkt := q\<rparr>" os d]
      by (auto elim!: ensures_conseq intro: inext_trans)
  qed
  show ?thesis
    using p(2,3) assms(2) len le i2c_command_msg_wf(2) [of g False cmd "pl ! i"] q(3) [of "pl ! i"] q(1,2) [of "pl ! i"]
      Some x
    by (auto simp: do_write_command_def split: option.split intro!: fin)
qed (use assms in \<open>simp add: do_write_command_def inext_refl\<close>)

section \<open>Replies\<close>

text \<open>
  The reply to one message of a bundle, from what the message means, and what a bundle owes the
  client: the continuation packets sent meanwhile and the bytes still in the buffer are together the
  old bytes of the buffer followed by the replies, in order.
\<close>

fun reply_entry :: "bool \<Rightarrow> bool \<times> u8 \<times> u8 list \<Rightarrow> u8 list" where
  "reply_entry ack (rw, a, ds) =
     ((if rw then I2C_READ_MIN else I2C_WRITE_MIN) + of_nat (length ds))
     # (if ack then I2C_ADDRESS_ACK + of_nat (length ds) else of_nat (length ds)) # (if rw then ds else [])"

definition continuation :: "u8 list \<Rightarrow> bool" where
  "continuation p \<longleftrightarrow> framed p \<and> p ! 3 = asd_error_code ASD_PACKET_CONTINUATION"

definition built ::
    "trace \<Rightarrow> asd_message \<Rightarrow> nat \<Rightarrow> u8 list \<Rightarrow> STATUS \<times> asd_message \<times> nat \<times> trace \<Rightarrow> bool" where
  "built tr out cnt es = (\<lambda>(st, out', cnt', tr'). wf_message out' \<and> cnt' \<le> MAX_DATA_SIZE \<and> sends_framed tr tr' \<and>
     i2c_header 0 0 (header out') = i2c_header 0 0 (header out) \<and>
     (st = ST_OK \<longrightarrow> (\<exists>ps. sent_on tr' = sent_on tr @ ps \<and> list_all continuation ps \<and>
        concat (map (drop HEADER_SIZE) ps) @ take cnt' (buffer out') = take cnt (buffer out) @ es)))"

lemma built_refl: "wf_message out \<Longrightarrow> cnt \<le> MAX_DATA_SIZE \<Longrightarrow> built tr out cnt [] (st, out, cnt, tr)"
  by (simp add: built_def)

lemma built_trans:
  assumes "built tr out cnt es (ST_OK, out1, cnt1, tr1)" "built tr1 out1 cnt1 es' x"
  shows "built tr out cnt (es @ es') x"
proof -
  obtain st out' cnt' tr' where x: "x = (st, out', cnt', tr')" by (metis prod_cases4)
  from assms(1) obtain ps where ps: "sent_on tr1 = sent_on tr @ ps" "list_all continuation ps"
    "concat (map (drop HEADER_SIZE) ps) @ take cnt1 (buffer out1) = take cnt (buffer out) @ es"
    by (auto simp: built_def)
  have "\<exists>qs. sent_on tr' = sent_on tr @ qs \<and> list_all continuation qs \<and>
      concat (map (drop HEADER_SIZE) qs) @ take cnt' (buffer out') = take cnt (buffer out) @ es @ es'" if "st = ST_OK"
  proof -
    from that assms(2) obtain qs where "sent_on tr' = sent_on tr1 @ qs" "list_all continuation qs"
      "concat (map (drop HEADER_SIZE) qs) @ take cnt' (buffer out') = take cnt1 (buffer out1) @ es'"
      by (auto simp: built_def x)
    then have "sent_on tr' = sent_on tr @ ps @ qs \<and> list_all continuation (ps @ qs) \<and>
      concat (map (drop HEADER_SIZE) (ps @ qs)) @ take cnt' (buffer out') = take cnt (buffer out) @ es @ es'"
      using ps by simp
    then show ?thesis by blast
  qed
  then show ?thesis
    using assms by (auto simp: built_def x intro: sends_framed_trans)
qed

lemma i2c_header_simps [simp]:
  "i2c_header a b (i2c_header c d h) = i2c_header a b h" "cmd_stat (i2c_header a b h) = b"
  by (simp_all add: i2c_header_def)

lemma i2c_header_size:
  assumes "cnt \<le> MAX_DATA_SIZE"
  shows "get_message_size (m\<lparr>header := i2c_header cnt st h\<rparr>) = int cnt"
proof -
  have "cnt div 256 mod 32 = cnt div 256" using assms by (simp add: MAX_DATA_SIZE_def)
  moreover have "int (cnt mod 256) + 256 * int (cnt div 256) = int cnt"
    by (metis add.commute mult_div_mod_eq of_nat_add of_nat_mult of_nat_numeral)
  moreover have "uint (of_nat (cnt mod 256) :: u8) = int (cnt mod 256)"
    by (simp add: unsigned_of_nat take_bit_eq_mod)
  moreover have "uint (of_nat (cnt div 256 mod 32) :: 5 word) = int (cnt div 256 mod 32)"
    by (simp add: unsigned_of_nat take_bit_eq_mod)
  ultimately show ?thesis
    using assms by (simp add: get_message_size_eq i2c_header_def MAX_DATA_SIZE_def)
qed

lemma header_bytes_stat: "header_bytes h ! 3 = cmd_stat h"
  by (simp add: header_bytes_def)

lemma flush_response_ok:
  assumes "wf_server srv" "wf_message out" "cnt \<le> MAX_DATA_SIZE"
  shows "ensures (flush_response os srv out cnt tr) (\<lambda>(st, out', cnt', tr').
    built tr out cnt [] (st, out', cnt', tr') \<and> (st = ST_OK \<longrightarrow> cnt' = 0))"
proof -
  define out1 where "out1 = out\<lparr>header := i2c_header cnt (asd_error_code ASD_PACKET_CONTINUATION) (header out)\<rparr>"
  have o1: "wf_message out1" "get_message_size out1 = int cnt" "buffer out1 = buffer out"
    "i2c_header 0 0 (header out1) = i2c_header 0 0 (header out)"
    using assms(2) i2c_header_size [OF assms(3), where m = out] by (simp_all add: out1_def)
  have c: "continuation (packet_bytes out1 cnt)"
    using framed_packet [OF o1(1)] o1(2)
    by (simp add: continuation_def) (simp add: packet_bytes_def nth_append HEADER_SIZE_def header_bytes_stat out1_def)
  have d: "drop HEADER_SIZE (packet_bytes out1 cnt) = take cnt (buffer out)"
    by (simp add: packet_bytes_def o1(3))
  show ?thesis
    unfolding flush_response_def out1_def [symmetric] ensures_Let ensures_bind
    by (rule ensures_conseq [OF ensures_conj [OF send_response_ok [OF assms(1) o1(1)] send_response_framed [OF assms(1) o1(1)]]])
      (use o1 assms c d in \<open>auto simp: built_def wf_message_def\<close>)
qed

lemma reply_bytes_ok:
  assumes "wf_asd_i2c m"
  shows "reply_bytes ack m = Some (reply_entry ack (asd_view m))"
    "length (reply_entry ack (asd_view m)) \<le> unat (i2c_length m) + 2"
    "length (reply_entry ack (asd_view m)) \<le> ASD_I2C_BUFFER_LEN + 2"
  using assms by (simp_all add: reply_bytes_def wf_asd_i2c_def asd_view_def rds_def min_absorb2)

lemma built_append:
  assumes "wf_message out" "cnt + length bs \<le> MAX_DATA_SIZE"
  shows "built tr out cnt bs (st, out\<lparr>buffer := take cnt (buffer out) @ bs @ drop (cnt + length bs) (buffer out)\<rparr>, cnt + length bs, tr)"
  using assms by (simp add: built_def wf_message_def)

lemma build_responses_from_ok:
  assumes "wf_server srv" "wf_builder b"
    and "\<forall>i \<in> set is. i < length (builder_msgs b)" "length (i2c_buffer msg) = ASD_I2C_BUFFER_LEN"
    and "wf_message out" "cnt \<le> MAX_DATA_SIZE"
  shows "ensures (build_responses_from os srv ack b is msg out cnt tr)
    (built tr out cnt (concat (map (\<lambda>i. reply_entry ack (i2c_view (builder_msgs b ! i))) is)))"
  using assms(3-6)
proof (induction "is" arbitrary: msg out cnt tr)
  case Nil
  then show ?case by (simp add: built_refl)
next
  case (Cons i "is")
  define e where "e = reply_entry ack (i2c_view (builder_msgs b ! i))"
  have i: "i < length (builder_msgs b)" using Cons.prems(1) by simp
  have rest: "ensures (do {
      bs \<leftarrow> reply_bytes ack msg1;
      buf' \<leftarrow> wrs (buffer out1) cnt1 bs;
      build_responses_from os srv ack b is msg1 (out1\<lparr>buffer := buf'\<rparr>) (cnt1 + length bs) tr1 })
     (built tr1 out1 cnt1 (e @ concat (map (\<lambda>i. reply_entry ack (i2c_view (builder_msgs b ! i))) is)))"
    if m: "wf_asd_i2c msg1" "asd_view msg1 = i2c_view (builder_msgs b ! i)" and o: "wf_message out1"
      "unat (i2c_length msg1) + cnt1 + 2 \<le> MAX_DATA_SIZE" for msg1 out1 cnt1 tr1
  proof -
    have bs: "reply_bytes ack msg1 = Some e" "cnt1 + length e \<le> MAX_DATA_SIZE" "length (buffer out1) = MAX_DATA_SIZE"
      using reply_bytes_ok(1,2) [OF m(1), of ack] o m(2) by (simp_all add: e_def wf_message_def)
    define out2 where "out2 = out1\<lparr>buffer := take cnt1 (buffer out1) @ e @ drop (cnt1 + length e) (buffer out1)\<rparr>"
    have st: "built tr1 out1 cnt1 e (ST_OK, out2, cnt1 + length e, tr1)"
      unfolding out2_def by (rule built_append [OF o(1) bs(2)])
    have "ensures (build_responses_from os srv ack b is msg1 out2 (cnt1 + length e) tr1)
      (built tr1 out2 (cnt1 + length e) (concat (map (\<lambda>i. reply_entry ack (i2c_view (builder_msgs b ! i))) is)))"
      using Cons.prems(1) m(1) st bs(2) by (intro Cons.IH) (auto simp: wf_asd_i2c_def built_def)
    then show ?thesis
      using bs by (auto simp: out2_def elim!: ensures_conseq intro: built_trans [OF st [unfolded out2_def]])
  qed
  have step: "ensures (do {
       (st1, out1, cnt1, tr1) \<leftarrow>
         (if unat (i2c_length msg1) + cnt + 2 > MAX_DATA_SIZE then flush_response os srv out cnt tr
          else Some (ST_OK, out, cnt, tr));
       if st1 \<noteq> ST_OK then Some (st1, out1, cnt1, tr1)
       else do {
         bs \<leftarrow> reply_bytes ack msg1;
         buf' \<leftarrow> wrs (buffer out1) cnt1 bs;
         build_responses_from os srv ack b is msg1 (out1\<lparr>buffer := buf'\<rparr>) (cnt1 + length bs) tr1 } })
     (built tr out cnt (e @ concat (map (\<lambda>i. reply_entry ack (i2c_view (builder_msgs b ! i))) is)))"
    if m: "wf_asd_i2c msg1" "asd_view msg1 = i2c_view (builder_msgs b ! i)" for msg1
  proof (cases "unat (i2c_length msg1) + cnt + 2 > MAX_DATA_SIZE")
    case False
    then show ?thesis using rest [OF m Cons.prems(3)] by simp
  next
    case True
    have ln: "unat (i2c_length msg1) + 0 + 2 \<le> MAX_DATA_SIZE"
      using m(1) by (simp add: wf_asd_i2c_def MAX_DATA_SIZE_def ASD_I2C_BUFFER_LEN_def)
    have "ensures (if st1 \<noteq> ST_OK then Some (st1, out1, cnt1, tr1)
       else do {
         bs \<leftarrow> reply_bytes ack msg1;
         buf' \<leftarrow> wrs (buffer out1) cnt1 bs;
         build_responses_from os srv ack b is msg1 (out1\<lparr>buffer := buf'\<rparr>) (cnt1 + length bs) tr1 })
     (built tr out cnt (e @ concat (map (\<lambda>i. reply_entry ack (i2c_view (builder_msgs b ! i))) is)))"
      if fl: "built tr out cnt [] (st1, out1, cnt1, tr1)" "st1 = ST_OK \<longrightarrow> cnt1 = 0" for st1 out1 cnt1 tr1
    proof (cases "st1 = ST_OK")
      case True
      have "wf_message out1" using fl(1) by (simp add: built_def)
      from rest [OF m this, of 0 tr1] ln True fl show ?thesis
        by (auto elim!: ensures_conseq dest: built_trans [of tr out cnt "[]"] simp del: ensures_bind)
    qed (use fl in \<open>simp add: built_def\<close>)
    then show ?thesis
      using True flush_response_ok [OF assms(1) Cons.prems(3,4), of os tr]
      by (auto elim!: ensures_conseq simp del: ensures_bind simp: ensures_bind [of "flush_response os srv out cnt tr"])
  qed
  show ?case
    unfolding build_responses_from.simps ensures_bind [of "i2c_msg_get_asd_i2c_msg b i msg"]
    by (rule ensures_conseq [OF i2c_msg_get_wf [OF assms(2) Cons.prems(2), of i]])
      (use i step in \<open>auto simp: e_def simp del: ensures_bind\<close>)
qed

lemma build_responses_ok:
  assumes "wf_server srv" "wf_builder b" "length (i2c_buffer g) = ASD_I2C_BUFFER_LEN" "wf_message out" "cnt \<le> MAX_DATA_SIZE"
  shows "ensures (build_responses os srv g ack b out cnt tr)
    (built tr out cnt (concat (map (reply_entry ack \<circ> i2c_view) (builder_msgs b))))"
proof -
  obtain c d where b: "b = Some c" "msg_set c = Some d" "nmsgs d = length (builder_msgs b)"
    using assms(2) by (auto simp: wf_builder_def)
  have "map (\<lambda>i. reply_entry ack (i2c_view (builder_msgs b ! i))) [0..<length (builder_msgs b)] =
      map (reply_entry ack \<circ> i2c_view) (builder_msgs b)"
    by (rule nth_equalityI) simp_all
  then show ?thesis
    using build_responses_from_ok [OF assms(1,2) _ assms(3-5), of "[0..<length (builder_msgs b)]" os ack tr] b
    by (simp add: build_responses_def i2c_msg_get_count_def)
qed

lemma do_read_write_quiet [quiet]: "sent_on (snd (snd (do_read_write os s d tr))) = sent_on tr"
  by (auto simp: do_read_write_def quiet split: bus_config_type.split option.split)

lemma do_read_write_wf:
  assumes "wf_builder (Some b)" "do_read_write os s (msg_set b) tr = (st, set', tr')"
  shows "wf_builder (Some (b\<lparr>msg_set := set'\<rparr>))"
proof -
  obtain d where "msg_set b = Some d" using assms(1) by (auto simp: wf_builder_def)
  then show ?thesis
    using assms i2c_read_write_msgs [OF assms(1)] i3c_read_write_msgs [OF assms(1)]
    by (auto simp: do_read_write_def split: bus_config_type.splits option.splits)
qed

lemma flush_commands_next:
  assumes "iinv r" "wf_server srv" "length (i2c_buffer g) = ASD_I2C_BUFFER_LEN"
  shows "ensures (flush_commands os srv g r) (inext r)"
proof -
  obtain b where b: "ibld r = Some b" using assms(1) by (auto simp: iinv_def wf_builder_def)
  obtain st set' tr1 where rw: "do_read_write os (imsg r) (msg_set b) (itr r) = (st, set', tr1)" by (metis prod_cases3)
  have wf: "wf_builder (Some (b\<lparr>msg_set := set'\<rparr>))" "sends_framed (itr r) tr1" "wf_message (out_msg (imsg r))" "icnt r \<le> MAX_DATA_SIZE"
    using do_read_write_wf [OF _ rw] do_read_write_quiet [of os "imsg r" "msg_set b" "itr r"] assms(1) b
    by (simp_all add: iinv_def rw sends_framed_quiet wf_msg_def)
  show ?thesis
    unfolding flush_commands_def b option.case rw Let_def prod.case ensures_bind
    by (rule ensures_conseq [OF build_responses_ok [OF assms(2) wf(1) assms(3) wf(3,4)]])
      (use assms(1) wf(1,2) i2c_msg_reset_wf [OF wf(1)] in
        \<open>auto simp: built_def inext_def iinv_def intro: sends_framed_trans split: prod.split\<close>)
qed

lemma refuse_bus_next:
  assumes "iinv r" "wf_server srv"
  shows "ensures (refuse_bus os srv r) (\<lambda>(go_on, x). go_on \<and> inext r x)"
proof -
  define out where "out = (out_msg (imsg r))\<lparr>header := i2c_header (icnt r) (asd_error_code ASD_FAILURE_PROCESS_I2C_MSG) (header (out_msg (imsg r)))\<rparr>"
  have wf: "wf_message out" using assms(1) by (simp add: out_def iinv_def wf_msg_def)
  have "i2c_header 0 0 (header out) = i2c_header 0 0 (header (out_msg (imsg r)))" by (simp add: out_def)
  then show ?thesis
    unfolding refuse_bus_def Let_def out_def [symmetric] ensures_bind
    by (intro ensures_conseq [OF send_response_framed [OF assms(2) wf]])
      (use assms(1) wf in \<open>auto simp: inext_def iinv_def\<close>)
qed

lemma i2c_command_next:
  assumes "iinv r" "wf_server srv" "names_nonempty os" "wf_message m" "length (i2c_buffer g) = ASD_I2C_BUFFER_LEN"
  shows "ensures (i2c_command os srv g m cmd r) (inext r)"
proof -
  have len: "length (buffer m) = MAX_DATA_SIZE" using assms(4) by (simp add: wf_message_def)
  have p: "iinv (r\<lparr>i2c_command_pending := True\<rparr>)" using assms(1) by simp
  note rw = do_read_command_next [OF p len, of os g cmd] do_write_command_next [OF p len assms(5), of os cmd]
  show ?thesis
    unfolding i2c_command_def
    using do_bus_select_command_next [OF assms(1,3,2,4)] do_set_sclk_command_next [OF assms(1) len] rw inext_refl [OF assms(1)]
    by (auto elim!: ensures_conseq)
qed

lemma i2c_step_next:
  assumes "iinv r" "wf_server srv" "names_nonempty os" "wf_message m" "length (i2c_buffer g) = ASD_I2C_BUFFER_LEN"
    "0 < remaining (ipkt r)"
  shows "ensures (i2c_step os srv g m r) (\<lambda>(go_on, st, r'). inext r (st, r') \<and>
    remaining (ipkt r') < remaining (ipkt r) \<and> (\<not> go_on \<longrightarrow> st \<noteq> ST_OK))"
proof -
  have wfp: "wf_packet (ipkt r)" using assms(1) by (simp add: iinv_def)
  obtain i p where g: "get_packet_data (ipkt r) 1 = Some (i, p)"
    using get_packet_data_eq [OF wfp, of 1] assms(6) by simp
  have pk: "iinv (r\<lparr>ipkt := p\<rparr>)" "inext r (st, r\<lparr>ipkt := p\<rparr>)" "i < length (buffer m)" "remaining p < remaining (ipkt r)" for st
    using ipkt_step [OF assms(1) _ g] assms(4) by (simp_all add: wf_message_def)
  have step: "inext r (st, r2) \<and> remaining (ipkt r2) < remaining (ipkt r)"
    if "inext (r\<lparr>ipkt := p\<rparr>) (st1, r1)" "inext r1 (st, r2)" for st1 r1 st r2
    using inext_trans [OF pk(2) inext_trans [OF that]] that pk(4) by (auto simp: inext_def)
  have fl: "ensures (flush_commands os srv g r1) (\<lambda>(st2, r2). inext r (st2, r2) \<and> remaining (ipkt r2) < remaining (ipkt r))"
    and rf: "ensures (refuse_bus os srv r1) (\<lambda>(go_on, st2, r2). inext r (st2, r2) \<and> remaining (ipkt r2) < remaining (ipkt r) \<and> go_on)"
    if n: "inext (r\<lparr>ipkt := p\<rparr>) (st1, r1)" for st1 r1
  proof -
    have i1: "iinv r1" using n by (simp add: inext_def)
    show "ensures (flush_commands os srv g r1) (\<lambda>(st2, r2). inext r (st2, r2) \<and> remaining (ipkt r2) < remaining (ipkt r))"
      by (rule ensures_conseq [OF flush_commands_next [OF i1 assms(2,5)]]) (use step [OF n] in auto)
    from refuse_bus_next [OF i1 assms(2)]
    show "ensures (refuse_bus os srv r1) (\<lambda>(go_on, st2, r2). inext r (st2, r2) \<and> remaining (ipkt r2) < remaining (ipkt r) \<and> go_on)"
      by (rule ensures_conseq) (use step [OF n] in auto)
  qed
  have fin: "inext r (st1, r1) \<and> remaining (ipkt r1) < remaining (ipkt r)" if "inext (r\<lparr>ipkt := p\<rparr>) (st1, r1)" for st1 r1
    using inext_trans [OF pk(2) that] that pk(4) by (auto simp: inext_def)
  show ?thesis
    unfolding i2c_step_def g option.case prod.case ensures_bind ensures_rd
    by (intro conjI pk(3), rule ensures_conseq [OF i2c_command_next [OF pk(1) assms(2-5)]])
      (auto intro!: ensures_conseq [OF fl] ensures_conseq [OF rf] simp: fin)
qed

lemma i2c_loop_next:
  assumes "iinv r" "wf_server srv" "names_nonempty os" "wf_message m" "length (i2c_buffer g) = ASD_I2C_BUFFER_LEN"
    "remaining (ipkt r) < fuel"
  shows "ensures (i2c_loop fuel os srv g m st r) (inext r)"
  using assms(1,6)
proof (induction fuel arbitrary: st r)
  case (Suc fuel)
  show ?case
  proof (cases "used (ipkt r) < total (ipkt r)")
    case False
    then show ?thesis using Suc.prems by (simp add: inext_refl)
  next
    case True
    then have pos: "0 < remaining (ipkt r)" by (simp add: remaining_def word_less_nat_alt)
    have "ensures (if go_on then i2c_loop fuel os srv g m st1 r1 else Some (st1, r1)) (inext r)"
      if q: "inext r (st1, r1)" "remaining (ipkt r1) < remaining (ipkt r)" for go_on st1 r1
    proof (cases go_on)
      case True
      have "ensures (i2c_loop fuel os srv g m st1 r1) (inext r1)"
        using q Suc.prems by (intro Suc.IH) (auto simp: inext_def)
      then show ?thesis using True by (auto elim!: ensures_conseq intro: inext_trans [OF q(1)])
    qed (use q in simp)
    then show ?thesis
      using True i2c_step_next [OF Suc.prems(1) assms(2-5) pos] by (auto elim!: ensures_conseq)
  qed
qed simp

declare i2c_loop.simps [simp del]

text \<open>
  What is left after an I2C message: a well-formed state in which only the buses, the selected bus and
  the outgoing message changed, and only framed packets on the connection; success means that the
  last of them is the response, with the request's header, its own size and status 0.
\<close>

definition i2c_reply :: "asd_message \<Rightarrow> ASD_MSG \<Rightarrow> trace \<Rightarrow> STATUS \<times> ASD_MSG \<times> trace \<Rightarrow> bool" where
  "i2c_reply m s tr = (\<lambda>(st, s', tr'). wf_msg s' \<and> i2c_frame s' = i2c_frame s \<and> sends_framed tr tr' \<and>
     (st = ST_OK \<longrightarrow> (\<exists>n \<le> MAX_DATA_SIZE. header (out_msg s') = i2c_header n 0 (header m) \<and>
        sent_on tr' \<noteq> [] \<and> last (sent_on tr') = packet_bytes (out_msg s') n)))"

lemma finish_i2c_ok:
  assumes "wf_server srv" "iinv r" "sends_framed tr (itr r)" "i2c_frame (imsg r) = i2c_frame s"
    "i2c_header 0 0 (header (out_msg (imsg r))) = i2c_header 0 0 (header m)"
  shows "ensures (finish_i2c os srv st r) (i2c_reply m s tr)"
proof (cases "st = ST_OK")
  case False
  then show ?thesis using assms by (simp add: finish_i2c_def i2c_reply_def iinv_def)
next
  case True
  define out where "out = (out_msg (imsg r))\<lparr>header := i2c_header (icnt r) 0 (header (out_msg (imsg r)))\<rparr>"
  have c: "icnt r \<le> MAX_DATA_SIZE" using assms(2) by (simp add: iinv_def)
  have "header out = i2c_header (icnt r) 0 (i2c_header 0 0 (header (out_msg (imsg r))))" by (simp add: out_def)
  then have out: "wf_message out" "get_message_size out = int (icnt r)" "header out = i2c_header (icnt r) 0 (header m)"
    using assms(2) i2c_header_size [OF c, where m = "out_msg (imsg r)"]
    by (simp_all add: out_def iinv_def wf_msg_def assms(5))
  have wf: "wf_msg ((imsg r)\<lparr>out_msg := out\<rparr>)" using assms(2) out(1) by (simp add: iinv_def)
  have post: "i2c_reply m s tr (st2, (imsg r)\<lparr>out_msg := out\<rparr>, tr2)"
    if "sends_framed (itr r) tr2" "st2 = ST_OK \<longrightarrow> sent_on tr2 = sent_on (itr r) @ [packet_bytes out (icnt r)]" for st2 tr2
    using wf assms(4) out(3) c that sends_framed_trans [OF assms(3) that(1)] by (auto simp: i2c_reply_def)
  have "ensures (send_response os srv out (itr r)) (\<lambda>(st2, tr2). i2c_reply m s tr (st2, (imsg r)\<lparr>out_msg := out\<rparr>, tr2))"
    by (rule ensures_conseq [OF ensures_conj [OF send_response_ok [OF assms(1) out(1)] send_response_framed [OF assms(1) out(1)]]])
      (use out(2) in \<open>auto intro!: post\<close>)
  then show ?thesis
    unfolding finish_i2c_def Let_def out_def [symmetric] using True by (simp add: split_def)
qed

lemma process_i2c_messages_safe:
  assumes "wf_msg s" "wf_server srv" "names_nonempty os" "wf_message m" "length (i2c_buffer g) = ASD_I2C_BUFFER_LEN"
  shows "ensures (process_i2c_messages os srv g m s tr) (i2c_reply m s tr)"
proof -
  obtain b tr1 where b: "I2CMsgBuilder os tr = (b, tr1)" by force
  have q1: "sent_on tr1 = sent_on tr" using malloc_quiet [of os "''I2C_Msg_Builder''" 1 tr] b
    by (auto simp: I2CMsgBuilder_def split_def Let_def)
  define sz where "sz = get_message_size m"
  define s1 where "s1 = s\<lparr>out_msg := \<lparr>header = header m, buffer = zero_buffer\<rparr>\<rparr>"
  have s1: "wf_msg s1" "i2c_frame s1 = i2c_frame s" using assms(1) by (simp_all add: s1_def wf_message_def)
  obtain st b1 tr2 where ini: "i2c_msg_initialize os b tr1 = (st, b1, tr2)" by (metis prod_cases3)
  have q2: "sent_on tr2 = sent_on tr1" using malloc_quiet [of os "''struct i2c_rdwr_ioctl_data''" 1 tr1] ini
    by (auto simp: i2c_msg_initialize_def split_def Let_def split: option.splits if_splits)
  have loop: "ensures (i2c_loop (Suc (nat sz)) os srv g m ST_OK (i2c_start s1 sz b1 tr2)) (\<lambda>(st1, r).
      ensures (finish_i2c os srv st1 r) (i2c_reply m s tr))" if "b \<noteq> None" "sz \<noteq> - 1" "st = ST_OK"
  proof -
    have r: "0 \<le> sz" "sz \<le> int MAX_DATA_SIZE" using get_message_size_range [of m] that(2) by (auto simp: sz_def)
    then have "uint (of_int sz :: u32) = sz"
      by (simp add: unsigned_of_int MAX_DATA_SIZE_def take_bit_int_eq_self)
    then have t: "unat (of_int sz :: u32) = nat sz" by (simp add: unat_eq_nat_uint)
    have "wf_builder b1" using i2c_msg_initialize_wf that ini by blast
    then have i: "iinv (i2c_start s1 sz b1 tr2)" "remaining (ipkt (i2c_start s1 sz b1 tr2)) < Suc (nat sz)"
      using s1(1) r t by (simp_all add: iinv_def i2c_start_def wf_packet_def remaining_def)
    have "sends_framed tr t" if "sends_framed tr2 t" for t
      using that q1 q2 by (simp add: sends_framed_def)
    then show ?thesis
      by (intro ensures_conseq [OF i2c_loop_next [OF i(1) assms(2-5) i(2)]])
        (use s1(2) in \<open>auto simp: inext_def i2c_start_def s1_def intro!: finish_i2c_ok [OF assms(2)]\<close>)
  qed
  have "i2c_reply m s tr (ST_ERR, s, tr1)" "st \<noteq> ST_OK \<Longrightarrow> i2c_reply m s tr (st, s1, tr2)"
    using assms(1) s1 q1 q2 by (simp_all add: i2c_reply_def sends_framed_quiet)
  then show ?thesis
    using loop unfolding process_i2c_messages_def b Let_def prod.case sz_def [symmetric] s1_def [symmetric] ini
    by (simp add: split_def)
qed

end
