(* ===== verification/Event_Msg.thy ===== *)
theory Event_Msg
  imports Asd_Msg_State Bus_Quiet
begin

text \<open>
  Events of the target on their way to the client (\<open>target/asd_msg.c\<close>): pin events, in-band interrupts
  of the SPP devices, the bulk response that collects them, and the loops that wait for the handshake
  of a device.
\<close>

section \<open>Sending events\<close>

fun asd_event_code :: "ASD_EVENT \<Rightarrow> u8" where
  "asd_event_code ASD_EVENT_PLRSTASSERT = 1"
| "asd_event_code ASD_EVENT_PLRSTDEASSRT = 2"
| "asd_event_code ASD_EVENT_PRDY_EVENT = 3"
| "asd_event_code ASD_EVENT_PWRRESTORE = 4"
| "asd_event_code ASD_EVENT_PWRFAIL = 5"
| "asd_event_code ASD_EVENT_XDP_PRESENT = 6"
| "asd_event_code ASD_EVENT_MBP = 7"
| "asd_event_code ASD_EVENT_PWRRESTORE2 = 8"
| "asd_event_code ASD_EVENT_PWRFAIL2 = 9"
| "asd_event_code ASD_EVENT_PWRRESTORE3 = 10"
| "asd_event_code ASD_EVENT_PWRFAIL3 = 11"
| "asd_event_code ASD_EVENT_RSV1 = 12"
| "asd_event_code ASD_EVENT_RSV2 = 13"
| "asd_event_code ASD_EVENT_BPK = 14"
| "asd_event_code ASD_EVENT_BULK_BPK = 15"
| "asd_event_code ASD_EVENT_NONE = 16"

definition broadcast_header :: "message_header \<Rightarrow> message_header" where
  "broadcast_header h = h\<lparr>mtype := JTAG_TYPE, tag := BROADCAST_MESSAGE_ORIGIN_ID, origin_id := BROADCAST_MESSAGE_ORIGIN_ID\<rparr>"

definition send_pin_event :: "os \<Rightarrow> Server \<Rightarrow> ASD_EVENT \<Rightarrow> trace \<Rightarrow> (STATUS \<times> trace) option" where
  "send_pin_event os srv v tr =
     send_response os srv
       \<lparr>header = broadcast_header (zero_header\<lparr>size_lsb := 1, size_msb := 0\<rparr>),
        buffer = zero_buffer[0 := asd_event_code v]\<rparr> tr"

text \<open>The message is always \<open>spp_bulk_out_msg\<close>.\<close>

definition send_bulk_bpk_event :: "os \<Rightarrow> Server \<Rightarrow> u16 \<Rightarrow> ASD_MSG \<Rightarrow> trace \<Rightarrow> (STATUS \<times> ASD_MSG \<times> trace) option" where
  "send_bulk_bpk_event os srv response_cnt s tr = do {
     let m = spp_bulk_out_msg s;
     b \<leftarrow> wrs (buffer m) 0 [asd_event_code ASD_EVENT_BULK_BPK, spp_bulk_response_ibi_count s];
     let m1 = \<lparr>header = broadcast_header (set_msg_size (ucast response_cnt) (header m)), buffer = b\<rparr>;
     (st, tr1) \<leftarrow> send_response os srv m1 tr;
     Some (st, s\<lparr>spp_bulk_out_msg := m1\<rparr>, tr1) }"

abbreviation SPP_BULK_RESPONSE_IBI_MAX_COUNT :: u8 where "SPP_BULK_RESPONSE_IBI_MAX_COUNT \<equiv> 255"

text \<open>An interrupt is kept for the bulk response when one is being collected.\<close>

definition bulk_collects :: "ASD_EVENT \<Rightarrow> ASD_EVENT_DATA \<Rightarrow> ASD_MSG \<Rightarrow> bool" where
  "bulk_collects event data s \<longleftrightarrow>
     bulk_response_enable (spp_cfg (asd_cfg s)) \<and>
     check_spp_auto_cmd_event (event = ASD_EVENT_BPK) (take (ev_size data) (ev_buffer data)) \<and>
     spp_bulk_response_buffer_count s > 0"

definition collect_bpk_event ::
    "os \<Rightarrow> Server \<Rightarrow> ASD_EVENT_DATA \<Rightarrow> ASD_MSG \<Rightarrow> trace \<Rightarrow> (STATUS \<times> ASD_MSG \<times> trace) option" where
  "collect_bpk_event os srv data s tr = do {
     (st, s1, tr1) \<leftarrow>
       (if unat (spp_bulk_response_buffer_count s) + ev_size data \<ge> MAX_DATA_SIZE
           \<or> spp_bulk_response_ibi_count s = SPP_BULK_RESPONSE_IBI_MAX_COUNT then do {
          (st, s1, tr1) \<leftarrow> send_bulk_bpk_event os srv (spp_bulk_response_buffer_count s) s tr;
          Some (st, s1\<lparr>spp_bulk_response_buffer_count := 2, spp_bulk_response_ibi_count := 0\<rparr>, tr1) }
        else Some (ST_OK, s, tr));
     ds \<leftarrow> rds (ev_buffer data) 0 (ev_size data);
     let rec = of_nat (ev_size data) # ucast (ev_addr data) # ds;
     b \<leftarrow> wrs (buffer (spp_bulk_out_msg s1)) (unat (spp_bulk_response_buffer_count s1)) rec;
     Some (st, s1\<lparr>spp_bulk_out_msg := (spp_bulk_out_msg s1)\<lparr>buffer := b\<rparr>,
                   spp_bulk_response_buffer_count := spp_bulk_response_buffer_count s1 + of_nat (length rec),
                   spp_bulk_response_ibi_count := spp_bulk_response_ibi_count s1 + 1\<rparr>, tr1) }"

definition send_bpk_event ::
    "os \<Rightarrow> Server \<Rightarrow> ASD_EVENT \<Rightarrow> ASD_EVENT_DATA \<Rightarrow> ASD_MSG \<Rightarrow> trace \<Rightarrow> (STATUS \<times> ASD_MSG \<times> trace) option" where
  "send_bpk_event os srv event data s tr =
     (if bulk_collects event data s then collect_bpk_event os srv data s tr
      else if ev_size data > MAX_DATA_SIZE - 2 then Some (ST_ERR, s, tr)
      else do {
        ds \<leftarrow> rds (ev_buffer data) 0 (ev_size data);
        b \<leftarrow> wrs zero_buffer 0 (asd_event_code event # ucast (ev_addr data) # ds);
        let total_size = (of_nat (ev_size data + 2) :: u16);
        (st, tr1) \<leftarrow> send_response os srv
          \<lparr>header = broadcast_header (set_msg_size (ucast total_size) zero_header), buffer = b\<rparr> tr;
        Some (st, s, tr1) })"

section \<open>Waiting for a device\<close>

abbreviation SPP_IBI_PRDY_WAIT_TIMEOUT_MS :: int where "SPP_IBI_PRDY_WAIT_TIMEOUT_MS \<equiv> 10"
abbreviation SPP_IBI_BUFFER_HANDSHAKE_TIMEOUT_MS :: int where "SPP_IBI_BUFFER_HANDSHAKE_TIMEOUT_MS \<equiv> 10"
abbreviation event_buffer_size :: nat where "event_buffer_size \<equiv> 512"

text \<open>The locals of the two loops; \<open>bdata\<close> holds \<open>event_data\<close> and the buffer it points to.\<close>

record ibi_run =
  bmsg :: ASD_MSG
  bdata :: ASD_EVENT_DATA
  exit_on_handshake :: bool
  btr :: trace

definition revents_of :: "u8 list list \<Rightarrow> nat \<Rightarrow> u16 list" where
  "revents_of rs n = map (\<lambda>i. if i < length rs then of_int (horner_sum uint 256 (rs ! i)) else 0) [0..<n]"

text \<open>
  An interrupt inside the loops.  \<open>ready\<close> is the flag of the device the caller waits for; the flag
  answered tells whether the handshake ends the wait.
\<close>

definition handle_bpk ::
    "os \<Rightarrow> Server \<Rightarrow> (SPP_Handler \<Rightarrow> bool option) \<Rightarrow> ASD_EVENT \<Rightarrow> ibi_run \<Rightarrow> (STATUS \<times> bool \<times> ibi_run) option" where
  "handle_bpk os srv ready event r = do {
     let prdy = check_spp_prdy_event (event = ASD_EVENT_BPK) (take (ev_size (bdata r)) (ev_buffer (bdata r)));
     let stop = (exit_on_handshake r \<and> \<not> prdy);
     sp \<leftarrow> spp_handler (bmsg r);
     handshake \<leftarrow> ready sp;
     (st, s1, tr1) \<leftarrow> send_bpk_event os srv event (bdata r) (bmsg r) (btr r);
     Some (st, handshake \<and> stop, r\<lparr>bmsg := s1, exit_on_handshake := stop, btr := tr1\<rparr>) }"

text \<open>
  One round over the polled descriptors.  The answer is \<open>Some st\<close> where the function returns from
  inside the \<open>for\<close> loop.
\<close>

fun ibi_events ::
    "os \<Rightarrow> Server \<Rightarrow> (SPP_Handler \<Rightarrow> bool option) \<Rightarrow> (int \<times> u16) list \<Rightarrow> ibi_run \<Rightarrow> (STATUS option \<times> ibi_run) option" where
  "ibi_events os srv ready [] r = Some (None, r)"
| "ibi_events os srv ready ((fd, revents) # fds) r =
     (case target_handler (bmsg r) of None \<Rightarrow> None
      | Some t \<Rightarrow> do {
          (st, event, t1, spp1, data1, tr1) \<leftarrow>
            target_event os t (spp_handler (bmsg r)) fd revents ((bdata r)\<lparr>ev_size := event_buffer_size\<rparr>) (btr r);
          let r1 = r\<lparr>bmsg := (bmsg r)\<lparr>target_handler := Some t1, spp_handler := spp1\<rparr>, bdata := data1, btr := tr1\<rparr>;
          if st = ST_OK \<and> event = ASD_EVENT_BPK then do {
            (st2, handshake, r2) \<leftarrow> handle_bpk os srv ready event r1;
            if handshake \<or> st2 \<noteq> ST_OK then Some (Some st2, r2) else ibi_events os srv ready fds r2 }
          else if st \<noteq> ST_OK then Some (Some st, r1)
          else ibi_events os srv ready fds r1 })"

text \<open>The outer loop ends when \<open>poll\<close> times out or fails, or when a round returned.\<close>

partial_function (option) ibi_loop ::
    "os \<Rightarrow> Server \<Rightarrow> (SPP_Handler \<Rightarrow> bool option) \<Rightarrow> (int \<times> nat) list \<Rightarrow> ibi_run \<Rightarrow> (STATUS \<times> ibi_run) option" where
  "ibi_loop os srv ready fds r =
     (let call = Sys_pollfds fds SPP_IBI_BUFFER_HANDSHAKE_TIMEOUT_MS;
          a = os (btr r) call;
          r0 = r\<lparr>btr := btr r @ [call]\<rparr>
      in if fst a \<le> 0 then Some (ST_OK, r0)
         else Option.bind (ibi_events os srv ready (zip (map fst fds) (revents_of (snd a) (length fds))) r0)
           (\<lambda>x. case fst x of Some st \<Rightarrow> Some (st, snd x) | None \<Rightarrow> ibi_loop os srv ready fds (snd x)))"

text \<open>
  What the two waiting functions share: they are the same text up to the flag they wait for.  \<open>g\<close> is
  the uninitialised \<open>event_data.addr\<close>.
\<close>

definition check_spp_ibi_until ::
    "os \<Rightarrow> Server \<Rightarrow> u32 \<Rightarrow> (SPP_Handler \<Rightarrow> bool option) \<Rightarrow> ASD_MSG \<Rightarrow> trace \<Rightarrow> (STATUS \<times> ASD_MSG \<times> trace) option" where
  "check_spp_ibi_until os srv g ready s tr =
     (case target_handler s of None \<Rightarrow> Some (ST_ERR, s, tr)
      | Some t \<Rightarrow>
          (if \<not> tgt_initialized t then Some (ST_ERR, s, tr)
           else do {
             (st, fds) \<leftarrow> target_get_spp_fds t (spp_handler s);
             if st \<noteq> ST_OK then Some (st, s, tr)
             else do {
               (st2, r) \<leftarrow> ibi_loop os srv ready fds
                 \<lparr>bmsg = s, bdata = \<lparr>ev_addr = g, ev_size = event_buffer_size, ev_buffer = replicate event_buffer_size 0\<rparr>,
                  exit_on_handshake = True, btr = tr\<rparr>;
               Some (st2, bmsg r, btr r) } }))"

definition asd_msg_check_spp_ibi ::
    "os \<Rightarrow> Server \<Rightarrow> u32 \<Rightarrow> u8 \<Rightarrow> ASD_MSG \<Rightarrow> trace \<Rightarrow> (STATUS \<times> ASD_MSG \<times> trace) option" where
  "asd_msg_check_spp_ibi os srv g adr =
     check_spp_ibi_until os srv g (\<lambda>sp. map_option Not (rd (threshold_status sp) (unat adr)))"

definition asd_msg_check_spp_ibi_data ::
    "os \<Rightarrow> Server \<Rightarrow> u32 \<Rightarrow> u8 \<Rightarrow> ASD_MSG \<Rightarrow> trace \<Rightarrow> (STATUS \<times> ASD_MSG \<times> trace) option" where
  "asd_msg_check_spp_ibi_data os srv g adr =
     check_spp_ibi_until os srv g (\<lambda>sp. map_option (\<lambda>c. c = 0) (rd (bulk_autocmd_count sp) (unat adr)))"

section \<open>One event\<close>

definition asd_msg_event ::
    "os \<Rightarrow> Server \<Rightarrow> u32 \<Rightarrow> int \<Rightarrow> u16 \<Rightarrow> ASD_MSG \<Rightarrow> trace \<Rightarrow> (STATUS \<times> ASD_MSG \<times> trace) option" where
  "asd_msg_event os srv g fd revents s tr =
     (case target_handler s of None \<Rightarrow> Some (ST_ERR, s, tr)
      | Some t \<Rightarrow>
          (if \<not> tgt_initialized t then Some (ST_ERR, s, tr)
           else do {
             (st, event, t1, spp1, data, tr1) \<leftarrow> target_event os t (spp_handler s) fd revents
               \<lparr>ev_addr = g, ev_size = event_buffer_size, ev_buffer = replicate event_buffer_size 0\<rparr> tr;
             let s1 = s\<lparr>target_handler := Some t1, spp_handler := spp1\<rparr>;
             if st \<noteq> ST_OK then Some (st, s1, tr1)
             else do {
               (st2, tr2) \<leftarrow> (if event = ASD_EVENT_XDP_PRESENT then do {
                    tr2 \<leftarrow> send_error_message os srv (in_msg s1) ASD_FAILURE_XDP_PRESENT tr1;
                    Some (if xdp_fail_enable (jtag_cfg (asd_cfg s1)) then ST_ERR else st, tr2) }
                  else Some (st, tr1));
               if event = ASD_EVENT_BPK then
                 send_bpk_event os srv event data
                   (s1\<lparr>asd_poll_timeout_ms :=
                        if check_spp_prdy_event True (take (ev_size data) (ev_buffer data))
                        then SPP_IBI_PRDY_WAIT_TIMEOUT_MS else 0\<rparr>) tr2
               else if event \<noteq> ASD_EVENT_NONE then do {
                 (st3, tr3) \<leftarrow> send_pin_event os srv event tr2;
                 Some (st3, s1, tr3) }
               else Some (st2, s1, tr2) } }))"

definition asd_msg_get_fds :: "ASD_MSG \<Rightarrow> (STATUS \<times> (int \<times> nat) list) option" where
  "asd_msg_get_fds s =
     (if mtype (header (in_msg s)) = AGENT_CONTROL_TYPE then Some (ST_ERR, [])
      else case target_handler s of None \<Rightarrow> Some (ST_ERR, []) | Some t \<Rightarrow> target_get_fds t (spp_handler s))"

section \<open>What an event may change\<close>

definition event_frame :: "ASD_MSG \<Rightarrow> ASD_MSG" where
  "event_frame s = s\<lparr>target_handler := None, spp_handler := None, spp_bulk_out_msg := zero_message,
     spp_bulk_response_buffer_count := 0, spp_bulk_response_ibi_count := 0, asd_poll_timeout_ms := 0\<rparr>"

lemma event_frame_simps [simp]:
  "event_frame (s\<lparr>target_handler := t\<rparr>) = event_frame s" "event_frame (s\<lparr>spp_handler := p\<rparr>) = event_frame s"
  "event_frame (s\<lparr>spp_bulk_out_msg := m\<rparr>) = event_frame s" "event_frame (s\<lparr>spp_bulk_response_buffer_count := c\<rparr>) = event_frame s"
  "event_frame (s\<lparr>spp_bulk_response_ibi_count := i\<rparr>) = event_frame s" "event_frame (s\<lparr>asd_poll_timeout_ms := k\<rparr>) = event_frame s"
  by (simp_all add: event_frame_def)

definition event_next :: "ASD_MSG \<Rightarrow> trace \<Rightarrow> STATUS \<times> ASD_MSG \<times> trace \<Rightarrow> bool" where
  "event_next s tr = (\<lambda>(st, s', tr'). wf_msg s' \<and> sends_framed tr tr' \<and> event_frame s' = event_frame s \<and>
     map_option tgt_initialized (target_handler s') = map_option tgt_initialized (target_handler s) \<and>
     (spp_handler s' = None \<longleftrightarrow> spp_handler s = None))"

lemma event_next_refl: "wf_msg s \<Longrightarrow> event_next s tr (st, s, tr)"
  by (simp add: event_next_def)

lemma event_next_trans: "event_next s tr (st, s1, tr1) \<Longrightarrow> event_next s1 tr1 x \<Longrightarrow> event_next s tr x"
  by (auto simp: event_next_def intro: sends_framed_trans)

lemma wf_message_zero_update: "length b = MAX_DATA_SIZE \<Longrightarrow> wf_message \<lparr>header = h, buffer = b\<rparr>"
  by (simp add: wf_message_def)

lemma send_pin_event_framed:
  "wf_server srv \<Longrightarrow> ensures (send_pin_event os srv v tr) (\<lambda>(st, tr'). sends_framed tr tr')"
  unfolding send_pin_event_def by (rule send_response_framed) (simp_all add: wf_message_zero_update)

lemma send_bulk_bpk_event_next:
  assumes "wf_msg s" "wf_server srv"
  shows "ensures (send_bulk_bpk_event os srv n s tr) (\<lambda>(st, s', tr'). event_next s tr (st, s', tr') \<and>
    target_handler s' = target_handler s \<and> spp_handler s' = spp_handler s)"
proof -
  have len: "length (buffer (spp_bulk_out_msg s)) = MAX_DATA_SIZE"
    using assms(1) by (simp add: wf_msg_def wf_message_def)
  have wf: "wf_message \<lparr>header = h, buffer = take 0 (buffer (spp_bulk_out_msg s)) @ [a, b] @ drop 2 (buffer (spp_bulk_out_msg s))\<rparr>" for h a b
    using len by (simp add: wf_message_def MAX_DATA_SIZE_def)
  show ?thesis
    using assms(1) len wf
    by (auto simp: send_bulk_bpk_event_def event_next_def MAX_DATA_SIZE_def numeral_2_eq_2
        intro!: ensures_conseq [OF send_response_framed [OF assms(2)]])
qed

lemma target_event_msg:
  assumes "wf_msg s" "target_handler s = Some t" "ev_size d \<le> length (ev_buffer d)" "2 \<le> length (ev_buffer d)"
  shows "ensures (target_event os t (spp_handler s) fd rv d tr) (\<lambda>(st, e, t1, spp1, d1, tr1).
    event_next s tr (st, s\<lparr>target_handler := Some t1, spp_handler := spp1\<rparr>, tr1) \<and>
    ev_size d1 \<le> ev_size d \<and> length (ev_buffer d1) = length (ev_buffer d) \<and> (st = ST_OK \<and> e = ASD_EVENT_BPK \<longrightarrow> spp1 \<noteq> None))"
proof -
  have t: "wf_target t" "spp_attached t \<longrightarrow> (\<exists>sp. spp_handler s = Some sp \<and> wf_spp sp)"
    using wf_msgD [OF assms(1)] assms(2) by auto
  have sp: "spp_handler s = Some sp \<Longrightarrow> wf_spp sp" for sp using wf_msgD(7) [OF assms(1)] by auto
  have bpk: "whenever (target_event os t (spp_handler s) fd rv d tr) (\<lambda>(st, e, t1, spp1, d1, tr1).
      st = ST_OK \<and> e = ASD_EVENT_BPK \<longrightarrow> spp1 \<noteq> None)"
  proof -
    have h: "whenever (run_handler os h t ASD_EVENT_NONE u) (\<lambda>(st, e, tr'). e \<noteq> ASD_EVENT_BPK)" for h u
      by (cases h) (auto simp: on_prdy_event_def on_platform_reset_event_def on_powergood_event_def split_def Let_def intro!: whenever_any)
    have g: "whenever (target_gpio_event os t fd rv res tr) (\<lambda>(st, e, t', tr'). e \<noteq> ASD_EVENT_BPK)" for res
      by (auto simp: target_gpio_event_def split_def Let_def split: option.split intro!: whenever_conseq [OF h])
    have "whenever (target_pin_event os t fd rv res tr) (\<lambda>(st, e, t', tr'). e \<noteq> ASD_EVENT_BPK)" for res
      using g by (auto simp: target_pin_event_def split_def Let_def split: option.split bool.split)
    from whenever_conseq [OF this] show ?thesis
      by (auto simp: target_event_def split_def Let_def intro!: whenever_any split: option.split)
  qed
  note w = ensures_whenever [OF ensures_whenever [OF target_event_wf [OF t assms(3,4)] target_event_quiet] bpk]
  show ?thesis
  proof (rule ensures_conseq [OF w], clarsimp)
    fix st e t1 spp1 d1 tr1
    assume *: "wf_target t1" "sent_on tr1 = sent_on tr" "event_keeps t t1" "spp_handler s = None \<longrightarrow> spp1 = None"
      "\<forall>sp. spp_handler s = Some sp \<longrightarrow> wf_spp sp \<longrightarrow> (\<exists>sp'. spp1 = Some sp' \<and> wf_spp sp')"
    have "spp1 = None \<longleftrightarrow> spp_handler s = None" "opt_ok wf_spp spp1"
      using * sp by (cases "spp_handler s"; force)+
    then show "event_next s tr (st, s\<lparr>target_handler := Some t1, spp_handler := spp1\<rparr>, tr1)"
      using * assms(1,2) by (auto simp: event_next_def sends_framed_quiet event_keeps_def wf_msg_def)
  qed
qed

section \<open>Interrupts\<close>

text \<open>
  The test that flushes the bulk response counts the data of the interrupt but not the two bytes in
  front of it, so there is one fill level at which they do not fit.
\<close>

definition bulk_gap :: "ASD_EVENT_DATA \<Rightarrow> ASD_MSG \<Rightarrow> bool" where
  "bulk_gap d s \<longleftrightarrow> unat (spp_bulk_response_buffer_count s) + ev_size d = MAX_DATA_SIZE - 1 \<and>
     spp_bulk_response_ibi_count s \<noteq> SPP_BULK_RESPONSE_IBI_MAX_COUNT"

lemma collect_bpk_event_next:
  assumes "wf_msg s" "wf_server srv" "ev_size d \<le> length (ev_buffer d)" "ev_size d \<le> event_buffer_size" "\<not> bulk_gap d s"
  shows "ensures (collect_bpk_event os srv d s tr) (event_next s tr)"
proof -
  define rec where "rec = of_nat (ev_size d) # ucast (ev_addr d) # take (ev_size d) (ev_buffer d)"
  have lrec: "length rec = ev_size d + 2" using assms(3) by (simp add: rec_def)
  have fin: "ensures (do {
       b \<leftarrow> wrs (buffer (spp_bulk_out_msg s1)) (unat (spp_bulk_response_buffer_count s1)) rec;
       Some (st, s1\<lparr>spp_bulk_out_msg := (spp_bulk_out_msg s1)\<lparr>buffer := b\<rparr>,
                   spp_bulk_response_buffer_count := spp_bulk_response_buffer_count s1 + of_nat (length rec),
                   spp_bulk_response_ibi_count := spp_bulk_response_ibi_count s1 + 1\<rparr>, tr1) }) (event_next s tr)"
    if "event_next s tr (st, s1, tr1)" "unat (spp_bulk_response_buffer_count s1) + (ev_size d + 2) \<le> MAX_DATA_SIZE" for st s1 tr1
  proof -
    have len: "length (buffer (spp_bulk_out_msg s1)) = MAX_DATA_SIZE"
      using that(1) by (simp add: event_next_def wf_msg_def wf_message_def)
    then have "wf_message ((spp_bulk_out_msg s1)\<lparr>buffer := take n (buffer (spp_bulk_out_msg s1)) @ rec @ drop (n + length rec) (buffer (spp_bulk_out_msg s1))\<rparr>)"
      if "n + length rec \<le> MAX_DATA_SIZE" for n using that by (simp add: wf_message_def)
    then show ?thesis
      using that len lrec by (simp add: event_next_def)
  qed
  have flush: "ensures (do {
          (st, s1, tr1) \<leftarrow> send_bulk_bpk_event os srv (spp_bulk_response_buffer_count s) s tr;
          Some (st, s1\<lparr>spp_bulk_response_buffer_count := 2, spp_bulk_response_ibi_count := 0\<rparr>, tr1) })
     (\<lambda>(st, s1, tr1). event_next s tr (st, s1, tr1) \<and> unat (spp_bulk_response_buffer_count s1) + (ev_size d + 2) \<le> MAX_DATA_SIZE)"
    using assms(4) by (auto simp: event_next_def MAX_DATA_SIZE_def intro!: ensures_conseq [OF send_bulk_bpk_event_next [OF assms(1,2)]])
  have "ensures (if unat (spp_bulk_response_buffer_count s) + ev_size d \<ge> MAX_DATA_SIZE
           \<or> spp_bulk_response_ibi_count s = SPP_BULK_RESPONSE_IBI_MAX_COUNT then do {
          (st, s1, tr1) \<leftarrow> send_bulk_bpk_event os srv (spp_bulk_response_buffer_count s) s tr;
          Some (st, s1\<lparr>spp_bulk_response_buffer_count := 2, spp_bulk_response_ibi_count := 0\<rparr>, tr1) }
        else Some (ST_OK, s, tr))
     (\<lambda>(st, s1, tr1). event_next s tr (st, s1, tr1) \<and> unat (spp_bulk_response_buffer_count s1) + (ev_size d + 2) \<le> MAX_DATA_SIZE)"
    using flush assms(1,5) by (auto simp: event_next_refl bulk_gap_def simp del: ensures_bind)
  then show ?thesis
    unfolding collect_bpk_event_def ensures_bind
    by (rule ensures_conseq) (use assms(3) fin in \<open>auto simp: rec_def\<close>)
qed

lemma collect_bpk_event_gap:
  assumes "wf_msg s" "bulk_gap d s" "ev_size d \<le> length (ev_buffer d)"
  shows "collect_bpk_event os srv d s tr = None"
proof -
  have "length (buffer (spp_bulk_out_msg s)) = MAX_DATA_SIZE" using assms(1) by (simp add: wf_msg_def wf_message_def)
  then show ?thesis
    using assms(2,3) by (simp add: collect_bpk_event_def bulk_gap_def wrs_def rds_def MAX_DATA_SIZE_def Let_def)
qed

lemma send_bpk_event_safe:
  assumes "wf_msg s" "wf_server srv" "ev_size d \<le> length (ev_buffer d)" "ev_size d \<le> event_buffer_size"
    "bulk_collects e d s \<Longrightarrow> \<not> bulk_gap d s"
  shows "ensures (send_bpk_event os srv e d s tr) (event_next s tr)"
proof (cases "bulk_collects e d s")
  case True
  then show ?thesis using collect_bpk_event_next [OF assms(1-4)] assms(5) by (simp add: send_bpk_event_def)
next
  case False
  have "wf_message \<lparr>header = h, buffer = take 0 zero_buffer @ (a # b # take (ev_size d) (ev_buffer d)) @ drop (0 + (2 + ev_size d)) zero_buffer\<rparr>" for h a b
    using assms(3,4) by (simp add: wf_message_def MAX_DATA_SIZE_def)
  then show ?thesis
    using False assms(1,3,4)
    by (auto simp: send_bpk_event_def event_next_def MAX_DATA_SIZE_def
        intro!: ensures_conseq [OF send_response_framed [OF assms(2)]])
qed

lemma send_bpk_event_next:
  assumes "wf_msg s" "wf_server srv" "ev_size d \<le> length (ev_buffer d)" "ev_size d \<le> event_buffer_size"
  shows "whenever (send_bpk_event os srv e d s tr) (event_next s tr)"
proof (cases "bulk_collects e d s \<and> bulk_gap d s")
  case True
  then show ?thesis
    using collect_bpk_event_gap [OF assms(1) _ assms(3)] by (simp add: send_bpk_event_def)
next
  case False
  then show ?thesis using send_bpk_event_safe [OF assms] by (auto intro: whenever_ensures)
qed

section \<open>Single events\<close>

text \<open>Outside a bulk transfer every event is handled without a fault.\<close>

lemma asd_msg_event_safe:
  assumes "wf_msg s" "wf_server srv" "spp_bulk_response_buffer_count s = 0"
  shows "ensures (asd_msg_event os srv g fd rv s tr) (event_next s tr)"
proof (cases "target_handler s")
  case None
  then show ?thesis using assms(1) by (simp add: asd_msg_event_def event_next_refl)
next
  case (Some t)
  define d where "d = \<lparr>ev_addr = g, ev_size = event_buffer_size, ev_buffer = replicate event_buffer_size (0::u8)\<rparr>"
  have ev: "ensures (target_event os t (spp_handler s) fd rv d tr) (\<lambda>(st, e, t1, spp1, d1, tr1).
    event_next s tr (st, s\<lparr>target_handler := Some t1, spp_handler := spp1\<rparr>, tr1) \<and>
    ev_size d1 \<le> event_buffer_size \<and> length (ev_buffer d1) = event_buffer_size)"
    by (rule ensures_conseq [OF target_event_msg [OF assms(1) Some]]) (auto simp: d_def)
  have bpk: "ensures (send_bpk_event os srv ASD_EVENT_BPK d1 (s\<lparr>target_handler := Some t1, spp_handler := spp1, asd_poll_timeout_ms := k\<rparr>) tr1) (event_next s tr)"
    if "event_next s tr (st, s\<lparr>target_handler := Some t1, spp_handler := spp1\<rparr>, tr1)" "ev_size d1 \<le> event_buffer_size"
      "length (ev_buffer d1) = event_buffer_size" for st t1 spp1 d1 tr1 k
  proof -
    have n: "event_next s tr (st, s\<lparr>target_handler := Some t1, spp_handler := spp1, asd_poll_timeout_ms := k\<rparr>, tr1)"
      using that(1) by (simp add: event_next_def)
    then have wf: "wf_msg (s\<lparr>target_handler := Some t1, spp_handler := spp1, asd_poll_timeout_ms := k\<rparr>)" by (simp add: event_next_def)
    show ?thesis
      by (rule ensures_conseq [OF send_bpk_event_safe [OF wf assms(2)]])
        (use that(2,3) assms(3) in \<open>auto simp: bulk_collects_def intro: event_next_trans [OF n]\<close>)
  qed
  have pin: "ensures (send_pin_event os srv e tr2) (\<lambda>(st3, tr3). event_next s tr (st3, s1, tr3))"
    if "event_next s tr (st, s1, tr2)" for st s1 e tr2
    using that send_pin_event_framed [OF assms(2), of os e tr2]
    by (auto simp: event_next_def elim!: ensures_conseq intro: sends_framed_trans)
  have xdp: "ensures (send_error_message os srv m c tr1) (\<lambda>tr2. event_next s tr (st', s1, tr2))"
    if "event_next s tr (st, s1, tr1)" for st st' s1 m c tr1
    using that send_error_message_framed [OF assms(2), of os m c tr1]
    by (auto simp: event_next_def elim!: ensures_conseq intro: sends_framed_trans)
  show ?thesis
    unfolding asd_msg_event_def Some option.case d_def [symmetric]
    using event_next_refl [OF assms(1)]
    by (auto simp: split_def intro!: ensures_conseq [OF ev] ensures_conseq [OF xdp] ensures_conseq [OF pin [unfolded split_def]] bpk)
qed

section \<open>The waiting loops\<close>

definition rinv :: "ibi_run \<Rightarrow> bool" where
  "rinv r \<longleftrightarrow> wf_msg (bmsg r) \<and> target_handler (bmsg r) \<noteq> None \<and> length (ev_buffer (bdata r)) = event_buffer_size"

definition rnext :: "ibi_run \<Rightarrow> ibi_run \<Rightarrow> bool" where
  "rnext r r' \<longleftrightarrow> rinv r' \<and> event_next (bmsg r) (btr r) (ST_OK, bmsg r', btr r')"

lemma event_next_status: "event_next s tr (st, s', tr') = event_next s tr (st', s', tr')"
  by (simp add: event_next_def)

lemma rnext_trans: "rnext r r1 \<Longrightarrow> rnext r1 r2 \<Longrightarrow> rnext r r2"
  unfolding rnext_def using event_next_trans by blast

lemma rinv_event:
  assumes "rinv r" "target_handler (bmsg r) = Some t"
  shows "ensures (target_event os t (spp_handler (bmsg r)) fd rv ((bdata r)\<lparr>ev_size := event_buffer_size\<rparr>) (btr r))
    (\<lambda>(st, e, t1, spp1, d1, tr1).
      rnext r (r\<lparr>bmsg := (bmsg r)\<lparr>target_handler := Some t1, spp_handler := spp1\<rparr>, bdata := d1, btr := tr1\<rparr>) \<and>
      ev_size d1 \<le> event_buffer_size \<and> length (ev_buffer d1) = event_buffer_size \<and>
      (st = ST_OK \<and> e = ASD_EVENT_BPK \<longrightarrow> (\<exists>sp. spp1 = Some sp \<and> wf_spp sp)))"
proof (rule ensures_conseq [OF target_event_msg [OF _ assms(2)]])
  show "wf_msg (bmsg r)" using assms(1) by (simp add: rinv_def)
  fix x :: "STATUS \<times> ASD_EVENT \<times> Target_Control_Handle \<times> SPP_Handler option \<times> ASD_EVENT_DATA \<times> trace"
  assume "case x of (st, e, t1, spp1, d1, tr1) \<Rightarrow>
    event_next (bmsg r) (btr r) (st, (bmsg r)\<lparr>target_handler := Some t1, spp_handler := spp1\<rparr>, tr1) \<and>
    ev_size d1 \<le> ev_size (bdata r\<lparr>ev_size := event_buffer_size\<rparr>) \<and>
    length (ev_buffer d1) = length (ev_buffer (bdata r\<lparr>ev_size := event_buffer_size\<rparr>)) \<and>
    (st = ST_OK \<and> e = ASD_EVENT_BPK \<longrightarrow> spp1 \<noteq> None)"
  then show "case x of (st, e, t1, spp1, d1, tr1) \<Rightarrow>
      rnext r (r\<lparr>bmsg := (bmsg r)\<lparr>target_handler := Some t1, spp_handler := spp1\<rparr>, bdata := d1, btr := tr1\<rparr>) \<and>
      ev_size d1 \<le> event_buffer_size \<and> length (ev_buffer d1) = event_buffer_size \<and>
      (st = ST_OK \<and> e = ASD_EVENT_BPK \<longrightarrow> (\<exists>sp. spp1 = Some sp \<and> wf_spp sp))"
    using assms(1) by (auto simp: rnext_def rinv_def event_next_def wf_msg_def)
qed (use assms(1) in \<open>simp_all add: rinv_def\<close>)

lemma rnext_send:
  assumes "rnext r r1" "event_next (bmsg r1) (btr r1) (st, s2, tr2)"
  shows "rnext r (r1\<lparr>bmsg := s2, exit_on_handshake := b, btr := tr2\<rparr>)"
  using assms event_next_trans [of "bmsg r" "btr r" ST_OK "bmsg r1" "btr r1" "(ST_OK, s2, tr2)"]
  by (cases "target_handler s2") (auto simp: rnext_def rinv_def event_next_def)

lemma handle_bpk_next:
  assumes "rinv r" "wf_server srv" "ev_size (bdata r) \<le> event_buffer_size"
  shows "whenever (handle_bpk os srv ready e r) (\<lambda>(st, h, r'). rnext r r')"
proof -
  have r: "wf_msg (bmsg r)" "rnext r r" "ev_size (bdata r) \<le> length (ev_buffer (bdata r))"
    using assms(1,3) by (simp_all add: rnext_def rinv_def event_next_refl)
  show ?thesis
    unfolding handle_bpk_def Let_def whenever_bind
    by (rule whenever_any, rule whenever_any, rule whenever_conseq [OF send_bpk_event_next [OF r(1) assms(2) r(3) assms(3)]])
      (auto intro: rnext_send [OF r(2)])
qed

lemma ibi_events_next:
  assumes "rinv r" "wf_server srv"
  shows "whenever (ibi_events os srv ready fds r) (\<lambda>(res, r'). rnext r r')"
  using assms(1)
proof (induction fds arbitrary: r)
  case Nil
  then show ?case by (simp add: rnext_def event_next_refl rinv_def)
next
  case (Cons p fds)
  obtain fd rv where p: "p = (fd, rv)" by force
  obtain t where t: "target_handler (bmsg r) = Some t" using Cons.prems by (auto simp: rinv_def)
  have rest: "whenever (ibi_events os srv ready fds r2) (\<lambda>(res, r'). rnext r r')" if "rnext r r2" for r2
    using Cons.IH [of r2] that by (auto simp: rnext_def [of r r2] elim!: whenever_conseq intro: rnext_trans [OF that])
  have step: "whenever (handle_bpk os srv ready e r1) (\<lambda>(st2, h, r2). rnext r r2)"
    if "rnext r r1" "ev_size (bdata r1) \<le> event_buffer_size" for e r1
  proof -
    have "rinv r1" using that(1) by (simp add: rnext_def)
    then show ?thesis
      by (intro whenever_conseq [OF handle_bpk_next [OF _ assms(2) that(2)]]) (auto intro: rnext_trans [OF that(1)])
  qed
  have ev: "ensures (target_event os t (spp_handler (bmsg r)) fd rv ((bdata r)\<lparr>ev_size := event_buffer_size\<rparr>) (btr r))
    (\<lambda>(st, e, t1, spp1, d1, tr1).
      rnext r (r\<lparr>bmsg := (bmsg r)\<lparr>target_handler := Some t1, spp_handler := spp1\<rparr>, bdata := d1, btr := tr1\<rparr>) \<and>
      ev_size d1 \<le> event_buffer_size)"
    by (rule ensures_conseq [OF rinv_event [OF Cons.prems t]]) auto
  show ?case
    unfolding p ibi_events.simps t option.case whenever_bind
    by (rule whenever_conseq [OF whenever_ensures [OF ev]]) (auto intro!: rest whenever_conseq [OF step] simp: Let_def)
qed

lemma ibi_loop_next:
  assumes "ibi_loop os srv ready fds r = Some y" "rinv r" "wf_server srv"
  shows "rnext r (snd y)"
proof -
  have "rinv r \<longrightarrow> wf_server srv \<longrightarrow> rnext r (snd y)"
  proof (rule ibi_loop.raw_induct [OF _ assms(1)], intro impI)
    fix loop os srv ready fds r y
    assume IH: "\<And>os srv ready fds r y. loop os srv ready fds r = Some y \<Longrightarrow> rinv r \<longrightarrow> wf_server srv \<longrightarrow> rnext r (snd y)"
      and body: "(let call = Sys_pollfds fds SPP_IBI_BUFFER_HANDSHAKE_TIMEOUT_MS; a = os (btr r) call; r0 = r\<lparr>btr := btr r @ [call]\<rparr>
       in if fst a \<le> 0 then Some (ST_OK, r0)
          else Option.bind (ibi_events os srv ready (zip (map fst fds) (revents_of (snd a) (length fds))) r0)
           (\<lambda>x. case fst x of Some st \<Rightarrow> Some (st, snd x) | None \<Rightarrow> loop os srv ready fds (snd x))) = Some y"
      and wf: "rinv r" "wf_server srv"
    define r0 where "r0 = r\<lparr>btr := btr r @ [Sys_pollfds fds SPP_IBI_BUFFER_HANDSHAKE_TIMEOUT_MS]\<rparr>"
    have r0: "rinv r0" "rnext r r0"
      using wf(1) by (auto simp: r0_def rinv_def rnext_def event_next_def sends_framed_def silent_def)
    note ev = ibi_events_next [OF r0(1) wf(2), unfolded whenever_iff, rule_format]
    show "rnext r (snd y)"
    proof (cases "fst (os (btr r) (Sys_pollfds fds SPP_IBI_BUFFER_HANDSHAKE_TIMEOUT_MS)) \<le> 0")
      case True
      then show ?thesis using body r0(2) by (auto simp: Let_def r0_def)
    next
      case False
      then obtain x where x: "ibi_events os srv ready (zip (map fst fds)
          (revents_of (snd (os (btr r) (Sys_pollfds fds SPP_IBI_BUFFER_HANDSHAKE_TIMEOUT_MS))) (length fds))) r0 = Some x"
        and y: "(case fst x of Some st \<Rightarrow> Some (st, snd x) | None \<Rightarrow> loop os srv ready fds (snd x)) = Some y"
        using body by (auto simp: Let_def r0_def [symmetric] bind_eq_Some_conv)
      have n: "rnext r (snd x)" using ev [OF x] rnext_trans [OF r0(2)] by (auto split: prod.splits)
      have "snd y = snd x \<or> rnext (snd x) (snd y)"
        using y IH wf(2) n by (auto simp: rnext_def [of r "snd x"] split: option.splits)
      then show ?thesis using n rnext_trans by auto
    qed
  qed
  then show ?thesis using assms by blast
qed

lemma check_spp_ibi_until_next:
  assumes "wf_msg s" "wf_server srv"
  shows "whenever (check_spp_ibi_until os srv g ready s tr) (event_next s tr)"
proof (cases "target_handler s")
  case None
  then show ?thesis using assms(1) by (simp add: check_spp_ibi_until_def event_next_refl)
next
  case (Some t)
  define r0 where "r0 = \<lparr>bmsg = s, bdata = \<lparr>ev_addr = g, ev_size = event_buffer_size, ev_buffer = replicate event_buffer_size (0::u8)\<rparr>,
    exit_on_handshake = True, btr = tr\<rparr>"
  have "rinv r0" using assms(1) Some by (simp add: r0_def rinv_def)
  then have "whenever (ibi_loop os srv ready fds r0) (\<lambda>(st, r). event_next s tr (st, bmsg r, btr r))" for fds
    using ibi_loop_next [OF _ _ assms(2), of os ready fds r0]
    by (auto simp: whenever_iff rnext_def event_next_def r0_def)
  then have lp: "whenever (do { (st, r) \<leftarrow> ibi_loop os srv ready fds r0; Some (st, bmsg r, btr r) }) (event_next s tr)" for fds
    by (simp add: split_def)
  have "whenever (do {
      (st, fds) \<leftarrow> target_get_spp_fds t (spp_handler s);
      if st \<noteq> ST_OK then Some (st, s, tr) else do { (st2, r) \<leftarrow> ibi_loop os srv ready fds r0; Some (st2, bmsg r, btr r) } })
     (event_next s tr)"
    unfolding whenever_bind [of "target_get_spp_fds t (spp_handler s)"]
    by (rule whenever_any) (use lp event_next_refl [OF assms(1)] in \<open>auto simp del: whenever_bind split: if_split\<close>)
  then show ?thesis
    unfolding check_spp_ibi_until_def Some option.case r0_def [symmetric]
    using event_next_refl [OF assms(1)] by (auto simp del: whenever_bind ensures_bind)
qed

section \<open>The wait ends\<close>

text \<open>
  A device does not interrupt for ever: after \<open>K\<close> rounds \<open>poll\<close> times out.  The loops then end, and as
  long as no bulk response is collected they end without a fault.
\<close>

fun is_pollfds :: "syscall \<Rightarrow> bool" where
  "is_pollfds (Sys_pollfds _ _) = True"
| "is_pollfds _ = False"

definition polls :: "trace \<Rightarrow> nat" where
  "polls tr = length (filter is_pollfds tr)"

lemma polls_simps [simp]:
  "polls (a @ b) = polls a + polls b" "polls [] = 0" "polls (c # b) = (if is_pollfds c then Suc (polls b) else polls b)"
  by (simp_all add: polls_def)

definition settles :: "os \<Rightarrow> nat \<Rightarrow> bool" where
  "settles os K \<longleftrightarrow> (\<forall>tr fds t. K \<le> polls tr \<longrightarrow> fst (os tr (Sys_pollfds fds t)) \<le> 0)"

lemma sys_polls [simp]: "polls (snd (sys os c tr)) = polls tr + (if is_pollfds c then 1 else 0)"
  by (simp add: sys_def)

named_theorems unpolled \<open>operations that do not poll several descriptors\<close>

lemma pin_unpolled [unpolled]:
  "polls (snd (snd (gpio_get_value os fd old tr))) = polls tr" "polls (snd (gpio_set_value os fd v tr)) = polls tr"
  "polls (snd (snd (dbus_get_powerstate os d old tr))) = polls tr" "polls (snd (dbus_power_on os d tr)) = polls tr"
  "polls (snd (dbus_power_off os d tr)) = polls tr" "polls (snd (dbus_power_reset os d tr)) = polls tr"
  by (simp_all add: gpio_get_value_def gpio_set_value_def dbus_get_powerstate_def dbus_power_on_def dbus_power_off_def
      dbus_power_reset_def dbus_call_set_property_async_def split_def Let_def)

lemma read_gpio_index_unpolled: "whenever (read_gpio_index os t i old tr) (\<lambda>(st, v, tr'). polls tr' = polls tr)"
proof -
  have "whenever (read_pin os f t i old tr) (\<lambda>(st, v, tr'). polls tr' = polls tr)" for f
    by (cases f) (auto simp: split_def Let_def unpolled split: option.split intro!: whenever_any)
  then show ?thesis by (simp add: read_gpio_index_def whenever_any)
qed

lemma write_gpio_index_unpolled: "whenever (write_gpio_index os t i v tr) (\<lambda>(st, tr'). polls tr' = polls tr)"
proof -
  have "whenever (write_pin os f t i v tr) (\<lambda>(st, tr'). polls tr' = polls tr)" for f
    by (cases f) (auto simp: split_def Let_def unpolled split: option.split
        intro!: whenever_any whenever_conseq [OF read_gpio_index_unpolled])
  then show ?thesis by (simp add: write_gpio_index_def whenever_any)
qed

lemma clear_event_unpolled [unpolled]:
  "polls (snd (target_clear_gpio_event os p tr)) = polls tr"
  "polls (snd (snd (snd (dbus_process_event os d tr)))) = polls tr"
  by (simp_all add: target_clear_gpio_event_def dbus_process_event_def split_def Let_def unpolled)

lemma run_handler_unpolled: "whenever (run_handler os h t e tr) (\<lambda>(st, e', tr'). polls tr' = polls tr)"
proof -
  note r = whenever_conseq [OF read_gpio_index_unpolled] and w = whenever_conseq [OF write_gpio_index_unpolled]
  have "whenever (on_prdy_event os t tr) (\<lambda>(st, e', tr'). polls tr' = polls tr)"
    by (auto simp: on_prdy_event_def split_def Let_def intro!: w)
  moreover have "whenever (on_platform_reset_event os t e tr) (\<lambda>(st, e', tr'). polls tr' = polls tr)"
    by (auto simp: on_platform_reset_event_def split_def intro!: r w)
  moreover have "whenever (on_powergood_event os t i a b e tr) (\<lambda>(st, e', tr'). polls tr' = polls tr)" for i a b
    by (auto simp: on_powergood_event_def split_def intro!: r)
  ultimately show ?thesis by (cases h) simp_all
qed

lemma target_event_unpolled:
  "whenever (target_event os t spp fd rv d tr) (\<lambda>(st, e, t', spp', d', tr'). polls tr' = polls tr)"
proof -
  have g: "whenever (target_gpio_event os t fd rv res tr) (\<lambda>(st, e, t', tr'). polls tr' = polls tr)" for res
    by (auto simp: target_gpio_event_def split_def Let_def unpolled split: option.split
        intro!: whenever_conseq [OF run_handler_unpolled])
  have p: "whenever (target_pin_event os t fd rv res tr) (\<lambda>(st, e, t', tr'). polls tr' = polls tr)" for res
    using g by (auto simp: target_pin_event_def split_def Let_def unpolled split: option.split)
  have i: "whenever (i3c_ibi_handler os sp fd bf n dev tr) (\<lambda>(st, sp', bf', n', tr'). polls tr' = polls tr)" for sp bf n dev
    by (auto simp: i3c_ibi_handler_def Let_def intro!: whenever_any)
  show ?thesis
    by (auto simp: target_event_def split_def Let_def split: option.split
        intro!: whenever_conseq [OF p] whenever_conseq [OF i])
qed

lemma send_response_unpolled: "whenever (send_response os srv m tr) (\<lambda>(st, tr'). polls tr' = polls tr)"
proof -
  have "polls (snd (extnet_send os net c bs tr)) = polls tr" for net c bs
    by (auto simp: extnet_send_def exttcp_send_def exttls_send_def exttls_has_write_error_def split_def Let_def
        split: extnet_hdlr_type_t.split option.split)
  then show ?thesis
    by (auto simp: send_response_def asd_api_server_write_def asd_server_write_def send_out_msg_on_socket_def split_def
        Let_def split: option.split intro!: whenever_any)
qed

lemma send_bpk_event_unpolled:
  assumes "\<not> bulk_collects e d s"
  shows "whenever (send_bpk_event os srv e d s tr) (\<lambda>(st, s', tr'). s' = s \<and> polls tr' = polls tr)"
  unfolding send_bpk_event_def
  using assms by (auto intro!: whenever_conseq [OF send_response_unpolled] simp: Let_def whenever_arrays)

text \<open>No bulk response is being collected.\<close>

definition no_bulk :: "ASD_MSG \<Rightarrow> bool" where
  "no_bulk s \<longleftrightarrow> \<not> bulk_response_enable (spp_cfg (asd_cfg s)) \<or> spp_bulk_response_buffer_count s = 0"

lemma no_bulk_collects: "no_bulk s \<Longrightarrow> \<not> bulk_collects e d s"
  by (auto simp: no_bulk_def bulk_collects_def)

lemma no_bulk_frame [simp]: "no_bulk (s\<lparr>target_handler := t\<rparr>) = no_bulk s" "no_bulk (s\<lparr>spp_handler := p\<rparr>) = no_bulk s"
  by (simp_all add: no_bulk_def)

definition rsafe :: "ibi_run \<Rightarrow> ibi_run \<Rightarrow> bool" where
  "rsafe r r' \<longleftrightarrow> rnext r r' \<and> no_bulk (bmsg r') \<and> polls (btr r') = polls (btr r)"

lemma rsafe_trans: "rsafe r r1 \<Longrightarrow> rsafe r1 r2 \<Longrightarrow> rsafe r r2"
  by (auto simp: rsafe_def intro: rnext_trans)

lemma handle_bpk_safe:
  assumes "rinv r" "no_bulk (bmsg r)" "wf_server srv" "ev_size (bdata r) \<le> event_buffer_size"
    "\<forall>sp. wf_spp sp \<longrightarrow> ready sp \<noteq> None" "spp_handler (bmsg r) \<noteq> None"
  shows "ensures (handle_bpk os srv ready e r) (\<lambda>(st, h, r'). rsafe r r')"
proof -
  have r: "wf_msg (bmsg r)" "rnext r r" "ev_size (bdata r) \<le> length (ev_buffer (bdata r))"
    using assms(1,4) by (simp_all add: rnext_def rinv_def event_next_refl)
  obtain sp where sp: "spp_handler (bmsg r) = Some sp" "wf_spp sp"
    using assms(6) wf_msgD(7) [OF r(1)] by auto
  obtain h where h: "ready sp = Some h" using assms(5) sp(2) by auto
  note nb = no_bulk_collects [OF assms(2)]
  have "ensures (send_bpk_event os srv e (bdata r) (bmsg r) (btr r)) (\<lambda>(st, s', tr').
      event_next (bmsg r) (btr r) (st, s', tr') \<and> s' = bmsg r \<and> polls tr' = polls (btr r))"
    by (rule ensures_conseq [OF ensures_whenever [OF send_bpk_event_safe [OF r(1) assms(3) r(3) assms(4)]
        send_bpk_event_unpolled [OF nb]]]) (use nb in auto)
  moreover have fin: "rnext r (r\<lparr>exit_on_handshake := b, btr := u\<rparr>)" if "event_next (bmsg r) (btr r) (st, bmsg r, u)" for b u st
    using rnext_send [OF r(2) that] by simp
  ultimately show ?thesis
    using assms(2) fin by (auto simp: handle_bpk_def sp h rsafe_def Let_def elim!: ensures_conseq)
qed

lemma ibi_events_safe:
  assumes "rinv r" "no_bulk (bmsg r)" "wf_server srv" "\<forall>sp. wf_spp sp \<longrightarrow> ready sp \<noteq> None"
  shows "ensures (ibi_events os srv ready fds r) (\<lambda>(res, r'). rsafe r r')"
  using assms(1,2)
proof (induction fds arbitrary: r)
  case Nil
  then show ?case by (simp add: rsafe_def rnext_def event_next_refl rinv_def)
next
  case (Cons p fds)
  obtain fd rv where p: "p = (fd, rv)" by force
  obtain t where t: "target_handler (bmsg r) = Some t" using Cons.prems by (auto simp: rinv_def)
  have rest: "ensures (ibi_events os srv ready fds r2) (\<lambda>(res, r'). rsafe r r')" if "rsafe r r2" for r2
    using that by (intro ensures_conseq [OF Cons.IH [of r2]]) (auto simp: rsafe_def [of r r2] rnext_def [of r r2] intro: rsafe_trans [OF that])
  have step: "ensures (handle_bpk os srv ready e r1) (\<lambda>(st2, h, r2). rsafe r r2)"
    if "rsafe r r1" "ev_size (bdata r1) \<le> event_buffer_size" "spp_handler (bmsg r1) \<noteq> None" for e r1
    using that by (intro ensures_conseq [OF handle_bpk_safe [OF _ _ assms(3) that(2) assms(4) that(3)]])
      (auto simp: rsafe_def [of r r1] rnext_def [of r r1] intro: rsafe_trans [OF that(1)])
  have ev: "ensures (target_event os t (spp_handler (bmsg r)) fd rv ((bdata r)\<lparr>ev_size := event_buffer_size\<rparr>) (btr r))
    (\<lambda>(st, e, t1, spp1, d1, tr1).
      rsafe r (r\<lparr>bmsg := (bmsg r)\<lparr>target_handler := Some t1, spp_handler := spp1\<rparr>, bdata := d1, btr := tr1\<rparr>) \<and>
      ev_size d1 \<le> event_buffer_size \<and> (st = ST_OK \<and> e = ASD_EVENT_BPK \<longrightarrow> spp1 \<noteq> None))"
    by (rule ensures_conseq [OF ensures_whenever [OF rinv_event [OF Cons.prems(1) t] target_event_unpolled]])
      (use Cons.prems(2) in \<open>auto simp: rsafe_def\<close>)
  show ?case
    unfolding p ibi_events.simps t option.case ensures_bind
  proof (rule ensures_conseq [OF ev], clarify)
    fix st e t1 spp1 d1 tr1
    define r1 where "r1 = r\<lparr>bmsg := (bmsg r)\<lparr>target_handler := Some t1, spp_handler := spp1\<rparr>, bdata := d1, btr := tr1\<rparr>"
    assume "rsafe r (r\<lparr>bmsg := (bmsg r)\<lparr>target_handler := Some t1, spp_handler := spp1\<rparr>, bdata := d1, btr := tr1\<rparr>)"
      "ev_size d1 \<le> event_buffer_size" and sp: "st = ST_OK \<and> e = ASD_EVENT_BPK \<longrightarrow> spp1 \<noteq> None"
    then have r1: "rsafe r r1" "ev_size (bdata r1) \<le> event_buffer_size" "spp_handler (bmsg r1) = spp1" by (simp_all add: r1_def)
    have "ensures (do { (st2, handshake, r2) \<leftarrow> handle_bpk os srv ready e r1;
        if handshake \<or> st2 \<noteq> ST_OK then Some (Some st2, r2) else ibi_events os srv ready fds r2 }) (\<lambda>(res, r'). rsafe r r')"
      if "spp1 \<noteq> None" using r1 that by (auto intro!: ensures_conseq [OF step [OF r1(1,2)]] rest)
    then show "ensures (let r1 = r\<lparr>bmsg := (bmsg r)\<lparr>target_handler := Some t1, spp_handler := spp1\<rparr>, bdata := d1, btr := tr1\<rparr>
       in if st = ST_OK \<and> e = ASD_EVENT_BPK then do {
            (st2, handshake, r2) \<leftarrow> handle_bpk os srv ready e r1;
            if handshake \<or> st2 \<noteq> ST_OK then Some (Some st2, r2) else ibi_events os srv ready fds r2 }
          else if st \<noteq> ST_OK then Some (Some st, r1) else ibi_events os srv ready fds r1) (\<lambda>(res, r'). rsafe r r')"
      using r1 sp unfolding r1_def [symmetric] Let_def by (auto intro!: rest simp del: ensures_bind)
  qed
qed

lemma ibi_loop_returns:
  assumes "settles os K" "rinv r" "no_bulk (bmsg r)" "wf_server srv" "\<forall>sp. wf_spp sp \<longrightarrow> ready sp \<noteq> None"
  shows "ensures (ibi_loop os srv ready fds r) (\<lambda>(st, r'). rnext r r')"
proof -
  have "ensures (ibi_loop os srv ready fds r) (\<lambda>_. True)"
    using assms(2,3)
  proof (induction "K - polls (btr r)" arbitrary: r rule: less_induct)
    case less
    define call where "call = Sys_pollfds fds SPP_IBI_BUFFER_HANDSHAKE_TIMEOUT_MS"
    define r0 where "r0 = r\<lparr>btr := btr r @ [call]\<rparr>"
    have r0: "rinv r0" "no_bulk (bmsg r0)" "polls (btr r0) = Suc (polls (btr r))"
      using less.prems by (simp_all add: r0_def rinv_def call_def)
    show ?case
    proof (cases "fst (os (btr r) call) \<le> 0")
      case True
      then show ?thesis by (subst ibi_loop.simps) (simp add: Let_def call_def)
    next
      case False
      then have "polls (btr r) < K"
        using assms(1) unfolding settles_def call_def by (meson not_le_imp_less)
      then have IH: "ensures (ibi_loop os srv ready fds r1) (\<lambda>_. True)" if "rsafe r0 r1" for r1
        using that r0(3) by (intro less.hyps) (auto simp: rsafe_def rnext_def)
      have "ensures (ibi_events os srv ready (zip (map fst fds) (revents_of (snd (os (btr r) call)) (length fds))) r0)
        (\<lambda>x. ensures (case fst x of Some st \<Rightarrow> Some (st, snd x) | None \<Rightarrow> ibi_loop os srv ready fds (snd x)) (\<lambda>_. True))"
        by (rule ensures_conseq [OF ibi_events_safe [OF r0(1,2) assms(4,5)]]) (auto split: option.split intro: IH)
      then show ?thesis
        using False unfolding call_def [symmetric] r0_def [symmetric]
        by (subst ibi_loop.simps) (simp add: Let_def call_def [symmetric] r0_def [symmetric])
    qed
  qed
  then show ?thesis
    using ibi_loop_next [OF _ assms(2,4)] by (auto simp: ensures_iff)
qed

lemma check_spp_ibi_until_returns:
  assumes "settles os K" "wf_msg s" "no_bulk s" "wf_server srv" "\<forall>sp. wf_spp sp \<longrightarrow> ready sp \<noteq> None"
  shows "ensures (check_spp_ibi_until os srv g ready s tr) (event_next s tr)"
proof (cases "target_handler s")
  case None
  then show ?thesis using assms(2) by (simp add: check_spp_ibi_until_def event_next_refl)
next
  case (Some t)
  define r0 where "r0 = \<lparr>bmsg = s, bdata = \<lparr>ev_addr = g, ev_size = event_buffer_size, ev_buffer = replicate event_buffer_size (0::u8)\<rparr>,
    exit_on_handshake = True, btr = tr\<rparr>"
  have r0: "rinv r0" "no_bulk (bmsg r0)" using assms(2,3) Some by (simp_all add: r0_def rinv_def)
  have sp: "spp_attached t \<longrightarrow> (\<exists>sp. spp_handler s = Some sp \<and> wf_spp sp)" using wf_msgD [OF assms(2)] Some by auto
  then have fds: "ensures (target_get_spp_fds t (spp_handler s)) (\<lambda>_. True)"
    by (auto simp: target_get_spp_fds_def spp_bus_device_count_def wf_spp_def MAX_SPP_BUS_DEVICES_def unat_of_nat)
  have "ensures (ibi_loop os srv ready fds r0) (\<lambda>(st, r). event_next s tr (st, bmsg r, btr r))" for fds
    by (rule ensures_conseq [OF ibi_loop_returns [OF assms(1) r0 assms(4,5)]]) (auto simp: rnext_def event_next_def r0_def)
  then have "ensures (do {
      (st, fds) \<leftarrow> target_get_spp_fds t (spp_handler s);
      if st \<noteq> ST_OK then Some (st, s, tr) else do { (st2, r) \<leftarrow> ibi_loop os srv ready fds r0; Some (st2, bmsg r, btr r) } })
     (event_next s tr)"
    using event_next_refl [OF assms(2)]
    unfolding ensures_bind [of "target_get_spp_fds t (spp_handler s)"] by (intro ensures_conseq [OF fds]) (auto simp: split_def)
  then show ?thesis
    unfolding check_spp_ibi_until_def Some option.case r0_def [symmetric]
    using event_next_refl [OF assms(2)] by (auto simp del: whenever_bind ensures_bind)
qed

text \<open>The flags the two functions wait for exist for every device.\<close>

lemma check_spp_ibi_returns:
  assumes "settles os K" "wf_msg s" "no_bulk s" "wf_server srv" "unat adr < MAX_SPP_BUS_DEVICES"
  shows "ensures (asd_msg_check_spp_ibi os srv g adr s tr) (event_next s tr)"
    "ensures (asd_msg_check_spp_ibi_data os srv g adr s tr) (event_next s tr)"
  unfolding asd_msg_check_spp_ibi_def asd_msg_check_spp_ibi_data_def
  by (rule check_spp_ibi_until_returns [OF assms(1-4)]; use assms(5) in \<open>simp add: wf_spp_def rd_def\<close>)+

end
