(* ===== verification/Spp_Msg.thy ===== *)
theory Spp_Msg
  imports Event_Msg
begin

text \<open>
  The SPP commands of \<open>target/asd_msg.c\<close>: \<open>process_spp_message\<close>.  The locals of the loop are the record
  \<open>spp_run\<close>; each branch over the command byte is one definition.  \<open>response_cnt\<close> is below
  \<open>MAX_DATA_SIZE\<close> whenever a command starts and grows by less than 70000, so the 32 bits of the source
  never wrap and it is a \<open>nat\<close>.  \<open>g\<close> is the uninitialised \<open>event_data.addr\<close> of the waiting loops.
\<close>

section \<open>State\<close>

abbreviation SPP_SEND :: u8 where "SPP_SEND \<equiv> 0x10"
abbreviation SPP_RECEIVE :: u8 where "SPP_RECEIVE \<equiv> 0x20"
abbreviation SPP_SEND_CMD :: u8 where "SPP_SEND_CMD \<equiv> 0x30"
abbreviation SPP_SEND_RECEIVE_CMD :: u8 where "SPP_SEND_RECEIVE_CMD \<equiv> 0x40"
abbreviation SPP_SET_SIM_DATA_CMD :: u8 where "SPP_SET_SIM_DATA_CMD \<equiv> 0x50"
abbreviation SPP_BULK :: u8 where "SPP_BULK \<equiv> 0x60"
abbreviation SPP_CFG_MAX :: u8 where "SPP_CFG_MAX \<equiv> 0x0F"
abbreviation SPP_CMD_MASK :: u8 where "SPP_CMD_MASK \<equiv> 0xF0"

record spp_run =
  smsg :: ASD_MSG
  spkt :: packet_data
  scnt :: nat
  bulk_address :: u8
  spp_tr :: trace

text \<open>
  A command lets the loop go on, breaks out of it, or returns from the function.  All that go on leave
  the status at \<open>ST_OK\<close>.
\<close>

datatype spp_exit = Go_on | Break STATUS | Return STATUS

type_synonym spp_res = "(spp_exit \<times> spp_run) option"

definition with_byte :: "u8 list \<Rightarrow> spp_run \<Rightarrow> (u8 \<Rightarrow> spp_run \<Rightarrow> spp_res) \<Rightarrow> spp_res" where
  "with_byte pl r k =
     (case get_packet_data (spkt r) 1 of None \<Rightarrow> Some (Break ST_ERR, r)
      | Some (i, p) \<Rightarrow> do { b \<leftarrow> rd pl i; k b (r\<lparr>spkt := p\<rparr>) })"

text \<open>A pointer to \<open>n\<close> bytes of the payload: the rest of the message buffer from there.\<close>

definition with_bytes :: "u8 list \<Rightarrow> u16 \<Rightarrow> spp_run \<Rightarrow> (u8 list \<Rightarrow> spp_run \<Rightarrow> spp_res) \<Rightarrow> spp_res" where
  "with_bytes pl n r k =
     (case get_packet_data (spkt r) (unat n) of None \<Rightarrow> Some (Break ST_ERR, r)
      | Some (i, p) \<Rightarrow> k (drop i pl) (r\<lparr>spkt := p\<rparr>))"

definition be16 :: "u8 \<Rightarrow> u8 \<Rightarrow> u16" where
  "be16 msb lsb = push_bit 8 (ucast msb) OR ucast lsb"

definition put_spp :: "u8 list \<Rightarrow> spp_run \<Rightarrow> spp_run option" where
  "put_spp bs r = do {
     let out = out_msg (smsg r);
     b \<leftarrow> wrs (buffer out) (scnt r) bs;
     Some (r\<lparr>smsg := (smsg r)\<lparr>out_msg := out\<lparr>buffer := b\<rparr>\<rparr>, scnt := scnt r + length bs\<rparr>) }"

definition set_spp :: "SPP_Handler \<Rightarrow> spp_run \<Rightarrow> spp_run" where
  "set_spp h r = r\<lparr>smsg := (smsg r)\<lparr>spp_handler := Some h\<rparr>\<rparr>"

section \<open>Commands\<close>

text \<open>In bulk mode the address of the last command is remembered and has to be a device.\<close>

definition spp_address :: "u8 list \<Rightarrow> spp_run \<Rightarrow> (u8 \<Rightarrow> spp_run \<Rightarrow> spp_res) \<Rightarrow> spp_res" where
  "spp_address pl r k = with_byte pl r (\<lambda>adr r1.
     case spp_handler (smsg r1) of None \<Rightarrow> None
     | Some h \<Rightarrow>
         (if \<not> bulk_mode h then k adr r1
          else if unat adr \<ge> MAX_SPP_BUS_DEVICES then Some (Break ST_ERR, r1)
          else k adr (r1\<lparr>bulk_address := adr\<rparr>)))"

definition spp_select :: "u8 \<Rightarrow> spp_run \<Rightarrow> (SPP_Handler \<Rightarrow> spp_run \<Rightarrow> spp_res) \<Rightarrow> spp_res" where
  "spp_select adr r k =
     (case spp_handler (smsg r) of None \<Rightarrow> None
      | Some h \<Rightarrow> do {
          (st, h1) \<leftarrow> spp_device_select h adr;
          if st \<noteq> ST_OK then Some (Break st, set_spp h1 r) else k h1 (set_spp h1 r) })"

text \<open>A device whose buffer is not ready is waited for; the outcome of the wait is ignored.\<close>

definition spp_handshake ::
    "os \<Rightarrow> Server \<Rightarrow> u32 \<Rightarrow> u8 \<Rightarrow> spp_run \<Rightarrow> (SPP_Handler \<Rightarrow> spp_run \<Rightarrow> spp_res) \<Rightarrow> spp_res" where
  "spp_handshake os srv g adr r k = spp_select adr r (\<lambda>h1 r1. do {
     busy \<leftarrow> rd (threshold_status h1) (unat adr);
     (st, s2, tr2) \<leftarrow> (if busy then asd_msg_check_spp_ibi os srv g adr (smsg r1) (spp_tr r1)
                      else Some (ST_OK, smsg r1, spp_tr r1));
     h2 \<leftarrow> spp_handler s2;
     k h2 (r1\<lparr>smsg := s2, spp_tr := tr2\<rparr>) })"

definition spp_send_command :: "os \<Rightarrow> Server \<Rightarrow> u32 \<Rightarrow> u8 list \<Rightarrow> u8 \<Rightarrow> spp_run \<Rightarrow> spp_res" where
  "spp_send_command os srv g pl cmd r =
     spp_address pl r (\<lambda>adr r. with_byte pl r (\<lambda>msb r. with_byte pl r (\<lambda>lsb r.
       with_bytes pl (be16 msb lsb) r (\<lambda>data r. spp_handshake os srv g adr r (\<lambda>h r. do {
         (st, h1, tr1) \<leftarrow> spp_send os h (be16 msb lsb) data (spp_tr r);
         let r1 = set_spp h1 (r\<lparr>spp_tr := tr1\<rparr>);
         if st = ST_OK then do { r2 \<leftarrow> put_spp [cmd, adr, msb, lsb] r1; Some (Go_on, r2) }
         else do { r2 \<leftarrow> put_spp [cmd, adr, 0, 0] r1; Some (Break ST_ERR, r2) } })))))"

text \<open>
  The device writes behind the four bytes of the header, which are stored afterwards.  A failed receive
  answers an empty one and is not an error.
\<close>

definition spp_receive_command :: "os \<Rightarrow> u8 list \<Rightarrow> u8 \<Rightarrow> spp_run \<Rightarrow> spp_res" where
  "spp_receive_command os pl cmd r =
     with_byte pl r (\<lambda>adr r. with_byte pl r (\<lambda>msb r. with_byte pl r (\<lambda>lsb r.
       spp_select adr r (\<lambda>h r. do {
         let out = out_msg (smsg r);
         (st, n, h1, bf, tr1) \<leftarrow> spp_receive os h (drop (scnt r + 4) (buffer out)) (spp_tr r);
         let r1 = r\<lparr>smsg := (smsg r)\<lparr>out_msg := out\<lparr>buffer := take (scnt r + 4) (buffer out) @ bf\<rparr>, spp_handler := Some h1\<rparr>,
                    spp_tr := tr1\<rparr>;
         if st = ST_OK then do {
           r2 \<leftarrow> put_spp [cmd, adr, msb, lsb] r1;
           Some (Go_on, r2\<lparr>scnt := scnt r2 + unat n\<rparr>) }
         else do { r2 \<leftarrow> put_spp [cmd, adr, 0, 0] r1; Some (Go_on, r2) } }))))"

definition spp_send_cmd_command :: "os \<Rightarrow> Server \<Rightarrow> u32 \<Rightarrow> u8 list \<Rightarrow> u8 \<Rightarrow> spp_run \<Rightarrow> spp_res" where
  "spp_send_cmd_command os srv g pl cmd r =
     spp_address pl r (\<lambda>adr r. with_byte pl r (\<lambda>msb r. with_byte pl r (\<lambda>lsb r. with_byte pl r (\<lambda>spp_command r.
       with_bytes pl (be16 msb lsb) r (\<lambda>data r. spp_handshake os srv g adr r (\<lambda>h r. do {
         (st, tr1) \<leftarrow> spp_send_cmd os h spp_command (be16 msb lsb) data (spp_tr r);
         let r1 = r\<lparr>spp_tr := tr1\<rparr>;
         if st = ST_OK then do { r2 \<leftarrow> put_spp [cmd, adr, msb, lsb, spp_command] r1; Some (Go_on, r2) }
         else do {
           r2 \<leftarrow> put_spp [cmd AND SPP_CMD_MASK, adr, 0, 0, spp_command] r1;
           Some (Break ST_ERR, r2) } }))))))"

definition spp_transfer ::
    "os \<Rightarrow> u8 \<Rightarrow> u8 \<Rightarrow> u8 \<Rightarrow> u8 \<Rightarrow> u8 \<Rightarrow> u16 \<Rightarrow> u8 list \<Rightarrow> SPP_Handler \<Rightarrow> spp_run \<Rightarrow> spp_res" where
  "spp_transfer os cmd adr msb lsb spp_command rsize data h r =
     (if scnt r + 7 + unat rsize > MAX_DATA_SIZE then Some (Break ST_ERR, r)
      else do {
        let out = out_msg (smsg r);
        (st, bf, tr1) \<leftarrow> spp_send_receive_cmd os h spp_command (be16 msb lsb) data (drop (scnt r + 7) (buffer out)) (spp_tr r);
        let r1 = r\<lparr>smsg := (smsg r)\<lparr>out_msg := out\<lparr>buffer := take (scnt r + 7) (buffer out) @ bf\<rparr>\<rparr>, spp_tr := tr1\<rparr>;
        if st = ST_OK then do {
          r2 \<leftarrow> put_spp [cmd, adr, msb, lsb, spp_command, ucast (drop_bit 8 rsize) AND 0x0F, ucast rsize] r1;
          Some (Go_on, r2\<lparr>scnt := scnt r2 + unat rsize\<rparr>) }
        else do {
          r2 \<leftarrow> put_spp [cmd AND SPP_CMD_MASK, adr, 0, 0, spp_command, 0, 0] r1;
          Some (Break ST_ERR, r2) } })"

definition spp_send_receive_command :: "os \<Rightarrow> Server \<Rightarrow> u32 \<Rightarrow> u8 list \<Rightarrow> u8 \<Rightarrow> spp_run \<Rightarrow> spp_res" where
  "spp_send_receive_command os srv g pl cmd r =
     spp_address pl r (\<lambda>adr r. with_byte pl r (\<lambda>msb r. with_byte pl r (\<lambda>lsb r. with_byte pl r (\<lambda>spp_command r.
       with_byte pl r (\<lambda>msb_r r. with_byte pl r (\<lambda>lsb_r r. with_bytes pl (be16 msb lsb) r (\<lambda>data r.
         spp_handshake os srv g adr r (spp_transfer os cmd adr msb lsb spp_command (be16 msb_r lsb_r) data))))))))"

definition spp_sim_command :: "u8 list \<Rightarrow> u8 \<Rightarrow> spp_run \<Rightarrow> spp_res" where
  "spp_sim_command pl cmd r =
     with_byte pl r (\<lambda>msb r. with_byte pl r (\<lambda>lsb r.
       let fin = (\<lambda>r. case spp_handler (smsg r) of None \<Rightarrow> None
           | Some h \<Rightarrow>
               (if spp_set_sim_data_cmd h (be16 msb lsb) = ST_OK
                then do { r2 \<leftarrow> put_spp [cmd, lsb] r; Some (Go_on, r2) }
                else do { r2 \<leftarrow> put_spp [cmd AND SPP_CMD_MASK, 0] r; Some (Break ST_ERR, r2) }))
       in if be16 msb lsb > 0 then with_bytes pl (be16 msb lsb) r (\<lambda>_. fin) else fin r))"

text \<open>
  A bulk is answered at once; the interrupts of the commands that follow are collected, and answered
  when the message ends.
\<close>

definition spp_response_header :: "asd_message \<Rightarrow> nat \<Rightarrow> message_header" where
  "spp_response_header m cnt = (set_msg_size (of_nat cnt) (header m))\<lparr>cmd_stat := 0\<rparr>"

definition spp_bulk_command :: "os \<Rightarrow> Server \<Rightarrow> asd_message \<Rightarrow> u8 \<Rightarrow> spp_run \<Rightarrow> spp_res" where
  "spp_bulk_command os srv m cmd r =
     with_byte (buffer m) r (\<lambda>spp_bulk_count r. do {
       r1 \<leftarrow> put_spp [cmd, spp_bulk_count] (r\<lparr>smsg := (smsg r)\<lparr>spp_bulk_out_msg := zero_message\<rparr>\<rparr>);
       let s = smsg r1;
       let out = (out_msg s)\<lparr>header := spp_response_header m (scnt r1)\<rparr>;
       (st, tr1) \<leftarrow> send_response os srv out (spp_tr r1);
       let r2 = r1\<lparr>smsg := s\<lparr>out_msg := out\<rparr>, spp_tr := tr1\<rparr>;
       if st \<noteq> ST_OK then Some (Return ST_ERR, r2)
       else case spp_handler s of None \<Rightarrow> None
       | Some h \<Rightarrow>
           Some (Go_on, r2\<lparr>smsg := (smsg r2)\<lparr>spp_bulk_response_buffer_count := 2, spp_bulk_response_ibi_count := 0,
                                             spp_handler := Some (h\<lparr>bulk_mode := True\<rparr>)\<rparr>\<rparr>) })"

definition spp_dispatch ::
    "os \<Rightarrow> Server \<Rightarrow> u32 \<Rightarrow> asd_message \<Rightarrow> u8 \<Rightarrow> spp_run \<Rightarrow> spp_res" where
  "spp_dispatch os srv g m cmd r =
     (if cmd \<le> SPP_CFG_MAX then Some (Go_on, r)
      else if cmd = SPP_SEND then spp_send_command os srv g (buffer m) cmd r
      else if cmd = SPP_RECEIVE then spp_receive_command os (buffer m) cmd r
      else if cmd = SPP_SEND_CMD then spp_send_cmd_command os srv g (buffer m) cmd r
      else if cmd = SPP_SEND_RECEIVE_CMD then spp_send_receive_command os srv g (buffer m) cmd r
      else if cmd = SPP_SET_SIM_DATA_CMD then spp_sim_command (buffer m) cmd r
      else if cmd = SPP_BULK then spp_bulk_command os srv m cmd r
      else Some (Break ST_ERR, r))"

section \<open>The loop\<close>

definition spp_step :: "os \<Rightarrow> Server \<Rightarrow> u32 \<Rightarrow> asd_message \<Rightarrow> spp_run \<Rightarrow> spp_res" where
  "spp_step os srv g m r =
     (if scnt r \<ge> MAX_DATA_SIZE then Some (Break ST_ERR, r)
      else with_byte (buffer m) r (spp_dispatch os srv g m))"

fun spp_loop :: "nat \<Rightarrow> os \<Rightarrow> Server \<Rightarrow> u32 \<Rightarrow> asd_message \<Rightarrow> spp_run \<Rightarrow> spp_res" where
  "spp_loop 0 os srv g m r = None"
| "spp_loop (Suc fuel) os srv g m r =
     (if \<not> used (spkt r) < total (spkt r) then Some (Break ST_OK, r)
      else do {
        (e, r1) \<leftarrow> spp_step os srv g m r;
        case e of Go_on \<Rightarrow> spp_loop fuel os srv g m r1 | _ \<Rightarrow> Some (e, r1) })"

text \<open>The end of a bulk: wait for the last device, then send what was collected.\<close>

definition spp_wait_if ::
    "bool \<Rightarrow> (ASD_MSG \<Rightarrow> trace \<Rightarrow> (STATUS \<times> ASD_MSG \<times> trace) option) \<Rightarrow> ASD_MSG \<times> trace \<Rightarrow> (ASD_MSG \<times> trace) option" where
  "spp_wait_if c f st = (if c then do { (_, s, tr) \<leftarrow> f (fst st) (snd st); Some (s, tr) } else Some st)"

definition send_collected :: "os \<Rightarrow> Server \<Rightarrow> ASD_MSG \<Rightarrow> trace \<Rightarrow> (STATUS \<times> ASD_MSG \<times> trace) option" where
  "send_collected os srv s tr = do {
     (st, s1, tr1) \<leftarrow> send_bulk_bpk_event os srv (spp_bulk_response_buffer_count s) s tr;
     h \<leftarrow> spp_handler s1;
     Some (st, s1\<lparr>spp_bulk_response_buffer_count := 0, spp_bulk_response_ibi_count := 0,
                  spp_handler := Some (h\<lparr>bulk_mode := False\<rparr>)\<rparr>, tr1) }"

definition finish_bulk :: "os \<Rightarrow> Server \<Rightarrow> u32 \<Rightarrow> u8 \<Rightarrow> ASD_MSG \<Rightarrow> trace \<Rightarrow> (STATUS \<times> ASD_MSG \<times> trace) option" where
  "finish_bulk os srv g adr s tr =
     (if unat adr \<ge> MAX_SPP_BUS_DEVICES
      then Some (ST_ERR, s\<lparr>spp_handler := map_option (bulk_mode_update (\<lambda>_. False)) (spp_handler s)\<rparr>, tr)
      else do {
        h \<leftarrow> spp_handler s;
        busy \<leftarrow> rd (threshold_status h) (unat adr);
        (s1, tr1) \<leftarrow> spp_wait_if busy (asd_msg_check_spp_ibi os srv g adr) (s, tr);
        h1 \<leftarrow> spp_handler s1;
        left \<leftarrow> rd (bulk_autocmd_count h1) (unat adr);
        (s2, tr2) \<leftarrow> spp_wait_if (left \<noteq> 0) (asd_msg_check_spp_ibi_data os srv g adr) (s1, tr1);
        send_collected os srv s2 tr2 })"

definition finish_spp ::
    "os \<Rightarrow> Server \<Rightarrow> u32 \<Rightarrow> asd_message \<Rightarrow> STATUS \<Rightarrow> spp_run \<Rightarrow> (STATUS \<times> ASD_MSG \<times> trace) option" where
  "finish_spp os srv g m st r = do {
     let s = smsg r;
     h \<leftarrow> spp_handler s;
     if bulk_mode h then finish_bulk os srv g (bulk_address r) s (spp_tr r)
     else if st \<noteq> ST_OK then Some (st, s, spp_tr r)
     else do {
       let out = (out_msg s)\<lparr>header := spp_response_header m (scnt r)\<rparr>;
       (st2, tr2) \<leftarrow> send_response os srv out (spp_tr r);
       Some (st2, s\<lparr>out_msg := out\<rparr>, tr2) } }"

definition process_spp_message ::
    "os \<Rightarrow> Server \<Rightarrow> u32 \<Rightarrow> asd_message \<Rightarrow> ASD_MSG \<Rightarrow> trace \<Rightarrow> (STATUS \<times> ASD_MSG \<times> trace) option" where
  "process_spp_message os srv g s_message s tr = do {
     h \<leftarrow> spp_handler s;
     let sz = get_message_size s_message;
     let s1 = s\<lparr>spp_handler := Some (h\<lparr>bulk_mode := False\<rparr>)\<rparr>;
     if sz = - 1 then Some (ST_ERR, s1, tr)
     else do {
       (e, r) \<leftarrow> spp_loop (Suc (nat sz)) os srv g s_message
         \<lparr>smsg = s1\<lparr>out_msg := zero_message\<rparr>, spkt = \<lparr>next_data = 0, used = 0, total = of_int sz\<rparr>, scnt = 0,
          bulk_address = 0, spp_tr = tr\<rparr>;
       case e of Return st \<Rightarrow> Some (st, smsg r, spp_tr r)
       | Break st \<Rightarrow> finish_spp os srv g s_message st r
       | Go_on \<Rightarrow> finish_spp os srv g s_message ST_OK r } }"

section \<open>Outcomes\<close>

text \<open>
  \<open>outcome b m P\<close> claims \<open>P\<close> of the result, and that there is one when \<open>b\<close> holds: it is \<open>ensures\<close> for
  true and \<open>whenever\<close> for false, so that one proof serves both the safety of a command that has room
  and the partial correctness of every message.
\<close>

definition outcome :: "bool \<Rightarrow> 'a option \<Rightarrow> ('a \<Rightarrow> bool) \<Rightarrow> bool" where
  "outcome b m P \<longleftrightarrow> (case m of None \<Rightarrow> \<not> b | Some r \<Rightarrow> P r)"

lemma outcome_simps [simp]: "outcome b (Some r) P = P r" "outcome b None P = (\<not> b)"
  by (simp_all add: outcome_def)

lemma outcome_bind [simp]: "outcome b (Option.bind m f) P = outcome b m (\<lambda>r. outcome b (f r) P)"
  by (cases m) simp_all

lemma outcome_Let [simp]: "outcome b (Let x f) P = outcome b (f x) P"
  by (simp add: Let_def)

lemma outcome_conseq: "outcome b m Q \<Longrightarrow> (\<And>r. Q r \<Longrightarrow> P r) \<Longrightarrow> outcome b m P"
  by (cases m) simp_all

lemma outcome_iff: "outcome b m P \<longleftrightarrow> (b \<longrightarrow> ensures m (\<lambda>_. True)) \<and> whenever m P"
  by (cases m) simp_all

lemma outcome_ensures: "ensures m P \<Longrightarrow> outcome b m P"
  by (cases m) simp_all

lemma outcome_True: "outcome True m P = ensures m P"
  by (cases m) simp_all

lemma outcome_False: "outcome False m P = whenever m P"
  by (cases m) simp_all

lemma outcome_arrays [simp]:
  "outcome b (rd xs i) P = (if i < length xs then P (xs ! i) else \<not> b)"
  "outcome b (wrs xs i vs) Q = (if i + length vs \<le> length xs then Q (take i xs @ vs @ drop (i + length vs) xs) else \<not> b)"
  by (simp_all add: rd_def wrs_def)

section \<open>The invariant of the loop\<close>

definition spp_frame :: "ASD_MSG \<Rightarrow> ASD_MSG" where
  "spp_frame s = event_frame (s\<lparr>out_msg := zero_message\<rparr>)"

lemma spp_frame_simps [simp]:
  "spp_frame (s\<lparr>out_msg := m\<rparr>) = spp_frame s" "spp_frame (s\<lparr>spp_handler := p\<rparr>) = spp_frame s"
  "spp_frame (s\<lparr>spp_bulk_out_msg := m\<rparr>) = spp_frame s" "spp_frame (s\<lparr>spp_bulk_response_buffer_count := c\<rparr>) = spp_frame s"
  "spp_frame (s\<lparr>spp_bulk_response_ibi_count := i\<rparr>) = spp_frame s"
  by (simp_all add: spp_frame_def event_frame_def)

lemma spp_frame_event: "event_frame s = event_frame t \<Longrightarrow> spp_frame s = spp_frame t"
proof -
  have "spp_frame s = (event_frame s)\<lparr>out_msg := zero_message\<rparr>" for s
    by (simp add: spp_frame_def event_frame_def)
  then show "event_frame s = event_frame t \<Longrightarrow> spp_frame s = spp_frame t" by simp
qed

definition sinv :: "spp_run \<Rightarrow> bool" where
  "sinv r \<longleftrightarrow> wf_msg (smsg r) \<and> spp_handler (smsg r) \<noteq> None \<and> wf_packet (spkt r) \<and> scnt r \<le> MAX_DATA_SIZE \<and>
     unat (bulk_address r) < MAX_SPP_BUS_DEVICES"

definition snext :: "spp_run \<Rightarrow> spp_exit \<times> spp_run \<Rightarrow> bool" where
  "snext r = (\<lambda>(e, r'). sinv r' \<and> remaining (spkt r') \<le> remaining (spkt r) \<and> total (spkt r') = total (spkt r) \<and>
     sends_framed (spp_tr r) (spp_tr r') \<and> spp_frame (smsg r') = spp_frame (smsg r))"

lemma snext_refl: "sinv r \<Longrightarrow> snext r (e, r)"
  by (simp add: snext_def)

lemma snext_trans: "snext r (e, r1) \<Longrightarrow> snext r1 x \<Longrightarrow> snext r x"
  by (auto simp: snext_def intro: sends_framed_trans)

text \<open>
  What makes a command safe: room for the longest reply to one command that is not checked, a payload
  that does not fill the message buffer to its last byte, no bulk response in progress, and devices that
  settle.
\<close>

definition spp_room :: "spp_run \<Rightarrow> bool" where
  "spp_room r \<longleftrightarrow> scnt r + 259 \<le> MAX_DATA_SIZE \<and> unat (total (spkt r)) < MAX_DATA_SIZE"

definition sctx :: "bool \<Rightarrow> os \<Rightarrow> nat \<Rightarrow> spp_run \<Rightarrow> bool" where
  "sctx b os K r \<longleftrightarrow> sinv r \<and> (b \<longrightarrow> settles os K \<and> no_bulk (smsg r) \<and> spp_room r)"

lemma sctx_pkt:
  assumes "sctx b os K r" "n < 2 ^ 16" "get_packet_data (spkt r) n = Some (i, p)"
  shows "sctx b os K (r\<lparr>spkt := p\<rparr>)" "snext r (e, r\<lparr>spkt := p\<rparr>)" "i + n \<le> MAX_DATA_SIZE"
    "b \<Longrightarrow> i + n < MAX_DATA_SIZE" "remaining p + n = remaining (spkt r)"
proof -
  have wf: "wf_packet (spkt r)" using assms(1) by (simp add: sctx_def sinv_def)
  note w = get_packet_data_wf [OF wf assms(2,3)]
  show "sctx b os K (r\<lparr>spkt := p\<rparr>)" "snext r (e, r\<lparr>spkt := p\<rparr>)" "i + n \<le> MAX_DATA_SIZE" "remaining p + n = remaining (spkt r)"
    using assms(1) w by (auto simp: sctx_def sinv_def snext_def spp_room_def)
  show "i + n < MAX_DATA_SIZE" if b
    using assms(1) w wf_packetD(1,2) [OF w(1)] that by (auto simp: sctx_def spp_room_def)
qed

lemma with_byte_snext:
  assumes "sctx b os K r" "length pl = MAX_DATA_SIZE"
    "\<And>v p. sctx b os K (r\<lparr>spkt := p\<rparr>) \<Longrightarrow> remaining p < remaining (spkt r) \<Longrightarrow>
       outcome b (k v (r\<lparr>spkt := p\<rparr>)) (snext (r\<lparr>spkt := p\<rparr>))"
  shows "outcome b (with_byte pl r k) (snext r)"
proof (cases "get_packet_data (spkt r) 1")
  case None
  then show ?thesis using assms(1) by (simp add: with_byte_def snext_refl sctx_def)
next
  case (Some x)
  obtain i p where x: "x = (i, p)" by force
  note p = sctx_pkt [OF assms(1) _ Some [unfolded x]]
  have "outcome b (k (pl ! i) (r\<lparr>spkt := p\<rparr>)) (snext (r\<lparr>spkt := p\<rparr>))"
    by (rule assms(3)) (use p in simp_all)
  then have "outcome b (k (pl ! i) (r\<lparr>spkt := p\<rparr>)) (snext r)"
    by (rule outcome_conseq) (use p(2) [of Go_on] in \<open>auto intro: snext_trans\<close>)
  then show ?thesis
    using p(3) assms(2) unfolding with_byte_def Some x by (simp add: rd_def)
qed

lemma with_bytes_snext:
  assumes "sctx b os K r" "length pl = MAX_DATA_SIZE"
    "\<And>d p. sctx b os K (r\<lparr>spkt := p\<rparr>) \<Longrightarrow> unat n \<le> length d \<Longrightarrow> unat n < 32768 \<Longrightarrow> (b \<Longrightarrow> d \<noteq> []) \<Longrightarrow>
       outcome b (k d (r\<lparr>spkt := p\<rparr>)) (snext (r\<lparr>spkt := p\<rparr>))"
  shows "outcome b (with_bytes pl n r k) (snext r)"
proof (cases "get_packet_data (spkt r) (unat n)")
  case None
  then show ?thesis using assms(1) by (simp add: with_bytes_def snext_refl sctx_def)
next
  case (Some x)
  obtain i p where x: "x = (i, p)" by force
  have n: "unat n < 2 ^ 16" using unsigned_less [of n] by simp
  note p = sctx_pkt [OF assms(1) n Some [unfolded x]]
  have "outcome b (k (drop i pl) (r\<lparr>spkt := p\<rparr>)) (snext (r\<lparr>spkt := p\<rparr>))"
    by (rule assms(3)) (use p assms(2) in \<open>auto simp: MAX_DATA_SIZE_def\<close>)
  then show ?thesis
    unfolding with_bytes_def Some x option.case prod.case
    by (rule outcome_conseq) (use p(2) [of Go_on] in \<open>auto intro: snext_trans\<close>)
qed

lemma sctx_handler:
  assumes "sctx b os K r"
  obtains h where "spp_handler (smsg r) = Some h" "wf_spp h"
  using assms wf_msgD(7) [of "smsg r"] by (auto simp: sctx_def sinv_def)

lemma sctx_set_spp:
  assumes "sctx b os K r" "wf_spp h"
  shows "sctx b os K (set_spp h r)" "snext r (e, set_spp h r)"
  using assms by (auto simp: sctx_def sinv_def snext_def set_spp_def spp_room_def)

lemma spp_address_snext:
  assumes "sctx b os K r" "length pl = MAX_DATA_SIZE"
    "\<And>a r1. sctx b os K r1 \<Longrightarrow> outcome b (k a r1) (snext r1)"
  shows "outcome b (spp_address pl r k) (snext r)"
  unfolding spp_address_def
proof (rule with_byte_snext [OF assms(1,2)])
  fix v p assume c: "sctx b os K (r\<lparr>spkt := p\<rparr>)"
  obtain h where h: "spp_handler (smsg r) = Some h" using sctx_handler [OF assms(1)] .
  have "snext (r\<lparr>spkt := p\<rparr>) (Break ST_ERR, r\<lparr>spkt := p\<rparr>)" using c by (simp add: snext_refl sctx_def)
  moreover have "outcome b (k v (r\<lparr>spkt := p, bulk_address := v\<rparr>)) (snext (r\<lparr>spkt := p\<rparr>))" if "unat v < MAX_SPP_BUS_DEVICES"
  proof -
    have "sctx b os K (r\<lparr>spkt := p, bulk_address := v\<rparr>)" using c that by (auto simp: sctx_def sinv_def spp_room_def)
    from assms(3) [OF this] show ?thesis by (rule outcome_conseq) (auto simp: snext_def)
  qed
  ultimately show "outcome b (case spp_handler (smsg (r\<lparr>spkt := p\<rparr>)) of None \<Rightarrow> None
     | Some h \<Rightarrow>
         (if \<not> bulk_mode h then k v (r\<lparr>spkt := p\<rparr>)
          else if unat v \<ge> MAX_SPP_BUS_DEVICES then Some (Break ST_ERR, r\<lparr>spkt := p\<rparr>)
          else k v (r\<lparr>spkt := p, bulk_address := v\<rparr>))) (snext (r\<lparr>spkt := p\<rparr>))"
    using h assms(3) [OF c] by simp
qed

lemma spp_select_snext:
  assumes "sctx b os K r"
    "\<And>h. wf_spp h \<Longrightarrow> unat a < MAX_SPP_BUS_DEVICES \<Longrightarrow> sctx b os K (set_spp h r) \<Longrightarrow>
       outcome b (k h (set_spp h r)) (snext (set_spp h r))"
  shows "outcome b (spp_select a r k) (snext r)"
proof -
  obtain h where h: "spp_handler (smsg r) = Some h" "wf_spp h" using sctx_handler [OF assms(1)] .
  have sel: "ensures (spp_device_select h a) (\<lambda>(st, h1). wf_spp h1 \<and> (st = ST_OK \<longrightarrow> unat a < MAX_SPP_BUS_DEVICES))"
    by (rule ensures_conseq [OF ensures_whenever [OF spp_device_select_wf [OF h(2)],
          where Q = "\<lambda>(st, h1). st = ST_OK \<longrightarrow> unat a < MAX_SPP_BUS_DEVICES"]])
      (auto simp: spp_device_select_def whenever_arrays)
  have go: "outcome b (k h1 (set_spp h1 r)) (snext r)" if "wf_spp h1" "unat a < MAX_SPP_BUS_DEVICES" for h1
    using assms(2) [OF that] sctx_set_spp [OF assms(1) that(1)]
    by (auto elim!: outcome_conseq intro: snext_trans)
  show ?thesis
    unfolding spp_select_def h option.case outcome_bind
    by (rule outcome_conseq [OF outcome_ensures [OF sel]]) (use go sctx_set_spp [OF assms(1)] in auto)
qed

text \<open>After a handshake a bulk response may have grown; only the room for the reply still counts.\<close>

definition sroomy :: "bool \<Rightarrow> spp_run \<Rightarrow> bool" where
  "sroomy b r \<longleftrightarrow> sinv r \<and> (b \<longrightarrow> spp_room r)"

lemma spp_handshake_snext:
  assumes "sctx b os K r" "wf_server srv"
    "\<And>h r1. wf_spp h \<Longrightarrow> spp_handler (smsg r1) = Some h \<Longrightarrow> sroomy b r1 \<Longrightarrow> outcome b (k h r1) (snext r1)"
  shows "outcome b (spp_handshake os srv g a r k) (snext r)"
  unfolding spp_handshake_def
proof (rule spp_select_snext [OF assms(1)])
  fix h assume h: "wf_spp h" "unat a < MAX_SPP_BUS_DEVICES" and c: "sctx b os K (set_spp h r)"
  define q where "q = set_spp h r"
  have q: "sctx b os K q" "wf_msg (smsg q)" using c by (simp_all add: q_def sctx_def sinv_def)
  have wait: "outcome b (asd_msg_check_spp_ibi os srv g a (smsg q) (spp_tr q)) (event_next (smsg q) (spp_tr q))"
    unfolding outcome_iff
  proof (intro conjI impI)
    assume b
    then show "ensures (asd_msg_check_spp_ibi os srv g a (smsg q) (spp_tr q)) (\<lambda>_. True)"
      using q by (intro ensures_conseq [OF check_spp_ibi_returns(1) [OF _ _ _ assms(2) h(2)]]) (auto simp: sctx_def)
  next
    show "whenever (asd_msg_check_spp_ibi os srv g a (smsg q) (spp_tr q)) (event_next (smsg q) (spp_tr q))"
      unfolding asd_msg_check_spp_ibi_def by (rule check_spp_ibi_until_next [OF q(2) assms(2)])
  qed
  have len: "unat a < length (threshold_status h)" using h by (simp add: wf_spp_def)
  have go: "outcome b (do { h2 \<leftarrow> spp_handler s2; k h2 (q\<lparr>smsg := s2, spp_tr := tr2\<rparr>) }) (snext q)"
    if n: "event_next (smsg q) (spp_tr q) (st, s2, tr2)" for st s2 tr2
  proof -
    have s2: "wf_msg s2" "spp_handler s2 \<noteq> None" "spp_frame s2 = spp_frame (smsg q)" "sends_framed (spp_tr q) tr2"
      using n q(1) by (auto simp: event_next_def sctx_def sinv_def intro: spp_frame_event)
    then obtain h2 where h2: "spp_handler s2 = Some h2" "wf_spp h2" using wf_msgD(7) [OF s2(1)] by auto
    have r1: "sroomy b (q\<lparr>smsg := s2, spp_tr := tr2\<rparr>)" "snext q (Go_on, q\<lparr>smsg := s2, spp_tr := tr2\<rparr>)"
      using q(1) s2 h2 by (auto simp: sctx_def sroomy_def sinv_def spp_room_def snext_def)
    show ?thesis
      using assms(3) [OF h2(2) _ r1(1)] h2(1) by (auto elim!: outcome_conseq intro: snext_trans [OF r1(2)])
  qed
  have "outcome b (do { h2 \<leftarrow> spp_handler (smsg q); k h2 q }) (snext q)"
    using go [OF event_next_refl [OF q(2)]] by (simp del: outcome_bind)
  then show "outcome b (do {
     busy \<leftarrow> rd (threshold_status h) (unat a);
     (st, s2, tr2) \<leftarrow> (if busy then asd_msg_check_spp_ibi os srv g a (smsg (set_spp h r)) (spp_tr (set_spp h r))
                      else Some (ST_OK, smsg (set_spp h r), spp_tr (set_spp h r)));
     h2 \<leftarrow> spp_handler s2;
     k h2 (set_spp h r\<lparr>smsg := s2, spp_tr := tr2\<rparr>) }) (snext (set_spp h r))"
    unfolding q_def [symmetric] rd_Some [OF len] bind.bind_lunit
    using go by (auto intro!: outcome_conseq [OF wait] simp del: outcome_bind
        simp: outcome_bind [where m = "asd_msg_check_spp_ibi os srv g a (smsg q) (spp_tr q)"])
qed

lemma put_spp_snext:
  assumes "sinv r" "b \<Longrightarrow> scnt r + length bs \<le> MAX_DATA_SIZE"
  shows "outcome b (put_spp bs r) (\<lambda>r2. snext r (e, r2) \<and> scnt r2 = scnt r + length bs)"
proof -
  have len: "length (buffer (out_msg (smsg r))) = MAX_DATA_SIZE"
    using assms(1) by (simp add: sinv_def wf_msg_def wf_message_def)
  show ?thesis
    using assms len
    by (auto simp: put_spp_def snext_def sinv_def wf_message_def)
qed

lemma put_spp_exit:
  assumes "sinv r" "b \<Longrightarrow> scnt r + length bs \<le> MAX_DATA_SIZE"
  shows "outcome b (do { r2 \<leftarrow> put_spp bs r; Some (e, r2) }) (snext r)"
  unfolding outcome_bind by (rule outcome_conseq [OF put_spp_snext [OF assms, where e = e]]) auto

lemma put_after:
  assumes "snext r1 (e1, r2)" "b \<Longrightarrow> scnt r2 + length bs \<le> MAX_DATA_SIZE"
  shows "outcome b (do { r3 \<leftarrow> put_spp bs r2; Some (e, r3) }) (snext r1)"
proof (rule outcome_conseq [OF put_spp_exit])
  show "sinv r2" using assms(1) by (simp add: snext_def)
qed (use assms snext_trans in auto)

lemma sroomyD: "sroomy b r \<Longrightarrow> b \<Longrightarrow> scnt r + 259 \<le> MAX_DATA_SIZE" "sroomy b r \<Longrightarrow> sinv r"
  by (simp_all add: sroomy_def spp_room_def)

section \<open>Commands\<close>

lemma spp_send_command_snext:
  assumes "sctx b os K r" "length pl = MAX_DATA_SIZE" "wf_server srv"
  shows "outcome b (spp_send_command os srv g pl cmd r) (snext r)"
  unfolding spp_send_command_def
proof (rule spp_address_snext [OF assms(1,2)], rule with_byte_snext [OF _ assms(2)], assumption,
    rule with_byte_snext [OF _ assms(2)], assumption, rule with_bytes_snext [OF _ assms(2)], assumption,
    rule spp_handshake_snext [OF _ assms(3)], assumption)
  fix a msb lsb h r1 and data :: "u8 list"
  assume d: "unat (be16 msb lsb) \<le> length data" "unat (be16 msb lsb) < 32768" and h: "wf_spp h"
    "spp_handler (smsg r1) = Some h" and r1: "sroomy b r1"
  have n: "snext r1 (Go_on, set_spp h1 (r1\<lparr>spp_tr := tr1\<rparr>))" "scnt (set_spp h1 (r1\<lparr>spp_tr := tr1\<rparr>)) = scnt r1"
    if "wf_spp h1" "sent_on tr1 = sent_on (spp_tr r1)" for h1 tr1
    using r1 that by (auto simp: sroomy_def sinv_def snext_def set_spp_def sends_framed_quiet)
  show "outcome b (do {
         (st, h1, tr1) \<leftarrow> spp_send os h (be16 msb lsb) data (spp_tr r1);
         let r2 = set_spp h1 (r1\<lparr>spp_tr := tr1\<rparr>);
         if st = ST_OK then do { r2 \<leftarrow> put_spp [cmd, a, msb, lsb] r2; Some (Go_on, r2) }
         else do { r2 \<leftarrow> put_spp [cmd, a, 0, 0] r2; Some (Break ST_ERR, r2) } }) (snext r1)"
    unfolding outcome_bind [where m = "spp_send os h (be16 msb lsb) data (spp_tr r1)"]
    by (rule outcome_conseq [OF outcome_ensures [OF ensures_whenever [OF spp_send_wf [OF h(1) d(2,1)] spp_send_quiet]]])
      (use sroomyD(1) [OF r1] in \<open>auto simp del: outcome_bind simp: n(2) intro!: put_after [OF n(1)]\<close>)
qed

lemma spp_send_cmd_command_snext:
  assumes "sctx b os K r" "length pl = MAX_DATA_SIZE" "wf_server srv"
  shows "outcome b (spp_send_cmd_command os srv g pl cmd r) (snext r)"
  unfolding spp_send_cmd_command_def
proof (rule spp_address_snext [OF assms(1,2)], rule with_byte_snext [OF _ assms(2)], assumption,
    rule with_byte_snext [OF _ assms(2)], assumption, rule with_byte_snext [OF _ assms(2)], assumption,
    rule with_bytes_snext [OF _ assms(2)], assumption, rule spp_handshake_snext [OF _ assms(3)], assumption)
  fix a msb lsb c h r1 and data :: "u8 list"
  assume d: "unat (be16 msb lsb) \<le> length data" "unat (be16 msb lsb) < 32768" "b \<Longrightarrow> data \<noteq> []" and h: "wf_spp h"
    "spp_handler (smsg r1) = Some h" and r1: "sroomy b r1"
  have n: "snext r1 (Go_on, r1\<lparr>spp_tr := tr1\<rparr>)" if "sent_on tr1 = sent_on (spp_tr r1)" for tr1
    using r1 that by (auto simp: sroomy_def sinv_def snext_def sends_framed_quiet)
  have op: "outcome b (spp_send_cmd os h c (be16 msb lsb) data (spp_tr r1)) (\<lambda>(st, tr'). sent_on tr' = sent_on (spp_tr r1))"
    unfolding outcome_iff using spp_send_cmd_ok [OF d(2,1)] d(3) spp_send_cmd_quiet by blast
  show "outcome b (do {
         (st, tr1) \<leftarrow> spp_send_cmd os h c (be16 msb lsb) data (spp_tr r1);
         let r2 = r1\<lparr>spp_tr := tr1\<rparr>;
         if st = ST_OK then do { r2 \<leftarrow> put_spp [cmd, a, msb, lsb, c] r2; Some (Go_on, r2) }
         else do { r2 \<leftarrow> put_spp [cmd AND SPP_CMD_MASK, a, 0, 0, c] r2; Some (Break ST_ERR, r2) } }) (snext r1)"
    unfolding outcome_bind [where m = "spp_send_cmd os h c (be16 msb lsb) data (spp_tr r1)"]
    by (rule outcome_conseq [OF op]) (use sroomyD(1) [OF r1] in \<open>auto simp del: outcome_bind intro!: put_after [OF n]\<close>)
qed

lemma put_count:
  assumes "snext r1 (e1, r2)" "b \<Longrightarrow> scnt r2 + length bs \<le> MAX_DATA_SIZE" "scnt r2 + length bs + k \<le> MAX_DATA_SIZE"
  shows "outcome b (do { r3 \<leftarrow> put_spp bs r2; Some (e, r3\<lparr>scnt := scnt r3 + k\<rparr>) }) (snext r1)"
proof -
  have i: "sinv r2" using assms(1) by (simp add: snext_def)
  show ?thesis
    unfolding outcome_bind
    by (rule outcome_conseq [OF put_spp_snext [OF i, where e = e]])
      (use assms in \<open>auto simp: snext_def sinv_def intro: sends_framed_trans\<close>)
qed

lemma spp_receive_command_snext:
  assumes "sctx b os K r" "length pl = MAX_DATA_SIZE"
  shows "outcome b (spp_receive_command os pl cmd r) (snext r)"
  unfolding spp_receive_command_def
proof (rule with_byte_snext [OF assms], rule with_byte_snext [OF _ assms(2)], assumption,
    rule with_byte_snext [OF _ assms(2)], assumption, rule spp_select_snext, assumption)
  fix a msb lsb h and p :: packet_data and r1 :: spp_run
  define q where "q = set_spp h r1"
  assume h: "wf_spp h" and c: "sctx b os K (set_spp h r1)"
  have q: "sinv q" "b \<Longrightarrow> scnt q + 259 \<le> MAX_DATA_SIZE" "length (buffer (out_msg (smsg q))) = MAX_DATA_SIZE"
    using c by (auto simp: q_def sctx_def sinv_def spp_room_def wf_msg_def wf_message_def)
  define bf where "bf = drop (scnt q + 4) (buffer (out_msg (smsg q)))"
  have op: "outcome b (spp_receive os h bf (spp_tr q)) (\<lambda>(st, n, h1, bf1, tr1). wf_spp h1 \<and> length bf1 = length bf \<and>
      unat n \<le> 255 \<and> sent_on tr1 = sent_on (spp_tr q) \<and> 255 \<le> length bf)"
  proof (cases "255 \<le> length bf")
    case True
    show ?thesis
      by (rule outcome_conseq [OF outcome_ensures [OF ensures_whenever [OF spp_receive_wf [OF h True] spp_receive_quiet]]])
        (use True in auto)
  next
    case False
    then show ?thesis using q(2,3) by (simp add: spp_receive_short bf_def outcome_def) auto
  qed
  have n: "snext q (Go_on, q\<lparr>smsg := (smsg q)\<lparr>out_msg := (out_msg (smsg q))\<lparr>buffer := take (scnt q + 4) (buffer (out_msg (smsg q))) @ bf1\<rparr>,
       spp_handler := Some h1\<rparr>, spp_tr := tr1\<rparr>)" if "wf_spp h1" "length bf1 = length bf" "sent_on tr1 = sent_on (spp_tr q)" "255 \<le> length bf" for h1 bf1 tr1
    using that q by (auto simp: snext_def sinv_def wf_message_def bf_def sends_framed_quiet)
  have fit: "255 \<le> length bf \<Longrightarrow> scnt q + 259 \<le> MAX_DATA_SIZE" using q(3) by (simp add: bf_def)
  show "outcome b (do {
         let out = out_msg (smsg (set_spp h r1));
         (st, n, h1, bf, tr1) \<leftarrow> spp_receive os h (drop (scnt (set_spp h r1) + 4) (buffer out)) (spp_tr (set_spp h r1));
         let r2 = set_spp h r1\<lparr>smsg := (smsg (set_spp h r1))\<lparr>out_msg := out\<lparr>buffer := take (scnt (set_spp h r1) + 4) (buffer out) @ bf\<rparr>, spp_handler := Some h1\<rparr>,
                    spp_tr := tr1\<rparr>;
         if st = ST_OK then do {
           r2 \<leftarrow> put_spp [cmd, a, msb, lsb] r2;
           Some (Go_on, r2\<lparr>scnt := scnt r2 + unat n\<rparr>) }
         else do { r2 \<leftarrow> put_spp [cmd, a, 0, 0] r2; Some (Go_on, r2) } }) (snext (set_spp h r1))"
    unfolding q_def [symmetric] outcome_Let bf_def [symmetric] outcome_bind [where m = "spp_receive os h bf (spp_tr q)"]
    by (rule outcome_conseq [OF op]) (use fit in \<open>auto simp del: outcome_bind intro!: put_after [OF n] put_count [OF n]\<close>)
qed

lemma spp_transfer_snext:
  assumes r1: "sroomy b r1" and h: "spp_handler (smsg r1) = Some h"
    and d: "unat (be16 msb lsb) \<le> length data" "unat (be16 msb lsb) < 32768" "b \<Longrightarrow> data \<noteq> []"
  shows "outcome b (spp_transfer os cmd a msb lsb c rsize data h r1) (snext r1)"
proof (cases "scnt r1 + 7 + unat rsize > MAX_DATA_SIZE")
  case True
  then show ?thesis using r1 by (simp add: spp_transfer_def snext_refl sroomy_def)
next
  case False
  define out where "out = out_msg (smsg r1)"
  define bf where "bf = drop (scnt r1 + 7) (buffer out)"
  have len: "length (buffer out) = MAX_DATA_SIZE" "length bf = MAX_DATA_SIZE - (scnt r1 + 7)"
    using r1 by (auto simp: out_def bf_def sroomy_def sinv_def wf_msg_def wf_message_def)
  have room: "b \<Longrightarrow> 32 \<le> length bf" using sroomyD(1) [OF r1] len by simp
  have op: "outcome b (spp_send_receive_cmd os h c (be16 msb lsb) data bf (spp_tr r1)) (\<lambda>(st, bf1, tr1).
      sent_on tr1 = sent_on (spp_tr r1) \<and> length bf1 = length bf)"
    unfolding outcome_iff
  proof (intro conjI impI)
    assume b
    from spp_send_receive_cmd_ok [OF d(2,1) d(3) room, OF this this]
    show "ensures (spp_send_receive_cmd os h c (be16 msb lsb) data bf (spp_tr r1)) (\<lambda>_. True)"
      by (rule ensures_conseq) simp
  qed (rule spp_send_receive_cmd_quiet)
  have n: "snext r1 (Go_on, r1\<lparr>smsg := (smsg r1)\<lparr>out_msg := out\<lparr>buffer := take (scnt r1 + 7) (buffer out) @ bf1\<rparr>\<rparr>, spp_tr := tr1\<rparr>)"
    if "length bf1 = length bf" "sent_on tr1 = sent_on (spp_tr r1)" for bf1 tr1
    using that r1 len False by (auto simp: snext_def sinv_def sroomy_def wf_message_def sends_framed_quiet)
  show ?thesis
    unfolding spp_transfer_def if_not_P [OF False] outcome_Let out_def [symmetric] bf_def [symmetric]
      outcome_bind [where m = "spp_send_receive_cmd os h c (be16 msb lsb) data bf (spp_tr r1)"]
    by (rule outcome_conseq [OF op])
      (use False in \<open>auto simp del: outcome_bind intro!: put_after [OF n] put_count [OF n]\<close>)
qed

lemma spp_send_receive_command_snext:
  assumes "sctx b os K r" "length pl = MAX_DATA_SIZE" "wf_server srv"
  shows "outcome b (spp_send_receive_command os srv g pl cmd r) (snext r)"
  unfolding spp_send_receive_command_def
  by (rule spp_address_snext [OF assms(1,2)], (rule with_byte_snext [OF _ assms(2)], assumption)+,
      rule with_bytes_snext [OF _ assms(2)], assumption, rule spp_handshake_snext [OF _ assms(3)], assumption,
      rule spp_transfer_snext; assumption)

lemma spp_sim_command_snext:
  assumes "sctx b os K r" "length pl = MAX_DATA_SIZE"
  shows "outcome b (spp_sim_command pl cmd r) (snext r)"
  unfolding spp_sim_command_def Let_def
proof (rule with_byte_snext [OF assms], rule with_byte_snext [OF _ assms(2)], assumption)
  fix msb lsb and r1 :: spp_run and p :: packet_data
  assume c: "sctx b os K (r1\<lparr>spkt := p\<rparr>)"
  have fin: "outcome b (case spp_handler (smsg q) of None \<Rightarrow> None
      | Some h \<Rightarrow>
          (if spp_set_sim_data_cmd h (be16 msb lsb) = ST_OK
           then do { r2 \<leftarrow> put_spp [cmd, lsb] q; Some (Go_on, r2) }
           else do { r2 \<leftarrow> put_spp [cmd AND SPP_CMD_MASK, 0] q; Some (Break ST_ERR, r2) })) (snext q)"
    if q: "sctx b os K q" for q
  proof -
    obtain h where h: "spp_handler (smsg q) = Some h" using sctx_handler [OF q] .
    have "sinv q" "b \<Longrightarrow> scnt q + 259 \<le> MAX_DATA_SIZE" using q by (auto simp: sctx_def spp_room_def)
    then show ?thesis
      by (auto simp: h spp_set_sim_data_cmd_def simp del: outcome_bind intro!: put_spp_exit)
  qed
  show "outcome b (if be16 msb lsb > 0
      then with_bytes pl (be16 msb lsb) (r1\<lparr>spkt := p\<rparr>) (\<lambda>_ q. case spp_handler (smsg q) of None \<Rightarrow> None
      | Some h \<Rightarrow>
          (if spp_set_sim_data_cmd h (be16 msb lsb) = ST_OK
           then do { r2 \<leftarrow> put_spp [cmd, lsb] q; Some (Go_on, r2) }
           else do { r2 \<leftarrow> put_spp [cmd AND SPP_CMD_MASK, 0] q; Some (Break ST_ERR, r2) }))
      else case spp_handler (smsg (r1\<lparr>spkt := p\<rparr>)) of None \<Rightarrow> None
      | Some h \<Rightarrow>
          (if spp_set_sim_data_cmd h (be16 msb lsb) = ST_OK
           then do { r2 \<leftarrow> put_spp [cmd, lsb] (r1\<lparr>spkt := p\<rparr>); Some (Go_on, r2) }
           else do { r2 \<leftarrow> put_spp [cmd AND SPP_CMD_MASK, 0] (r1\<lparr>spkt := p\<rparr>); Some (Break ST_ERR, r2) })) (snext (r1\<lparr>spkt := p\<rparr>))"
    using fin [OF c] by (simp del: outcome_bind) (intro impI with_bytes_snext [OF c assms(2)] fin)
qed

lemma spp_bulk_command_snext:
  assumes "sctx b os K r" "wf_message m" "wf_server srv"
  shows "outcome b (spp_bulk_command os srv m cmd r) (snext r)"
proof -
  have pl: "length (buffer m) = MAX_DATA_SIZE" using assms(2) by (simp add: wf_message_def)
  have tail: "outcome b (do {
       let s = smsg r1;
       let out = (out_msg s)\<lparr>header := spp_response_header m (scnt r1)\<rparr>;
       (st, tr1) \<leftarrow> send_response os srv out (spp_tr r1);
       let r2 = r1\<lparr>smsg := s\<lparr>out_msg := out\<rparr>, spp_tr := tr1\<rparr>;
       if st \<noteq> ST_OK then Some (Return ST_ERR, r2)
       else case spp_handler s of None \<Rightarrow> None
       | Some h \<Rightarrow>
           Some (Go_on, r2\<lparr>smsg := (smsg r2)\<lparr>spp_bulk_response_buffer_count := 2, spp_bulk_response_ibi_count := 0,
                                             spp_handler := Some (h\<lparr>bulk_mode := True\<rparr>)\<rparr>\<rparr>) }) (snext q)"
    if n: "snext q (Go_on, r1)" for q r1
  proof -
    have i: "sinv r1" using n by (simp add: snext_def)
    then obtain h where h: "spp_handler (smsg r1) = Some h" "wf_spp h"
      using wf_msgD(7) [of "smsg r1"] by (auto simp: sinv_def)
    have wf: "wf_message (out_msg (smsg r1))" using i by (simp add: sinv_def wf_msg_def)
    have "ensures (send_response os srv ((out_msg (smsg r1))\<lparr>header := spp_response_header m (scnt r1)\<rparr>) (spp_tr r1))
      (\<lambda>(st, tr'). sends_framed (spp_tr q) tr')"
      by (rule ensures_conseq [OF send_response_framed [OF assms(3)]])
        (use n wf in \<open>auto simp: snext_def intro: sends_framed_trans\<close>)
    then show ?thesis
      using n h wf
      by (intro outcome_ensures) (auto simp: snext_def sinv_def Let_def elim!: ensures_conseq)
  qed
  show ?thesis
    unfolding spp_bulk_command_def
  proof (rule with_byte_snext [OF assms(1) pl])
    fix v p assume c: "sctx b os K (r\<lparr>spkt := p\<rparr>)"
    define q where "q = r\<lparr>spkt := p\<rparr>"
    define q1 where "q1 = q\<lparr>smsg := (smsg q)\<lparr>spp_bulk_out_msg := zero_message\<rparr>\<rparr>"
    have i: "sinv q1" "b \<Longrightarrow> scnt q1 + length [cmd, v] \<le> MAX_DATA_SIZE" "snext q (Go_on, q1)"
      using c by (auto simp: q1_def q_def sctx_def sinv_def spp_room_def snext_def)
    have "outcome b (put_spp [cmd, v] q1) (\<lambda>r1. snext q (Go_on, r1))"
      by (rule outcome_conseq [OF put_spp_snext [OF i(1,2), where e = Go_on]]) (use i(3) in \<open>auto intro: snext_trans\<close>)
    from outcome_conseq [OF this tail] show "outcome b (do {
       r1 \<leftarrow> put_spp [cmd, v] (r\<lparr>spkt := p\<rparr>\<lparr>smsg := (smsg (r\<lparr>spkt := p\<rparr>))\<lparr>spp_bulk_out_msg := zero_message\<rparr>\<rparr>);
       let s = smsg r1;
       let out = (out_msg s)\<lparr>header := spp_response_header m (scnt r1)\<rparr>;
       (st, tr1) \<leftarrow> send_response os srv out (spp_tr r1);
       let r2 = r1\<lparr>smsg := s\<lparr>out_msg := out\<rparr>, spp_tr := tr1\<rparr>;
       if st \<noteq> ST_OK then Some (Return ST_ERR, r2)
       else case spp_handler s of None \<Rightarrow> None
       | Some h \<Rightarrow>
           Some (Go_on, r2\<lparr>smsg := (smsg r2)\<lparr>spp_bulk_response_buffer_count := 2, spp_bulk_response_ibi_count := 0,
                                             spp_handler := Some (h\<lparr>bulk_mode := True\<rparr>)\<rparr>\<rparr>) }) (snext (r\<lparr>spkt := p\<rparr>))"
      unfolding q_def [symmetric] q1_def [symmetric] outcome_bind [where m = "put_spp [cmd, v] q1"] .
  qed
qed

lemma spp_dispatch_snext:
  assumes "sctx b os K r" "wf_message m" "wf_server srv"
  shows "outcome b (spp_dispatch os srv g m cmd r) (snext r)"
proof -
  have pl: "length (buffer m) = MAX_DATA_SIZE" using assms(2) by (simp add: wf_message_def)
  have refl: "snext r (e, r)" for e using assms(1) by (simp add: snext_refl sctx_def)
  show ?thesis
    unfolding spp_dispatch_def
    using refl spp_send_command_snext [OF assms(1) pl assms(3)] spp_receive_command_snext [OF assms(1) pl]
      spp_send_cmd_command_snext [OF assms(1) pl assms(3)] spp_send_receive_command_snext [OF assms(1) pl assms(3)]
      spp_sim_command_snext [OF assms(1) pl] spp_bulk_command_snext [OF assms]
    by simp
qed

lemma spp_step_snext:
  assumes "sctx b os K r" "wf_message m" "wf_server srv"
  shows "outcome b (spp_step os srv g m r) (snext r)"
proof (cases "scnt r \<ge> MAX_DATA_SIZE")
  case True
  then show ?thesis using assms(1) by (simp add: spp_step_def snext_refl sctx_def)
next
  case False
  have pl: "length (buffer m) = MAX_DATA_SIZE" using assms(2) by (simp add: wf_message_def)
  show ?thesis
    unfolding spp_step_def if_not_P [OF False]
    by (rule with_byte_snext [OF assms(1) pl]) (rule spp_dispatch_snext [OF _ assms(2,3)])
qed

section \<open>Messages\<close>

lemma spp_step_less:
  assumes "sctx b os K r" "wf_message m" "wf_server srv"
  shows "outcome b (spp_step os srv g m r) (\<lambda>(e, r'). snext r (e, r') \<and> (e = Go_on \<longrightarrow> remaining (spkt r') < remaining (spkt r)))"
proof -
  have less: "whenever (spp_step os srv g m r) (\<lambda>(e, r'). e = Go_on \<longrightarrow> remaining (spkt r') < remaining (spkt r))"
  proof (cases "scnt r \<ge> MAX_DATA_SIZE \<or> get_packet_data (spkt r) 1 = None")
    case True
    then show ?thesis by (auto simp: spp_step_def with_byte_def)
  next
    case False
    then obtain i p where p: "get_packet_data (spkt r) 1 = Some (i, p)" by auto
    have c: "sctx False os K r" using assms(1) by (simp add: sctx_def)
    note q = sctx_pkt [OF c _ p]
    have d: "whenever (spp_dispatch os srv g m v (r\<lparr>spkt := p\<rparr>)) (snext (r\<lparr>spkt := p\<rparr>))" for v
      using spp_dispatch_snext [OF q(1) assms(2,3)] by (simp add: outcome_False)
    have "whenever (spp_dispatch os srv g m v (r\<lparr>spkt := p\<rparr>)) (\<lambda>(e, r'). e = Go_on \<longrightarrow> remaining (spkt r') < remaining (spkt r))" for v
      by (rule whenever_conseq [OF d]) (use q(5) in \<open>auto simp: snext_def\<close>)
    then show ?thesis
      using False p by (auto simp: spp_step_def with_byte_def whenever_arrays)
  qed
  show ?thesis
    using spp_step_snext [OF assms] less unfolding outcome_iff whenever_iff by fastforce
qed

lemma spp_loop_next:
  assumes "sinv r" "wf_message m" "wf_server srv"
  shows "whenever (spp_loop fuel os srv g m r) (snext r)"
  using assms(1)
proof (induction fuel arbitrary: r)
  case (Suc fuel)
  have c: "sctx False os 0 r" using Suc.prems by (simp add: sctx_def)
  have "whenever (spp_step os srv g m r) (snext r)"
    using spp_step_snext [OF c assms(2,3)] by (simp add: outcome_False)
  moreover have "whenever (case e of Go_on \<Rightarrow> spp_loop fuel os srv g m r1 | _ \<Rightarrow> Some (e, r1)) (snext r)"
    if n: "snext r (e, r1)" for e r1
  proof (cases e)
    case Go_on
    have "whenever (spp_loop fuel os srv g m r1) (snext r1)" using n by (intro Suc.IH) (simp add: snext_def)
    then show ?thesis using Go_on n by (auto elim!: whenever_conseq intro: snext_trans)
  qed (use n in simp_all)
  ultimately show ?case
    using Suc.prems by (auto simp: snext_refl elim!: whenever_conseq)
qed simp

text \<open>The fuel does not matter once it exceeds the bytes that remain: every command consumes one.\<close>

lemma spp_loop_fuel:
  assumes "sinv r" "wf_message m" "wf_server srv" "remaining (spkt r) < f1" "f1 \<le> f2"
  shows "spp_loop f2 os srv g m r = spp_loop f1 os srv g m r"
  using assms(1,4,5)
proof (induction f1 arbitrary: f2 r)
  case (Suc f1)
  then obtain f where f: "f2 = Suc f" "f1 \<le> f" by (cases f2) auto
  have c: "sctx False os 0 r" using Suc.prems by (simp add: sctx_def)
  have step: "snext r (e, r1) \<and> (e = Go_on \<longrightarrow> remaining (spkt r1) < remaining (spkt r))"
    if "spp_step os srv g m r = Some (e, r1)" for e r1
    using spp_step_less [OF c assms(2,3), of g] that by (simp add: outcome_False whenever_iff)
  have "(case e of Go_on \<Rightarrow> spp_loop f os srv g m r1 | _ \<Rightarrow> Some (e, r1))
      = (case e of Go_on \<Rightarrow> spp_loop f1 os srv g m r1 | _ \<Rightarrow> Some (e, r1))"
    if "spp_step os srv g m r = Some (e, r1)" for e r1
    using step [OF that] Suc.IH [of r1 f] Suc.prems(2) f(2) by (auto simp: snext_def split: spp_exit.split)
  then show ?case
    by (cases "spp_step os srv g m r") (auto simp: f(1) split: prod.split)
qed simp

declare spp_loop.simps [simp del]

lemma spp_wait_next:
  assumes "wf_msg s" "wf_server srv"
  shows "whenever (spp_wait_if c (check_spp_ibi_until os srv g ready) (s, tr)) (\<lambda>(s', tr'). event_next s tr (ST_OK, s', tr'))"
  using check_spp_ibi_until_next [OF assms, of os g ready tr] event_next_refl [OF assms(1)]
  by (auto simp: spp_wait_if_def event_next_def elim!: whenever_conseq)

definition spp_reply :: "ASD_MSG \<Rightarrow> trace \<Rightarrow> STATUS \<times> ASD_MSG \<times> trace \<Rightarrow> bool" where
  "spp_reply s tr = (\<lambda>(st, s', tr'). wf_msg s' \<and> spp_frame s' = spp_frame s \<and> sends_framed tr tr')"

lemma event_spp_reply: "event_next s tr (st, s', tr') \<Longrightarrow> spp_reply s tr (st, s', tr')"
  by (auto simp: event_next_def spp_reply_def intro: spp_frame_event)

lemma spp_reply_trans: "spp_reply s tr (st, s1, tr1) \<Longrightarrow> spp_reply s1 tr1 x \<Longrightarrow> spp_reply s tr x"
  by (auto simp: spp_reply_def intro: sends_framed_trans)

lemma send_collected_next:
  assumes "wf_msg s" "wf_server srv"
  shows "whenever (send_collected os srv s tr) (spp_reply s tr)"
  unfolding whenever_iff
proof (intro allI impI)
  fix x assume "send_collected os srv s tr = Some x"
  then obtain st s1 tr1 h where op: "send_bulk_bpk_event os srv (spp_bulk_response_buffer_count s) s tr = Some (st, s1, tr1)"
    "spp_handler s1 = Some h" and x: "x = (st, s1\<lparr>spp_bulk_response_buffer_count := 0, spp_bulk_response_ibi_count := 0,
       spp_handler := Some (h\<lparr>bulk_mode := False\<rparr>)\<rparr>, tr1)"
    by (auto simp: send_collected_def bind_eq_Some_conv)
  have n: "event_next s tr (st, s1, tr1)"
    using send_bulk_bpk_event_next [OF assms, of os "spp_bulk_response_buffer_count s" tr] by (simp add: op)
  then have "wf_msg s1" by (simp add: event_next_def)
  then have "wf_spp h" using wf_msgD(7) [of s1] op(2) by simp
  then show "spp_reply s tr x"
    using event_spp_reply [OF n] by (simp add: spp_reply_def x)
qed

lemma finish_bulk_next:
  assumes "wf_msg s" "wf_server srv" "unat a < MAX_SPP_BUS_DEVICES"
  shows "whenever (finish_bulk os srv g a s tr) (spp_reply s tr)"
  unfolding whenever_iff
proof (intro allI impI)
  fix x assume "finish_bulk os srv g a s tr = Some x"
  then obtain c s1 tr1 d s2 tr2 where w1: "spp_wait_if c (asd_msg_check_spp_ibi os srv g a) (s, tr) = Some (s1, tr1)"
    and w2: "spp_wait_if d (asd_msg_check_spp_ibi_data os srv g a) (s1, tr1) = Some (s2, tr2)"
    and x: "send_collected os srv s2 tr2 = Some x"
    using assms(3) by (auto simp: finish_bulk_def bind_eq_Some_conv)
  have n1: "event_next s tr (ST_OK, s1, tr1)"
    using spp_wait_next [OF assms(1,2)] w1 by (auto simp: asd_msg_check_spp_ibi_def whenever_iff)
  then have wf1: "wf_msg s1" by (simp add: event_next_def)
  have n2: "event_next s1 tr1 (ST_OK, s2, tr2)"
    using spp_wait_next [OF wf1 assms(2)] w2 by (auto simp: asd_msg_check_spp_ibi_data_def whenever_iff)
  then have wf2: "wf_msg s2" by (simp add: event_next_def)
  have "spp_reply s2 tr2 x" by (rule wheneverD [OF send_collected_next [OF wf2 assms(2)] x])
  then show "spp_reply s tr x"
    by (rule spp_reply_trans [OF event_spp_reply [OF event_next_trans [OF n1 n2]]])
qed

lemma finish_spp_next:
  assumes "sinv r" "wf_server srv"
  shows "whenever (finish_spp os srv g m st r) (spp_reply (smsg r) (spp_tr r))"
proof -
  have r: "wf_msg (smsg r)" "unat (bulk_address r) < MAX_SPP_BUS_DEVICES" "wf_message (out_msg (smsg r))"
    using assms(1) wf_msgD(3) [of "smsg r"] by (simp_all add: sinv_def)
  obtain h where h: "spp_handler (smsg r) = Some h" using assms(1) by (auto simp: sinv_def)
  have snd: "whenever (send_response os srv ((out_msg (smsg r))\<lparr>header := k\<rparr>) (spp_tr r)) (\<lambda>(st, tr'). sends_framed (spp_tr r) tr')" for k
    by (rule whenever_ensures [OF send_response_framed [OF assms(2)]]) (use r(3) in simp)
  have "whenever (do {
      (st2, tr2) \<leftarrow> send_response os srv ((out_msg (smsg r))\<lparr>header := k\<rparr>) (spp_tr r);
      Some (st2, (smsg r)\<lparr>out_msg := (out_msg (smsg r))\<lparr>header := k\<rparr>\<rparr>, tr2) }) (spp_reply (smsg r) (spp_tr r))" for k
    unfolding whenever_bind
    by (rule whenever_conseq [OF snd]) (use r(1,3) in \<open>auto simp: spp_reply_def\<close>)
  then show ?thesis
    using finish_bulk_next [OF r(1) assms(2) r(2)] r(1)
    by (simp add: finish_spp_def h spp_reply_def Let_def del: whenever_bind)
qed

lemma process_spp_message_next:
  assumes "wf_msg s" "wf_message m" "wf_server srv"
  shows "whenever (process_spp_message os srv g m s tr) (spp_reply s tr)"
  unfolding whenever_iff
proof (intro allI impI)
  fix x assume p: "process_spp_message os srv g m s tr = Some x"
  then obtain h where h: "spp_handler s = Some h" by (auto simp: process_spp_message_def bind_eq_Some_conv)
  define s1 where "s1 = s\<lparr>spp_handler := Some (h\<lparr>bulk_mode := False\<rparr>)\<rparr>"
  define sz where "sz = get_message_size m"
  have wfh: "wf_spp (h\<lparr>bulk_mode := False\<rparr>)" using wf_msgD(7) [OF assms(1)] h by simp
  then have wf1: "wf_msg s1" "spp_frame s1 = spp_frame s" using assms(1) by (simp_all add: s1_def)
  show "spp_reply s tr x"
  proof (cases "sz = - 1")
    case True
    then have "x = (ST_ERR, s1, tr)" using p by (simp add: process_spp_message_def h sz_def s1_def Let_def)
    then show ?thesis using wf1 by (simp add: spp_reply_def)
  next
    case False
    have r: "0 \<le> sz" "sz \<le> int MAX_DATA_SIZE" using get_message_size_range [of m] False by (auto simp: sz_def)
    then have "uint (of_int sz :: u32) = sz" by (simp add: unsigned_of_int MAX_DATA_SIZE_def take_bit_int_eq_self)
    then have t: "unat (of_int sz :: u32) = nat sz" by (simp add: unat_eq_nat_uint)
    define r0 where "r0 = \<lparr>smsg = s1\<lparr>out_msg := zero_message\<rparr>, spkt = \<lparr>next_data = 0, used = 0, total = of_int sz\<rparr>, scnt = 0,
          bulk_address = 0, spp_tr = tr\<rparr>"
    have i: "sinv r0" using wf1(1) r t by (simp add: r0_def sinv_def wf_packet_def s1_def MAX_SPP_BUS_DEVICES_def)
    from p False obtain e q where q: "spp_loop (Suc (nat sz)) os srv g m r0 = Some (e, q)"
      and x: "(case e of Return st \<Rightarrow> Some (st, smsg q, spp_tr q) | Break st \<Rightarrow> finish_spp os srv g m st q
         | Go_on \<Rightarrow> finish_spp os srv g m ST_OK q) = Some x"
      by (auto simp: process_spp_message_def h sz_def [symmetric] s1_def [symmetric] r0_def [symmetric] bind_eq_Some_conv)
    have n: "snext r0 (e, q)" using spp_loop_next [OF i assms(2,3)] q by (simp add: whenever_iff)
    then have iq: "sinv q" and first: "spp_reply s tr (ST_OK, smsg q, spp_tr q)"
      using wf1 by (auto simp: snext_def spp_reply_def r0_def sinv_def)
    have "spp_reply (smsg q) (spp_tr q) y" if "finish_spp os srv g m st q = Some y" for st y
      by (rule wheneverD [OF finish_spp_next [OF iq assms(3)] that])
    then show ?thesis
      using x first spp_reply_trans [OF first] by (auto simp: spp_reply_def split: spp_exit.splits)
  qed
qed

text \<open>A byte that is there is read.\<close>

lemma with_byte_reads:
  assumes "wf_packet (spkt r)" "length pl = MAX_DATA_SIZE" "0 < remaining (spkt r)"
  shows "\<exists>p. wf_packet p \<and> remaining p = remaining (spkt r) - 1 \<and>
    (\<forall>k. with_byte pl r k = k (pl ! next_data (spkt r)) (r\<lparr>spkt := p\<rparr>))"
proof -
  obtain i p where p: "get_packet_data (spkt r) 1 = Some (i, p)" using get_packet_data_eq [OF assms(1), of 1] assms(3) by simp
  from get_packet_data_wf [OF assms(1) _ p] have "wf_packet p" "remaining p + 1 = remaining (spkt r)" "i = next_data (spkt r)" "i < length pl"
    using assms(2) by simp_all
  then show ?thesis using p by (intro exI [of _ p]) (simp add: with_byte_def rd_def)
qed

end
