(* ===== verification/Agent_Msg.thy ===== *)
theory Agent_Msg
  imports Asd_Msg_State Bus_Quiet
begin

text \<open>
  The agent control messages of \<open>target/asd_msg.c\<close>: the first branch of \<open>asd_msg_on_msg_recv\<close>, with
  \<open>get_supported_jtag_chains\<close>, the version strings (\<open>read_openbmc_version\<close>) and the log messages sent
  to the client.  Three things come from outside the sources: \<open>ver\<close> is \<open>asd_version\<close> of the generated
  \<open>asd_version.h\<close>, its NUL included; \<open>ez\<close> tells whether \<open>memcpy_s\<close> reports a copy of no bytes as an
  error, on which its implementations differ; a failed \<open>strcpy_s\<close> stores a NUL in the first place of its
  destination.  The local log level that \<open>AGENT_CONFIG_TYPE_LOGGING\<close> may update is state of the logging
  component.
\<close>

section \<open>Commands\<close>

abbreviation NUM_IN_FLIGHT_MESSAGES_SUPPORTED_CMD :: u8 where "NUM_IN_FLIGHT_MESSAGES_SUPPORTED_CMD \<equiv> 3"
abbreviation OBTAIN_DOWNSTREAM_VERSION_CMD :: u8 where "OBTAIN_DOWNSTREAM_VERSION_CMD \<equiv> 5"
abbreviation AGENT_CONFIGURATION_CMD :: u8 where "AGENT_CONFIGURATION_CMD \<equiv> 8"
abbreviation MAX_DATA_SIZE_CMD :: u8 where "MAX_DATA_SIZE_CMD \<equiv> 13"
abbreviation SUPPORTED_JTAG_CHAINS_CMD :: u8 where "SUPPORTED_JTAG_CHAINS_CMD \<equiv> 14"
abbreviation SUPPORTED_I2C_BUSES_CMD :: u8 where "SUPPORTED_I2C_BUSES_CMD \<equiv> 15"
abbreviation SUPPORTED_REMOTE_PROBES_CMD :: u8 where "SUPPORTED_REMOTE_PROBES_CMD \<equiv> 16"
abbreviation REMOTE_PROBES_CONFIG_CMD :: u8 where "REMOTE_PROBES_CONFIG_CMD \<equiv> 17"
abbreviation LOOPBACK_CMD :: u8 where "LOOPBACK_CMD \<equiv> 18"
abbreviation REMOTE_SPP_CONFIG_CMD :: u8 where "REMOTE_SPP_CONFIG_CMD \<equiv> 19"
abbreviation SUPPORTED_SPP_BULK_MODE_CMD :: u8 where "SUPPORTED_SPP_BULK_MODE_CMD \<equiv> 20"
abbreviation NUM_IN_FLIGHT_BUFFERS_TO_USE :: u8 where "NUM_IN_FLIGHT_BUFFERS_TO_USE \<equiv> 20"

definition get_supported_jtag_chains :: "bus_config \<Rightarrow> u8" where
  "get_supported_jtag_chains cfg = (if enable_spp cfg then 0 else 1)"

definition agent_start :: "ASD_MSG \<Rightarrow> ASD_MSG option" where
  "agent_start s = do {
     let h = header (in_msg s);
     b \<leftarrow> wr (buffer (out_msg s)) 0 (cmd_stat h);
     Some (s\<lparr>out_msg := \<lparr>header = h\<lparr>size_lsb := 1, size_msb := 0, cmd_stat := 0\<rparr>, buffer = b\<rparr>\<rparr>) }"

definition agent_reply :: "u8 list \<Rightarrow> ASD_MSG \<Rightarrow> ASD_MSG option" where
  "agent_reply bs s = do {
     let out = out_msg s;
     b \<leftarrow> wrs (buffer out) 1 bs;
     Some (s\<lparr>out_msg := \<lparr>header = (header out)\<lparr>size_lsb := of_nat (length bs + 1), size_msb := 0\<rparr>, buffer = b\<rparr>\<rparr>) }"

definition supported_buses :: "bus_config \<Rightarrow> u8 list" where
  "supported_buses cfg =
     (if enable_i2c cfg \<or> enable_i3c cfg
      then map (\<lambda>i. bus_map cfg ! i)
             (filter (\<lambda>i. bus_types cfg ! i = BUS_CONFIG_I2C \<or> bus_types cfg ! i = BUS_CONFIG_I3C) [0..<MAX_IxC_BUSES])
      else [])"

text \<open>
  A command answers with its status, whether the response is sent, and the state.  A handler that
  cannot be initialised is the only case that sends an error instead.
\<close>

type_synonym agent_res = "(STATUS \<times> bool \<times> ASD_MSG \<times> trace) option"

definition remote_probes_cmd :: "os \<Rightarrow> Server \<Rightarrow> ASD_MSG \<Rightarrow> trace \<Rightarrow> agent_res" where
  "remote_probes_cmd os srv s tr =
     (case vprobe_handler s of None \<Rightarrow> Some (ST_ERR, True, s, tr)
      | Some v \<Rightarrow> do {
          let (st, v1) = (if vp_initialized v then (ST_OK, v) else vProbe_initialize v);
          let s1 = s\<lparr>vprobe_handler := Some v1\<rparr>;
          if st \<noteq> ST_OK then do {
            tr1 \<leftarrow> send_error_message os srv (in_msg s) ASD_FAILURE_INIT_VPROBE_HANDLER tr;
            Some (ST_ERR, False, s1, tr1) }
          else do { s2 \<leftarrow> agent_reply [remoteProbes v1] s1; Some (ST_OK, True, s2, tr) } })"

definition probes_config_cmd :: "ASD_MSG \<Rightarrow> (STATUS \<times> ASD_MSG) option" where
  "probes_config_cmd s =
     (case vprobe_handler s of None \<Rightarrow> Some (ST_OK, s)
      | Some v \<Rightarrow>
          (if remoteConfigs v = 0 then Some (ST_OK, s)
           else do {
             let out = out_msg s;
             let cfg = bytes_of (probesConfig v) @ [0];
             let fits = (length cfg \<le> MAX_DATA_SIZE - 1);
             b \<leftarrow> wrs (buffer out) 1 (if fits then cfg else [0]);
             let config_size = (of_nat (length cfg) :: u16);
             Some (if fits then ST_OK else ST_ERR,
                   s\<lparr>out_msg := \<lparr>header = (header out)\<lparr>size_lsb := ucast config_size,
                                                        size_msb := ucast (drop_bit 8 config_size)\<rparr>,
                                 buffer = b\<rparr>\<rparr>) }))"

text \<open>
  \<open>bmc_version_size\<close> is an \<open>int\<close> that is used as a size: a negative one is beyond the limit of
  \<open>memcpy_s\<close>, and a size above 120 reads past \<open>bmc_version\<close>.
\<close>

definition downstream_version_cmd :: "u8 list \<Rightarrow> bool \<Rightarrow> ASD_MSG \<Rightarrow> (STATUS \<times> ASD_MSG) option" where
  "downstream_version_cmd ver ez s = do {
     let out = out_msg s;
     let n = length ver;
     let k = bmc_version_size s;
     b1 \<leftarrow> wrs (buffer out) 1 ver;
     b2 \<leftarrow> wr b1 n 0x5F;
     (st, b3) \<leftarrow> (if k < 0 \<or> k = 0 \<and> ez then Some (ST_ERR, b2)
                 else do { ds \<leftarrow> rds (bmc_version s) 0 (nat k); b \<leftarrow> wrs b2 (n + 1) ds; Some (ST_OK, b) });
     b4 \<leftarrow> (if int n + k + 1 < 0 then None else wr b3 (nat (int n + k + 1)) 0);
     Some (st, s\<lparr>out_msg := \<lparr>header = (header out)\<lparr>size_lsb := size_lsb (header out) + of_nat n + of_int k\<rparr>,
                             buffer = b4\<rparr>\<rparr>) }"

definition le32 :: "u32 \<Rightarrow> u8 list" where
  "le32 w = [ucast w, ucast (drop_bit 8 w), ucast (drop_bit 16 w), ucast (drop_bit 24 w)]"

definition spp_config_cmd :: "os \<Rightarrow> ASD_MSG \<Rightarrow> trace \<Rightarrow> (STATUS \<times> ASD_MSG \<times> trace) option" where
  "spp_config_cmd os s tr =
     (case spp_handler s of None \<Rightarrow> do { s1 \<leftarrow> agent_reply [0, 0, 0, 0] s; Some (ST_OK, s1, tr) }
      | Some h \<Rightarrow> do {
          let (st, mask, h1, tr1) = spp_bus_get_device_map os (buses s) h tr;
          s1 \<leftarrow> agent_reply (le32 mask) (s\<lparr>spp_handler := Some h1\<rparr>);
          Some (st, s1, tr1) })"

definition spp_bulk_support :: "spp_config \<Rightarrow> u8" where
  "spp_bulk_support c = (if bulk_send_enable c then 1 else 0) OR (if bulk_response_enable c then 2 else 0)"

definition set_agent_config :: "u8 \<Rightarrow> u8 \<Rightarrow> ASD_MSG \<Rightarrow> ASD_MSG" where
  "set_agent_config ty v s =
     (if ty = 1 then
        s\<lparr>asd_cfg := (asd_cfg s)\<lparr>remote_logging := \<lparr>logging_level = ucast v, logging_stream = ucast (drop_bit 3 v)\<rparr>\<rparr>\<rparr>
      else if ty = 3 then
        s\<lparr>asd_cfg := (asd_cfg s)\<lparr>jtag_cfg := (jtag_cfg (asd_cfg s))\<lparr>jtag_mode :=
             if v AND 1 = 1 then JTAG_DRIVER_MODE_HARDWARE else JTAG_DRIVER_MODE_SOFTWARE\<rparr>\<rparr>,
          jtag_chain_mode := if v AND 2 = 2 then JTAG_CHAIN_SELECT_MODE_MULTI else JTAG_CHAIN_SELECT_MODE_SINGLE\<rparr>
      else if ty = 4 \<and> v AND 1 \<noteq> 0 then
        s\<lparr>asd_cfg := (asd_cfg s)\<lparr>spp_cfg := \<lparr>bulk_send_enable = True,
             bulk_response_enable = (v AND 2 \<noteq> 0 \<or> bulk_response_enable (spp_cfg (asd_cfg s)))\<rparr>\<rparr>\<rparr>
      else s)"

definition agent_configuration_cmd :: "ASD_MSG \<Rightarrow> ASD_MSG option" where
  "agent_configuration_cmd s =
     (let m = in_msg s
      in case get_packet_data \<lparr>next_data = 0, used = 0, total = of_int (get_message_size m)\<rparr> 1 of None \<Rightarrow> Some s
         | Some (i, p) \<Rightarrow> do {
             config_type \<leftarrow> rd (buffer m) i;
             if config_type = 0 \<or> config_type > 4 then Some s
             else case get_packet_data p 1 of None \<Rightarrow> Some s
               | Some (j, q) \<Rightarrow> do { v \<leftarrow> rd (buffer m) j; Some (set_agent_config config_type v s) } })"

definition loopback_cmd :: "os \<Rightarrow> ASD_MSG \<Rightarrow> trace \<Rightarrow> (ASD_MSG \<times> trace) option" where
  "loopback_cmd os s tr = do {
     let m = in_msg s;
     delay \<leftarrow> rd (buffer m) 0;
     bs \<leftarrow> rds (buffer m) 0 (nat (get_message_size m));
     b \<leftarrow> wrs (buffer (out_msg s)) 0 bs;
     Some (s\<lparr>out_msg := \<lparr>header = header m, buffer = b\<rparr>\<rparr>, snd (sys os (Sys_usleep (unat delay * 1000)) tr)) }"

definition agent_command :: "os \<Rightarrow> Server \<Rightarrow> u8 list \<Rightarrow> bool \<Rightarrow> u8 \<Rightarrow> ASD_MSG \<Rightarrow> trace \<Rightarrow> agent_res" where
  "agent_command os srv ver ez cmd s tr =
     (let answer = (\<lambda>bs. do { s1 \<leftarrow> agent_reply bs s; Some (ST_OK, True, s1, tr) });
          plain = (\<lambda>(st, s1). Some (st, True, s1, tr))
      in if cmd = NUM_IN_FLIGHT_MESSAGES_SUPPORTED_CMD then answer [NUM_IN_FLIGHT_BUFFERS_TO_USE]
         else if cmd = MAX_DATA_SIZE_CMD then answer [of_nat MAX_DATA_SIZE, of_nat (MAX_DATA_SIZE div 256)]
         else if cmd = SUPPORTED_JTAG_CHAINS_CMD then answer [get_supported_jtag_chains (buses s)]
         else if cmd = SUPPORTED_I2C_BUSES_CMD
           then answer (of_nat (length (supported_buses (buses s))) # supported_buses (buses s))
         else if cmd = SUPPORTED_REMOTE_PROBES_CMD then remote_probes_cmd os srv s tr
         else if cmd = REMOTE_PROBES_CONFIG_CMD then probes_config_cmd s \<bind> plain
         else if cmd = OBTAIN_DOWNSTREAM_VERSION_CMD then downstream_version_cmd ver ez s \<bind> plain
         else if cmd = REMOTE_SPP_CONFIG_CMD then do {
           (st, s1, tr1) \<leftarrow> spp_config_cmd os s tr;
           Some (st, True, s1, tr1) }
         else if cmd = SUPPORTED_SPP_BULK_MODE_CMD then answer [spp_bulk_support (spp_cfg (asd_cfg s))]
         else if cmd = AGENT_CONFIGURATION_CMD then do {
           s1 \<leftarrow> agent_configuration_cmd s;
           Some (ST_OK, True, s1, tr) }
         else if cmd = LOOPBACK_CMD then do {
           (s1, tr1) \<leftarrow> loopback_cmd os s tr;
           Some (ST_OK, True, s1, tr1) }
         else Some (ST_OK, True, s, tr))"

text \<open>The status of the response is not the status of the message.\<close>

definition agent_control ::
    "os \<Rightarrow> Server \<Rightarrow> u8 list \<Rightarrow> bool \<Rightarrow> ASD_MSG \<Rightarrow> trace \<Rightarrow> (STATUS \<times> ASD_MSG \<times> trace) option" where
  "agent_control os srv ver ez s tr = do {
     s1 \<leftarrow> agent_start s;
     (st, respond, s2, tr1) \<leftarrow> agent_command os srv ver ez (cmd_stat (header (in_msg s))) s1 tr;
     tr2 \<leftarrow> (if respond then do { (_, t) \<leftarrow> send_response os srv (out_msg s2) tr1; Some t } else Some tr1);
     Some (st, s2, tr2) }"

section \<open>Version strings\<close>

abbreviation OPENBMC_V :: string where "OPENBMC_V \<equiv> ''OPENBMC_VERSION''"

definition contains :: "u8 list \<Rightarrow> u8 list \<Rightarrow> bool" where
  "contains ln w = list_ex (\<lambda>i. take (length w) (drop i ln) = w) [0..<Suc (length ln)]"

text \<open>The first pair of quotes becomes angle brackets; so does every later quote, as a closing one.\<close>

fun bracket_quotes :: "bool \<Rightarrow> u8 list \<Rightarrow> u8 list" where
  "bracket_quotes first [] = []"
| "bracket_quotes first (c # cs) =
     (if c = 34 then (if first then 60 else 62) # bracket_quotes False cs else c # bracket_quotes first cs)"

text \<open>
  \<open>sizeof(OPENBMC_V)\<close> is 16.  The size is stored before the copy: a line that does not fit the 120
  characters leaves it behind.  On a failed copy \<open>memcpy_s\<close> clears its destination.
\<close>

definition store_version :: "bool \<Rightarrow> u8 list \<Rightarrow> ASD_MSG \<Rightarrow> STATUS \<times> ASD_MSG" where
  "store_version ez ln s =
     (let k = int (length ln) - 16 - 1; s1 = s\<lparr>bmc_version_size := k\<rparr>
      in if k < 0 \<or> k = 0 \<and> ez \<or> k > 120 then (ST_ERR, s1\<lparr>bmc_version := replicate 120 0\<rparr>)
         else (ST_OK, s1\<lparr>bmc_version := bracket_quotes True (take (nat k) (drop 16 ln)) @ drop (nat k) (bmc_version s)\<rparr>))"

partial_function (option) version_lines ::
    "os \<Rightarrow> bool \<Rightarrow> int \<Rightarrow> ASD_MSG \<Rightarrow> trace \<Rightarrow> (STATUS \<times> ASD_MSG \<times> trace) option" where
  "version_lines os ez fd s tr =
     (let a = os tr (Sys_getline fd); ln = take (nat (fst a)) (concat (snd a)); tr1 = tr @ [Sys_getline fd]
      in if fst a = - 1 then Some (ST_ERR, s, tr1)
         else if contains ln (bytes_of OPENBMC_V)
           then Some (fst (store_version ez ln s), snd (store_version ez ln s), tr1)
           else version_lines os ez fd s tr1)"

definition read_openbmc_version :: "os \<Rightarrow> bool \<Rightarrow> ASD_MSG \<Rightarrow> trace \<Rightarrow> (STATUS \<times> ASD_MSG \<times> trace) option" where
  "read_openbmc_version os ez s tr =
     (let s1 = s\<lparr>bmc_version := replicate 120 0, bmc_version_size := 0\<rparr>; (fd, tr1) = sys os (Sys_open ''/etc/os-release'') tr
      in if fd = - 1 then Some (ST_ERR, s1, tr1)
         else do {
           (st, s2, tr2) \<leftarrow> version_lines os ez fd s1 tr1;
           Some (st, s2, tr2 @ [Sys_close fd]) })"

section \<open>Log messages\<close>

abbreviation IPC_LogType_Off :: "3 word" where "IPC_LogType_Off \<equiv> 5"

definition should_remote_log :: "ASD_MSG \<Rightarrow> nat \<Rightarrow> bool option" where
  "should_remote_log s asd_level =
     (if \<not> inst s then Some False
      else let lv = logging_level (remote_logging (asd_cfg s))
           in if lv = IPC_LogType_Off then Some False
              else do { t \<leftarrow> rd (ipc_asd_log_map (asd_cfg s)) asd_level; Some (lv \<le> t) })"

text \<open>The message is the string up to its NUL.\<close>

definition send_remote_log_message :: "os \<Rightarrow> Server \<Rightarrow> ASD_MSG \<Rightarrow> nat \<Rightarrow> u8 list \<Rightarrow> trace \<Rightarrow> trace option" where
  "send_remote_log_message os srv s asd_level message tr = do {
     wanted \<leftarrow> should_remote_log s asd_level;
     if \<not> wanted then Some tr
     else do {
       lv \<leftarrow> rd (ipc_asd_log_map (asd_cfg s)) asd_level;
       let config_byte = (ucast lv OR push_bit 3 (ucast (logging_stream (remote_logging (asd_cfg s)))) :: u8);
       let text = take (MAX_DATA_SIZE - 2) message;
       b \<leftarrow> wrs zero_buffer 0 (AGENT_CONFIGURATION_CMD # config_byte # text);
       (_, tr1) \<leftarrow> send_response os srv
         \<lparr>header = set_msg_size (of_nat (length text + 2)) (zero_header\<lparr>mtype := HARDWARE_LOG_EVENT\<rparr>), buffer = b\<rparr> tr;
       Some tr1 } }"

section \<open>Safety\<close>

text \<open>What the version strings have to satisfy for the version command to stay in its buffers.\<close>

definition wf_version :: "u8 list \<Rightarrow> ASD_MSG \<Rightarrow> bool" where
  "wf_version ver s \<longleftrightarrow> 0 < length ver \<and> length ver + 121 < MAX_DATA_SIZE \<and> length (bmc_version s) = 120 \<and>
     - int (length ver) \<le> bmc_version_size s \<and> bmc_version_size s \<le> 120"

definition wf_probes :: "ASD_MSG \<Rightarrow> bool" where
  "wf_probes s \<longleftrightarrow> opt_ok (\<lambda>v. length (probesConfig v) < MAX_DATA_SIZE) (vprobe_handler s)"

definition agent_frame :: "ASD_MSG \<Rightarrow> ASD_MSG" where
  "agent_frame s = s\<lparr>out_msg := zero_message, vprobe_handler := None, spp_handler := None,
     asd_cfg := (asd_cfg s)\<lparr>remote_logging := \<lparr>logging_level = 0, logging_stream = 0\<rparr>,
       jtag_cfg := (jtag_cfg (asd_cfg s))\<lparr>jtag_mode := JTAG_DRIVER_MODE_SOFTWARE\<rparr>,
       spp_cfg := \<lparr>bulk_send_enable = False, bulk_response_enable = False\<rparr>\<rparr>,
     jtag_chain_mode := JTAG_CHAIN_SELECT_MODE_SINGLE\<rparr>"

definition agent_next :: "ASD_MSG \<Rightarrow> trace \<Rightarrow> STATUS \<times> ASD_MSG \<times> trace \<Rightarrow> bool" where
  "agent_next s tr = (\<lambda>(st, s', tr'). wf_msg s' \<and> wf_probes s' \<and> sends_framed tr tr' \<and> agent_frame s' = agent_frame s \<and>
     (spp_handler s' = None \<longleftrightarrow> spp_handler s = None))"

lemma wf_msg_vprobe [simp]: "wf_msg (vprobe_handler_update f s) = wf_msg s"
  by (simp add: wf_msg_def)

lemma wf_probes_out [simp]: "wf_probes (out_msg_update f s) = wf_probes s" "wf_probes (spp_handler_update g s) = wf_probes s"
  by (simp_all add: wf_probes_def)

lemma agent_frame_simps [simp]:
  "agent_frame (s\<lparr>out_msg := m\<rparr>) = agent_frame s" "agent_frame (s\<lparr>vprobe_handler := v\<rparr>) = agent_frame s"
  "agent_frame (s\<lparr>spp_handler := h\<rparr>) = agent_frame s"
  by (simp_all add: agent_frame_def)

lemma agent_start_next:
  assumes "wf_msg s" "wf_probes s"
  shows "ensures (agent_start s) (\<lambda>s'. agent_next s tr (ST_OK, s', tr) \<and> in_msg s' = in_msg s \<and>
    vprobe_handler s' = vprobe_handler s \<and> bmc_version s' = bmc_version s \<and> bmc_version_size s' = bmc_version_size s)"
  using assms wf_msgD(3) [OF assms(1)]
  by (simp add: agent_start_def agent_next_def wf_message_def MAX_DATA_SIZE_def)

lemma agent_reply_next:
  assumes "wf_msg s" "wf_probes s" "length bs < MAX_DATA_SIZE"
  shows "ensures (agent_reply bs s) (\<lambda>s'. agent_next s tr (st, s', tr))"
  using assms wf_msgD(3) [OF assms(1)]
  by (simp add: agent_reply_def agent_next_def wf_message_def)

lemma set_agent_config_next:
  assumes "wf_msg s" "wf_probes s"
  shows "agent_next s tr (st, set_agent_config ty v s, tr)"
  using assms by (simp add: agent_next_def set_agent_config_def agent_frame_def wf_probes_def wf_msg_def)

lemma length_supported_buses: "length (supported_buses cfg) \<le> MAX_IxC_BUSES"
proof -
  have "length (filter P [0..<MAX_IxC_BUSES]) \<le> MAX_IxC_BUSES" for P
    using length_filter_le [of P "[0..<MAX_IxC_BUSES]"] by simp
  then show ?thesis by (simp add: supported_buses_def)
qed

lemma agent_next_trans:
  "agent_next s tr (st, s1, tr1) \<Longrightarrow> agent_next s1 tr1 r \<Longrightarrow> agent_next s tr r"
  by (auto simp: agent_next_def split_def intro: sends_framed_trans)

lemma agent_next_quiet: "agent_next s tr (st, s1, tr1) \<Longrightarrow> sent_on tr2 = sent_on tr1 \<Longrightarrow> agent_next s tr (st', s1, tr2)"
  by (auto simp: agent_next_def sends_framed_def)

lemma remote_probes_cmd_next:
  assumes "wf_msg s" "wf_probes s" "wf_server srv"
  shows "ensures (remote_probes_cmd os srv s tr) (\<lambda>(st, q, s', tr'). agent_next s tr (st, s', tr'))"
proof (cases "vprobe_handler s")
  case None
  then show ?thesis using assms by (simp add: remote_probes_cmd_def agent_next_def)
next
  case (Some v)
  define v1 where "v1 = (if vp_initialized v then v else snd (vProbe_initialize v))"
  have "length (probesConfig v1) < MAX_DATA_SIZE"
    using assms(2) Some vProbe_initialize_length [of v] by (simp add: v1_def wf_probes_def)
  then have n: "agent_next s tr (st, s\<lparr>vprobe_handler := Some v1\<rparr>, tr)" for st
    using assms(1) by (simp add: agent_next_def wf_probes_def)
  then have r: "ensures (agent_reply [remoteProbes v1] (s\<lparr>vprobe_handler := Some v1\<rparr>)) (\<lambda>s'. agent_next s tr (ST_OK, s', tr))"
    using agent_reply_next [of "s\<lparr>vprobe_handler := Some v1\<rparr>" "[remoteProbes v1]" tr ST_OK]
    by (auto elim!: ensures_conseq simp: agent_next_def MAX_DATA_SIZE_def)
  have e: "ensures (send_error_message os srv (in_msg s) e tr) (\<lambda>tr'. agent_next s tr (ST_ERR, s\<lparr>vprobe_handler := Some v1\<rparr>, tr'))" for e
    using n by (auto intro!: ensures_conseq [OF send_error_message_framed [OF assms(3)]] simp: agent_next_def)
  show ?thesis
    using Some r e by (auto simp: remote_probes_cmd_def v1_def split_def Let_def)
qed

lemma probes_config_cmd_next:
  assumes "wf_msg s" "wf_probes s"
  shows "ensures (probes_config_cmd s) (\<lambda>(st, s'). agent_next s tr (st, s', tr))"
  using assms wf_msgD(3) [OF assms(1)]
  by (auto simp: probes_config_cmd_def agent_next_def wf_message_def wf_probes_def MAX_DATA_SIZE_def bytes_of_def
      split: option.split)

lemma downstream_version_cmd_next:
  assumes "wf_msg s" "wf_probes s" "wf_version ver s"
  shows "ensures (downstream_version_cmd ver ez s) (\<lambda>(st, s'). agent_next s tr (st, s', tr))"
  using assms wf_msgD(3) [OF assms(1)]
  by (auto simp: downstream_version_cmd_def agent_next_def wf_message_def wf_version_def)

lemma spp_bus_get_device_map_wf:
  assumes "wf_spp h"
  shows "wf_spp (fst (snd (snd (spp_bus_get_device_map os cfg h tr))))"
  using assms by (simp add: spp_bus_get_device_map_def split_def Let_def spp_close_driver_wf spp_open_driver_wf)

lemma spp_bus_get_device_map_quiet [quiet]:
  "sent_on (snd (snd (snd (spp_bus_get_device_map os cfg h tr)))) = sent_on tr"
  by (simp add: spp_bus_get_device_map_def split_def Let_def quiet)

lemma spp_config_cmd_next:
  assumes "wf_msg s" "wf_probes s"
  shows "ensures (spp_config_cmd os s tr) (agent_next s tr)"
proof (cases "spp_handler s")
  case None
  then show ?thesis
    using agent_reply_next [OF assms, of "[0, 0, 0, 0]" tr ST_OK] by (auto simp: spp_config_cmd_def MAX_DATA_SIZE_def)
next
  case (Some h)
  define h1 where "h1 = fst (snd (snd (spp_bus_get_device_map os (buses s) h tr)))"
  have "wf_spp h1" using wf_msgD(7) [OF assms(1)] Some spp_bus_get_device_map_wf by (simp add: h1_def)
  then have n: "agent_next s tr (st, s\<lparr>spp_handler := Some h1\<rparr>, tr)" for st
    using assms Some by (simp add: agent_next_def)
  then have "ensures (agent_reply (le32 m) (s\<lparr>spp_handler := Some h1\<rparr>)) (\<lambda>s'. agent_next s tr (st, s', tr))" for m st
    using agent_reply_next [of "s\<lparr>spp_handler := Some h1\<rparr>" "le32 m" tr st]
    by (auto elim!: ensures_conseq simp: agent_next_def MAX_DATA_SIZE_def le32_def)
  from ensures_conseq [OF this agent_next_quiet] show ?thesis
    using Some by (auto simp: spp_config_cmd_def split_def Let_def h1_def quiet)
qed

lemma agent_configuration_cmd_next:
  assumes "wf_msg s" "wf_probes s"
  shows "ensures (agent_configuration_cmd s) (\<lambda>s'. agent_next s tr (ST_OK, s', tr))"
proof -
  have at: "i = next_data p \<and> next_data q = next_data p + n" if "get_packet_data p n = Some (i, q)" for p n i q
    using that by (auto simp: get_packet_data_def split: if_splits)
  have "agent_next s tr (ST_OK, s, tr)" using assms by (simp add: agent_next_def)
  moreover have "length (buffer (in_msg s)) = MAX_DATA_SIZE" using wf_msgD(2) [OF assms(1)] by (simp add: wf_message_def)
  ultimately show ?thesis
    using set_agent_config_next [OF assms]
    by (auto simp: agent_configuration_cmd_def Let_def MAX_DATA_SIZE_def dest!: at split: option.split)
qed

lemma loopback_cmd_next:
  assumes "wf_msg s" "wf_probes s"
  shows "ensures (loopback_cmd os s tr) (\<lambda>(s', tr'). agent_next s tr (ST_OK, s', tr'))"
proof -
  have "nat (get_message_size (in_msg s)) \<le> MAX_DATA_SIZE"
    using get_message_size_range [of "in_msg s"] by auto
  then show ?thesis
    using assms wf_msgD(2,3) [OF assms(1)]
    by (auto simp: loopback_cmd_def agent_next_def wf_message_def MAX_DATA_SIZE_def sends_framed_def)
qed

lemma agent_command_next:
  assumes "wf_msg s" "wf_probes s" "wf_version ver s" "wf_server srv"
  shows "ensures (agent_command os srv ver ez cmd s tr) (\<lambda>(st, q, s', tr'). agent_next s tr (st, s', tr'))"
proof -
  have same: "agent_next s tr (ST_OK, s, tr)" using assms by (simp add: agent_next_def)
  have ans: "ensures (agent_reply bs s) (\<lambda>s'. agent_next s tr (ST_OK, s', tr))" if "length bs \<le> 9" for bs
    by (rule agent_reply_next) (use assms that in \<open>auto simp: MAX_DATA_SIZE_def\<close>)
  have buses: "length (of_nat n # supported_buses (buses s)) \<le> 9" for n
    using length_supported_buses [of "buses s"] by (simp add: MAX_IxC_BUSES_def)
  note facts = ans [of "[a]" for a] ans [of "[a, b]" for a b] ans [OF buses]
    remote_probes_cmd_next [OF assms(1,2,4)] probes_config_cmd_next [OF assms(1,2)]
    downstream_version_cmd_next [OF assms(1-3)] spp_config_cmd_next [OF assms(1,2)]
    agent_configuration_cmd_next [OF assms(1,2)] loopback_cmd_next [OF assms(1,2)]
  show ?thesis
    unfolding agent_command_def Let_def
    by (auto intro!: facts [THEN ensures_conseq] same split del: if_split split: if_split simp: split_def)
qed

text \<open>
  Every agent control message is answered by at most one packet, whose size field is right, and changes
  only the settings, the handlers it opens and the response.
\<close>

lemma agent_control_safe:
  assumes "wf_msg s" "wf_probes s" "wf_version ver s" "wf_server srv"
  shows "ensures (agent_control os srv ver ez s tr) (agent_next s tr)"
proof -
  have step: "ensures (agent_command os srv ver ez cmd s1 tr) (\<lambda>(st, q, s', tr'). agent_next s tr (st, s', tr'))"
    if "agent_next s tr (ST_OK, s1, tr) \<and> in_msg s1 = in_msg s \<and> vprobe_handler s1 = vprobe_handler s \<and>
      bmc_version s1 = bmc_version s \<and> bmc_version_size s1 = bmc_version_size s" for s1 cmd
    using that assms(3,4)
    by (intro ensures_conseq [OF agent_command_next]) (auto simp: agent_next_def wf_version_def)
  have send: "ensures (send_response os srv (out_msg s') tr') (\<lambda>(st2, t). agent_next s tr (st, s', t))"
    if "agent_next s tr (st, s', tr')" for st s' tr'
    using that wf_msgD(3)
    by (intro ensures_conseq [OF send_response_framed [OF assms(4)]]) (auto simp: agent_next_def intro: sends_framed_trans)
  show ?thesis
    unfolding agent_control_def
    by (auto intro!: ensures_conseq [OF agent_start_next [OF assms(1,2), where tr = tr]]
        ensures_conseq [OF step] ensures_conseq [OF send] simp: split_def)
qed

section \<open>What the commands answer\<close>

text \<open>A loop-back returns the message as it came, after the delay its first byte asks for.\<close>

lemma agent_control_loopback:
  assumes "wf_msg s" "wf_server srv" "cmd_stat (header (in_msg s)) = LOOPBACK_CMD" "get_message_size (in_msg s) \<noteq> - 1"
  shows "ensures (agent_control os srv ver ez s tr) (\<lambda>(st, s', tr'). st = ST_OK \<and>
    (sent_on tr' = sent_on tr \<or>
     sent_on tr' = sent_on tr @ [packet_bytes (in_msg s) (nat (get_message_size (in_msg s)))]))"
proof -
  define m n where "m = in_msg s" and "n = nat (get_message_size m)"
  have len: "length (buffer m) = MAX_DATA_SIZE" "length (buffer (out_msg s)) = MAX_DATA_SIZE"
    using wf_msgD(2,3) [OF assms(1)] by (simp_all add: m_def wf_message_def)
  have n: "n \<le> MAX_DATA_SIZE" using get_message_size_range [of m] assms(4) by (auto simp: n_def m_def)
  define b where "b = (buffer (out_msg s))[0 := LOOPBACK_CMD]"
  define out where "out = \<lparr>header = header m, buffer = take n (buffer m) @ drop n b\<rparr>"
  have lb: "length b = MAX_DATA_SIZE" using len by (simp add: b_def)
  have wf: "wf_message out" using len n lb by (simp add: out_def wf_message_def)
  have sz: "get_message_size out = get_message_size m" by (simp add: out_def get_message_size_def)
  have "packet_bytes out n = packet_bytes m n" using len n by (simp add: out_def packet_bytes_def)
  then have send: "ensures (send_response os srv out t) (\<lambda>(st, t'). sent_on t' = sent_on t \<or> sent_on t' = sent_on t @ [packet_bytes m n])"
    for t
    using send_response_ok [OF assms(2) wf, of os t] sz by (auto elim!: ensures_conseq simp: n_def)
  show ?thesis
    using assms(3) len n lb
    by (auto simp: agent_control_def agent_start_def agent_command_def loopback_cmd_def Let_def MAX_DATA_SIZE_def
        simp flip: m_def b_def n_def out_def intro!: ensures_conseq [OF send])
qed

text \<open>
  Bulk mode cannot be switched off: a request without the send bit changes nothing, whatever its
  response bit.
\<close>

lemma bulk_mode_never_disabled:
  "spp_cfg (asd_cfg (set_agent_config 4 v s)) =
     (if v AND 1 = 0 then spp_cfg (asd_cfg s)
      else \<lparr>bulk_send_enable = True, bulk_response_enable = (v AND 2 \<noteq> 0 \<or> bulk_response_enable (spp_cfg (asd_cfg s)))\<rparr>)"
  by (simp add: set_agent_config_def)

section \<open>Reading the version of the system\<close>

fun is_getline :: "syscall \<Rightarrow> bool" where
  "is_getline (Sys_getline _) = True"
| "is_getline _ = False"

text \<open>However many lines were read, the end of a file comes.\<close>

definition file_ends :: "os \<Rightarrow> bool" where
  "file_ends os \<longleftrightarrow> (\<forall>n. \<exists>K\<ge>n. \<forall>tr fd. length (filter is_getline tr) = K \<longrightarrow> fst (os tr (Sys_getline fd)) = - 1)"

text \<open>Lines whose version fits its buffer, and the size of the version that is left then.\<close>

definition lines_fit :: "os \<Rightarrow> bool" where
  "lines_fit os \<longleftrightarrow> (\<forall>tr fd. let a = os tr (Sys_getline fd) in length (take (nat (fst a)) (concat (snd a))) \<le> 137)"

definition version_fits :: "ASD_MSG \<Rightarrow> bool" where
  "version_fits s \<longleftrightarrow> - 2 \<le> bmc_version_size s \<and> bmc_version_size s \<le> 120"

lemma contains_length: "contains ln w \<Longrightarrow> length w \<le> length ln"
proof -
  assume "contains ln w"
  then obtain i where "take (length w) (drop i ln) = w" by (auto simp: contains_def list_ex_iff)
  then have "length w = min (length w) (length ln - i)" by (metis length_drop length_take min.commute)
  then show ?thesis by simp
qed

lemma store_version_fits:
  assumes "contains ln (bytes_of OPENBMC_V)" "length ln \<le> 137"
  shows "version_fits (snd (store_version ez ln s))"
  using assms contains_length [OF assms(1)] by (auto simp: store_version_def version_fits_def Let_def bytes_of_def)

lemma length_bracket_quotes [simp]: "length (bracket_quotes first cs) = length cs"
  by (induction first cs rule: bracket_quotes.induct) simp_all

lemma store_version_ok:
  assumes "length (bmc_version s) = 120"
  shows "length (bmc_version (snd (store_version ez ln s))) = 120"
    "\<exists>v n. snd (store_version ez ln s) = s\<lparr>bmc_version := v, bmc_version_size := n\<rparr>"
    "fst (store_version ez ln s) = ST_OK \<Longrightarrow>
       bmc_version_size (snd (store_version ez ln s)) = int (length ln) - 17 \<and> 0 \<le> int (length ln) - 17 \<and> int (length ln) - 17 \<le> 120"
proof -
  show "\<exists>v n. snd (store_version ez ln s) = s\<lparr>bmc_version := v, bmc_version_size := n\<rparr>"
    by (cases s) (auto simp: store_version_def Let_def)
qed (use assms in \<open>auto simp: store_version_def Let_def split: if_splits\<close>)

definition version_post :: "os \<Rightarrow> ASD_MSG \<Rightarrow> trace \<Rightarrow> STATUS \<times> ASD_MSG \<times> trace \<Rightarrow> bool" where
  "version_post os s tr = (\<lambda>(st, s', tr'). length (bmc_version s') = 120 \<and> sent_on tr' = sent_on tr \<and>
     s' = s\<lparr>bmc_version := bmc_version s', bmc_version_size := bmc_version_size s'\<rparr> \<and>
     (lines_fit os \<longrightarrow> version_fits s \<longrightarrow> version_fits s'))"

lemma version_lines_until:
  assumes "\<And>tr fd. length (filter is_getline tr) = K \<Longrightarrow> fst (os tr (Sys_getline fd)) = - 1" "length (bmc_version s) = 120"
    "length (filter is_getline tr) \<le> K"
  shows "ensures (version_lines os ez fd s tr) (version_post os s tr)"
  using assms(3)
proof (induction "K - length (filter is_getline tr)" arbitrary: tr rule: less_induct)
  case less
  define a ln where "a = os tr (Sys_getline fd)" and "ln = take (nat (fst a)) (concat (snd a))"
  have fit: "lines_fit os \<Longrightarrow> length ln \<le> 137"
    by (simp only: lines_fit_def Let_def a_def ln_def)
  show ?case
  proof (cases "fst a = - 1 \<or> contains ln (bytes_of OPENBMC_V)")
    case True
    then show ?thesis
      using assms(2) store_version_ok [OF assms(2), of ez ln] store_version_fits [of ln ez s] fit
      by (subst version_lines.simps) (auto simp: Let_def sent_on_def version_post_def simp flip: a_def ln_def)
  next
    case False
    have "length (filter is_getline tr) \<noteq> K" using assms(1) [of tr fd] False by (auto simp: a_def)
    then have "length (filter is_getline tr) < K" using less.prems by simp
    then have "K - length (filter is_getline (tr @ [Sys_getline fd])) < K - length (filter is_getline tr)"
      "length (filter is_getline (tr @ [Sys_getline fd])) \<le> K" by auto
    from less.hyps [OF this] show ?thesis
      using False by (subst version_lines.simps) (auto simp: Let_def a_def ln_def sent_on_def version_post_def)
  qed
qed

lemma version_lines_returns:
  assumes "file_ends os" "length (bmc_version s) = 120"
  shows "ensures (version_lines os ez fd s tr) (version_post os s tr)"
proof -
  obtain K where "length (filter is_getline tr) \<le> K" "\<forall>tr fd. length (filter is_getline tr) = K \<longrightarrow> fst (os tr (Sys_getline fd)) = - 1"
    using assms(1) unfolding file_ends_def by metis
  then show ?thesis using assms(2) by (intro version_lines_until [where K = K]) auto
qed

text \<open>
  A version line of more than 137 characters is refused but leaves its size behind, and the version
  command then reads that many bytes of the 120.
\<close>

lemma long_version_overread:
  assumes "137 < length ln" "length (bmc_version s) = 120" "length (buffer (out_msg s)) = MAX_DATA_SIZE"
  shows "downstream_version_cmd ver ez (snd (store_version ez ln s)) = None"
  using assms by (auto simp: store_version_def downstream_version_cmd_def Let_def rds_def bind_eq_None_conv)

section \<open>Log messages to the client\<close>

lemma send_remote_log_message_framed:
  assumes "wf_server srv" "length (ipc_asd_log_map (asd_cfg s)) = 6" "lv < 6"
  shows "ensures (send_remote_log_message os srv s lv msg tr) (sends_framed tr)"
proof -
  have "ensures (send_response os srv m tr) (\<lambda>(st, t). sends_framed tr t)" if "length (buffer m) = MAX_DATA_SIZE" for m
    using send_response_framed [OF assms(1)] that by (simp add: wf_message_def)
  from ensures_conseq [OF this] show ?thesis
    using assms(2,3) by (auto simp: send_remote_log_message_def should_remote_log_def Let_def MAX_DATA_SIZE_def)
qed

lemma remote_log_off: "logging_level (remote_logging (asd_cfg s)) = IPC_LogType_Off \<Longrightarrow> send_remote_log_message os srv s lv msg tr = Some tr"
  by (simp add: send_remote_log_message_def should_remote_log_def)

end
