(* ===== verification/Read_Msg.thy ===== *)
theory Read_Msg
  imports Asd_Msg_State
begin

text \<open>
  How \<open>asd_msg_read\<close> of \<open>target/asd_msg.c\<close> assembles messages from the pieces the network delivers: the
  parts of its two states up to the point where a complete message is handed on.  The reference is
  \<open>split_stream\<close>, which cuts a stream of bytes into packets; the locale \<open>stream_reader\<close> shows that
  any reader that keeps its laws cuts the stream in the same places however the bytes arrive.
\<close>

section \<open>Receiving\<close>

text \<open>
  What one read amounts to: nothing arrived; a part did; the header is complete and announces a payload,
  or a size out of range; the message is complete.
\<close>

datatype rx = Rx_none | Rx_part | Rx_payload | Rx_bad_size | Rx_message

definition start_read :: "ASD_MSG \<Rightarrow> ASD_MSG" where
  "start_read s = s\<lparr>in_msg := zero_message, read_state := READ_STATE_HEADER, read_index := 0, data_size := 0\<rparr>"

definition recv_header :: "os \<Rightarrow> Server \<Rightarrow> ASD_MSG \<Rightarrow> trace \<Rightarrow> (rx \<times> ASD_MSG \<times> Server \<times> trace) option" where
  "recv_header os srv s tr = do {
     let hb = header_bytes (header (in_msg s));
     (n, bf, srv1, tr1) \<leftarrow> asd_api_server_read os srv (drop (read_index s) hb) tr;
     let num_to_read = HEADER_SIZE - read_index s;
     let left = num_to_read - min n num_to_read;
     let s1 = s\<lparr>in_msg := (in_msg s)\<lparr>header := header_of_bytes (take (read_index s) hb @ bf)\<rparr>\<rparr>;
     let size = get_message_size (in_msg s1);
     Some (if n = 0 then (Rx_none, s1, srv1, tr1)
           else if left > 0 then (Rx_part, s1\<lparr>read_index := HEADER_SIZE - left\<rparr>, srv1, tr1)
           else if size = - 1 then (Rx_bad_size, s1\<lparr>read_state := READ_STATE_INITIAL, read_index := 0\<rparr>, srv1, tr1)
           else if size > 0 then
             (Rx_payload, s1\<lparr>read_state := READ_STATE_BUFFER, read_index := 0, data_size := nat size\<rparr>, srv1, tr1)
           else (Rx_message, s1\<lparr>read_state := READ_STATE_INITIAL\<rparr>, srv1, tr1)) }"

definition recv_buffer :: "os \<Rightarrow> Server \<Rightarrow> ASD_MSG \<Rightarrow> trace \<Rightarrow> (rx \<times> ASD_MSG \<times> Server \<times> trace) option" where
  "recv_buffer os srv s tr = do {
     let i = read_index s;
     let num_to_read = data_size s - i;
     old \<leftarrow> rds (buffer (in_msg s)) i num_to_read;
     (n, bf, srv1, tr1) \<leftarrow> asd_api_server_read os srv old tr;
     b \<leftarrow> wrs (buffer (in_msg s)) i bf;
     let s1 = s\<lparr>in_msg := (in_msg s)\<lparr>buffer := b\<rparr>\<rparr>;
     let left = num_to_read - min n num_to_read;
     Some (if n = 0 then (Rx_none, s1, srv1, tr1)
           else if left > 0 then (Rx_part, s1\<lparr>read_index := data_size s - left\<rparr>, srv1, tr1)
           else (Rx_message, s1\<lparr>read_state := READ_STATE_INITIAL\<rparr>, srv1, tr1)) }"

section \<open>Cutting a stream into packets\<close>

text \<open>
  The extent of the packet a stream starts with: its header says how many bytes follow, none when the
  size is out of range.
\<close>

definition extent :: "u8 list \<Rightarrow> nat" where
  "extent bs = HEADER_SIZE + nat (get_message_size \<lparr>header = header_of_bytes (take HEADER_SIZE bs), buffer = []\<rparr>)"

definition packet_complete :: "u8 list \<Rightarrow> bool" where
  "packet_complete bs \<longleftrightarrow> HEADER_SIZE \<le> length bs \<and> extent bs \<le> length bs"

function split_stream :: "u8 list \<Rightarrow> u8 list list \<times> u8 list" where
  "split_stream bs =
     (if packet_complete bs
      then (let (ps, rest) = split_stream (drop (extent bs) bs) in (take (extent bs) bs # ps, rest))
      else ([], bs))"
  by pat_completeness auto
termination
  by (relation "measure length") (auto simp: packet_complete_def extent_def HEADER_SIZE_def)

declare split_stream.simps [simp del]

lemma extent_append: "HEADER_SIZE \<le> length bs \<Longrightarrow> extent (bs @ cs) = extent bs"
  by (simp add: extent_def)

lemma split_stream_packet:
  assumes "packet_complete p" "extent p = length p"
  shows "split_stream (p @ bs) = (p # fst (split_stream bs), snd (split_stream bs))"
  using assms by (subst split_stream.simps) (simp add: packet_complete_def extent_append split_def Let_def)

lemma split_stream_rest: "\<not> packet_complete bs \<Longrightarrow> split_stream bs = ([], bs)"
  by (simp add: split_stream.simps)

lemma split_stream_framed:
  "split_stream bs = (ps, rest) \<Longrightarrow> concat ps @ rest = bs \<and> \<not> packet_complete rest"
proof (induction bs arbitrary: ps rest rule: split_stream.induct)
  case (1 bs)
  show ?case
  proof (cases "packet_complete bs")
    case True
    obtain qs r where q: "split_stream (drop (extent bs) bs) = (qs, r)" by force
    from 1(1) [OF True q] show ?thesis
      using 1(2) True q by (subst (asm) split_stream.simps) (auto simp: Let_def)
  next
    case False
    then show ?thesis using 1(2) by (simp add: split_stream_rest)
  qed
qed

section \<open>The interface of a reader\<close>

text \<open>
  A step takes the bytes that arrived and either keeps them or completes a packet.  \<open>reader_runs\<close> are
  the steps in sequence, with what arrived and what was completed.
\<close>

inductive reader_runs :: "('s \<Rightarrow> u8 list \<Rightarrow> u8 list option \<Rightarrow> 's \<Rightarrow> bool) \<Rightarrow> 's \<Rightarrow> u8 list list \<Rightarrow> u8 list list \<Rightarrow> 's \<Rightarrow> bool"
  for step where
  start: "reader_runs step s [] [] s"
| keep: "reader_runs step s cs ps s1 \<Longrightarrow> step s1 c None s2 \<Longrightarrow> reader_runs step s (cs @ [c]) ps s2"
| complete: "reader_runs step s cs ps s1 \<Longrightarrow> step s1 c (Some p) s2 \<Longrightarrow> reader_runs step s (cs @ [c]) (ps @ [p]) s2"

locale stream_reader =
  fixes inv :: "'s \<Rightarrow> bool" and pending :: "'s \<Rightarrow> u8 list"
    and step :: "'s \<Rightarrow> u8 list \<Rightarrow> u8 list option \<Rightarrow> 's \<Rightarrow> bool"
  assumes step_inv: "step s c out s' \<Longrightarrow> inv s \<Longrightarrow> inv s'"
    and pending_open: "inv s \<Longrightarrow> \<not> packet_complete (pending s)"
    and step_keep: "step s c None s' \<Longrightarrow> inv s \<Longrightarrow> pending s' = pending s @ c"
    and step_complete: "step s c (Some p) s' \<Longrightarrow> inv s \<Longrightarrow>
      p = pending s @ c \<and> packet_complete p \<and> extent p = length p \<and> pending s' = []"
begin

lemma runs_inv: "reader_runs step s cs ps s' \<Longrightarrow> inv s \<Longrightarrow> inv s'"
  by (induction rule: reader_runs.induct) (auto intro: step_inv)

lemma runs_stream:
  assumes "reader_runs step s cs ps s'" "inv s" "pending s = []"
  shows "concat ps @ pending s' = concat cs \<and> (\<forall>p \<in> set ps. packet_complete p \<and> extent p = length p)"
  using assms
proof (induction rule: reader_runs.induct)
  case (keep s cs ps s1 c s2)
  then show ?case using runs_inv [OF keep.hyps(1)] step_keep [OF keep.hyps(2)] by (simp del: append_assoc add: append_assoc [symmetric])
next
  case (complete s cs ps s1 c p s2)
  then have "concat ps @ pending s1 = concat cs" "p = pending s1 @ c" "packet_complete p" "extent p = length p" "pending s2 = []"
    using runs_inv [OF complete.hyps(1)] step_complete [OF complete.hyps(2)] by auto
  then show ?case using complete by (auto simp del: append_assoc simp add: append_assoc [symmetric])
qed simp

text \<open>However the bytes arrive, the packets are those of the reference.\<close>

lemma runs_split:
  assumes "reader_runs step s cs ps s'" "inv s" "pending s = []"
  shows "split_stream (concat cs) = (ps, pending s')"
proof -
  have "split_stream (concat qs @ r) = (qs, r)"
    if "\<forall>p \<in> set qs. packet_complete p \<and> extent p = length p" "\<not> packet_complete r" for qs r
    using that by (induction qs) (simp_all add: split_stream_rest split_stream_packet)
  then show ?thesis
    using runs_stream [OF assms] pending_open [OF runs_inv [OF assms(1,2)]] by metis
qed

end

section \<open>The reader of the message layer\<close>

text \<open>
  What the kernel and OpenSSL promise of a read: a positive count is at most what was asked for, and
  that many bytes were stored.
\<close>

definition recv_honest :: "os \<Rightarrow> bool" where
  "recv_honest os \<longleftrightarrow> (\<forall>tr c k. c = Sys_recv (fst k) (snd k) \<or> c = Sys_ssl_read (nat (fst k)) (snd k) \<longrightarrow>
     nat (fst (os tr c)) \<le> snd k \<and> length (sys_data (os tr c)) = nat (fst (os tr c)))"

lemma recv_honestD:
  assumes "recv_honest os"
  shows "nat (fst (os tr (Sys_recv fd n))) \<le> n" "length (sys_data (os tr (Sys_recv fd n))) = nat (fst (os tr (Sys_recv fd n)))"
    "nat (fst (os tr (Sys_ssl_read ssl n))) \<le> n"
    "length (sys_data (os tr (Sys_ssl_read ssl n))) = nat (fst (os tr (Sys_ssl_read ssl n)))"
  using assms unfolding recv_honest_def by (metis fst_conv nat_int snd_conv)+

lemma drop_overlay: "length new = n \<Longrightarrow> n \<le> length old \<Longrightarrow> drop n (overlay old new) = drop n old"
  by (simp add: overlay_def)

lemma extnet_recv_honest:
  assumes "recv_honest os" "extnet_recv os net c bf pend tr = (n, bf', p, tr')"
  shows "nat n \<le> length bf \<and> drop (nat n) bf' = drop (nat n) bf \<and> sent_on tr' = sent_on tr"
  using assms(2)
  by (auto simp: extnet_recv_def exttcp_recv_def exttls_recv_def exttls_has_read_error_closed_def
      exttls_has_read_error_def Let_def sent_on_def recv_honestD [OF assms(1)] drop_overlay
      split: extnet_hdlr_type_t.splits if_splits option.splits)

lemma asd_api_server_read_honest:
  assumes "recv_honest os" "asd_api_server_read os srv bf tr = Some (n, bf', srv', tr')"
  shows "n \<le> length bf \<and> drop n bf' = drop n bf \<and> length bf' = length bf \<and> sent_on tr' = sent_on tr"
proof (cases "p_extconn srv")
  case None
  then show ?thesis using assms(2) by (simp add: asd_api_server_read_def asd_server_read_def read_data_def)
next
  case (Some i)
  then obtain ss where ss: "rd (sessions (session srv)) i = Some ss"
    using assms(2) by (auto simp: asd_api_server_read_def asd_server_read_def read_data_def bind_eq_Some_conv)
  obtain cnt bf1 pend tr1 where
    r: "extnet_recv os (extnet (session srv)) (extconn ss) bf (b_data_pending srv) tr = (cnt, bf1, pend, tr1)"
    by (metis prod.collapse)
  then have "n = (if cnt < 1 then 0 else nat cnt)" "bf' = bf1" "tr' = tr1"
    using assms(2) Some ss by (auto simp: asd_api_server_read_def asd_server_read_def read_data_def Let_def)
  then show ?thesis
    using extnet_recv_honest [OF assms(1) r] extnet_recv_length [OF r] by (auto split: if_splits)
qed

text \<open>The bytes of the current message that have arrived.\<close>

definition pending :: "ASD_MSG \<Rightarrow> u8 list" where
  "pending s = (case read_state s of
       READ_STATE_INITIAL \<Rightarrow> []
     | READ_STATE_HEADER \<Rightarrow> take (read_index s) (header_bytes (header (in_msg s)))
     | READ_STATE_BUFFER \<Rightarrow> packet_bytes (in_msg s) (read_index s))"

definition read_inv :: "ASD_MSG \<Rightarrow> bool" where
  "read_inv s \<longleftrightarrow> wf_msg s \<and> wf_read s \<and>
     (read_state s = READ_STATE_BUFFER \<longrightarrow> get_message_size (in_msg s) = int (data_size s))"

definition read_core :: "ASD_MSG \<Rightarrow> asd_message \<times> ReadState \<times> nat \<times> nat" where
  "read_core s = (in_msg s, read_state s, read_index s, data_size s)"

lemma read_core_pending: "read_core s' = read_core s \<Longrightarrow> pending s' = pending s"
  by (simp add: read_core_def pending_def split: ReadState.splits)

lemma read_core_inv: "read_core s' = read_core s \<Longrightarrow> wf_msg s' \<Longrightarrow> read_inv s \<Longrightarrow> read_inv s'"
  by (auto simp: read_core_def read_inv_def wf_read_def split: ReadState.splits)

text \<open>
  One read, from whatever state the last one left, followed by anything that leaves the reader alone.
  The bytes the read asks for are those that are missing of the header, or of the payload.
\<close>

definition open_read :: "ASD_MSG \<Rightarrow> ASD_MSG" where
  "open_read s = (if read_state s = READ_STATE_INITIAL then start_read s else s)"

definition wanted :: "ASD_MSG \<Rightarrow> u8 list" where
  "wanted s = (if read_state s = READ_STATE_BUFFER
     then take (data_size s - read_index s) (drop (read_index s) (buffer (in_msg s)))
     else drop (read_index s) (header_bytes (header (in_msg s))))"

definition recv_next :: "os \<Rightarrow> Server \<Rightarrow> ASD_MSG \<Rightarrow> trace \<Rightarrow> (rx \<times> ASD_MSG \<times> Server \<times> trace) option" where
  "recv_next os srv s tr = (if read_state s = READ_STATE_BUFFER then recv_buffer os srv s tr else recv_header os srv s tr)"

definition completes :: "rx \<Rightarrow> bool" where
  "completes e \<longleftrightarrow> e = Rx_message \<or> e = Rx_bad_size"

definition whole_packet :: "asd_message \<Rightarrow> u8 list" where
  "whole_packet m = packet_bytes m (nat (get_message_size m))"

definition rx_step :: "ASD_MSG \<Rightarrow> u8 list \<Rightarrow> u8 list option \<Rightarrow> ASD_MSG \<Rightarrow> bool" where
  "rx_step s c out s' \<longleftrightarrow> (\<exists>os srv tr n bf e s1 srv' tr'. recv_honest os \<and>
     asd_api_server_read os srv (wanted (open_read s)) tr = Some (n, bf, srv', tr') \<and>
     recv_next os srv (open_read s) tr = Some (e, s1, srv', tr') \<and> c = take n bf \<and>
     out = (if completes e then Some (whole_packet (in_msg s1)) else None) \<and> read_core s' = read_core s1 \<and> wf_msg s')"

lemma open_read_inv: "read_inv s \<Longrightarrow> read_inv (open_read s) \<and> pending (open_read s) = pending s \<and> read_state (open_read s) \<noteq> READ_STATE_INITIAL"
  by (auto simp: open_read_def start_read_def read_inv_def wf_read_def pending_def wf_msg_def HEADER_SIZE_def)

text \<open>A read of the header.\<close>

lemma recv_header_refines:
  assumes "recv_honest os" "read_inv s" "read_state s = READ_STATE_HEADER"
    "asd_api_server_read os srv (wanted s) tr = Some (n, bf, srv', tr')"
    "recv_header os srv s tr = Some (e, s', srv', tr')"
  shows "read_inv s' \<and>
    (if completes e then whole_packet (in_msg s') = pending s @ take n bf \<and> packet_complete (pending s @ take n bf) \<and>
       extent (pending s @ take n bf) = length (pending s @ take n bf) \<and> read_state s' = READ_STATE_INITIAL
     else pending s' = pending s @ take n bf)"
proof -
  define i hb x where "i = read_index s" and "hb = header_bytes (header (in_msg s))" and "x = take i hb @ bf"
  have i: "i < HEADER_SIZE" and wf: "wf_msg s" using assms(2,3) by (auto simp: i_def read_inv_def wf_read_def)
  have hb: "length hb = HEADER_SIZE" by (simp add: hb_def)
  have w: "wanted s = drop i hb" using assms(3) by (simp add: wanted_def i_def hb_def)
  have b: "n \<le> HEADER_SIZE - i" "drop n bf = drop (i + n) hb" "length bf = HEADER_SIZE - i"
    using asd_api_server_read_honest [OF assms(1,4)] hb by (simp_all add: w add.commute)
  have x: "header_bytes (header_of_bytes x) = x" "length x = HEADER_SIZE"
    using i b hb by (simp_all add: x_def header_bytes_of_bytes)
  have p: "pending s = take i hb" using assms(3) by (simp add: pending_def i_def hb_def)
  define m where "m = (in_msg s)\<lparr>header := header_of_bytes x\<rparr>"
  have m: "header_bytes (header m) = x" "wf_message m" using x wf_msgD(2) [OF wf] by (simp_all add: m_def)
  have wfm: "wf_msg (s\<lparr>in_msg := m\<rparr>)" using wf m(2) by (simp add: wf_msg_def)
  have ext: "extent x = HEADER_SIZE + nat (get_message_size m)"
    using x by (simp add: extent_def m_def get_message_size_def)
  have es: "(e, s') = (if n = 0 then (Rx_none, s\<lparr>in_msg := m\<rparr>)
      else if n < HEADER_SIZE - i then (Rx_part, s\<lparr>in_msg := m, read_index := i + n\<rparr>)
      else if get_message_size m = - 1 then (Rx_bad_size, s\<lparr>in_msg := m, read_state := READ_STATE_INITIAL, read_index := 0\<rparr>)
      else if get_message_size m > 0 then
        (Rx_payload, s\<lparr>in_msg := m, read_state := READ_STATE_BUFFER, read_index := 0, data_size := nat (get_message_size m)\<rparr>)
      else (Rx_message, s\<lparr>in_msg := m, read_state := READ_STATE_INITIAL\<rparr>))"
    using assms(4,5) b i
    by (auto simp: recv_header_def Let_def w m_def x_def simp flip: i_def hb_def split: if_splits)
  consider "n = 0" | "0 < n" "n < HEADER_SIZE - i" | "0 < n" "n = HEADER_SIZE - i" using b(1) by linarith
  then show ?thesis
  proof cases
    case 1
    then have "x = hb" using b(2) by (simp add: x_def)
    then have "m = in_msg s" by (simp add: m_def hb_def header_of_header_bytes)
    then show ?thesis using es 1 assms(2) by (simp add: completes_def)
  next
    case 2
    then show ?thesis
      using es wfm p i assms(3) b(3) hb m(1)
      by (auto simp: completes_def read_inv_def wf_read_def pending_def x_def)
  next
    case 3
    then have c: "pending s @ take n bf = x" using p b(3) by (simp add: x_def)
    consider "get_message_size m = - 1" | "0 < get_message_size m" | "get_message_size m = 0"
      using get_message_size_range [of m] by linarith
    then show ?thesis
      unfolding c using es 3 wfm m x ext get_message_size_range [of m]
      by cases (auto simp: completes_def read_inv_def wf_read_def pending_def whole_packet_def packet_bytes_def packet_complete_def)
  qed
qed

text \<open>A read of the payload.\<close>

lemma recv_buffer_refines:
  assumes "recv_honest os" "read_inv s" "read_state s = READ_STATE_BUFFER"
    "asd_api_server_read os srv (wanted s) tr = Some (n, bf, srv', tr')"
    "recv_buffer os srv s tr = Some (e, s', srv', tr')"
  shows "read_inv s' \<and>
    (if completes e then whole_packet (in_msg s') = pending s @ take n bf \<and> packet_complete (pending s @ take n bf) \<and>
       extent (pending s @ take n bf) = length (pending s @ take n bf) \<and> read_state s' = READ_STATE_INITIAL
     else pending s' = pending s @ take n bf)"
proof -
  define i d b where "i = read_index s" and "d = data_size s" and "b = buffer (in_msg s)"
  have i: "i < d" "d \<le> MAX_DATA_SIZE" "get_message_size (in_msg s) = int d" and wf: "wf_msg s"
    using assms(2,3) by (auto simp: i_def d_def read_inv_def wf_read_def)
  have len: "length b = MAX_DATA_SIZE" using wf_msgD(2) [OF wf] by (simp add: b_def wf_message_def)
  have w: "wanted s = take (d - i) (drop i b)" "length (wanted s) = d - i"
    using assms(3) i len by (simp_all add: wanted_def i_def d_def b_def)
  have r: "n \<le> d - i" "drop n bf = drop n (wanted s)" "length bf = d - i"
    using asd_api_server_read_honest [OF assms(1,4)] w(2) by simp_all
  define b' m where "b' = take i b @ bf @ drop d b" and "m = (in_msg s)\<lparr>buffer := b'\<rparr>"
  have b': "length b' = MAX_DATA_SIZE" "take (i + n) b' = take i b @ take n bf"
    using i len r by (simp_all add: b'_def)
  have m: "wf_msg (s\<lparr>in_msg := m\<rparr>)" "get_message_size m = int d" "header m = header (in_msg s)"
    using wf b' i by (simp_all add: m_def wf_msg_def wf_message_def get_message_size_def)
  have es: "(e, s') = (if n = 0 then (Rx_none, s\<lparr>in_msg := m\<rparr>)
      else if n < d - i then (Rx_part, s\<lparr>in_msg := m, read_index := i + n\<rparr>)
      else (Rx_message, s\<lparr>in_msg := m, read_state := READ_STATE_INITIAL\<rparr>))"
    using assms(4,5) r i len w
    by (auto simp: recv_buffer_def Let_def m_def b'_def rds_Some wrs_def simp flip: i_def d_def b_def split: if_splits)
  have p: "pending s = header_bytes (header m) @ take i b"
    using assms(3) m(3) by (simp add: pending_def packet_bytes_def i_def b_def)
  have pm: "packet_bytes m (i + n) = pending s @ take n bf"
    using b'(2) by (simp add: packet_bytes_def p m_def)
  consider "n = 0" | "0 < n" "n < d - i" | "0 < n" "i + n = d" using r(1) i(1) by linarith
  then show ?thesis
  proof cases
    case 3
    have "extent (pending s @ take n bf) = HEADER_SIZE + d"
      using m(2) by (simp add: extent_def p header_of_header_bytes get_message_size_def)
    then show ?thesis
      using es 3 m pm i r len
      by (auto simp: completes_def read_inv_def wf_read_def whole_packet_def packet_complete_def p nat_int_add)
  qed (use es m pm i assms(3) in \<open>auto simp: completes_def read_inv_def wf_read_def pending_def i_def d_def\<close>)
qed

lemma rx_step_refines:
  assumes "rx_step s c out s'" "read_inv s"
  shows "read_inv s' \<and> (case out of None \<Rightarrow> pending s' = pending s @ c
    | Some p \<Rightarrow> p = pending s @ c \<and> packet_complete p \<and> extent p = length p \<and> pending s' = [])"
proof -
  define s0 where "s0 = open_read s"
  have s0: "read_inv s0" "pending s0 = pending s" "read_state s0 \<noteq> READ_STATE_INITIAL"
    using open_read_inv [OF assms(2)] by (simp_all add: s0_def)
  obtain os srv tr n bf e s1 srv' tr' where st: "recv_honest os"
    "asd_api_server_read os srv (wanted s0) tr = Some (n, bf, srv', tr')" "recv_next os srv s0 tr = Some (e, s1, srv', tr')"
    "c = take n bf" "out = (if completes e then Some (whole_packet (in_msg s1)) else None)" "read_core s' = read_core s1" "wf_msg s'"
    using assms(1) unfolding rx_step_def s0_def by blast
  have "read_inv s1 \<and> (if completes e then whole_packet (in_msg s1) = pending s0 @ c \<and> packet_complete (pending s0 @ c) \<and>
       extent (pending s0 @ c) = length (pending s0 @ c) \<and> read_state s1 = READ_STATE_INITIAL
     else pending s1 = pending s0 @ c)"
    using recv_buffer_refines [OF st(1) s0(1) _ st(2)] recv_header_refines [OF st(1) s0(1) _ st(2)] st(3) s0(3)
    by (cases "read_state s0") (auto simp: recv_next_def st(4))
  then show ?thesis
    using read_core_inv [OF st(6,7)] read_core_pending [OF st(6)] s0(2) st(5)
    by (auto simp: pending_def split: if_splits)
qed

lemma read_inv_open:
  assumes "read_inv s"
  shows "\<not> packet_complete (pending s)"
proof (cases "read_state s")
  case READ_STATE_BUFFER
  then have i: "read_index s < data_size s" "get_message_size (in_msg s) = int (data_size s)"
    using assms by (auto simp: read_inv_def wf_read_def)
  have "extent (pending s) = HEADER_SIZE + data_size s"
    using READ_STATE_BUFFER i(2) by (simp add: pending_def extent_def packet_bytes_def header_of_header_bytes get_message_size_def)
  then show ?thesis using READ_STATE_BUFFER i(1) by (simp add: packet_complete_def pending_def packet_bytes_def)
qed (use assms in \<open>auto simp: pending_def packet_complete_def read_inv_def wf_read_def HEADER_SIZE_def\<close>)

interpretation rxr: stream_reader read_inv pending rx_step
proof unfold_locales
  fix s c out s' assume "rx_step s c out s'" "read_inv s"
  then show "read_inv s'" using rx_step_refines by blast
next
  fix s assume "read_inv s" then show "\<not> packet_complete (pending s)" by (rule read_inv_open)
next
  fix s c s' assume "rx_step s c None s'" "read_inv s"
  then show "pending s' = pending s @ c" using rx_step_refines [of s c None s'] by simp
next
  fix s c p s' assume "rx_step s c (Some p) s'" "read_inv s"
  then show "p = pending s @ c \<and> packet_complete p \<and> extent p = length p \<and> pending s' = []"
    using rx_step_refines [of s c "Some p" s'] by auto
qed

section \<open>Safety\<close>

definition reader_frame :: "ASD_MSG \<Rightarrow> ASD_MSG" where
  "reader_frame s = s\<lparr>in_msg := zero_message, read_state := READ_STATE_INITIAL, read_index := 0, data_size := 0\<rparr>"

lemma reader_frame_simps [simp]:
  "reader_frame (s\<lparr>in_msg := m\<rparr>) = reader_frame s" "reader_frame (s\<lparr>read_state := q\<rparr>) = reader_frame s"
  "reader_frame (s\<lparr>read_index := i\<rparr>) = reader_frame s" "reader_frame (s\<lparr>data_size := i\<rparr>) = reader_frame s"
  by (simp_all add: reader_frame_def)

lemma reader_frame_open [simp]: "reader_frame (open_read s) = reader_frame s"
  by (simp add: open_read_def start_read_def)

definition recv_post :: "ASD_MSG \<Rightarrow> trace \<Rightarrow> rx \<times> ASD_MSG \<times> Server \<times> trace \<Rightarrow> bool" where
  "recv_post s tr = (\<lambda>(e, s', srv', tr'). read_inv s' \<and> wf_server srv' \<and> sent_on tr' = sent_on tr \<and>
     reader_frame s' = reader_frame s \<and> (completes e \<longrightarrow> read_state s' = READ_STATE_INITIAL) \<and>
     (e = Rx_payload \<longleftrightarrow> read_state s = READ_STATE_HEADER \<and> read_state s' = READ_STATE_BUFFER))"

lemma recv_next_safe:
  assumes "recv_honest os" "read_inv s" "wf_server srv" "read_state s \<noteq> READ_STATE_INITIAL"
  shows "ensures (recv_next os srv s tr) (recv_post s tr)"
proof -
  obtain n bf srv' tr' where r: "asd_api_server_read os srv (wanted s) tr = Some (n, bf, srv', tr')" "wf_server srv'"
    using asd_api_server_read_ok [OF assms(3), of os "wanted s" tr] by (auto simp: ensures_iff)
  note h = asd_api_server_read_honest [OF assms(1) r(1)]
  show ?thesis
  proof (cases "read_state s")
    case READ_STATE_HEADER
    have w: "wanted s = drop (read_index s) (header_bytes (header (in_msg s)))" using READ_STATE_HEADER by (simp add: wanted_def)
    have "ensures (recv_header os srv s tr) (\<lambda>(e, s', v, t). v = srv' \<and> t = tr' \<and> reader_frame s' = reader_frame s \<and>
        (e = Rx_payload \<longleftrightarrow> read_state s' = READ_STATE_BUFFER))"
      using r READ_STATE_HEADER by (simp add: recv_header_def Let_def w)
    then obtain e s' where e: "recv_header os srv s tr = Some (e, s', srv', tr')"
      "reader_frame s' = reader_frame s" "e = Rx_payload \<longleftrightarrow> read_state s' = READ_STATE_BUFFER"
      by (auto simp: ensures_iff)
    then show ?thesis
      using recv_header_refines [OF assms(1,2) READ_STATE_HEADER r(1) e(1)] r h READ_STATE_HEADER
      by (auto simp: recv_next_def recv_post_def split: if_splits)
  next
    case READ_STATE_BUFFER
    have b: "read_index s < data_size s" "data_size s \<le> length (buffer (in_msg s))"
      using assms(2) READ_STATE_BUFFER wf_msgD(2) [of s] by (auto simp: read_inv_def wf_read_def wf_message_def)
    have w: "wanted s = take (data_size s - read_index s) (drop (read_index s) (buffer (in_msg s)))"
      using READ_STATE_BUFFER by (simp add: wanted_def)
    have "ensures (recv_buffer os srv s tr) (\<lambda>(e, s', v, t). v = srv' \<and> t = tr' \<and> reader_frame s' = reader_frame s \<and> e \<noteq> Rx_payload)"
      using r b h by (simp add: recv_buffer_def Let_def w)
    then obtain e s' where e: "recv_buffer os srv s tr = Some (e, s', srv', tr')"
      "reader_frame s' = reader_frame s" "e \<noteq> Rx_payload"
      by (auto simp: ensures_iff)
    then show ?thesis
      using recv_buffer_refines [OF assms(1,2) READ_STATE_BUFFER r(1) e(1)] r h READ_STATE_BUFFER
      by (auto simp: recv_next_def recv_post_def split: if_splits)
  qed (use assms(4) in simp)
qed

end
