(* ===== verification/Asd_Msg.thy ===== *)
theory Asd_Msg
  imports Jtag_Msg I2c_Msg Spp_Msg Agent_Msg Read_Msg
begin

text \<open>
  The top of \<open>target/asd_msg.c\<close>: receiving a message (\<open>asd_msg_read\<close>), initialising the handlers with
  the first one that needs them, dispatching it (\<open>process_message\<close>) to the interpreters of the other
  theories, and creating and freeing the state (\<open>asd_msg_init\<close>, \<open>asd_msg_free\<close>).

  The interpreters have local variables that are read before they are set on some paths; \<open>locals\<close> holds
  the values they happen to have.
\<close>

record locals =
  loc_pin :: int
  loc_i2c :: asd_i2c_msg
  loc_addr :: u32

definition wf_locals :: "locals \<Rightarrow> bool" where
  "wf_locals g \<longleftrightarrow> length (i2c_buffer (loc_i2c g)) = ASD_I2C_BUFFER_LEN"

section \<open>Dispatch\<close>

type_synonym msg_res = "(ASD_MSG \<times> trace) option"

definition refuse :: "os \<Rightarrow> Server \<Rightarrow> ASDError \<Rightarrow> ASD_MSG \<Rightarrow> trace \<Rightarrow> msg_res" where
  "refuse os srv e s tr = do { tr1 \<leftarrow> send_error_message os srv (in_msg s) e tr; Some (s, tr1) }"

definition refuse_unless_ok :: "os \<Rightarrow> Server \<Rightarrow> ASDError \<Rightarrow> STATUS \<times> ASD_MSG \<times> trace \<Rightarrow> msg_res" where
  "refuse_unless_ok os srv e = (\<lambda>(st, s, tr). if st = ST_OK then Some (s, tr) else refuse os srv e s tr)"

definition process_jtag_type :: "os \<Rightarrow> Server \<Rightarrow> locals \<Rightarrow> ASD_MSG \<Rightarrow> trace \<Rightarrow> msg_res" where
  "process_jtag_type os srv g s tr =
     (if opt_ok (\<lambda>h. JTAG_driver_handle h = - 1) (jtag_handler s)
      then refuse os srv ASD_FAILURE_PROCESS_JTAG_MSG s tr
      else process_jtag_message os srv (loc_pin g) (in_msg s) s tr \<bind> refuse_unless_ok os srv ASD_FAILURE_PROCESS_JTAG_MSG)"

text \<open>The bus that is unlocked is the default bus after the message, which a bus selection may have changed.\<close>

definition process_i2c_type :: "os \<Rightarrow> Server \<Rightarrow> locals \<Rightarrow> ASD_MSG \<Rightarrow> trace \<Rightarrow> msg_res" where
  "process_i2c_type os srv g s tr =
     (if \<not> enable_i2c (buses s) \<and> \<not> enable_i3c (buses s) then refuse os srv ASD_I2C_MSG_NOT_SUPPORTED s tr
      else do {
        (st, s1, tr1) \<leftarrow> dev_flock os (default_bus (buses s)) True s tr;
        if st \<noteq> ST_OK then refuse os srv ASD_FAILURE_PROCESS_I2C_LOCK s1 tr1
        else do {
          (s2, tr2) \<leftarrow> process_i2c_messages os srv (loc_i2c g) (in_msg s1) s1 tr1
            \<bind> refuse_unless_ok os srv ASD_FAILURE_PROCESS_I2C_MSG;
          dev_flock os (default_bus (buses s2)) False s2 tr2 \<bind> refuse_unless_ok os srv ASD_FAILURE_REMOVE_I2C_LOCK } })"

definition process_spp_type :: "os \<Rightarrow> Server \<Rightarrow> locals \<Rightarrow> ASD_MSG \<Rightarrow> trace \<Rightarrow> msg_res" where
  "process_spp_type os srv g s tr =
     (if \<not> enable_spp (buses s) then Some (s, tr)
      else process_spp_message os srv (loc_addr g) (in_msg s) s tr \<bind> refuse_unless_ok os srv ASD_FAILURE_PROCESS_SPP_MSG)"

definition supported_message :: "message_header \<Rightarrow> bool" where
  "supported_message h \<longleftrightarrow> mtype h \<in> {JTAG_TYPE, I2C_TYPE, SPP_TYPE} \<and> cmd_stat h \<in> {0, 0x80, 1}"

definition process_message :: "os \<Rightarrow> Server \<Rightarrow> locals \<Rightarrow> ASD_MSG \<Rightarrow> trace \<Rightarrow> msg_res" where
  "process_message os srv g s tr =
     (let h = header (in_msg s)
      in if \<not> supported_message h then refuse os srv ASD_MSG_NOT_SUPPORTED s tr
         else if mtype h = JTAG_TYPE then process_jtag_type os srv g s tr
         else if mtype h = I2C_TYPE then process_i2c_type os srv g s tr
         else process_spp_type os srv g s tr)"

section \<open>Initialising the handlers\<close>

text \<open>
  Each step tells whether the initialisation goes on; the steps that do not have reported their error
  to the client, and the message is answered \<open>ST_ERR\<close>.
\<close>

type_synonym init_res = "(bool \<times> ASD_MSG \<times> trace) option"

definition init_failed :: "os \<Rightarrow> Server \<Rightarrow> ASDError \<Rightarrow> ASD_MSG \<Rightarrow> trace \<Rightarrow> init_res" where
  "init_failed os srv e s tr = do { tr1 \<leftarrow> send_error_message os srv (in_msg s) e tr; Some (False, s, tr1) }"

definition init_jtag :: "os \<Rightarrow> Server \<Rightarrow> ASD_MSG \<Rightarrow> trace \<Rightarrow> init_res" where
  "init_jtag os srv s tr = do {
     (st, s1, tr1) \<leftarrow>
       (case jtag_handler s of None \<Rightarrow> Some (ST_ERR, s, tr)
        | Some h \<Rightarrow> do {
            (st, h1, tr1) \<leftarrow> JTAG_initialize os h (jtag_mode (jtag_cfg (asd_cfg s)) = JTAG_DRIVER_MODE_SOFTWARE) tr;
            Some (st, s\<lparr>jtag_handler := Some h1\<rparr>, tr1) });
     if st \<noteq> ST_OK \<and> \<not> enable_spp (buses s1) then init_failed os srv ASD_FAILURE_INIT_JTAG_HANDLER s1 tr1
     else Some (True, s1, tr1) }"

definition init_i2c :: "os \<Rightarrow> Server \<Rightarrow> ASD_MSG \<Rightarrow> trace \<Rightarrow> init_res" where
  "init_i2c os srv s tr =
     (if \<not> enable_i2c (buses s) then Some (True, s, tr)
      else case i2c_handler s of None \<Rightarrow> init_failed os srv ASD_FAILURE_INIT_I2C_HANDLER s tr
      | Some h \<Rightarrow>
          (let (st, cfg, h1, tr1) = i2c_initialize os (buses s) h tr;
               s1 = set_buses cfg (s\<lparr>i2c_handler := Some h1\<rparr>)
           in if st \<noteq> ST_OK then init_failed os srv ASD_FAILURE_INIT_I2C_HANDLER s1 tr1 else Some (True, s1, tr1)))"

definition init_i3c :: "os \<Rightarrow> Server \<Rightarrow> ASD_MSG \<Rightarrow> trace \<Rightarrow> init_res" where
  "init_i3c os srv s tr =
     (if \<not> enable_i3c (buses s) then Some (True, s, tr)
      else case i3c_handler s of None \<Rightarrow> init_failed os srv ASD_FAILURE_INIT_I2C_HANDLER s tr
      | Some h \<Rightarrow>
          (let (st, h1, tr1) = i3c_initialize os (buses s) h tr; s1 = s\<lparr>i3c_handler := Some h1\<rparr>
           in if st \<noteq> ST_OK then init_failed os srv ASD_FAILURE_INIT_I2C_HANDLER s1 tr1 else Some (True, s1, tr1)))"

text \<open>A failed SPP initialisation is reported and the handler attached all the same.\<close>

definition init_spp :: "os \<Rightarrow> Server \<Rightarrow> ASD_MSG \<Rightarrow> trace \<Rightarrow> init_res" where
  "init_spp os srv s tr =
     (if \<not> enable_spp (buses s) then Some (True, s, tr)
      else do {
        h \<leftarrow> spp_handler s;
        (st, cfg, h1, tr1) \<leftarrow> spp_initialize os (buses s) h tr;
        tr2 \<leftarrow> (if st \<noteq> ST_OK then send_error_message os srv (in_msg s) ASD_FAILURE_INIT_SPP_HANDLER tr1 else Some tr1);
        t \<leftarrow> target_handler s;
        Some (True, set_buses cfg (s\<lparr>spp_handler := Some h1,
                                     target_handler := Some (t\<lparr>spp_fd := spp_driver_handle h1, spp_attached := True\<rparr>)\<rparr>), tr2) })"

text \<open>The event handlers leave the event alone only when they fail, and then it is not sent.\<close>

definition report_power ::
    "os \<Rightarrow> Server \<Rightarrow> TargetEventFunctionPtr \<Rightarrow> Target_Control_Handle \<Rightarrow> trace \<Rightarrow> (STATUS \<times> trace) option" where
  "report_power os srv f t tr = do {
     (st, event, tr1) \<leftarrow> run_handler os f t ASD_EVENT_NONE tr;
     tr2 \<leftarrow> (if st = ST_OK then do { (_, tr2) \<leftarrow> send_pin_event os srv event tr1; Some tr2 } else Some tr1);
     Some (st, tr2) }"

definition init_target :: "os \<Rightarrow> Server \<Rightarrow> ASD_MSG \<Rightarrow> trace \<Rightarrow> (bool \<times> STATUS \<times> ASD_MSG \<times> trace) option" where
  "init_target os srv s tr = do {
     (st, s1, tr1) \<leftarrow>
       (case target_handler s of None \<Rightarrow> Some (ST_ERR, s, tr)
        | Some t \<Rightarrow> do {
            (st, t1, tr1) \<leftarrow> target_initialize os t (xdp_fail_enable (jtag_cfg (asd_cfg s))) tr;
            Some (st, s\<lparr>target_handler := Some t1\<rparr>, tr1) });
     if st = ST_OK then do {
       let s2 = s1\<lparr>handlers_initialized := True\<rparr>;
       t \<leftarrow> target_handler s2;
       tr2 \<leftarrow> (if xdp_present t then send_error_message os srv (in_msg s) ASD_FAILURE_XDP_PRESENT tr1 else Some tr1);
       (_, tr3) \<leftarrow> report_power os srv On_power2_event t tr2;
       (result, tr4) \<leftarrow> report_power os srv On_power_event t tr3;
       Some (True, result, s2, tr4) }
     else do {
       let (s2, tr2) = (case jtag_handler s1 of None \<Rightarrow> (s1, tr1)
                        | Some h \<Rightarrow> (let (_, h1, tr2) = JTAG_deinitialize h tr1 in (s1\<lparr>jtag_handler := Some h1\<rparr>, tr2)));
       tr3 \<leftarrow> send_error_message os srv (in_msg s) ASD_FAILURE_XDP_PRESENT tr2;
       Some (False, ST_ERR, s2, tr3) } }"

definition init_handlers :: "os \<Rightarrow> Server \<Rightarrow> ASD_MSG \<Rightarrow> trace \<Rightarrow> (bool \<times> STATUS \<times> ASD_MSG \<times> trace) option" where
  "init_handlers os srv s tr =
     (let stop = (\<lambda>s tr. Some (False, ST_ERR, s, tr))
      in do {
        (ok1, s1, tr1) \<leftarrow> init_jtag os srv s tr;
        if \<not> ok1 then stop s1 tr1
        else do {
          (ok2, s2, tr2) \<leftarrow> init_i2c os srv s1 tr1;
          if \<not> ok2 then stop s2 tr2
          else do {
            (ok3, s3, tr3) \<leftarrow> init_i3c os srv s2 tr2;
            if \<not> ok3 then stop s3 tr3
            else do {
              (_, s4, tr4) \<leftarrow> init_spp os srv s3 tr3;
              init_target os srv s4 tr4 } } } })"

section \<open>A received message\<close>

definition asd_msg_on_msg_recv ::
    "os \<Rightarrow> Server \<Rightarrow> u8 list \<Rightarrow> bool \<Rightarrow> locals \<Rightarrow> ASD_MSG \<Rightarrow> trace \<Rightarrow> (STATUS \<times> ASD_MSG \<times> trace) option" where
  "asd_msg_on_msg_recv os srv ver ez g s tr =
     (if enc_bit (header (in_msg s)) \<noteq> 0 then do {
        tr1 \<leftarrow> send_error_message os srv (in_msg s) ASD_MSG_CRYPY_NOT_SUPPORTED tr;
        Some (ST_ERR, s, tr1) }
      else if mtype (header (in_msg s)) = AGENT_CONTROL_TYPE then agent_control os srv ver ez s tr
      else do {
        (go_on, st, s1, tr1) \<leftarrow> (if handlers_initialized s then Some (True, ST_OK, s, tr) else init_handlers os srv s tr);
        if \<not> go_on then Some (st, s1, tr1)
        else do {
          (s2, tr2) \<leftarrow> process_message os srv g s1 tr1;
          Some (st, s2, tr2) } })"

section \<open>Reading\<close>

text \<open>
  \<open>handle_header\<close> and \<open>handle_payload\<close> are what follows the reads of \<open>Read_Msg\<close>.  The first component of
  \<open>read_header\<close> tells whether the buffer is read in the same call.
\<close>

definition handle_header ::
    "os \<Rightarrow> Server \<Rightarrow> u8 list \<Rightarrow> bool \<Rightarrow> locals \<Rightarrow> rx \<Rightarrow> ASD_MSG \<Rightarrow> trace \<Rightarrow> (STATUS \<times> ASD_MSG \<times> trace) option" where
  "handle_header os srv ver ez g e s tr =
     (case e of
        Rx_none \<Rightarrow> Some (ST_ERR, s, tr)
      | Rx_bad_size \<Rightarrow> do {
          tr1 \<leftarrow> send_error_message os srv (in_msg s) ASD_FAILURE_HEADER_SIZE tr;
          Some (ST_ERR, s, tr1) }
      | Rx_message \<Rightarrow> asd_msg_on_msg_recv os srv ver ez g s tr
      | _ \<Rightarrow> Some (ST_OK, s, tr))"

definition read_header ::
    "os \<Rightarrow> Server \<Rightarrow> u8 list \<Rightarrow> bool \<Rightarrow> locals \<Rightarrow> ASD_MSG \<Rightarrow> trace \<Rightarrow> (bool \<times> STATUS \<times> ASD_MSG \<times> Server \<times> trace) option" where
  "read_header os srv ver ez g s tr = do {
     (e, s1, srv1, tr1) \<leftarrow> recv_header os srv s tr;
     (st, s2, tr2) \<leftarrow> handle_header os srv1 ver ez g e s1 tr1;
     if e = Rx_message \<and> st = ST_ERR then Some (False, st, s2, srv1, tr2)
     else Some (read_state s2 = READ_STATE_BUFFER \<and> is_data_pending srv1, st, s2, srv1, tr2) }"

definition read_buffer ::
    "os \<Rightarrow> Server \<Rightarrow> u8 list \<Rightarrow> bool \<Rightarrow> locals \<Rightarrow> STATUS \<Rightarrow> ASD_MSG \<Rightarrow> trace \<Rightarrow> (STATUS \<times> ASD_MSG \<times> Server \<times> trace) option" where
  "read_buffer os srv ver ez g st s tr = do {
     (e, s1, srv1, tr1) \<leftarrow> recv_buffer os srv s tr;
     (st2, s2, tr2) \<leftarrow> (if e = Rx_message then asd_msg_on_msg_recv os srv1 ver ez g s1 tr1
                        else Some (if e = Rx_none then st else ST_OK, s1, tr1));
     Some (st2, s2, srv1, tr2) }"

definition read_from_header ::
    "os \<Rightarrow> Server \<Rightarrow> u8 list \<Rightarrow> bool \<Rightarrow> locals \<Rightarrow> ASD_MSG \<Rightarrow> trace \<Rightarrow> (STATUS \<times> ASD_MSG \<times> Server \<times> trace) option" where
  "read_from_header os srv ver ez g s tr = do {
     (more, st, s1, srv1, tr1) \<leftarrow> read_header os srv ver ez g s tr;
     if more then read_buffer os srv1 ver ez g st s1 tr1 else Some (st, s1, srv1, tr1) }"

definition asd_msg_read ::
    "os \<Rightarrow> Server \<Rightarrow> u8 list \<Rightarrow> bool \<Rightarrow> locals \<Rightarrow> ASD_MSG \<Rightarrow> trace \<Rightarrow> (STATUS \<times> ASD_MSG \<times> Server \<times> trace) option" where
  "asd_msg_read os srv ver ez g s tr =
     (case read_state s of
        READ_STATE_INITIAL \<Rightarrow> read_from_header os srv ver ez g (start_read s) tr
      | READ_STATE_HEADER \<Rightarrow> read_from_header os srv ver ez g s tr
      | READ_STATE_BUFFER \<Rightarrow> read_buffer os srv ver ez g ST_ERR s tr)"

section \<open>Creating and freeing the state\<close>

text \<open>
  The fields of the handlers that their constructors do not set, and the two globals of the handler
  files that the records hold.
\<close>

record uninit =
  un_i2c_bus :: u8
  un_i3c_bus :: u8
  un_spd_map :: "int list"
  un_spp_fd :: int
  glob_fail_read_counter :: u32
  glob_platform_reset :: bool

text \<open>
  When a handler cannot be created the function still answers \<open>ST_OK\<close>: \<open>instance\<close> is not set yet, so
  its call of \<open>asd_msg_free\<close> frees nothing and \<open>asd_cfg\<close> keeps its old value.
\<close>

definition asd_msg_init ::
    "os \<Rightarrow> bool \<Rightarrow> uninit \<Rightarrow> config \<Rightarrow> ASD_MSG \<Rightarrow> trace \<Rightarrow> (STATUS \<times> ASD_MSG \<times> trace) option" where
  "asd_msg_init os ez u cfg s tr =
     (if inst s then Some (ST_ERR, s, tr)
      else do {
        let (jh, tr1) = JTAGHandler os tr;
        let (th, tr2) = TargetHandler os (un_spp_fd u) (glob_platform_reset u) tr1;
        let (ih, tr3) = I2CHandler os (un_i2c_bus u) tr2;
        let (i3h, tr4) = I3CHandler os (un_i3c_bus u) (un_spd_map u) tr3;
        let (sh, tr5) = SPPHandler os (glob_fail_read_counter u) tr4;
        let (vh, tr6) = vProbeHandler os tr5;
        let s1 = set_buses (buscfg cfg) (s\<lparr>jtag_handler := jh, target_handler := th, i2c_handler := ih, i3c_handler := i3h,
                                         spp_handler := sh, vprobe_handler := vh\<rparr>);
        if jh = None \<or> th = None \<or> ih = None \<or> i3h = None \<or> sh = None \<or> vh = None
        then Some (ST_OK, s1\<lparr>asd_poll_timeout_ms := 0\<rparr>, tr6)
        else do {
          (_, s2, tr7) \<leftarrow> read_openbmc_version os ez
            (s1\<lparr>asd_cfg := cfg, handlers_initialized := False, read_state := READ_STATE_INITIAL, read_index := 0,
                prdy_timeout := 0, jtag_chain_mode := JTAG_CHAIN_SELECT_MODE_SINGLE, inst := True\<rparr>) tr6;
          Some (ST_OK, s2\<lparr>asd_poll_timeout_ms := 0\<rparr>, tr7) } })"

text \<open>\<open>reserved\<close> is the one header field that is not cleared.\<close>

definition asd_msg_state_free :: "ASD_MSG \<Rightarrow> STATUS \<times> ASD_MSG" where
  "asd_msg_state_free s =
     (ST_OK, s\<lparr>in_msg := \<lparr>header = zero_header\<lparr>reserved := reserved (header (in_msg s))\<rparr>, buffer = zero_buffer\<rparr>,
                read_state := READ_STATE_HEADER, read_index := 0, data_size := 0\<rparr>)"

text \<open>The SPP devices are told to disconnect; whether they did is only logged.\<close>

definition free_spp :: "os \<Rightarrow> SPP_Handler option \<Rightarrow> trace \<Rightarrow> (STATUS \<times> trace) option" where
  "free_spp os h tr =
     (case h of None \<Rightarrow> Some (ST_OK, tr)
      | Some sp \<Rightarrow> do {
          (_, sp1, tr1) \<leftarrow> disconnect os sp tr;
          let (st, _, tr2) = spp_deinitialize os sp1 tr1;
          Some (st, tr2) })"

definition asd_msg_free :: "os \<Rightarrow> ASD_MSG \<Rightarrow> trace \<Rightarrow> (STATUS \<times> ASD_MSG \<times> trace) option" where
  "asd_msg_free os s tr =
     (if \<not> inst s then Some (ST_ERR, s, tr)
      else do {
        let (st1, tr1) = (case jtag_handler s of None \<Rightarrow> (ST_OK, tr)
          | Some h \<Rightarrow> (let (st, _, t) = JTAG_deinitialize h tr in (st, t)));
        let (st2, tr2) = (case i2c_handler s of None \<Rightarrow> (ST_OK, tr1)
          | Some h \<Rightarrow> (let (st, _, t) = i2c_deinitialize os h tr1 in (st, t)));
        let (st3, tr3) = (case i3c_handler s of None \<Rightarrow> (ST_OK, tr2)
          | Some h \<Rightarrow> (let (st, _, t) = i3c_deinitialize os h tr2 in (st, t)));
        (st4, tr4) \<leftarrow> free_spp os (spp_handler s) tr3;
        let (st5, tr5) = (case target_handler s of None \<Rightarrow> (ST_OK, tr4)
          | Some h \<Rightarrow> (let (st, _, t) = target_deinitialize os h tr4 in (st, t)));
        let (st6, tr6) = (case vprobe_handler s of None \<Rightarrow> (ST_OK, tr5)
          | Some h \<Rightarrow> (let (st, _, t) = vProbe_deinitialize os h tr5 in (st, t)));
        let s1 = s\<lparr>jtag_handler := None, i2c_handler := None, i3c_handler := None, spp_handler := None,
                   target_handler := None, vprobe_handler := None, inst := False\<rparr>;
        Some (if \<forall>st \<in> {st1, st2, st3, st4, st5, st6}. st = ST_OK then ST_OK else ST_ERR, snd (asd_msg_state_free s1), tr6) })"

end
