(* ===== verification/Msg_Safety.thy ===== *)
theory Msg_Safety
  imports Asd_Msg
begin

text \<open>
  The message layer as a whole: every entry point of \<open>target/asd_msg.c\<close> keeps one invariant, stays within
  its arrays and sends the client framed packets only.  First the operations that initialise and release
  the handlers put nothing on the connection; then the invariant is carried through the dispatch, the
  initialisation and the reads.
\<close>

section \<open>Initialising and releasing handlers is quiet\<close>

lemma whenever_conj: "whenever m P \<Longrightarrow> whenever m Q \<Longrightarrow> whenever m (\<lambda>r. P r \<and> Q r)"
  by (cases m) simp_all

lemma silent_more [simp]:
  "silent (Sys_jtag_mode fd b)" "silent (Sys_jtag_state fd a z w)" "silent (Sys_gpiod_find nm)" "silent (Sys_gpiod_chip_open p)"
  "silent (Sys_gpiod_chip_close c)" "silent (Sys_gpiod_get_line c i)" "silent (Sys_gpiod_request l ty low i)"
  "silent (Sys_gpiod_event_fd l)" "silent (Sys_gpiod_release l)" "silent (Sys_gpiod_request_input l)"
  by (simp_all add: silent_def)

lemma JTAG_initialize_quiet: "whenever (JTAG_initialize os h sw tr) (\<lambda>(st, h', tr'). sent_on tr' = sent_on tr)"
  by (auto simp: JTAG_initialize_def Let_def JTAG_set_tap_state_def split: option.split intro!: whenever_any)

lemma dbus_quiet [quiet]:
  "sent_on (snd (dbus_helper os tr)) = sent_on tr" "sent_on (snd (snd (dbus_deinitialize os d tr))) = sent_on tr"
  "sent_on (snd (snd (dbus_initialize os d tr))) = sent_on tr"
  by (auto simp: dbus_helper_def dbus_deinitialize_def dbus_initialize_def split_def Let_def quiet)

lemma i2c_initialize_quiet [quiet]:
  "sent_on (snd (snd (snd (i2c_initialize os cfg h tr)))) = sent_on tr" "sent_on (snd (snd (i2c_deinitialize os h tr))) = sent_on tr"
  by (simp_all add: i2c_initialize_def i2c_deinitialize_def split_def Let_def quiet)

lemma i3c_initialize_quiet [quiet]:
  "sent_on (snd (snd (i3c_initialize os cfg h tr))) = sent_on tr" "sent_on (snd (snd (i3c_deinitialize os h tr))) = sent_on tr"
  by (auto simp: i3c_initialize_def i3c_deinitialize_def split_def Let_def quiet split: option.split)

lemma spp_initialize_quiet: "whenever (spp_initialize os cfg h tr) (\<lambda>(st, cfg', h', tr'). sent_on tr' = sent_on tr)"
  by (auto simp: spp_initialize_def spp_get_broadcast_action_filepath_def split_def Let_def split: option.split
      intro!: whenever_conseq [OF spp_bus_select_quiet])

lemma gpio_quiet [quiet]:
  "sent_on (snd (gpio_set_active_low os n a tr)) = sent_on tr" "sent_on (snd (gpio_set_direction os n d tr)) = sent_on tr"
  "sent_on (snd (gpio_set_edge os n e tr)) = sent_on tr" "sent_on (snd (snd (gpio_export os n tr))) = sent_on tr"
  "sent_on (snd (gpio_unexport os n tr)) = sent_on tr"
  by (auto simp: gpio_set_active_low_def gpio_set_direction_def gpio_set_edge_def gpio_export_def gpio_unexport_def
      gpio_write_attr_def split_def Let_def)

lemma find_gpio_quiet [quiet]: "sent_on (snd (snd (find_gpio os nm tr))) = sent_on tr"
  by (auto simp: find_gpio_def find_gpio_base_def split_def Let_def split: option.split)

lemma init_pin_quiet [quiet]: "sent_on (snd (snd (init_pin os g tr))) = sent_on tr"
proof -
  have "sent_on (snd (snd (initialize_gpio os g tr))) = sent_on tr"
    by (auto simp: initialize_gpio_def split_def Let_def quiet)
  moreover have "sent_on (snd (snd (initialize_gpiod os g tr))) = sent_on tr"
    by (auto simp: initialize_gpiod_def split_def Let_def)
  ultimately show ?thesis by (auto simp: init_pin_def split_def Let_def quiet split: Pin_Type.split)
qed

lemma init_pins_quiet [quiet]: "sent_on (snd (snd (init_pins os gs tr))) = sent_on tr"
  by (induction gs arbitrary: tr) (simp_all add: split_def Let_def quiet)

lemma deinitialize_gpios_quiet [quiet]: "sent_on (snd (deinitialize_gpios os t tr)) = sent_on tr"
proof -
  have "sent_on (snd (deinit_pins os gs tr)) = sent_on tr" for gs
    by (induction gs arbitrary: tr) (simp_all add: deinit_pin_def split_def Let_def quiet split: Pin_Type.split)
  then show ?thesis by (simp add: deinitialize_gpios_def split_def Let_def)
qed

lemma target_initialize_quiet: "whenever (target_initialize os t x tr) (\<lambda>(st, t', tr'). sent_on tr' = sent_on tr)"
  by (auto simp: target_initialize_def initialize_gpios_def split_def Let_def quiet split: option.split
      intro!: whenever_conseq [OF read_gpio_index_quiet] whenever_conseq [OF write_gpio_index_quiet])

section \<open>The invariant\<close>

text \<open>
  What no message changes: the reader, the version and whether SPP is enabled.  Until the handlers are
  initialised the target and the SPP handler must be there, because \<open>init_spp\<close> follows both pointers.
\<close>

text \<open>No message changes whether SPP is enabled or the idle time; without SPP no bulk response is collected.\<close>

definition spp_part :: "ASD_MSG \<Rightarrow> bool \<times> timeout_config \<times> u16" where
  "spp_part s = (enable_spp (buses s), timecfg (asd_cfg s), if enable_spp (buses s) then 0 else spp_bulk_response_buffer_count s)"

definition msg_core :: "ASD_MSG \<Rightarrow> (asd_message \<times> ReadState \<times> nat \<times> nat) \<times> u8 list \<times> int \<times> bool \<times> bool \<times> timeout_config \<times> u16" where
  "msg_core s = (read_core s, bmc_version s, bmc_version_size s, inst s, spp_part s)"

definition settled :: "ASD_MSG \<Rightarrow> bool" where
  "settled s \<longleftrightarrow> \<not> enable_spp (buses s) \<or> handlers_initialized s \<or> (spp_handler s \<noteq> None \<and> target_handler s \<noteq> None)"

definition recv_inv :: "u8 list \<Rightarrow> ASD_MSG \<Rightarrow> bool" where
  "recv_inv ver s \<longleftrightarrow> wf_msg s \<and> wf_probes s \<and> wf_version ver s \<and> settled s"

definition recv_next_ok :: "u8 list \<Rightarrow> ASD_MSG \<Rightarrow> trace \<Rightarrow> ASD_MSG \<Rightarrow> trace \<Rightarrow> bool" where
  "recv_next_ok ver s tr s' tr' \<longleftrightarrow> recv_inv ver s' \<and> msg_core s' = msg_core s \<and> sends_framed tr tr' \<and>
     (handlers_initialized s \<longrightarrow> handlers_initialized s')"

lemma recv_next_refl: "recv_inv ver s \<Longrightarrow> sends_framed tr tr' \<Longrightarrow> recv_next_ok ver s tr s tr'"
  by (simp add: recv_next_ok_def)

lemma recv_next_trans: "recv_next_ok ver s tr s1 tr1 \<Longrightarrow> recv_next_ok ver s1 tr1 s2 tr2 \<Longrightarrow> recv_next_ok ver s tr s2 tr2"
  by (auto simp: recv_next_ok_def intro: sends_framed_trans)

lemma recv_next_sends: "recv_next_ok ver s tr s1 tr1 \<Longrightarrow> sends_framed tr1 tr2 \<Longrightarrow> recv_next_ok ver s tr s1 tr2"
  by (auto simp: recv_next_ok_def intro: sends_framed_trans)

lemma wf_version_core: "msg_core s' = msg_core s \<Longrightarrow> wf_version ver s' = wf_version ver s"
  by (simp add: msg_core_def wf_version_def)

text \<open>The parts of the state the interpreters leave alone include the core.\<close>

definition idle_part :: "ASD_MSG \<Rightarrow> _" where
  "idle_part s = (msg_core s, vprobe_handler s, handlers_initialized s)"

lemma frame_core:
  "jtag_frame s' = jtag_frame s \<Longrightarrow> idle_part s' = idle_part s" "i2c_frame s' = i2c_frame s \<Longrightarrow> idle_part s' = idle_part s"
  "spp_frame s' = spp_frame s \<Longrightarrow> enable_spp (buses s) \<Longrightarrow> idle_part s' = idle_part s"
proof -
  have "idle_part (jtag_frame x) = idle_part x" "idle_part (i2c_frame x) = idle_part x"
    "enable_spp (buses (spp_frame x)) = enable_spp (buses x)" "enable_spp (buses x) \<Longrightarrow> idle_part (spp_frame x) = idle_part x" for x
    by (simp_all add: jtag_frame_def i2c_frame_def spp_frame_def event_frame_def idle_part_def msg_core_def spp_part_def read_core_def)
  then show "jtag_frame s' = jtag_frame s \<Longrightarrow> idle_part s' = idle_part s" "i2c_frame s' = i2c_frame s \<Longrightarrow> idle_part s' = idle_part s"
    "spp_frame s' = spp_frame s \<Longrightarrow> enable_spp (buses s) \<Longrightarrow> idle_part s' = idle_part s"
    by metis+
qed

lemma msg_core_spp: "msg_core s' = msg_core s \<Longrightarrow> enable_spp (buses s') = enable_spp (buses s)"
  by (simp add: msg_core_def spp_part_def)

lemma agent_frame_core:
  assumes "agent_frame s' = agent_frame s"
  shows "msg_core s' = msg_core s" "handlers_initialized s' = handlers_initialized s" "target_handler s' = target_handler s"
proof -
  have "msg_core (agent_frame x) = msg_core x" "handlers_initialized (agent_frame x) = handlers_initialized x"
    "target_handler (agent_frame x) = target_handler x" for x
    by (simp_all add: agent_frame_def msg_core_def spp_part_def read_core_def)
  then show "msg_core s' = msg_core s" "handlers_initialized s' = handlers_initialized s" "target_handler s' = target_handler s"
    using assms by metis+
qed

lemma recv_next_initialized:
  assumes "recv_inv ver s" "handlers_initialized s" "wf_msg s'" "sends_framed tr tr'"
    "idle_part s' = idle_part s"
  shows "recv_next_ok ver s tr s' tr'"
  using assms wf_version_core [of s' s] by (auto simp: recv_next_ok_def recv_inv_def settled_def wf_probes_def idle_part_def)

lemma agent_recv_next:
  assumes "recv_inv ver s" "agent_next s tr (st, s', tr')"
  shows "recv_next_ok ver s tr s' tr'"
  using assms agent_frame_core [of s' s] wf_version_core [of s' s] msg_core_spp [of s' s]
  by (auto simp: recv_next_ok_def recv_inv_def settled_def agent_next_def)

section \<open>Dispatch\<close>

lemma refuse_next:
  assumes "wf_server srv" "recv_inv ver s"
  shows "ensures (refuse os srv e s tr) (\<lambda>(s', tr'). recv_next_ok ver s tr s' tr')"
  by (auto simp: refuse_def assms intro!: ensures_conseq [OF send_error_message_framed [OF assms(1)]] recv_next_refl)

lemma refuse_unless_ok_next:
  assumes "wf_server srv" "recv_next_ok ver s tr s1 tr1"
  shows "ensures (refuse_unless_ok os srv e (st, s1, tr1)) (\<lambda>(s', tr'). recv_next_ok ver s tr s' tr')"
proof -
  have "recv_inv ver s1" using assms(2) by (simp add: recv_next_ok_def)
  then show ?thesis
    using assms by (auto simp: refuse_unless_ok_def intro!: ensures_conseq [OF refuse_next] elim: recv_next_trans)
qed

lemma jtag_reply_sends: "jtag_reply os m s tr (st, s', tr') \<Longrightarrow> wf_msg s' \<and> jtag_frame s' = jtag_frame s \<and> sends_framed tr tr'"
proof -
  assume r: "jtag_reply os m s tr (st, s', tr')"
  then have wf: "wf_message (out_msg s')" by (simp add: jtag_reply_def wf_msgD)
  then show ?thesis
    using r framed_packet [OF wf] by (auto simp: jtag_reply_def sends_framed_def)
qed

lemma process_jtag_type_next:
  assumes "wf_server srv" "recv_inv ver s" "handlers_initialized s" "poll_answers os"
  shows "ensures (process_jtag_type os srv g s tr) (\<lambda>(s', tr'). recv_next_ok ver s tr s' tr')"
proof (cases "opt_ok (\<lambda>h. JTAG_driver_handle h = - 1) (jtag_handler s)")
  case False
  then have h: "jtag_handler s \<noteq> None" by (auto simp: opt_ok_def split: option.splits)
  have wf: "wf_msg s" "wf_message (in_msg s)" using assms(2) by (simp_all add: recv_inv_def wf_msgD)
  have "ensures (process_jtag_message os srv (loc_pin g) (in_msg s) s tr) (jtag_reply os (in_msg s) s tr)"
    by (rule process_jtag_message_safe) (use h wf assms in \<open>simp_all add: prdy_ok_def prdy_bounded_answers\<close>)
  then have "ensures (process_jtag_message os srv (loc_pin g) (in_msg s) s tr) (\<lambda>(st, s', tr'). recv_next_ok ver s tr s' tr')"
    by (rule ensures_conseq) (auto dest!: jtag_reply_sends intro!: recv_next_initialized [OF assms(2,3)] frame_core(1))
  then show ?thesis
    using False by (auto simp: process_jtag_type_def intro!: refuse_unless_ok_next [OF assms(1)] elim!: ensures_conseq)
qed (simp add: process_jtag_type_def refuse_next assms)

lemma recv_bus_next:
  assumes "recv_inv ver s" "handlers_initialized s" "bus_next s tr (st, s', tr')"
  shows "recv_next_ok ver s tr s' tr'"
  using assms(3) by (intro recv_next_initialized [OF assms(1,2)] frame_core(2)) (simp_all add: bus_next_def)

lemma recv_nextD:
  "recv_next_ok ver s tr s' tr' \<Longrightarrow> recv_inv ver s'" "recv_next_ok ver s tr s' tr' \<Longrightarrow> handlers_initialized s \<Longrightarrow> handlers_initialized s'"
  "recv_next_ok ver s tr s' tr' \<Longrightarrow> msg_core s' = msg_core s" "recv_inv ver s \<Longrightarrow> wf_msg s"
  by (simp_all add: recv_next_ok_def recv_inv_def)

lemma process_i2c_type_next:
  assumes "wf_server srv" "recv_inv ver s" "handlers_initialized s" "names_nonempty os" "wf_locals g"
  shows "ensures (process_i2c_type os srv g s tr) (\<lambda>(s', tr'). recv_next_ok ver s tr s' tr')"
proof -
  have lock: "ensures (dev_flock os bus b x t) (\<lambda>(st, x', t'). recv_next_ok ver s tr x' t')"
    if "recv_next_ok ver s tr x t" for bus b x t
  proof -
    have x: "recv_inv ver x" "handlers_initialized x" "wf_msg x"
      using that assms(3) by (auto simp: recv_next_ok_def recv_inv_def)
    then show ?thesis
      using that by (auto intro!: ensures_conseq [OF dev_flock_next [OF x(3) assms(4)]]
          elim: recv_next_trans dest: recv_bus_next [OF x(1,2)])
  qed
  have run: "ensures (process_i2c_messages os srv (loc_i2c g) (in_msg x) x t) (\<lambda>(st, x', t'). recv_next_ok ver s tr x' t')"
    if "recv_next_ok ver s tr x t" for x t
  proof -
    have x: "recv_inv ver x" "handlers_initialized x" "wf_msg x" "wf_message (in_msg x)"
      using that assms(3) by (auto dest: recv_nextD(1) simp: recv_next_ok_def recv_inv_def wf_msgD)
    show ?thesis
      using assms x that
      by (intro ensures_conseq [OF process_i2c_messages_safe])
         (auto simp: wf_locals_def i2c_reply_def intro: recv_next_trans recv_next_initialized [OF x(1,2)] frame_core(2))
  qed
  note un = refuse_unless_ok_next [OF assms(1)]
  have refuse: "ensures (refuse os srv e x t) (\<lambda>(s', tr'). recv_next_ok ver s tr s' tr')" if "recv_next_ok ver s tr x t" for e x t
    using that by (intro ensures_conseq [OF refuse_next [OF assms(1)]]) (auto dest: recv_nextD(1) intro: recv_next_trans)
  show ?thesis
    using refuse [OF recv_next_refl [OF assms(2)]]
    by (auto simp: process_i2c_type_def intro!: recv_next_refl [OF assms(2)] refuse
        ensures_conseq [OF run] ensures_conseq [OF un] ensures_conseq [OF lock])
qed

lemma process_spp_type_next:
  assumes "wf_server srv" "recv_inv ver s" "handlers_initialized s" "b \<Longrightarrow> \<not> enable_spp (buses s)"
  shows "outcome b (process_spp_type os srv g s tr) (\<lambda>(s', tr'). recv_next_ok ver s tr s' tr')"
proof (cases "enable_spp (buses s)")
  case True
  have wf: "wf_msg s" "wf_message (in_msg s)" using assms(2) by (simp_all add: recv_inv_def wf_msgD)
  have "whenever (process_spp_message os srv (loc_addr g) (in_msg s) s tr) (\<lambda>(st, s', tr'). recv_next_ok ver s tr s' tr')"
    by (rule whenever_conseq [OF process_spp_message_next [OF wf assms(1)]])
       (auto simp: spp_reply_def intro!: recv_next_initialized [OF assms(2,3)] frame_core(3) [OF _ True])
  then show ?thesis
    using True assms(4) whenever_ensures [OF refuse_unless_ok_next [OF assms(1)]]
    by (cases b) (auto simp: process_spp_type_def outcome_False elim!: whenever_conseq)
qed (simp add: process_spp_type_def recv_next_refl assms)

lemma process_message_next:
  assumes "wf_server srv" "recv_inv ver s" "handlers_initialized s" "poll_answers os" "names_nonempty os" "wf_locals g"
    "b \<Longrightarrow> \<not> enable_spp (buses s)"
  shows "outcome b (process_message os srv g s tr) (\<lambda>(s', tr'). recv_next_ok ver s tr s' tr')"
  using outcome_ensures [OF refuse_next [OF assms(1,2)]] outcome_ensures [OF process_jtag_type_next [OF assms(1-4)]]
    outcome_ensures [OF process_i2c_type_next [OF assms(1-3,5,6)]] process_spp_type_next [OF assms(1-3,7)]
  by (simp add: process_message_def Let_def)

section \<open>Initialisation\<close>

text \<open>A step of the initialisation may replace handlers and the default bus, and adds no NULL pointer.\<close>

definition init_next :: "u8 list \<Rightarrow> ASD_MSG \<Rightarrow> trace \<Rightarrow> ASD_MSG \<Rightarrow> trace \<Rightarrow> bool" where
  "init_next ver s tr s' tr' \<longleftrightarrow> recv_next_ok ver s tr s' tr' \<and>
     (spp_handler s \<noteq> None \<longrightarrow> spp_handler s' \<noteq> None) \<and> (target_handler s \<noteq> None \<longrightarrow> target_handler s' \<noteq> None)"

lemma init_next_trans: "init_next ver s tr s1 tr1 \<Longrightarrow> init_next ver s1 tr1 s2 tr2 \<Longrightarrow> init_next ver s tr s2 tr2"
  by (auto simp: init_next_def intro: recv_next_trans)

lemma init_next_refl: "recv_inv ver s \<Longrightarrow> sends_framed tr tr' \<Longrightarrow> init_next ver s tr s tr'"
  by (simp add: init_next_def recv_next_refl)

lemma init_next_sends: "init_next ver s tr s1 tr1 \<Longrightarrow> sends_framed tr1 tr2 \<Longrightarrow> init_next ver s tr s1 tr2"
  by (auto simp: init_next_def intro: recv_next_sends)

lemma init_next_handlers:
  assumes "recv_inv ver s" "wf_msg s'" "sends_framed tr tr'" "idle_part s' = idle_part s"
    "spp_handler s \<noteq> None \<longrightarrow> spp_handler s' \<noteq> None" "target_handler s \<noteq> None \<longrightarrow> target_handler s' \<noteq> None"
  shows "init_next ver s tr s' tr'"
  using assms wf_version_core [of s' s] msg_core_spp [of s' s]
  by (auto simp: init_next_def recv_next_ok_def recv_inv_def settled_def wf_probes_def idle_part_def)

lemma idle_part_simps [simp]:
  "idle_part (s\<lparr>jtag_handler := j\<rparr>) = idle_part s" "idle_part (s\<lparr>i2c_handler := i\<rparr>) = idle_part s"
  "idle_part (s\<lparr>i3c_handler := k\<rparr>) = idle_part s" "idle_part (s\<lparr>spp_handler := p\<rparr>) = idle_part s"
  "idle_part (s\<lparr>target_handler := t\<rparr>) = idle_part s"
  "enable_spp c = enable_spp (buses s) \<Longrightarrow> idle_part (set_buses c s) = idle_part s"
  by (simp_all add: idle_part_def msg_core_def spp_part_def read_core_def set_buses_def)

lemma init_failed_next:
  assumes "wf_server srv" "init_next ver s tr s1 tr1"
  shows "ensures (init_failed os srv e s1 tr1) (\<lambda>(go, s', tr'). init_next ver s tr s' tr')"
  using assms
  by (auto simp: init_failed_def intro!: ensures_conseq [OF send_error_message_framed [OF assms(1)]] intro: init_next_sends)

lemma init_jtag_next:
  assumes "wf_server srv" "recv_inv ver s"
  shows "ensures (init_jtag os srv s tr) (\<lambda>(go, s', tr'). init_next ver s tr s' tr')"
proof (cases "jtag_handler s")
  case None
  then show ?thesis
    using assms by (auto simp: init_jtag_def intro!: init_failed_next init_next_refl)
next
  case (Some h)
  then have wf: "wf_jtag h" "wf_msg s" using assms(2) wf_msgD(4) [of s] by (auto simp: recv_inv_def)
  note i = ensures_whenever [OF JTAG_initialize_wf [OF wf(1)] JTAG_initialize_quiet]
  show ?thesis
    using assms wf
    by (auto simp: init_jtag_def Some intro!: ensures_conseq [OF i] init_failed_next init_next_handlers sends_framed_quiet)
qed

lemma i2c_initialize_cfg:
  "enable_spp (fst (snd (i2c_initialize os cfg h tr))) = enable_spp cfg"
  "wf_bus_config cfg \<Longrightarrow> wf_bus_config (fst (snd (i2c_initialize os cfg h tr)))"
  using bus_select_cfg(1) [of os cfg h "default_bus cfg" tr]
  by (auto simp: i2c_initialize_def wf_bus_config_def)

lemma init_i2c_next:
  assumes "wf_server srv" "recv_inv ver s"
  shows "ensures (init_i2c os srv s tr) (\<lambda>(go, s', tr'). init_next ver s tr s' tr')"
proof (cases "i2c_handler s")
  case None
  then show ?thesis
    using assms by (auto simp: init_i2c_def intro!: init_failed_next init_next_refl)
next
  case (Some h)
  have wf: "wf_msg s" "wf_bus_config (buses s)" using assms(2) wf_msgD(1) [of s] by (auto simp: recv_inv_def)
  have "init_next ver s tr (set_buses (fst (snd (i2c_initialize os (buses s) h tr)))
      (s\<lparr>i2c_handler := Some (fst (snd (snd (i2c_initialize os (buses s) h tr))))\<rparr>)) (snd (snd (snd (i2c_initialize os (buses s) h tr))))"
    using wf i2c_initialize_cfg [where os = os and cfg = "buses s" and h = h and tr = tr]
    by (intro init_next_handlers [OF assms(2)] sends_framed_quiet) (simp_all add: quiet, simp_all add: set_buses_def)
  then show ?thesis
    using assms by (auto simp: init_i2c_def Some split_def Let_def intro!: ensures_conseq [OF init_failed_next] init_next_refl)
qed

lemma i3c_initialize_wf: "wf_i3c h \<Longrightarrow> wf_i3c (fst (snd (i3c_initialize os cfg h tr)))"
  by (auto simp: i3c_initialize_def wf_i3c_def split_def Let_def split: option.split)

lemma init_i3c_next:
  assumes "wf_server srv" "recv_inv ver s"
  shows "ensures (init_i3c os srv s tr) (\<lambda>(go, s', tr'). init_next ver s tr s' tr')"
proof (cases "i3c_handler s")
  case None
  then show ?thesis
    using assms by (auto simp: init_i3c_def intro!: init_failed_next init_next_refl)
next
  case (Some h)
  have wf: "wf_msg s" "wf_i3c h" using assms(2) Some wf_msgD(6) [of s] by (auto simp: recv_inv_def)
  have "init_next ver s tr (s\<lparr>i3c_handler := Some (fst (snd (i3c_initialize os (buses s) h tr)))\<rparr>)
      (snd (snd (i3c_initialize os (buses s) h tr)))"
    using wf i3c_initialize_wf [OF wf(2)]
    by (intro init_next_handlers [OF assms(2)] sends_framed_quiet) (simp_all add: quiet)
  then show ?thesis
    using assms by (auto simp: init_i3c_def Some split_def Let_def intro!: ensures_conseq [OF init_failed_next] init_next_refl)
qed

lemma spp_initialize_cfg:
  "whenever (spp_initialize os cfg h tr) (\<lambda>(st, cfg', h', tr'). enable_spp cfg' = enable_spp cfg)"
  by (auto simp: spp_initialize_def split_def Let_def intro!: whenever_conseq [OF bus_select_cfg(3)])

text \<open>With SPP enabled the two handlers are there when they are initialised.\<close>

definition spp_ready :: "ASD_MSG \<Rightarrow> bool" where
  "spp_ready s \<longleftrightarrow> (enable_spp (buses s) \<longrightarrow> spp_handler s \<noteq> None \<and> target_handler s \<noteq> None)"

lemma spp_ready_next: "spp_ready s \<Longrightarrow> init_next ver s tr s' tr' \<Longrightarrow> spp_ready s'"
  using msg_core_spp [of s' s] by (auto simp: spp_ready_def init_next_def recv_next_ok_def)

lemma init_spp_next:
  assumes "wf_server srv" "recv_inv ver s" "spp_ready s"
  shows "ensures (init_spp os srv s tr) (\<lambda>(go, s', tr'). init_next ver s tr s' tr')"
proof (cases "enable_spp (buses s)")
  case True
  then obtain h t where h: "spp_handler s = Some h" "target_handler s = Some t" using assms(3) by (auto simp: spp_ready_def)
  have wf: "wf_msg s" "wf_spp h" "wf_target t" "wf_bus_config (buses s)"
    using assms(2) h wf_msgD [of s] by (auto simp: recv_inv_def)
  have next_s: "init_next ver s tr (set_buses cfg (s\<lparr>spp_handler := Some h1,
      target_handler := Some (t\<lparr>spp_fd := spp_driver_handle h1, spp_attached := True\<rparr>)\<rparr>)) tr'"
    if "wf_spp h1" "wf_bus_config cfg" "enable_spp cfg = enable_spp (buses s)" "sends_framed tr tr'" for cfg h1 tr'
    using wf that by (intro init_next_handlers [OF assms(2)]) (simp_all, simp_all add: set_buses_def)
  note i = ensures_whenever [OF spp_initialize_wf [OF wf(2,4)] whenever_conj [OF spp_initialize_quiet spp_initialize_cfg]]
  show ?thesis
    using assms wf h
    by (auto simp: init_spp_def init_next_refl
        intro!: ensures_conseq [OF i] ensures_conseq [OF send_error_message_framed [OF assms(1)]] next_s
        simp: sends_framed_def)
qed (simp add: init_spp_def init_next_refl assms)

lemma report_power_next:
  assumes "wf_server srv" "wf_target t"
  shows "ensures (report_power os srv f t tr) (\<lambda>(st, tr'). sends_framed tr tr')"
proof -
  note r = ensures_whenever [OF run_handler_ok [OF assms(2)] run_handler_quiet]
  show ?thesis
    by (auto simp: report_power_def intro!: ensures_conseq [OF r] ensures_conseq [OF send_pin_event_framed [OF assms(1)]]
        simp: sends_framed_def)
qed

lemma init_next_initialized: "init_next ver s tr s1 tr1 \<Longrightarrow> init_next ver s tr (s1\<lparr>handlers_initialized := True\<rparr>) tr1"
  by (auto simp: init_next_def recv_next_ok_def recv_inv_def settled_def wf_version_def wf_probes_def msg_core_def spp_part_def read_core_def wf_msg_def)

lemma init_target_next:
  assumes "wf_server srv" "recv_inv ver s"
  shows "ensures (init_target os srv s tr) (\<lambda>(go, st, s', tr'). init_next ver s tr s' tr' \<and> (go \<longrightarrow> handlers_initialized s'))"
proof (cases "target_handler s")
  case None
  have wf: "wf_msg s" using assms(2) by (simp add: recv_inv_def)
  have "init_next ver s tr (s\<lparr>jtag_handler := Some (h\<lparr>JTAG_driver_handle := - 1\<rparr>)\<rparr>) tr'"
    if "sends_framed tr tr'" "jtag_handler s = Some h" for tr' h
    using wf that wf_msgD(4) [OF wf] by (intro init_next_handlers [OF assms(2)]) (auto simp: wf_jtag_def)
  then show ?thesis
    using None by (auto simp: init_target_def Let_def JTAG_deinitialize_def sends_framed_def split: option.split
        intro!: ensures_conseq [OF send_error_message_framed [OF assms(1)]] init_next_refl [OF assms(2)])
next
  case t: (Some t)
  have wf: "wf_msg s" "wf_target t" "spp_attached t \<longrightarrow> spp_handler s \<noteq> None"
    using assms(2) t wf_msgD [of s] by (auto simp: recv_inv_def)
  note e = ensures_conseq [OF send_error_message_framed [OF assms(1)]] and p = ensures_conseq [OF report_power_next [OF assms(1)]]
  have s1: "init_next ver s tr (s\<lparr>target_handler := Some t1\<rparr>) tr'"
    if "wf_target t1" "spp_attached t1 = spp_attached t" "sends_framed tr tr'" for t1 tr'
    using wf that by (intro init_next_handlers [OF assms(2)]) auto
  have s2: "init_next ver s tr (s\<lparr>target_handler := Some t1, jtag_handler := Some (h\<lparr>JTAG_driver_handle := - 1\<rparr>)\<rparr>) tr'"
    if "wf_target t1" "spp_attached t1 = spp_attached t" "sends_framed tr tr'" "jtag_handler s = Some h" for t1 tr' h
    using wf that wf_msgD(4) [OF wf(1)] by (intro init_next_handlers [OF assms(2)]) (auto simp: wf_jtag_def)
  note i = ensures_whenever [OF target_initialize_wf [OF wf(2)] target_initialize_quiet]
  show ?thesis
    using assms wf t
    by (auto simp: init_target_def Let_def JTAG_deinitialize_def sends_framed_def split: option.split
        intro!: ensures_conseq [OF i] e p init_next_initialized s1 s2)
qed

lemma init_handlers_next:
  assumes "wf_server srv" "recv_inv ver s" "spp_ready s"
  shows "ensures (init_handlers os srv s tr) (\<lambda>(go, st, s', tr'). init_next ver s tr s' tr' \<and> (go \<longrightarrow> handlers_initialized s'))"
proof -
  have step: "ensures (f x t) (\<lambda>(go, s', tr'). init_next ver s tr s' tr')"
    if "init_next ver s tr x t" "\<And>x t. recv_inv ver x \<Longrightarrow> spp_ready x \<Longrightarrow>
        ensures (f x t) (\<lambda>(go, s', tr'). init_next ver x t s' tr')"
    for f :: "ASD_MSG \<Rightarrow> trace \<Rightarrow> init_res" and x t
    using that(1) spp_ready_next [OF assms(3) that(1)]
    by (intro ensures_conseq [OF that(2)]) (auto simp: init_next_def recv_next_ok_def intro: sends_framed_trans)
  note js = step [OF _ init_jtag_next [OF assms(1)]] step [OF _ init_i2c_next [OF assms(1)]]
    step [OF _ init_i3c_next [OF assms(1)]] step [OF _ init_spp_next [OF assms(1)]]
  have tgt: "ensures (init_target os srv x t) (\<lambda>(go, st, s', tr'). init_next ver s tr s' tr' \<and> (go \<longrightarrow> handlers_initialized s'))"
    if "init_next ver s tr x t" for x t
    using that assms(1)
    by (intro ensures_conseq [OF init_target_next]) (auto simp: init_next_def recv_next_ok_def intro: sends_framed_trans)
  show ?thesis
    unfolding init_handlers_def
    by (auto simp: Let_def intro!: ensures_conseq [OF js(1)] ensures_conseq [OF js(2)] ensures_conseq [OF js(3)]
        ensures_conseq [OF js(4)] tgt init_next_refl [OF assms(2)])
qed

section \<open>Messages\<close>

lemma asd_msg_on_msg_recv_next:
  assumes "wf_server srv" "recv_inv ver s" "poll_answers os" "names_nonempty os" "wf_locals g" "b \<Longrightarrow> \<not> enable_spp (buses s)"
  shows "outcome b (asd_msg_on_msg_recv os srv ver ez g s tr) (\<lambda>(st, s', tr'). recv_next_ok ver s tr s' tr')"
proof -
  have agent: "ensures (agent_control os srv ver ez s tr) (\<lambda>(st, s', tr'). recv_next_ok ver s tr s' tr')"
    using assms(1,2) by (intro ensures_conseq [OF agent_control_safe]) (auto simp: recv_inv_def intro: agent_recv_next)
  have go: "outcome b (process_message os srv g x t) (\<lambda>(x', t'). recv_next_ok ver s tr x' t')"
    if "recv_next_ok ver s tr x t" "handlers_initialized x" for x t
    using that assms
    by (intro outcome_conseq [OF process_message_next]) (auto simp: recv_next_ok_def msg_core_def spp_part_def intro: sends_framed_trans)
  have init: "ensures (init_handlers os srv s tr) (\<lambda>(go, st, s', tr'). recv_next_ok ver s tr s' tr' \<and> (go \<longrightarrow> handlers_initialized s'))"
    if "\<not> handlers_initialized s"
    using assms that by (intro ensures_conseq [OF init_handlers_next]) (auto simp: recv_inv_def settled_def spp_ready_def init_next_def)
  show ?thesis
    using go [OF recv_next_refl [OF assms(2)]]
    by (auto simp: asd_msg_on_msg_recv_def agent outcome_ensures recv_next_refl assms
        intro!: outcome_ensures [OF ensures_conseq [OF send_error_message_framed [OF assms(1)]]]
          outcome_conseq [OF outcome_ensures [OF init]] outcome_conseq [OF go])
qed

section \<open>Reading\<close>

lemma recv_next_read:
  assumes "recv_next os srv s tr = Some (e, s1, srv1, tr1)" "read_state s \<noteq> READ_STATE_INITIAL"
  shows "\<exists>n bf. asd_api_server_read os srv (wanted s) tr = Some (n, bf, srv1, tr1)"
  using assms
  by (auto simp: recv_next_def recv_header_def recv_buffer_def wanted_def rds_def Let_def bind_eq_Some_conv split: if_splits)

lemma rx_stepI:
  assumes "recv_honest os" "recv_next os srv (open_read s) tr = Some (e, s1, srv1, tr1)" "read_inv s"
    "read_core s' = read_core s1" "wf_msg s'"
  shows "\<exists>c. rx_step s c (if completes e then Some (whole_packet (in_msg s1)) else None) s'"
proof -
  obtain n bf where "asd_api_server_read os srv (wanted (open_read s)) tr = Some (n, bf, srv1, tr1)"
    using recv_next_read [OF assms(2)] open_read_inv [OF assms(3)] by blast
  then show ?thesis unfolding rx_step_def using assms by blast
qed

text \<open>What a read leaves: the invariants, and a run of the reader over the bytes it took.\<close>

definition reading_ok :: "u8 list \<Rightarrow> ASD_MSG \<Rightarrow> trace \<Rightarrow> ASD_MSG \<Rightarrow> Server \<Rightarrow> trace \<Rightarrow> bool" where
  "reading_ok ver s tr s' srv' tr' \<longleftrightarrow> read_inv s' \<and> recv_inv ver s' \<and> wf_server srv' \<and> sends_framed tr tr' \<and>
     spp_part s' = spp_part s \<and> (\<exists>cs ps. reader_runs rx_step s cs ps s')"

lemma reading_ok_trans:
  assumes "reading_ok ver s tr s1 srv1 tr1" "read_inv s2" "recv_inv ver s2" "wf_server srv2" "sends_framed tr1 tr2"
    "spp_part s2 = spp_part s1" "rx_step s1 c out s2"
  shows "reading_ok ver s tr s2 srv2 tr2"
proof -
  obtain cs ps where r: "reader_runs rx_step s cs ps s1" using assms(1) by (auto simp: reading_ok_def)
  have "\<exists>ps. reader_runs rx_step s (cs @ [c]) ps s2"
    using assms(7) by (cases out; simp; blast intro: reader_runs.keep [OF r] reader_runs.complete [OF r])
  then show ?thesis using assms by (auto simp: reading_ok_def intro: sends_framed_trans)
qed

lemma recv_inv_reader:
  assumes "recv_inv ver s" "reader_frame s' = reader_frame s" "wf_msg s'"
  shows "recv_inv ver s' \<and> spp_part s' = spp_part s"
proof -
  let ?p = "\<lambda>s. (spp_bulk_response_buffer_count s, vprobe_handler s, bmc_version s, bmc_version_size s, handlers_initialized s, spp_handler s, target_handler s, asd_cfg s)"
  have "?p (reader_frame x) = ?p x" for x by (simp add: reader_frame_def)
  then have "?p s' = ?p s" using assms(2) by metis
  then show ?thesis using assms(1,3) by (simp add: recv_inv_def wf_probes_def wf_version_def settled_def spp_part_def)
qed

lemma recv_step:
  assumes "reading_ok ver s0 tr0 s srv tr" "recv_honest os"
    "\<And>e s1 srv1 tr1. recv_post (open_read s) tr (e, s1, srv1, tr1) \<Longrightarrow> recv_inv ver s1 \<Longrightarrow>
       spp_part s1 = spp_part s \<Longrightarrow>
       (\<And>s2 tr2. recv_next_ok ver s1 tr1 s2 tr2 \<Longrightarrow> reading_ok ver s0 tr0 s2 srv1 tr2) \<Longrightarrow> outcome b (k (e, s1, srv1, tr1)) P"
  shows "outcome b (recv_next os srv (open_read s) tr \<bind> k) P"
proof -
  have s: "read_inv s" "recv_inv ver s" "wf_server srv" using assms(1) by (simp_all add: reading_ok_def)
  note o = open_read_inv [OF s(1)]
  obtain e s1 srv1 tr1 where r: "recv_next os srv (open_read s) tr = Some (e, s1, srv1, tr1)"
    and post: "recv_post (open_read s) tr (e, s1, srv1, tr1)"
    using recv_next_safe [OF assms(2) _ s(3), of "open_read s" tr] o by (auto simp: ensures_iff)
  have s1: "recv_inv ver s1" "spp_part s1 = spp_part s"
    using recv_inv_reader [OF s(2), of s1] post by (auto simp: recv_post_def read_inv_def)
  have "reading_ok ver s0 tr0 s2 srv1 tr2" if n: "recv_next_ok ver s1 tr1 s2 tr2" for s2 tr2
  proof -
    have s2: "read_core s2 = read_core s1" "wf_msg s2" "recv_inv ver s2" "sends_framed tr1 tr2"
      "spp_part s2 = spp_part s1"
      using n by (auto simp: recv_next_ok_def msg_core_def recv_inv_def)
    obtain c where c: "rx_step s c (if completes e then Some (whole_packet (in_msg s1)) else None) s2"
      using rx_stepI [OF assms(2) r s(1) s2(1,2)] by blast
    show ?thesis
      using s1 s2 post by (intro reading_ok_trans [OF assms(1) _ _ _ _ _ c]) (auto simp: recv_post_def sends_framed_def intro: read_core_inv)
  qed
  then show ?thesis using assms(3) [OF post s1] r by simp
qed

lemma reading_ok_refl:
  "read_inv s \<Longrightarrow> recv_inv ver s \<Longrightarrow> wf_server srv \<Longrightarrow> reading_ok ver s tr s srv tr"
  by (auto simp: reading_ok_def intro: reader_runs.start)

lemma handle_header_next:
  assumes "wf_server srv" "recv_inv ver s" "poll_answers os" "names_nonempty os" "wf_locals g" "b \<Longrightarrow> \<not> enable_spp (buses s)"
  shows "outcome b (handle_header os srv ver ez g e s tr) (\<lambda>(st, s', tr'). recv_next_ok ver s tr s' tr')"
  using outcome_ensures [OF ensures_conseq [OF send_error_message_framed [OF assms(1)]]]
    asd_msg_on_msg_recv_next [OF assms(1-6)]
  by (auto simp: handle_header_def recv_next_refl assms split: rx.split)

lemma read_header_next:
  assumes "reading_ok ver s0 tr0 s srv tr" "read_state s \<noteq> READ_STATE_BUFFER" "recv_honest os" "poll_answers os" "names_nonempty os"
    "wf_locals g" "b \<Longrightarrow> \<not> enable_spp (buses s)"
  shows "outcome b (read_header os srv ver ez g (open_read s) tr) (\<lambda>(more, st, s', srv', tr').
    reading_ok ver s0 tr0 s' srv' tr' \<and> (more \<longrightarrow> read_state s' = READ_STATE_BUFFER))"
proof -
  have o: "recv_header os srv (open_read s) tr = recv_next os srv (open_read s) tr"
    using assms(2) by (auto simp: recv_next_def open_read_def start_read_def)
  show ?thesis
    unfolding read_header_def o
  proof (rule recv_step [OF assms(1,3)])
    fix e s1 srv1 tr1
    assume "recv_post (open_read s) tr (e, s1, srv1, tr1)" "recv_inv ver s1" "spp_part s1 = spp_part s"
      and k: "\<And>s2 tr2. recv_next_ok ver s1 tr1 s2 tr2 \<Longrightarrow> reading_ok ver s0 tr0 s2 srv1 tr2"
    then have "outcome b (handle_header os srv1 ver ez g e s1 tr1) (\<lambda>(st, s', tr'). recv_next_ok ver s1 tr1 s' tr')"
      using assms by (intro handle_header_next) (auto simp: recv_post_def spp_part_def)
    then show "outcome b (case (e, s1, srv1, tr1) of (e, s1, srv1, tr1) \<Rightarrow> do {
        (st, s2, tr2) \<leftarrow> handle_header os srv1 ver ez g e s1 tr1;
        if e = Rx_message \<and> st = ST_ERR then Some (False, st, s2, srv1, tr2)
        else Some (read_state s2 = READ_STATE_BUFFER \<and> is_data_pending srv1, st, s2, srv1, tr2) })
      (\<lambda>(more, st, s', srv', tr'). reading_ok ver s0 tr0 s' srv' tr' \<and> (more \<longrightarrow> read_state s' = READ_STATE_BUFFER))"
      by (auto elim!: outcome_conseq dest: k)
  qed
qed

lemma read_buffer_next:
  assumes "reading_ok ver s0 tr0 s srv tr" "read_state s = READ_STATE_BUFFER" "recv_honest os" "poll_answers os" "names_nonempty os"
    "wf_locals g" "b \<Longrightarrow> \<not> enable_spp (buses s)"
  shows "outcome b (read_buffer os srv ver ez g st0 s tr) (\<lambda>(st, s', srv', tr'). reading_ok ver s0 tr0 s' srv' tr')"
proof -
  have o: "recv_buffer os srv s tr = recv_next os srv (open_read s) tr"
    using assms(2) by (auto simp: recv_next_def open_read_def)
  show ?thesis
    unfolding read_buffer_def o
  proof (rule recv_step [OF assms(1,3)])
    fix e s1 srv1 tr1
    assume r: "recv_post (open_read s) tr (e, s1, srv1, tr1)" "recv_inv ver s1" "spp_part s1 = spp_part s"
      and k: "\<And>s2 tr2. recv_next_ok ver s1 tr1 s2 tr2 \<Longrightarrow> reading_ok ver s0 tr0 s2 srv1 tr2"
    then have "outcome b (asd_msg_on_msg_recv os srv1 ver ez g s1 tr1) (\<lambda>(st, s', tr'). recv_next_ok ver s1 tr1 s' tr')"
      using assms by (intro asd_msg_on_msg_recv_next) (auto simp: recv_post_def spp_part_def)
    then show "outcome b (case (e, s1, srv1, tr1) of (e, s1, srv1, tr1) \<Rightarrow> do {
        (st2, s2, tr2) \<leftarrow> (if e = Rx_message then asd_msg_on_msg_recv os srv1 ver ez g s1 tr1
                           else Some (if e = Rx_none then st0 else ST_OK, s1, tr1));
        Some (st2, s2, srv1, tr2) }) (\<lambda>(st, s', srv', tr'). reading_ok ver s0 tr0 s' srv' tr')"
      using k [OF recv_next_refl [OF r(2)]] by (auto elim!: outcome_conseq dest: k)
  qed
qed

lemma asd_msg_read_next:
  assumes "read_inv s" "recv_inv ver s" "wf_server srv" "recv_honest os" "poll_answers os" "names_nonempty os"
    "wf_locals g" "b \<Longrightarrow> \<not> enable_spp (buses s)"
  shows "outcome b (asd_msg_read os srv ver ez g s tr) (\<lambda>(st, s', srv', tr'). reading_ok ver s tr s' srv' tr')"
proof -
  note r = reading_ok_refl [OF assms(1-3), of tr]
  have buf: "outcome b (read_buffer os srv1 ver ez g st0 s1 tr1) (\<lambda>(st, s', srv', tr'). reading_ok ver s tr s' srv' tr')"
    if "reading_ok ver s tr s1 srv1 tr1" "read_state s1 = READ_STATE_BUFFER" for s1 srv1 tr1 st0
    using assms that by (intro read_buffer_next) (auto simp: reading_ok_def spp_part_def)
  have hdr: "outcome b (read_from_header os srv ver ez g (open_read s) tr) (\<lambda>(st, s', srv', tr'). reading_ok ver s tr s' srv' tr')"
    if "read_state s \<noteq> READ_STATE_BUFFER"
    using outcome_conseq [OF read_header_next [OF r that assms(4-8)]]
    by (auto simp: read_from_header_def intro!: buf outcome_conseq [OF read_header_next [OF r that assms(4-8)]])
  show ?thesis
    using hdr buf [OF r] by (cases "read_state s") (auto simp: asd_msg_read_def open_read_def)
qed

section \<open>Creation\<close>

text \<open>The message buffers are globals; the reader and the handlers are set up by \<open>asd_msg_init\<close>.\<close>

definition wf_globals :: "ASD_MSG \<Rightarrow> bool" where
  "wf_globals s \<longleftrightarrow> wf_message (in_msg s) \<and> wf_message (out_msg s) \<and> wf_message (spp_bulk_out_msg s)"

definition init_post :: "config \<Rightarrow> ASD_MSG \<Rightarrow> trace \<Rightarrow> STATUS \<times> ASD_MSG \<times> trace \<Rightarrow> bool" where
  "init_post cfg s tr = (\<lambda>(st, s', tr'). st = ST_OK \<and>
     (inst s' \<longrightarrow> read_inv s' \<and> wf_probes s' \<and> settled s' \<and> pending s' = [] \<and> asd_cfg s' = cfg \<and> length (bmc_version s') = 120 \<and>
        jtag_handler s' \<noteq> None \<and> i2c_handler s' \<noteq> None \<and> i3c_handler s' \<noteq> None \<and> vprobe_handler s' \<noteq> None))"

lemma I3CHandler_wf: "I3CHandler os g m tr = (Some h, tr') \<Longrightarrow> length m = MAX_IxC_BUSES \<Longrightarrow> wf_i3c h"
  by (auto simp: I3CHandler_def wf_i3c_def split_def Let_def split: if_splits)

lemma vProbeHandler_wf: "vProbeHandler os tr = (Some h, tr') \<Longrightarrow> probesConfig h = []"
  by (auto simp: vProbeHandler_def split_def Let_def split: if_splits)

definition versioned :: "ASD_MSG \<Rightarrow> ASD_MSG \<Rightarrow> bool" where
  "versioned s s' \<longleftrightarrow> (\<exists>v n. length v = 120 \<and> s' = s\<lparr>bmc_version := v, bmc_version_size := n\<rparr>)"

lemma versionedI: "length v = 120 \<Longrightarrow> versioned s (s\<lparr>bmc_version := v, bmc_version_size := n\<rparr>)"
  by (auto simp: versioned_def)

lemma versioned_after: "versioned (s\<lparr>bmc_version := v, bmc_version_size := n\<rparr>) s' \<Longrightarrow> versioned s s'"
  by (auto simp: versioned_def)

lemma read_openbmc_version_returns:
  assumes "file_ends os"
  shows "ensures (read_openbmc_version os ez s tr) (\<lambda>(st, s', tr'). versioned s s' \<and> (lines_fit os \<longrightarrow> version_fits s'))"
proof -
  have "ensures (version_lines os ez fd x t) (\<lambda>(st, s', tr'). versioned x s' \<and> (lines_fit os \<longrightarrow> version_fits x \<longrightarrow> version_fits s'))"
    if "length (bmc_version x) = 120" for fd x t
    by (rule ensures_conseq [OF version_lines_returns [OF assms that]]) (clarsimp simp: version_post_def, metis versionedI)
  note lines = this
  show ?thesis
    by (auto simp: read_openbmc_version_def split_def Let_def versionedI version_fits_def intro!: ensures_conseq [OF lines] dest: versioned_after)
qed

lemma asd_msg_init_ready:
  assumes "\<not> inst s" "wf_globals s" "wf_bus_config (buscfg cfg)" "length (un_spd_map u) = MAX_IxC_BUSES" "file_ends os"
  shows "ensures (asd_msg_init os ez u cfg s tr) (\<lambda>(st, s', tr'). init_post cfg s tr (st, s', tr') \<and>
    (inst s' \<longrightarrow> (lines_fit os \<longrightarrow> version_fits s') \<and> spp_bulk_response_buffer_count s' = spp_bulk_response_buffer_count s))"
proof -
  obtain jh tr1 where j: "JTAGHandler os tr = (jh, tr1)" by force
  obtain th tr2 where t: "TargetHandler os (un_spp_fd u) (glob_platform_reset u) tr1 = (th, tr2)" by force
  obtain ih tr3 where i: "I2CHandler os (un_i2c_bus u) tr2 = (ih, tr3)" by force
  obtain kh tr4 where k: "I3CHandler os (un_i3c_bus u) (un_spd_map u) tr3 = (kh, tr4)" by force
  obtain sh tr5 where p: "SPPHandler os (glob_fail_read_counter u) tr4 = (sh, tr5)" by force
  obtain vh tr6 where v: "vProbeHandler os tr5 = (vh, tr6)" by force
  note made = j t i k p v
  show ?thesis
  proof (cases "jh = None \<or> th = None \<or> ih = None \<or> kh = None \<or> sh = None \<or> vh = None")
    case True
    then show ?thesis
      using assms(1) by (auto simp: asd_msg_init_def Let_def made init_post_def set_buses_def)
  next
    case False
    then obtain j' t' i' k' p' v' where h: "jh = Some j'" "th = Some t'" "ih = Some i'" "kh = Some k'" "sh = Some p'" "vh = Some v'"
      by auto
    have wf: "wf_jtag j'" "wf_target t'" "\<not> spp_attached t'" "wf_i3c k'" "wf_spp p'"
      using made h JTAGHandler_wf TargetHandler_wf I3CHandler_wf [OF _ assms(4)] SPPHandler_wf by blast+
    have vp: "probesConfig v' = []" using vProbeHandler_wf [of os tr5 v' tr6] v h by simp
    show ?thesis
      using assms wf vp
      by (auto simp: asd_msg_init_def Let_def made h init_post_def read_inv_def wf_read_def pending_def wf_probes_def settled_def
          wf_msg_def wf_globals_def set_buses_def MAX_DATA_SIZE_def versioned_def version_fits_def
          intro!: ensures_conseq [OF read_openbmc_version_returns [OF assms(5)]])
  qed
qed

section \<open>Release\<close>

lemma disconnect_quiet: "whenever (disconnect os s tr) (\<lambda>(st, s', tr'). sent_on tr' = sent_on tr)"
proof -
  have "whenever (disconnect_from os is s bf tr) (\<lambda>(st, s', tr'). sent_on tr' = sent_on tr)" for "is" bf
  proof (induction "is" arbitrary: s bf tr)
    case (Cons i "is")
    have "whenever (disconnect_from os is s1 b t) (\<lambda>(st, s', tr'). sent_on tr' = sent_on tr)" if "sent_on t = sent_on tr" for s1 b t
      using Cons.IH [of s1 b t] that by simp
    then show ?case
      by (auto intro!: whenever_conseq [where m = "spp_device_select s i", OF whenever_any [where P = "\<lambda>_. True"]]
          whenever_conseq [OF spp_send_quiet] whenever_conseq [OF spp_receive_quiet])
  qed simp
  then show ?thesis by (simp add: disconnect_def)
qed

lemma release_quiet [quiet]:
  "sent_on (snd (snd (target_deinitialize os t tr))) = sent_on tr" "sent_on (snd (snd (vProbe_deinitialize os v tr))) = sent_on tr"
  "sent_on (snd (snd (spp_deinitialize os h tr))) = sent_on tr" "sent_on (snd (snd (JTAG_deinitialize j tr))) = sent_on tr"
proof -
  have "sent_on (snd (close_pin_fds os gs tr)) = sent_on tr" for gs
    by (induction gs arbitrary: tr) (simp_all add: split_def Let_def)
  then show "sent_on (snd (snd (target_deinitialize os t tr))) = sent_on tr"
    by (auto simp: target_deinitialize_def split_def Let_def quiet split: option.split)
qed (auto simp: vProbe_deinitialize_def spp_deinitialize_def JTAG_deinitialize_def split_def Let_def quiet split: option.split)

text \<open>
  Freeing always releases every handler, puts nothing on the connection, and reports success only when the
  target and the probes had been initialised.
\<close>

definition free_post :: "ASD_MSG \<Rightarrow> trace \<Rightarrow> STATUS \<times> ASD_MSG \<times> trace \<Rightarrow> bool" where
  "free_post s tr = (\<lambda>(st, s', tr'). \<not> inst s' \<and> sent_on tr' = sent_on tr \<and>
     jtag_handler s' = None \<and> target_handler s' = None \<and> i2c_handler s' = None \<and> i3c_handler s' = None \<and>
     spp_handler s' = None \<and> vprobe_handler s' = None \<and> wf_globals s' \<and>
     (st = ST_OK \<longrightarrow> opt_ok tgt_initialized (target_handler s) \<and> opt_ok vp_initialized (vprobe_handler s)))"

lemma free_spp_ok:
  assumes "opt_ok wf_spp h"
  shows "ensures (free_spp os h tr) (\<lambda>(st, tr'). sent_on tr' = sent_on tr)"
proof (cases h)
  case (Some sp)
  then have "wf_spp sp" using assms by simp
  note d = ensures_whenever [OF disconnect_wf [OF this] disconnect_quiet]
  show ?thesis by (auto simp: free_spp_def Some split_def Let_def quiet intro!: ensures_conseq [OF d])
qed (simp add: free_spp_def)

lemma asd_msg_free_releases:
  assumes "inst s" "wf_msg s"
  shows "ensures (asd_msg_free os s tr) (free_post s tr)"
proof -
  have spp: "opt_ok wf_spp (spp_handler s)" and g: "wf_globals s" using assms(2) by (simp_all add: wf_msg_def wf_globals_def)
  have ok: "fst (target_deinitialize os t tr) = ST_OK \<Longrightarrow> tgt_initialized t"
    "fst (vProbe_deinitialize os v tr) = ST_OK \<Longrightarrow> vp_initialized v" for t v tr
    by (auto simp: target_deinitialize_def vProbe_deinitialize_def split: if_splits)
  show ?thesis
    using assms(1) g
    by (auto simp: asd_msg_free_def free_post_def asd_msg_state_free_def wf_globals_def wf_message_def split_def Let_def quiet opt_ok_def
        intro!: ensures_conseq [OF free_spp_ok [OF spp]] dest: ok split: option.split)
qed

end
