(* ===== verification/Sample_States.thy ===== *)
theory Sample_States
  imports Msg_Safety
begin

text \<open>
  Concrete states on which the hypotheses of the theorems hold: a server with one authenticated
  client, a message layer with every handler present, and two kernels: \<open>sample_os\<close> answers 1 to every call
  and the length of the data to a send; \<open>calm_os\<close> delivers a stream of zero bytes two at a time, has nothing
  else to report and empty files.
\<close>

definition sample_os :: os where
  "sample_os tr c = (case c of Sys_send fd bs \<Rightarrow> (int (length bs), []) | _ \<Rightarrow> (1, []))"

definition sample_conn :: extnet_conn_t where
  "sample_conn = \<lparr>sockfd = 7, p_hdlr_data = None\<rparr>"

definition sample_net :: ExtNet where
  "sample_net = \<lparr>p_hdlrs = EXTNET_HDLR_NON_ENCRYPT, n_max_sessions = 5\<rparr>"

definition empty_session :: Session where
  "empty_session = the (fst (session_init sample_os sample_net (\<lambda>_. sample_conn) []))"

definition open_session :: Session where
  "open_session = fst (snd (session_open sample_os empty_session sample_conn []))"

definition sample_session :: Session where
  "sample_session = snd (session_auth_complete open_session sample_conn)"

definition sample_server :: Server where
  "sample_server = \<lparr>session = sample_session, p_extconn = Some 0, b_data_pending = False\<rparr>"

definition sample_jtag :: JTAG_Handler where
  "sample_jtag = \<lparr>chains = replicate MAX_SCAN_CHAINS (initial_chain\<lparr>tap_state := jtag_shf_dr\<rparr>), active_chain = Some 0,
     padDataOne = replicate (IRMAXPADSIZE div 8) 0xFF, padDataZero = replicate (IRMAXPADSIZE div 8) 0,
     JTAG_driver_handle = 3, sw_mode = True\<rparr>"

definition sample_pin :: Target_Control_GPIO where
  "sample_pin = blank_pin\<lparr>pin_read := Some Read_pin_none, pin_write := Some Write_pin_none\<rparr>"

definition sample_target :: Target_Control_Handle where
  "sample_target = \<lparr>event_cfg = \<lparr>break_all = False, reset_break = False, report_PRDY = False, report_PLTRST = False,
     report_MBP = False\<rparr>, tgt_initialized = True, gpios = replicate NUM_GPIOS sample_pin, tgt_dbus = None,
     is_controller_probe = False, xdp_present = False, spp_fd = - 1, spp_attached = False,
     chain_select_delay_us = 0, platform_reset = False\<rparr>"

definition sample_buses :: bus_config where
  "sample_buses = \<lparr>enable_i2c = True, enable_i3c = False, enable_spp = True, default_bus = 4,
     bus_types = [BUS_CONFIG_I2C, BUS_CONFIG_I2C] @ replicate 6 BUS_CONFIG_NOT_ALLOWED
                 @ [BUS_CONFIG_SPP] @ replicate 7 BUS_CONFIG_NOT_ALLOWED,
     bus_map = [4, 9] @ replicate 6 0 @ [2] @ replicate 7 0\<rparr>"

definition sample_config :: config where
  "sample_config = \<lparr>jtag_cfg = \<lparr>jtag_mode = JTAG_DRIVER_MODE_SOFTWARE, chain_mode = JTAG_CHAIN_SELECT_MODE_SINGLE,
       xdp_fail_enable = True\<rparr>, spp_cfg = \<lparr>bulk_send_enable = False, bulk_response_enable = False\<rparr>,
     remote_logging = \<lparr>logging_level = 5, logging_stream = 0\<rparr>, ipc_asd_log_map = [0, 1, 2, 3, 4, 5], buscfg = sample_buses,
     timecfg = \<lparr>is_timeout_enabled = False, idle_timeout = 0\<rparr>\<rparr>"

definition sample_i2c :: I2C_Handler where
  "sample_i2c = \<lparr>i2c_bus = 4, i2c_driver_handle = 5\<rparr>"

definition sample_i3c :: I3C_Handler where
  "sample_i3c = the (fst (I3CHandler sample_os 0 (replicate MAX_IxC_BUSES 0) []))"

definition sample_spp :: SPP_Handler where
  "sample_spp = the (fst (SPPHandler sample_os 0 []))"

definition sample_msg :: ASD_MSG where
  "sample_msg = \<lparr>inst = True, asd_cfg = sample_config, read_index = 0, data_size = 0, read_state = READ_STATE_INITIAL,
     in_msg = zero_message, out_msg = zero_message, jtag_handler = Some sample_jtag,
     target_handler = Some sample_target, i2c_handler = Some sample_i2c, i3c_handler = Some sample_i3c,
     vprobe_handler = None, spp_handler = Some sample_spp, handlers_initialized = True, prdy_timeout = 0,
     jtag_chain_mode = JTAG_CHAIN_SELECT_MODE_SINGLE, bmc_version = replicate 120 0, bmc_version_size = 0,
     spp_bulk_out_msg = zero_message, spp_bulk_response_buffer_count = 0, spp_bulk_response_ibi_count = 0,
     asd_poll_timeout_ms = 0\<rparr>"

text \<open>A request: a header of the given type and size, and the bytes of its payload.\<close>

definition sample_request :: "3 word \<Rightarrow> u8 list \<Rightarrow> asd_message" where
  "sample_request ty bs = \<lparr>header = (set_msg_size (of_nat (length bs)) zero_header)\<lparr>mtype := ty\<rparr>,
     buffer = bs @ replicate (MAX_DATA_SIZE - length bs) 0\<rparr>"

section \<open>They are well-formed\<close>

lemma wf_empty_session: "wf_session empty_session" "open_fds empty_session = {}" "authed_fd empty_session = None"
proof -
  obtain tr' where "session_init sample_os sample_net (\<lambda>_. sample_conn) [] = (Some empty_session, tr')"
    by (simp add: empty_session_def session_init_def malloc_def sample_os_def sample_net_def extnet_init_client_def
        exttcp_init_client_def)
  then show "wf_session empty_session" "open_fds empty_session = {}" "authed_fd empty_session = None"
    by (rule session_init_wf)+
qed

lemma wf_open_session: "wf_session open_session" "open_fds open_session = {7}" "authed_fd open_session = None"
proof -
  have fd: "0 \<le> sockfd sample_conn" "sockfd sample_conn \<notin> open_fds empty_session"
    by (simp_all add: sample_conn_def wf_empty_session)
  obtain st tr' where op: "session_open sample_os empty_session sample_conn [] = (st, open_session, tr')"
    by (metis open_session_def prod.collapse)
  note r = session_open_refines [OF wf_empty_session(1) fd op]
  show "wf_session open_session" "authed_fd open_session = None" using r wf_empty_session by simp_all
  show "open_fds open_session = {7}"
    using r(2,3) by (simp add: wf_empty_session MAX_SESSIONS_def sample_conn_def)
qed

lemma wf_sample_session: "wf_session sample_session" "open_fds sample_session = {7}" "authed_fd sample_session = Some 7"
proof -
  have fd: "0 \<le> sockfd sample_conn" by (simp add: sample_conn_def)
  obtain st where op: "session_auth_complete open_session sample_conn = (st, sample_session)"
    by (metis sample_session_def prod.collapse)
  note r = session_auth_complete_refines [OF wf_open_session(1) fd op]
  show "wf_session sample_session" "open_fds sample_session = {7}" "authed_fd sample_session = Some 7"
    using r by (simp_all add: wf_open_session sample_conn_def)
qed

lemma wf_sample_server [simp]: "wf_server sample_server"
  by (simp add: wf_server_def sample_server_def wf_sample_session MAX_SESSIONS_def)

lemma wf_sample_jtag [simp]: "wf_jtag sample_jtag"
  by (simp add: sample_jtag_def wf_jtag_def MAX_SCAN_CHAINS_def initial_chain_def wf_padding_def numeral_2_eq_2)

lemma wf_sample_target [simp]: "wf_target sample_target"
  by (simp add: sample_target_def wf_target_def sample_pin_def)

lemma wf_sample_buses [simp]: "wf_bus_config sample_buses"
  by (simp add: sample_buses_def wf_bus_config_def MAX_IxC_BUSES_def MAX_SPP_BUSES_def)

lemma wf_sample_spp [simp]: "wf_spp sample_spp"
proof -
  obtain tr' where "SPPHandler sample_os 0 [] = (Some sample_spp, tr')"
    by (simp add: sample_spp_def SPPHandler_def malloc_def sample_os_def)
  then show ?thesis by (rule SPPHandler_wf)
qed

lemma wf_sample_i3c [simp]: "wf_i3c sample_i3c"
  by (simp add: sample_i3c_def I3CHandler_def dbus_helper_def malloc_def sample_os_def wf_i3c_def)

lemma wf_sample_msg [simp]: "wf_msg sample_msg"
  by (simp add: wf_msg_def sample_msg_def sample_config_def)

lemma wf_sample_request [simp]: "length bs \<le> MAX_DATA_SIZE \<Longrightarrow> wf_message (sample_request ty bs)"
  by (simp add: wf_message_def sample_request_def)

lemma size_sample_request [simp]:
  assumes "length bs \<le> MAX_DATA_SIZE"
  shows "get_message_size (sample_request ty bs) = int (length bs)"
proof -
  have n: "unat (of_nat (length bs) :: u32) = length bs"
    using assms by (simp add: unat_of_nat MAX_DATA_SIZE_def)
  have "get_message_size (sample_request ty bs)
      = get_message_size (zero_message\<lparr>header := set_msg_size (of_nat (length bs)) zero_header\<rparr>)"
    by (simp add: get_message_size_def sample_request_def)
  also have "\<dots> = int (length bs)"
    using get_set_msg_size [where cnt = "of_nat (length bs)" and m = zero_message and h = zero_header] n assms by (metis uint_nat)
  finally show ?thesis .
qed

section \<open>A calm environment\<close>

definition calm_os :: os where
  "calm_os tr c = (case c of Sys_send fd bs \<Rightarrow> (int (length bs), [])
     | Sys_recv fd n \<Rightarrow> (int (min n 2), [replicate (min n 2) 0])
     | Sys_ssl_read ssl n \<Rightarrow> (0, [])
     | Sys_getline fd \<Rightarrow> (- 1, [])
     | Sys_pollfds fds t \<Rightarrow> (0, [])
     | _ \<Rightarrow> (1, []))"

lemma calm_os_ok: "recv_honest calm_os" "poll_answers calm_os" "names_nonempty calm_os" "settles calm_os 0" "file_ends calm_os"
  by (auto simp: recv_honest_def poll_answers_def names_nonempty_def settles_def file_ends_def calm_os_def sys_data_def)

text \<open>A message layer without SPP, waiting for a message.\<close>

definition plain_msg :: ASD_MSG where
  "plain_msg = set_buses (sample_buses\<lparr>enable_spp := False\<rparr>) sample_msg"

definition sample_version :: "u8 list" where
  "sample_version = bytes_of ''ASD_1.4.3''"

definition sample_locals :: locals where
  "sample_locals = \<lparr>loc_pin = 0, loc_i2c = \<lparr>i2c_read = False, force_stop = False, address = 0, i2c_length = 0,
     i2c_buffer = replicate ASD_I2C_BUFFER_LEN 0\<rparr>, loc_addr = 0\<rparr>"

lemma wf_sample_locals: "wf_locals sample_locals"
  by (simp add: wf_locals_def sample_locals_def)

lemma plain_msg_ok:
  "wf_msg plain_msg" "read_inv plain_msg" "pending plain_msg = []" "recv_inv sample_version plain_msg" "\<not> enable_spp (buses plain_msg)"
proof -
  show wf: "wf_msg plain_msg" by (simp add: plain_msg_def wf_bus_config_def sample_buses_def MAX_IxC_BUSES_def MAX_SPP_BUSES_def)
  then show "read_inv plain_msg" by (simp add: read_inv_def wf_read_def plain_msg_def set_buses_def sample_msg_def)
  show "pending plain_msg = []" by (simp add: pending_def plain_msg_def set_buses_def sample_msg_def)
  show "recv_inv sample_version plain_msg"
    using wf by (simp add: recv_inv_def wf_probes_def wf_version_def settled_def plain_msg_def set_buses_def sample_msg_def
        sample_version_def bytes_of_def MAX_DATA_SIZE_def)
  show "\<not> enable_spp (buses plain_msg)" by (simp add: plain_msg_def set_buses_def)
qed

end
