(* ===== verification/Authenticate.thy ===== *)
theory Authenticate
  imports Session "HOL-Library.Multiset"
begin

text \<open>
  \<open>server/authenticate.c\<close> with its two handlers: \<open>auth_none.c\<close>, which lets every client in, and
  \<open>auth_pam.c\<close>, which asks PAM.  The static variables of the three files, the handler chosen, the times of the
  last wrong passwords, the end of a lockout and the receive buffer, are one record.  A password is the list of
  its bytes.
\<close>

section \<open>State\<close>

datatype auth_hdlr_type_t = AUTH_HDLR_NONE | AUTH_HDLR_PAM

datatype auth_ret_t = AUTHRET_OK | AUTHRET_SYSERR | AUTHRET_INVALIDDATA | AUTHRET_UNAUTHORIZED | AUTHRET_LOCKOUT

definition AUTH_HDR_VERSION :: u8 where "AUTH_HDR_VERSION = 0x30"
definition MAX_PW_LEN :: nat where "MAX_PW_LEN = 128"
definition ASD_PAM_SERVICE :: string where "ASD_PAM_SERVICE = ''asd''"
definition ASD_PAM_USER :: string where "ASD_PAM_USER = ''asdbg''"
definition INVALID_AUTH_MAX_ATTEMPTS :: nat where "INVALID_AUTH_MAX_ATTEMPTS = 3"
definition INVALID_AUTH_PERIOD_NSECS :: int where "INVALID_AUTH_PERIOD_NSECS = 60"
definition INVALID_AUTH_LOCKOUT_NSECS :: int where "INVALID_AUTH_LOCKOUT_NSECS = 60"
definition RANDOM_ASCII_CHARACTERS :: string where
  "RANDOM_ASCII_CHARACTERS = ''abcdefghijklmnopqrstuvwxyzABCDEFGHIJKLMNOPQRSTUVWXYZ0123456789,.-!#$%()+=*''"

datatype auth_handshake_ret_t =
    AUTH_HANDSHAKE_SUCCESS | AUTH_HANDSHAKE_SYSERR | AUTH_HANDSHAKE_BUSY | AUTH_HANDSHAKE_FAILURE

fun handshake_code :: "auth_handshake_ret_t \<Rightarrow> u8" where
  "handshake_code AUTH_HANDSHAKE_SUCCESS = 0x30"
| "handshake_code AUTH_HANDSHAKE_SYSERR = 0x24"
| "handshake_code AUTH_HANDSHAKE_BUSY = 0x2b"
| "handshake_code AUTH_HANDSHAKE_FAILURE = 0x3f"

record Auth =
  auth_hdlr :: "auth_hdlr_type_t option"
  ats_attempts :: "int list"
  t_lockout :: int
  ca_buf :: "u8 list"

definition zero_auth :: Auth where
  "zero_auth = \<lparr>auth_hdlr = None, ats_attempts = replicate INVALID_AUTH_MAX_ATTEMPTS 0, t_lockout = 0,
     ca_buf = replicate 10240 0\<rparr>"

section \<open>The conversation with PAM\<close>

text \<open>The bounded string functions, on the bytes from a pointer to the end of its array.\<close>

definition strnlen_s :: "u8 list \<Rightarrow> nat \<Rightarrow> nat option" where
  "strnlen_s s n =
     (let k = length (takeWhile (\<lambda>b. b \<noteq> 0) (take n s)) in if k < n \<and> k = length s then None else Some k)"

definition strcpy_s :: "nat \<Rightarrow> u8 list \<Rightarrow> (bool \<times> u8 list) option" where
  "strcpy_s dmax s = do { k \<leftarrow> strnlen_s s dmax; Some (if k < dmax then (True, take k s) else (False, [])) }"

definition PAM_SUCCESS :: int where "PAM_SUCCESS = 0"
definition PAM_AUTH_ERR :: int where "PAM_AUTH_ERR = 7"
definition PAM_PROMPT_ECHO_OFF :: int where "PAM_PROMPT_ECHO_OFF = 1"

definition copy_password :: "u8 list \<Rightarrow> (bool \<times> u8 list) option" where
  "copy_password mem = do { k \<leftarrow> strnlen_s mem MAX_PW_LEN; strcpy_s (k + 1) mem }"

text \<open>
  PAM calls it with the styles of its messages; the answers are the password for each hidden prompt.  A copy
  that fails sets the result to \<open>ST_ERR\<close>, which a hidden prompt sets to success again.
\<close>

definition pam_conversation_function ::
    "os \<Rightarrow> int list \<Rightarrow> u8 list option \<Rightarrow> trace \<Rightarrow> (int \<times> u8 list option list option \<times> trace) option" where
  "pam_conversation_function os styles appdata tr =
     (case appdata of None \<Rightarrow> Some (PAM_AUTH_ERR, None, tr)
      | Some mem \<Rightarrow> do {
          k \<leftarrow> strnlen_s mem MAX_PW_LEN;
          let (ok, tr1) = malloc os ''char'' (k + 1) tr;
          if \<not> ok then Some (PAM_AUTH_ERR, None, tr1)
          else do {
            (copied, pass) \<leftarrow> copy_password mem;
            let (ok2, tr2) = malloc os ''struct pam_response'' (length styles) tr1;
            if ok2 \<and> PAM_PROMPT_ECHO_OFF \<in> set styles
            then Some (PAM_SUCCESS, Some (map (\<lambda>s. if s = PAM_PROMPT_ECHO_OFF then Some pass else None) styles), tr2)
            else Some (if copied then PAM_AUTH_ERR else 1, None, tr2) } })"

text \<open>
  PAM is given the password its conversation would supply.  \<open>pam_start\<close> stores a handle, or none.  The
  bytes of the password are cleared in the caller's buffer.
\<close>

definition wipe :: "nat \<Rightarrow> u8 list \<Rightarrow> u8 list option" where
  "wipe n mem = wrs mem 0 (replicate n 0)"

definition credentials_are_valid :: "os \<Rightarrow> u8 list \<Rightarrow> nat \<Rightarrow> trace \<Rightarrow> (auth_ret_t \<times> u8 list \<times> trace) option" where
  "credentials_are_valid os cp_password n_pwlen tr = do {
     let start = Sys_pam ''pam_start'' (bytes_of (ASD_PAM_SERVICE @ '' '' @ ASD_PAM_USER));
     let r = os tr start; let tr1 = tr @ [start];
     (ret, tr2) \<leftarrow> (if fst r \<noteq> PAM_SUCCESS then Some (AUTHRET_SYSERR, tr1)
        else do {
          (_, pass) \<leftarrow> copy_password cp_password;
          let (e, tra) = sys os (Sys_pam ''pam_authenticate'' pass) tr1;
          if e \<noteq> PAM_SUCCESS then Some (AUTHRET_UNAUTHORIZED, tra)
          else (let (e2, trb) = sys os (Sys_pam ''pam_acct_mgmt'' []) tra
                in Some (if e2 \<noteq> PAM_SUCCESS then AUTHRET_UNAUTHORIZED else AUTHRET_OK, trb)) });
     mem \<leftarrow> wipe n_pwlen cp_password;
     Some (ret, mem, if snd r \<noteq> [] then tr2 @ [Sys_pam ''pam_end'' []] else tr2) }"

section \<open>Wrong passwords\<close>

text \<open>The loop over the remembered attempts: the index of the oldest so far and the number in the period.\<close>

fun scan_attempts :: "int list \<Rightarrow> int \<Rightarrow> nat list \<Rightarrow> nat \<Rightarrow> nat \<Rightarrow> nat \<times> nat" where
  "scan_attempts ats now [] n_oldest n_invalid = (n_oldest, n_invalid)"
| "scan_attempts ats now (i # is) n_oldest n_invalid =
     scan_attempts ats now is (if ats ! i < ats ! n_oldest then i else n_oldest)
       (if ats ! i > now - INVALID_AUTH_PERIOD_NSECS then n_invalid + 1 else n_invalid)"

definition auth_track_attempt :: "auth_ret_t \<Rightarrow> int list \<Rightarrow> int \<Rightarrow> auth_ret_t \<times> int list" where
  "auth_track_attempt err_code ats t_now =
     (if err_code = AUTHRET_OK then (err_code, replicate INVALID_AUTH_MAX_ATTEMPTS 0)
      else if err_code = AUTHRET_UNAUTHORIZED \<or> err_code = AUTHRET_INVALIDDATA
      then (let (n_oldest, n_invalid) = scan_attempts ats t_now [0..<INVALID_AUTH_MAX_ATTEMPTS] 0 1
            in (if n_invalid > INVALID_AUTH_MAX_ATTEMPTS then AUTHRET_LOCKOUT else err_code, ats[n_oldest := t_now]))
      else (err_code, ats))"

section \<open>The handshake\<close>

text \<open>\<open>sizeof(auth_handshake_req_t)\<close> is the version byte and the password; the first newline ends the request.\<close>

definition strip_newline :: "u8 list \<Rightarrow> nat \<Rightarrow> u8 list" where
  "strip_newline bf n =
     (let k = length (takeWhile (\<lambda>b. b \<noteq> 10) (take n bf)) in if k < n then bf[k := 0] else bf)"

definition authenticate_client ::
    "os \<Rightarrow> u8 list \<Rightarrow> nat \<Rightarrow> int list \<Rightarrow> trace \<Rightarrow> (auth_ret_t \<times> u8 list \<times> int list \<times> trace) option" where
  "authenticate_client os cp_buf n_num_read ats tr = do {
     ver \<leftarrow> rd cp_buf 0;
     (ret, bf, tr1) \<leftarrow>
       (if n_num_read > 1 + MAX_PW_LEN \<or> ver > AUTH_HDR_VERSION then Some (AUTHRET_INVALIDDATA, cp_buf, tr)
        else do {
          let b = strip_newline cp_buf n_num_read;
          (ret, mem, t) \<leftarrow> credentials_are_valid os (tl b) (n_num_read - 1) tr;
          Some (ret, hd b # mem, t) });
     let (now, tr2) = sys os Sys_time tr1;
     let (ret2, ats2) = auth_track_attempt ret ats now;
     Some (ret2, bf, ats2, tr2) }"

definition auth_handshake_response ::
    "os \<Rightarrow> ExtNet \<Rightarrow> extnet_conn_t \<Rightarrow> auth_handshake_ret_t \<Rightarrow> trace \<Rightarrow> STATUS \<times> trace" where
  "auth_handshake_response os net p_extconn c_resp tr =
     (let (n_wr, tr1) = extnet_send os net p_extconn [AUTH_HDR_VERSION, handshake_code c_resp] tr
      in (if n_wr \<noteq> 2 then ST_ERR else ST_OK, tr1))"

text \<open>Random bytes made printable; the last place is a NUL.\<close>

definition get_random_string :: "os \<Rightarrow> u8 list \<Rightarrow> trace \<Rightarrow> STATUS \<times> u8 list \<times> trace" where
  "get_random_string os cp_buf tr =
     (let call = Sys_rand (length cp_buf); r = os tr call; bs = overlay cp_buf (sys_data r);
          chars = RANDOM_ASCII_CHARACTERS
      in if fst r \<noteq> 1 then (ST_ERR, bs, tr @ [call])
         else (ST_OK, (map (\<lambda>b. of_char (chars ! (unat b mod length chars))) bs)[length bs - 1 := 0], tr @ [call]))"

text \<open>The verdict on what the client sent, with the new state.\<close>

definition judge_request ::
    "os \<Rightarrow> u8 list \<Rightarrow> Auth \<Rightarrow> ExtNet \<Rightarrow> extnet_conn_t \<Rightarrow> trace \<Rightarrow> (auth_ret_t \<times> Auth \<times> trace) option" where
  "judge_request os lockout_password a net conn tr =
     (let (n_read, bf, pending, tr1) = extnet_recv os net conn (ca_buf a) False tr;
          clear = ca_buf_update (\<lambda>_. replicate (length (ca_buf a)) 0)
      in if n_read \<le> 0 then Some (AUTHRET_INVALIDDATA, clear a, tr1)
         else let (now, tr2) = sys os Sys_time tr1
              in if now < t_lockout a then do {
                   (_, _, ats, tr3) \<leftarrow>
                     authenticate_client os (AUTH_HDR_VERSION # lockout_password) 20 (ats_attempts a) tr2;
                   Some (AUTHRET_LOCKOUT, clear (a\<lparr>ats_attempts := ats\<rparr>), tr3) }
                 else if pending then Some (AUTHRET_INVALIDDATA, clear a, tr2)
                 else do {
                   (ret, _, ats, tr3) \<leftarrow> authenticate_client os bf (nat n_read) (ats_attempts a) tr2;
                   Some (ret, clear (a\<lparr>ats_attempts := ats\<rparr>), tr3) })"

text \<open>\<open>garbage\<close> is the uninitialised password of \<open>lockout_req\<close>.\<close>

definition authpam_client_handshake ::
    "os \<Rightarrow> u8 list \<Rightarrow> Session \<Rightarrow> ExtNet \<Rightarrow> extnet_conn_t \<Rightarrow> Auth \<Rightarrow> trace \<Rightarrow> (STATUS \<times> Auth \<times> trace) option" where
  "authpam_client_handshake os garbage session net conn a tr = do {
     let (st, pw, tr1) = get_random_string os garbage tr;
     (ret, a1, tr2) \<leftarrow> (if st \<noteq> ST_OK then Some (AUTHRET_INVALIDDATA, a, tr1) else judge_request os pw a net conn tr1);
     case ret of
       AUTHRET_OK \<Rightarrow> do {
         (busy, _) \<leftarrow> session_get_authenticated_conn session;
         if busy \<noteq> ST_OK
         then (let (s, tr3) = auth_handshake_response os net conn AUTH_HANDSHAKE_SUCCESS tr2
               in Some (if s \<noteq> ST_OK then ST_ERR else ST_OK, a1, tr3))
         else Some (ST_ERR, a1, snd (auth_handshake_response os net conn AUTH_HANDSHAKE_BUSY tr2)) }
     | AUTHRET_SYSERR \<Rightarrow> Some (ST_ERR, a1, snd (auth_handshake_response os net conn AUTH_HANDSHAKE_SYSERR tr2))
     | AUTHRET_LOCKOUT \<Rightarrow>
         (let (now, tr3) = sys os Sys_time tr2
          in Some (ST_ERR, a1\<lparr>t_lockout := now + INVALID_AUTH_LOCKOUT_NSECS\<rparr>,
                   snd (auth_handshake_response os net conn AUTH_HANDSHAKE_FAILURE tr3)))
     | _ \<Rightarrow> Some (ST_ERR, a1, snd (auth_handshake_response os net conn AUTH_HANDSHAKE_FAILURE tr2)) }"

definition authpam_init :: "Auth \<Rightarrow> STATUS \<times> Auth" where
  "authpam_init a = (ST_OK, a)"

definition authnone_init :: "Auth \<Rightarrow> STATUS \<times> Auth" where
  "authnone_init a = (ST_OK, a)"

definition auth_none :: "Session \<Rightarrow> ExtNet \<Rightarrow> extnet_conn_t \<Rightarrow> Auth \<Rightarrow> trace \<Rightarrow> (STATUS \<times> Auth \<times> trace) option" where
  "auth_none session net conn a tr = Some (ST_OK, a, tr)"

definition auth_init :: "auth_hdlr_type_t \<Rightarrow> Auth \<Rightarrow> STATUS \<times> Auth" where
  "auth_init e_type a =
     (let b = a\<lparr>auth_hdlr := Some e_type\<rparr>
      in case e_type of AUTH_HDLR_NONE \<Rightarrow> authnone_init b | AUTH_HDLR_PAM \<Rightarrow> authpam_init b)"

definition auth_client_handshake ::
    "os \<Rightarrow> u8 list \<Rightarrow> Session \<Rightarrow> ExtNet \<Rightarrow> extnet_conn_t \<Rightarrow> Auth \<Rightarrow> trace \<Rightarrow> (STATUS \<times> Auth \<times> trace) option" where
  "auth_client_handshake os garbage session net conn a tr =
     (case auth_hdlr a of None \<Rightarrow> Some (ST_ERR, a, tr)
      | Some AUTH_HDLR_NONE \<Rightarrow> auth_none session net conn a tr
      | Some AUTH_HDLR_PAM \<Rightarrow> authpam_client_handshake os garbage session net conn a tr)"

section \<open>The limit on wrong passwords\<close>

text \<open>
  The contract of a limiter, over the times \<open>h\<close> of the wrong passwords since the last right one, newest first:
  a further one at \<open>now\<close> locks the client out exactly when \<open>limit\<close> of them are less than a period old.
\<close>

definition recent :: "int \<Rightarrow> int \<Rightarrow> int list \<Rightarrow> nat" where
  "recent period now h = length (filter (\<lambda>t. now - period < t) h)"

definition chronological :: "int list \<Rightarrow> bool" where
  "chronological h \<longleftrightarrow> sorted_wrt (\<ge>) h"

text \<open>The times of the wrong passwords of a run that were answered without a lockout, and those in a window.\<close>

fun judged :: "(int \<Rightarrow> 's \<Rightarrow> bool \<times> 's) \<Rightarrow> int list \<Rightarrow> 's \<Rightarrow> int list" where
  "judged wrong [] s = []"
| "judged wrong (t # ts) s = (let (locked, s') = wrong t s in if locked then judged wrong ts s' else t # judged wrong ts s')"

definition within :: "int \<Rightarrow> int \<Rightarrow> int list \<Rightarrow> nat" where
  "within period w ts = length (filter (\<lambda>t. w < t \<and> t \<le> w + period) ts)"

lemma length_filter_mono: "(\<And>x. P x \<Longrightarrow> Q x) \<Longrightarrow> length (filter P xs) \<le> length (filter Q xs)"
  by (induction xs) auto

locale attempt_limiter =
  fixes remembers :: "'s \<Rightarrow> int list \<Rightarrow> bool"
    and wrong :: "int \<Rightarrow> 's \<Rightarrow> bool \<times> 's"
    and limit :: nat and period :: int
  assumes wrong_locks: "remembers s h \<Longrightarrow> chronological (t # h) \<Longrightarrow> period \<le> t \<Longrightarrow>
      fst (wrong t s) \<longleftrightarrow> limit \<le> recent period t h"
    and wrong_remembers: "remembers s h \<Longrightarrow> chronological (t # h) \<Longrightarrow> period \<le> t \<Longrightarrow>
      remembers (snd (wrong t s)) (t # h)"
    and period_pos: "0 < period"
begin

lemma judged_within_from:
  assumes "remembers s h" "chronological (rev ts @ h)" "\<forall>t \<in> set ts. period \<le> t"
  shows "within period w (judged wrong ts s) + min limit (within period w h) \<le> limit"
  using assms
proof (induction ts arbitrary: s h)
  case Nil
  then show ?case by (simp add: within_def)
next
  case (Cons t ts)
  obtain locked s' where w: "wrong t s = (locked, s')"
    by (cases "wrong t s") auto
  have c: "chronological (t # h)" "chronological (rev ts @ t # h)"
    using Cons.prems(2) by (auto simp: chronological_def sorted_wrt_append)
  have locks: "locked \<longleftrightarrow> limit \<le> recent period t h" and rem: "remembers s' (t # h)"
    using wrong_locks [OF Cons.prems(1) c(1)] wrong_remembers [OF Cons.prems(1) c(1)] Cons.prems(3) w by simp_all
  have IH: "within period w (judged wrong ts s') + min limit (within period w (t # h)) \<le> limit"
    using Cons.IH [OF rem c(2)] Cons.prems(3) by simp
  have "within period w h \<le> recent period t h" if "t \<le> w + period"
    unfolding within_def recent_def using that by (intro length_filter_mono) simp
  then show ?case
    using IH locks w by (auto simp: within_def Let_def min_def split: if_splits)
qed

lemma judged_within: "remembers s [] \<Longrightarrow> chronological (rev ts) \<Longrightarrow> \<forall>t \<in> set ts. period \<le> t \<Longrightarrow> within period w (judged wrong ts s) \<le> limit"
  using judged_within_from [of s "[]" ts w] by simp

end

text \<open>
  The three places of \<open>ats_attempts\<close> hold the three newest times, in some order, and zeros before there are
  three.
\<close>

definition wrong_attempt :: "bool \<Rightarrow> int \<Rightarrow> int list \<Rightarrow> bool \<times> int list" where
  "wrong_attempt invalid_data t ats =
     (let (ret, ats') = auth_track_attempt (if invalid_data then AUTHRET_INVALIDDATA else AUTHRET_UNAUTHORIZED) ats t
      in (ret = AUTHRET_LOCKOUT, ats'))"

definition remembers :: "int list \<Rightarrow> int list \<Rightarrow> bool" where
  "remembers ats h \<longleftrightarrow> chronological h \<and> (\<forall>t \<in> set h. 0 < t) \<and> mset ats = mset (take 3 (h @ [0, 0, 0]))"

lemma remembers_length: "remembers ats h \<Longrightarrow> length ats = 3"
  by (auto simp: remembers_def dest: arg_cong [where f = size])

lemma length_3: "length xs = 3 \<longleftrightarrow> (\<exists>a b c. xs = [a, b, c])"
  by (auto simp: numeral_3_eq_3 length_Suc_conv)

lemma recent_newest:
  assumes "chronological (t # h)" "60 \<le> t"
  shows "3 \<le> recent 60 t h \<longleftrightarrow> size {#x \<in># mset (take 3 (h @ [0, 0, 0])). t - 60 < x#} = 3"
proof (cases "3 \<le> length h")
  case True
  then obtain a b c k where h: "h = a # b # c # k"
    by (auto simp: numeral_3_eq_3 Suc_le_length_iff)
  have o: "b \<le> a" "c \<le> b" "\<forall>x \<in> set k. x \<le> c"
    using assms(1) by (auto simp: h chronological_def)
  have "filter (\<lambda>x. t - 60 < x) k = []" if "\<not> t - 60 < c"
    using that o by (auto simp: filter_empty_conv)
  then show ?thesis
    using o by (auto simp: h recent_def)
next
  case False
  define z where "z = take (3 - length h) [0, 0, 0 :: int]"
  have t: "take 3 (h @ [0, 0, 0]) = h @ z"
    using False by (simp add: z_def)
  have "filter (\<lambda>x. t - 60 < x) z = []"
    using assms(2) by (auto simp: z_def filter_empty_conv dest!: in_set_takeD)
  moreover have "length (filter (\<lambda>x. t - 60 < x) h) < 3"
    using False length_filter_le [of "\<lambda>x. t - 60 < x" h] by linarith
  ultimately show ?thesis
    unfolding t by (simp add: recent_def flip: mset_filter)
qed

lemma wrong_attempt_3: "wrong_attempt bad t [a, b, c] =
  (t - 60 < a \<and> t - 60 < b \<and> t - 60 < c,
   if b < a then (if c < b then [a, b, t] else [a, t, c]) else if c < a then [a, b, t] else [t, b, c])"
  by (simp add: wrong_attempt_def auth_track_attempt_def INVALID_AUTH_MAX_ATTEMPTS_def upt_rec
      INVALID_AUTH_PERIOD_NSECS_def)

lemma track_replaces_oldest:
  assumes "length ats = 3"
  shows "fst (wrong_attempt bad t ats) \<longleftrightarrow> size {#x \<in># mset ats. t - 60 < x#} = 3"
    "\<exists>m r. mset ats = add_mset m r \<and> (\<forall>x \<in># r. m \<le> x) \<and> mset (snd (wrong_attempt bad t ats)) = add_mset t r"
proof -
  obtain a b c where ats: "ats = [a, b, c]"
    using assms by (auto simp only: length_3)
  show "fst (wrong_attempt bad t ats) \<longleftrightarrow> size {#x \<in># mset ats. t - 60 < x#} = 3"
    by (simp add: ats wrong_attempt_3)
  consider "b < a" "c < b" | "b < a" "\<not> c < b" | "\<not> b < a" "c < a" | "\<not> b < a" "\<not> c < a"
    by argo
  then show "\<exists>m r. mset ats = add_mset m r \<and> (\<forall>x \<in># r. m \<le> x) \<and> mset (snd (wrong_attempt bad t ats)) = add_mset t r"
  proof cases
    case 1
    then show ?thesis
      by (intro exI [where x = c] exI [where x = "{#a, b#}"]) (simp add: ats wrong_attempt_3 add_mset_commute)
  next
    case 2
    then show ?thesis
      by (intro exI [where x = b] exI [where x = "{#a, c#}"]) (simp add: ats wrong_attempt_3 add_mset_commute)
  next
    case 3
    then show ?thesis
      by (intro exI [where x = c] exI [where x = "{#a, b#}"]) (simp add: ats wrong_attempt_3 add_mset_commute)
  next
    case 4
    then show ?thesis
      by (intro exI [where x = a] exI [where x = "{#b, c#}"]) (simp add: ats wrong_attempt_3)
  qed
qed

lemma newest_three:
  assumes "sorted_wrt (\<ge>) (a # b # c # k)" "{#a, b, c#} = add_mset m r" "\<forall>x \<in># r. m \<le> (x :: int)"
  shows "r = {#a, b#}"
proof -
  have "c \<le> m"
    using assms(1) by (metis assms(2) insert_iff list.set(2) set_mset_add_mset_insert set_mset_empty sorted_wrt.simps(2)
        add_mset_eq_singleton_iff empty_iff order_refl union_single_eq_member)
  moreover have "m \<le> c"
    using assms(2,3) by (metis insert_iff order_refl set_mset_add_mset_insert)
  ultimately have "add_mset c r = add_mset c {#a, b#}"
    using assms(2) by (simp add: add_mset_commute)
  then show ?thesis
    by simp
qed

lemma remembers_wrong:
  assumes "remembers ats h" "chronological (t # h)" "60 \<le> t"
  shows "remembers (snd (wrong_attempt bad t ats)) (t # h)"
proof -
  obtain m r where m: "mset ats = add_mset m r" "\<forall>x \<in># r. m \<le> x" "mset (snd (wrong_attempt bad t ats)) = add_mset t r"
    using track_replaces_oldest(2) [OF remembers_length [OF assms(1)]] by blast
  define l where "l = h @ [0, 0, 0]"
  have "3 \<le> length l"
    by (simp add: l_def)
  then obtain a b c k where l: "l = a # b # c # k"
    by (auto simp: numeral_3_eq_3 Suc_le_length_iff)
  have "sorted_wrt (\<ge>) l"
    using assms by (auto simp: l_def remembers_def chronological_def sorted_wrt_append intro: less_imp_le)
  moreover have "mset ats = {#a, b, c#}"
    using assms(1) l by (simp add: remembers_def flip: l_def)
  ultimately have "r = {#a, b#}"
    using newest_three [of a b c k m r] m(1,2) l by simp
  then have "mset (snd (wrong_attempt bad t ats)) = mset (take 3 (t # l))"
    using m(3) by (simp add: l)
  then show ?thesis
    using assms by (auto simp: remembers_def l_def)
qed

interpretation auth_limit: attempt_limiter remembers "wrong_attempt bad" INVALID_AUTH_MAX_ATTEMPTS INVALID_AUTH_PERIOD_NSECS
  for bad
proof
  fix ats h t
  assume a: "remembers ats h" "chronological (t # h)" "INVALID_AUTH_PERIOD_NSECS \<le> t"
  then show "fst (wrong_attempt bad t ats) = (INVALID_AUTH_MAX_ATTEMPTS \<le> recent INVALID_AUTH_PERIOD_NSECS t h)"
    using recent_newest [of t h] track_replaces_oldest(1) [OF remembers_length [OF a(1)], of bad t]
    by (simp add: INVALID_AUTH_MAX_ATTEMPTS_def INVALID_AUTH_PERIOD_NSECS_def remembers_def)
  show "remembers (snd (wrong_attempt bad t ats)) (t # h)"
    using a remembers_wrong by (simp add: INVALID_AUTH_PERIOD_NSECS_def)
qed (simp add: INVALID_AUTH_PERIOD_NSECS_def)

section \<open>The handshake is safe\<close>

definition auth_ok :: "Auth \<Rightarrow> bool" where
  "auth_ok a \<longleftrightarrow> length (ats_attempts a) = INVALID_AUTH_MAX_ATTEMPTS \<and> ca_buf a = replicate 10240 0"

text \<open>A string that ends within the bytes a password may have, or that has one more byte behind it.\<close>

definition readable :: "u8 list \<Rightarrow> bool" where
  "readable mem \<longleftrightarrow> MAX_PW_LEN < length mem \<or> 0 \<in> set (take MAX_PW_LEN mem)"

lemma takeWhile_shorter: "x \<in> set xs \<Longrightarrow> \<not> P x \<Longrightarrow> length (takeWhile P xs) < length xs"
  by (induction xs) auto

lemma takeWhile_take: "takeWhile P (take n xs) = take n (takeWhile P xs)"
  by (induction xs arbitrary: n) (auto simp: take_Cons split: nat.split)

lemma strnlen_s_Some:
  assumes "n \<le> length s \<or> 0 \<in> set (take n s)"
  shows "strnlen_s s n = Some (length (takeWhile (\<lambda>b. b \<noteq> 0) (take n s)))"
proof -
  have "length (takeWhile (\<lambda>b. b \<noteq> 0) (take n s)) \<noteq> length s" if "length (takeWhile (\<lambda>b. b \<noteq> 0) (take n s)) < n"
    using assms that takeWhile_shorter [of 0 "take n s" "\<lambda>b. b \<noteq> 0"] by auto
  then show ?thesis
    by (auto simp: strnlen_s_def Let_def)
qed

lemma copy_password_readable:
  assumes "readable mem"
  shows "\<exists>r. copy_password mem = Some r"
proof -
  define k where "k = length (takeWhile (\<lambda>b. b \<noteq> 0) (take MAX_PW_LEN mem))"
  have s: "strnlen_s mem MAX_PW_LEN = Some k"
    using assms unfolding k_def readable_def by (intro strnlen_s_Some) auto
  have "k \<le> MAX_PW_LEN"
    unfolding k_def using length_takeWhile_le [of "\<lambda>b. b \<noteq> 0" "take MAX_PW_LEN mem"] by simp
  moreover have "k < length mem" if "0 \<in> set (take MAX_PW_LEN mem)"
    unfolding k_def using takeWhile_shorter [OF that, of "\<lambda>b. b \<noteq> 0"] by simp
  ultimately have "Suc k \<le> length mem"
    using assms by (auto simp: readable_def)
  then show ?thesis
    by (simp add: copy_password_def strcpy_s_def s strnlen_s_Some)
qed

lemma copy_password_fits:
  assumes "length (takeWhile (\<lambda>b. b \<noteq> 0) mem) \<le> MAX_PW_LEN" "length (takeWhile (\<lambda>b. b \<noteq> 0) mem) < length mem"
  shows "copy_password mem = Some (True, takeWhile (\<lambda>b. b \<noteq> 0) mem)"
proof -
  define p where "p = takeWhile (\<lambda>b. b \<noteq> 0) mem"
  have tw: "takeWhile (\<lambda>b. b \<noteq> 0) (take n mem) = take n p" for n
    by (simp add: p_def takeWhile_take)
  have mem: "mem = p @ drop (length p) mem"
    by (simp add: p_def) (metis append_take_drop_id takeWhile_eq_take)
  have s: "strnlen_s mem MAX_PW_LEN = Some (length p)"
    using assms by (simp add: strnlen_s_def tw flip: p_def)
  have "strnlen_s mem (Suc (length p)) = Some (length p)"
    using assms by (simp add: strnlen_s_def tw flip: p_def)
  moreover have "take (length p) mem = p"
    by (subst mem) simp
  ultimately show ?thesis
    by (simp add: copy_password_def strcpy_s_def s flip: p_def)
qed

text \<open>PAM accepts a password in the part of a run from \<open>tr\<close> to \<open>tr'\<close>.\<close>

definition pam_accepts :: "os \<Rightarrow> u8 list \<Rightarrow> trace \<Rightarrow> trace \<Rightarrow> bool" where
  "pam_accepts os pw tr tr' \<longleftrightarrow>
     (\<exists>h k. tr' = tr @ h @ Sys_pam ''pam_authenticate'' pw # k \<and>
        fst (os (tr @ h) (Sys_pam ''pam_authenticate'' pw)) = PAM_SUCCESS)"

lemma pam_acceptsI:
  "fst (os (tr @ h) (Sys_pam ''pam_authenticate'' pw)) = PAM_SUCCESS \<Longrightarrow>
   pam_accepts os pw tr (tr @ h @ Sys_pam ''pam_authenticate'' pw # k)"
  by (auto simp: pam_accepts_def)

lemma pam_accepts_extend: "pam_accepts os pw tr tr' \<Longrightarrow> pam_accepts os pw tr (tr' @ c)"
  by (force simp: pam_accepts_def)

lemma pam_accepts_before: "pam_accepts os pw (tr @ b) tr' \<Longrightarrow> pam_accepts os pw tr tr'"
  by (auto simp: pam_accepts_def) (metis append.assoc)

lemma sent_on_quiet [simp]:
  "sent_on (Sys_pam f bs # tr) = sent_on tr" "sent_on (Sys_time # tr) = sent_on tr" "sent_on (Sys_rand n # tr) = sent_on tr"
  "sent_on (Sys_recv fd n # tr) = sent_on tr" "sent_on (Sys_ssl_read s n # tr) = sent_on tr"
  "sent_on (Sys_ssl_pending s # tr) = sent_on tr"
  by (simp_all add: sent_on_def)

lemma credentials_are_valid_ok:
  assumes "readable mem" "n \<le> length mem" "copy_password mem = Some (b, pw)"
  shows "ensures (credentials_are_valid os mem n tr)
    (\<lambda>(ret, mem', tr'). ret \<in> {AUTHRET_OK, AUTHRET_SYSERR, AUTHRET_UNAUTHORIZED} \<and> length mem' = length mem \<and>
       sent_on tr' = sent_on tr \<and> (ret = AUTHRET_OK \<longrightarrow> pam_accepts os pw tr tr'))"
proof -
  let ?start = "Sys_pam ''pam_start'' (bytes_of (ASD_PAM_SERVICE @ '' '' @ ASD_PAM_USER))"
  have "pam_accepts os pw tr (tr @ [?start, Sys_pam ''pam_authenticate'' pw] @ k)"
    if "fst (os (tr @ [?start]) (Sys_pam ''pam_authenticate'' pw)) = PAM_SUCCESS" for k
    using that pam_acceptsI [of os tr "[?start]" pw k] by simp
  then show ?thesis
    using assms
    by (auto simp: credentials_are_valid_def wipe_def sys_def wrs_def Let_def split_def)
qed

lemma auth_track_attempt_cases:
  assumes "length ats = INVALID_AUTH_MAX_ATTEMPTS"
  shows "length (snd (auth_track_attempt ret ats now)) = INVALID_AUTH_MAX_ATTEMPTS"
    "fst (auth_track_attempt ret ats now) = AUTHRET_OK \<longleftrightarrow> ret = AUTHRET_OK"
  using assms by (auto simp: auth_track_attempt_def split_def Let_def)

text \<open>What a request of \<open>rcv\<close> bytes gives to PAM.\<close>

definition client_password :: "u8 list \<Rightarrow> u8 list" where
  "client_password rcv = takeWhile (\<lambda>b. b \<noteq> 0) (tl (strip_newline rcv (length rcv)))"

lemma length_strip_newline [simp]: "length (strip_newline bf n) = length bf"
  by (simp add: strip_newline_def Let_def)

lemma strip_newline_append: "strip_newline (rcv @ rest) (length rcv) = strip_newline rcv (length rcv) @ rest"
  by (simp add: strip_newline_def Let_def list_update_append)

lemma client_password_copied:
  assumes "rcv \<noteq> []" "length rcv \<le> 1 + MAX_PW_LEN" "rest \<noteq> []"
  shows "copy_password (tl (strip_newline (rcv @ 0 # rest) (length rcv))) = Some (True, client_password rcv)"
proof -
  define s where "s = tl (strip_newline rcv (length rcv))"
  have "strip_newline rcv (length rcv) \<noteq> []"
    using assms(1) by (metis length_0_conv length_strip_newline)
  then have e: "tl (strip_newline (rcv @ 0 # rest) (length rcv)) = s @ 0 # rest"
    by (simp add: strip_newline_append s_def)
  have t: "takeWhile (\<lambda>b. b \<noteq> 0) (s @ 0 # rest) = takeWhile (\<lambda>b. b \<noteq> 0) s"
    by (induction s) auto
  have "length s \<le> MAX_PW_LEN"
    using assms(2) by (simp add: s_def)
  then have "length (takeWhile (\<lambda>b. b \<noteq> 0) s) \<le> MAX_PW_LEN" "length (takeWhile (\<lambda>b. b \<noteq> 0) s) \<le> length s"
    using length_takeWhile_le [of "\<lambda>b. b \<noteq> 0" s] by linarith+
  then show ?thesis
    using copy_password_fits [of "s @ 0 # rest"] by (simp add: e t client_password_def flip: s_def)
qed

lemma readable_tl_strip:
  assumes "0 \<in> set (tl bf)" "length bf = 1 + MAX_PW_LEN \<or> 1 + MAX_PW_LEN < length bf"
  shows "readable (tl (strip_newline bf n))"
proof -
  have "x \<in> set ys \<Longrightarrow> x \<in> set (ys[k := x])" for x :: u8 and ys k
    by (induction ys arbitrary: k) (auto split: nat.split)
  then have "0 \<in> set (tl (bf[k := 0]))" for k
    using assms(1) by (cases bf; cases k) simp_all
  then have "0 \<in> set (tl (strip_newline bf n))"
    using assms(1) by (simp add: strip_newline_def Let_def)
  then show ?thesis
    using assms(2) by (auto simp: readable_def)
qed

lemma authenticate_client_ok:
  assumes "bf \<noteq> []" "length ats = INVALID_AUTH_MAX_ATTEMPTS"
    and "n \<le> 1 + MAX_PW_LEN \<Longrightarrow> readable (tl (strip_newline bf n)) \<and> n \<le> length bf \<and>
      copy_password (tl (strip_newline bf n)) = Some (b, pw)"
  shows "ensures (authenticate_client os bf n ats tr)
    (\<lambda>(ret, bf', ats', tr'). length ats' = INVALID_AUTH_MAX_ATTEMPTS \<and> sent_on tr' = sent_on tr \<and>
       (ret = AUTHRET_OK \<longrightarrow> n \<le> 1 + MAX_PW_LEN \<and> bf ! 0 \<le> AUTH_HDR_VERSION \<and> pam_accepts os pw tr tr'))"
proof (cases "n > 1 + MAX_PW_LEN \<or> bf ! 0 > AUTH_HDR_VERSION")
  case True
  then show ?thesis
    using assms(1,2)
    by (auto simp: authenticate_client_def sys_def Let_def split_def auth_track_attempt_cases)
next
  case False
  then have r: "readable (tl (strip_newline bf n))" "n - Suc 0 \<le> length (tl (strip_newline bf n))"
      "copy_password (tl (strip_newline bf n)) = Some (b, pw)"
    using assms(3) by auto
  then show ?thesis
    using False assms(1,2)
    by (auto simp: authenticate_client_def sys_def Let_def split_def auth_track_attempt_cases
        intro!: ensures_conseq [OF credentials_are_valid_ok [OF r]] pam_accepts_extend)
qed

lemma extnet_recv_zero:
  assumes "extnet_recv os net c (replicate m 0) p tr = (n, bf, pend, tr')"
  shows "sent_on tr' = sent_on tr" "0 < n \<Longrightarrow> drop (nat n) bf = replicate (m - nat n) 0"
    "length bf = m"
proof -
  have "drop (nat n) (overlay (replicate m 0) (take (nat n) d)) = replicate (m - nat n) 0" for d
    by (auto simp: overlay_def drop_take min_def)
  then show "0 < n \<Longrightarrow> drop (nat n) bf = replicate (m - nat n) 0" "sent_on tr' = sent_on tr"
    using assms
    by (auto simp: extnet_recv_def exttcp_recv_def exttls_recv_def exttls_has_read_error_closed_def
      exttls_has_read_error_def Let_def split: extnet_hdlr_type_t.splits if_splits option.splits)
  show "length bf = m"
    using extnet_recv_length [OF assms] by simp
qed

text \<open>
  The client sent a request of a known version and of the size of a password, whole, while nobody was locked
  out, and PAM accepted the password in it.
\<close>

definition granted :: "os \<Rightarrow> Auth \<Rightarrow> ExtNet \<Rightarrow> extnet_conn_t \<Rightarrow> trace \<Rightarrow> trace \<Rightarrow> bool" where
  "granted os a net conn tr tr' \<longleftrightarrow>
     (let (n, bf, pending, tr1) = extnet_recv os net conn (ca_buf a) False tr
      in 0 < n \<and> nat n \<le> 1 + MAX_PW_LEN \<and> \<not> pending \<and> t_lockout a \<le> fst (os tr1 Sys_time) \<and>
         bf ! 0 \<le> AUTH_HDR_VERSION \<and> pam_accepts os (client_password (take (nat n) bf)) tr1 tr')"

lemma request_read:
  assumes "extnet_recv os net conn (replicate 10240 0) False tr = (n, bf, pend, tr1)" "0 < n" "nat n \<le> 1 + MAX_PW_LEN"
  shows "readable (tl (strip_newline bf (nat n))) \<and> nat n \<le> length bf \<and>
    copy_password (tl (strip_newline bf (nat n))) = Some (True, client_password (take (nat n) bf))"
proof -
  note z = extnet_recv_zero [OF assms(1)]
  define rcv where "rcv = take (nat n) bf"
  have l: "length rcv = nat n" "length bf = 10240"
    using assms(3) z(3) by (simp_all add: rcv_def MAX_PW_LEN_def)
  have "drop (nat n) bf = 0 # replicate (10239 - nat n) 0"
    using z(2) [OF assms(2)] assms(3) by (simp add: MAX_PW_LEN_def Suc_diff_le flip: replicate_Suc)
  then have bf: "bf = rcv @ 0 # replicate (10239 - nat n) 0"
    by (metis append_take_drop_id rcv_def)
  have "0 \<in> set (tl bf)"
    using l(1) assms(2) by (subst bf) (cases rcv, auto)
  then have "readable (tl (strip_newline bf (nat n)))"
    by (rule readable_tl_strip) (simp add: l MAX_PW_LEN_def)
  moreover have "copy_password (tl (strip_newline bf (nat n))) = Some (True, client_password rcv)"
  proof -
    have "rcv \<noteq> []"
      using l(1) assms(2) by auto
    then show ?thesis
      using client_password_copied [of rcv "replicate (10239 - nat n) 0"] l(1) assms(3)
      by (simp add: MAX_PW_LEN_def flip: bf)
  qed
  ultimately show ?thesis
    using assms(3) l(2) by (simp add: rcv_def MAX_PW_LEN_def)
qed

lemma judge_request_ok:
  assumes "auth_ok a" "length pw = MAX_PW_LEN" "0 \<in> set pw"
  shows "ensures (judge_request os pw a net conn tr)
    (\<lambda>(ret, a', tr'). auth_ok a' \<and> auth_hdlr a' = auth_hdlr a \<and> t_lockout a' = t_lockout a \<and> sent_on tr' = sent_on tr \<and>
       (ret = AUTHRET_OK \<longrightarrow> granted os a net conn tr tr'))"
proof -
  obtain n bf pend tr1 where rv: "extnet_recv os net conn (ca_buf a) False tr = (n, bf, pend, tr1)"
    by (metis prod_cases4)
  have cb: "ca_buf a = replicate 10240 0" "length (ats_attempts a) = INVALID_AUTH_MAX_ATTEMPTS"
    using assms(1) by (simp_all add: auth_ok_def)
  note z = extnet_recv_zero [OF rv [unfolded cb]]
  have ne: "bf \<noteq> []"
    using z(3) by auto
  have lk: "readable (tl (strip_newline (AUTH_HDR_VERSION # pw) 20))"
    using assms by (intro readable_tl_strip) (simp_all add: MAX_PW_LEN_def)
  obtain b p where cp: "copy_password (tl (strip_newline (AUTH_HDR_VERSION # pw) 20)) = Some (b, p)"
    using copy_password_readable [OF lk] by auto
  have locked: "ensures (authenticate_client os (AUTH_HDR_VERSION # pw) 20 (ats_attempts a) t)
     (\<lambda>(_, _, ats, tr'). length ats = INVALID_AUTH_MAX_ATTEMPTS \<and> sent_on tr' = sent_on t)" for t
    by (rule ensures_conseq [OF authenticate_client_ok [where b = b and pw = p]])
      (use cb cp lk assms in \<open>auto simp: MAX_PW_LEN_def\<close>)
  have free: "ensures (authenticate_client os bf (nat n) (ats_attempts a) (tr1 @ [Sys_time]))
     (\<lambda>(ret, _, ats, tr'). length ats = INVALID_AUTH_MAX_ATTEMPTS \<and> sent_on tr' = sent_on tr \<and>
        (ret = AUTHRET_OK \<longrightarrow> nat n \<le> 1 + MAX_PW_LEN \<and> bf ! 0 \<le> AUTH_HDR_VERSION \<and>
           pam_accepts os (client_password (take (nat n) bf)) tr1 tr'))" if "0 < n"
    by (rule ensures_conseq [OF authenticate_client_ok [where b = True and pw = "client_password (take (nat n) bf)"]])
      (use ne cb request_read [OF rv [unfolded cb] that] z in \<open>auto intro: pam_accepts_before\<close>)
  show ?thesis
    using assms(1) cb z(1)
    by (auto simp: judge_request_def rv rv [unfolded cb(1)] sys_def Let_def auth_ok_def granted_def split_def
        intro!: ensures_conseq [OF locked] ensures_conseq [OF free])
qed

lemma get_random_string_terminated:
  assumes "get_random_string os garbage tr = (ST_OK, pw, tr')" "length garbage = MAX_PW_LEN"
  shows "length pw = MAX_PW_LEN" "0 \<in> set pw"
proof -
  obtain xs where pw: "pw = xs[length xs - 1 := 0]" "length xs = MAX_PW_LEN"
    using assms by (auto simp: get_random_string_def Let_def split: if_splits)
  then show "length pw = MAX_PW_LEN"
    by simp
  show "0 \<in> set pw"
    using pw by (simp add: set_update_memI MAX_PW_LEN_def)
qed

lemma auth_handshake_response_sends:
  assumes "auth_handshake_response os net conn c tr = (st, tr')"
  shows "sent_on tr' \<in> {sent_on tr, sent_on tr @ [[AUTH_HDR_VERSION, handshake_code c]]}"
    "st = ST_OK \<Longrightarrow> sent_on tr' = sent_on tr @ [[AUTH_HDR_VERSION, handshake_code c]]"
proof -
  obtain n t where s: "extnet_send os net conn [AUTH_HDR_VERSION, handshake_code c] tr = (n, t)"
    by (cases "extnet_send os net conn [AUTH_HDR_VERSION, handshake_code c] tr") auto
  show "sent_on tr' \<in> {sent_on tr, sent_on tr @ [[AUTH_HDR_VERSION, handshake_code c]]}"
    "st = ST_OK \<Longrightarrow> sent_on tr' = sent_on tr @ [[AUTH_HDR_VERSION, handshake_code c]]"
    using assms s extnet_send_once [OF s] by (auto simp: auth_handshake_response_def split: if_splits)
qed

text \<open>
  The handshake returns, leaves the buffer of the password cleared, and answers at most once.  It succeeds
  only for a client that is \<open>granted\<close> while no session is authenticated, and then the answer is success.
\<close>

lemma authpam_client_handshake_ok:
  assumes a: "auth_ok a" and s: "wf_session s" and g: "length garbage = MAX_PW_LEN"
  shows "ensures (authpam_client_handshake os garbage s net conn a tr)
    (\<lambda>(st, a', tr'). auth_ok a' \<and> auth_hdlr a' = auth_hdlr a \<and>
       (\<exists>c. sent_on tr' \<in> {sent_on tr, sent_on tr @ [[AUTH_HDR_VERSION, handshake_code c]]} \<and>
            (st = ST_OK \<longrightarrow> c = AUTH_HANDSHAKE_SUCCESS \<and> sent_on tr' \<noteq> sent_on tr)) \<and>
       (st = ST_OK \<longrightarrow> authed_fd s = None \<and> (\<exists>tr2. granted os a net conn (tr @ [Sys_rand MAX_PW_LEN]) tr2 \<and>
          (\<exists>k. tr' = tr2 @ k))))"
proof -
  obtain st pw tr1 where r: "get_random_string os garbage tr = (st, pw, tr1)"
    by (metis prod_cases3)
  have tr1: "tr1 = tr @ [Sys_rand MAX_PW_LEN]"
    using r g by (auto simp: get_random_string_def Let_def split: if_splits)
  have j: "ensures (if st \<noteq> ST_OK then Some (AUTHRET_INVALIDDATA, a, tr1) else judge_request os pw a net conn tr1)
    (\<lambda>(ret, a', tr'). auth_ok a' \<and> auth_hdlr a' = auth_hdlr a \<and> sent_on tr' = sent_on tr \<and>
       (ret = AUTHRET_OK \<longrightarrow> granted os a net conn tr1 tr'))"
  proof (cases "st = ST_OK")
    case True
    note t = get_random_string_terminated [OF r [unfolded True] g]
    show ?thesis
      using True tr1 by (auto intro: ensures_conseq [OF judge_request_ok [OF a t]])
  next
    case False
    then show ?thesis using a tr1 by simp
  qed
  then obtain ret a1 tr2 where j1: "(if st \<noteq> ST_OK then Some (AUTHRET_INVALIDDATA, a, tr1) else judge_request os pw a net conn tr1)
        = Some (ret, a1, tr2)"
      and j2: "auth_ok a1" "auth_hdlr a1 = auth_hdlr a" "sent_on tr2 = sent_on tr" "ret = AUTHRET_OK \<Longrightarrow> granted os a net conn tr1 tr2"
    by (auto simp: ensures_iff)
  obtain b c where q: "session_get_authenticated_conn s = Some (b, c)" "b \<noteq> ST_OK \<Longrightarrow> authed_fd s = None"
    using session_get_authenticated_conn_refines [OF s] by (auto split: option.splits)
  have resp: "\<exists>c'. sent_on (snd (auth_handshake_response os net conn c t)) \<in> {sent_on t, sent_on t @ [[AUTH_HDR_VERSION, handshake_code c']]}" for c t
    using auth_handshake_response_sends(1) [of os net conn c t] by (metis prod.collapse)
  obtain s1 t1 where e: "auth_handshake_response os net conn AUTH_HANDSHAKE_SUCCESS tr2 = (s1, t1)"
    by fastforce
  have ext: "\<exists>k. t1 = tr2 @ k"
    using e by (auto simp: auth_handshake_response_def extnet_send_def exttcp_send_def exttls_send_def
        exttls_has_write_error_def Let_def split: extnet_hdlr_type_t.splits if_splits option.splits)
  show ?thesis
    using j2 q r j1 e ext resp [of _ tr2] resp [of _ "tr2 @ [Sys_time]"] auth_handshake_response_sends [OF e]
    by (cases ret) (auto simp: authpam_client_handshake_def sys_def auth_ok_def Let_def tr1 split_def
        simp del: handshake_code.simps split: if_splits)
qed

end
