(* ===== verification/Logging.thy ===== *)
theory Logging
  imports Asd_Prelude
begin

text \<open>
  \<open>server/logging.c\<close>: which messages are logged, where, and how bytes and scan data are printed.  What leaves
  the program is a list of \<open>log_event\<close>s.  The text of a message after its format has been applied is an argument;
  the buffers it is composed in are modelled, since their terminating NULs decide what is printed.
\<close>

section \<open>Levels, streams and settings\<close>

datatype ASD_LogLevel =
  ASD_LogLevel_Trace | ASD_LogLevel_Debug | ASD_LogLevel_Info | ASD_LogLevel_Warning | ASD_LogLevel_Error | ASD_LogLevel_Off

fun level_num :: "ASD_LogLevel \<Rightarrow> nat" where
  "level_num ASD_LogLevel_Trace = 0"
| "level_num ASD_LogLevel_Debug = 1"
| "level_num ASD_LogLevel_Info = 2"
| "level_num ASD_LogLevel_Warning = 3"
| "level_num ASD_LogLevel_Error = 4"
| "level_num ASD_LogLevel_Off = 5"

text \<open>The levels are compared as the numbers of the enum.\<close>

instantiation ASD_LogLevel :: linorder
begin

definition less_eq_ASD_LogLevel :: "ASD_LogLevel \<Rightarrow> ASD_LogLevel \<Rightarrow> bool" where
  "less_eq_ASD_LogLevel a b \<longleftrightarrow> level_num a \<le> level_num b"

definition less_ASD_LogLevel :: "ASD_LogLevel \<Rightarrow> ASD_LogLevel \<Rightarrow> bool" where
  "less_ASD_LogLevel a b \<longleftrightarrow> level_num a < level_num b"

instance
proof
  fix a b :: ASD_LogLevel
  show "a \<le> b \<Longrightarrow> b \<le> a \<Longrightarrow> a = b"
    by (cases a; cases b) (simp_all add: less_eq_ASD_LogLevel_def)
qed (auto simp: less_eq_ASD_LogLevel_def less_ASD_LogLevel_def)

end

fun ASD_LogLevelString :: "ASD_LogLevel \<Rightarrow> string" where
  "ASD_LogLevelString ASD_LogLevel_Trace = ''Trace''"
| "ASD_LogLevelString ASD_LogLevel_Debug = ''Debug''"
| "ASD_LogLevelString ASD_LogLevel_Info = ''Info''"
| "ASD_LogLevelString ASD_LogLevel_Warning = ''Warning''"
| "ASD_LogLevelString ASD_LogLevel_Error = ''Error''"
| "ASD_LogLevelString ASD_LogLevel_Off = ''Off''"

text \<open>A set of streams is the 16 bits of their flags.\<close>

type_synonym ASD_LogStream = u16

definition ASD_LogStream_None :: ASD_LogStream where "ASD_LogStream_None = 0"
definition ASD_LogStream_Network :: ASD_LogStream where "ASD_LogStream_Network = 1"
definition ASD_LogStream_JTAG :: ASD_LogStream where "ASD_LogStream_JTAG = 2"
definition ASD_LogStream_Pins :: ASD_LogStream where "ASD_LogStream_Pins = 4"
definition ASD_LogStream_I2C :: ASD_LogStream where "ASD_LogStream_I2C = 8"
definition ASD_LogStream_Test :: ASD_LogStream where "ASD_LogStream_Test = 16"
definition ASD_LogStream_Daemon :: ASD_LogStream where "ASD_LogStream_Daemon = 32"
definition ASD_LogStream_SDK :: ASD_LogStream where "ASD_LogStream_SDK = 64"
definition ASD_LogStream_SPP :: ASD_LogStream where "ASD_LogStream_SPP = 128"
definition ASD_LogStream_All :: ASD_LogStream where "ASD_LogStream_All = 0xFFFF"

lemmas stream_defs = ASD_LogStream_None_def ASD_LogStream_Network_def ASD_LogStream_JTAG_def ASD_LogStream_Pins_def
  ASD_LogStream_I2C_def ASD_LogStream_Test_def ASD_LogStream_Daemon_def ASD_LogStream_SDK_def ASD_LogStream_SPP_def
  ASD_LogStream_All_def

definition streamtostring :: "ASD_LogStream \<Rightarrow> string" where
  "streamtostring s =
     (if s = ASD_LogStream_None then ''None'' else if s = ASD_LogStream_Network then ''Network''
      else if s = ASD_LogStream_JTAG then ''JTAG'' else if s = ASD_LogStream_Pins then ''Pins''
      else if s = ASD_LogStream_I2C then ''I2C'' else if s = ASD_LogStream_Test then ''Test''
      else if s = ASD_LogStream_Daemon then ''Daemon'' else if s = ASD_LogStream_SDK then ''SDK''
      else if s = ASD_LogStream_SPP then ''I3C_DBG'' else if s = ASD_LogStream_All then ''All''
      else ''Unknown-Stream'')"

definition ASD_LogOption_None :: u8 where "ASD_LogOption_None = 0"
definition ASD_LogOption_No_Remote :: u8 where "ASD_LogOption_No_Remote = 1"

text \<open>A callback is there or is NULL; what the first one answers is the argument \<open>should\<close> of the operations.\<close>

record Log =
  WriteToSyslog :: bool
  log_timestamp :: bool
  shouldLogCallback :: bool
  loggingCallback :: bool
  asd_log_level :: ASD_LogLevel
  asd_log_streams :: ASD_LogStream

definition ASD_initialize_log_settings ::
    "ASD_LogLevel \<Rightarrow> ASD_LogStream \<Rightarrow> bool \<Rightarrow> bool \<Rightarrow> bool \<Rightarrow> bool \<Rightarrow> Log" where
  "ASD_initialize_log_settings level stream write_to_syslog log_timestamp_enable should_log_ptr log_ptr =
     \<lparr>WriteToSyslog = write_to_syslog, log_timestamp = log_timestamp_enable, shouldLogCallback = should_log_ptr,
      loggingCallback = log_ptr, asd_log_level = level, asd_log_streams = stream\<rparr>"

definition ASD_update_log_settings :: "ASD_LogLevel \<Rightarrow> ASD_LogStream \<Rightarrow> Log \<Rightarrow> Log" where
  "ASD_update_log_settings level stream lg = lg\<lparr>asd_log_level := level, asd_log_streams := stream\<rparr>"

definition ShouldLog :: "Log \<Rightarrow> ASD_LogLevel \<Rightarrow> ASD_LogStream \<Rightarrow> bool" where
  "ShouldLog lg level stream \<longleftrightarrow> level \<ge> asd_log_level lg \<and> asd_log_streams lg AND stream \<noteq> 0"

type_synonym callback = "ASD_LogLevel \<Rightarrow> ASD_LogStream \<Rightarrow> bool"

definition remote_log :: "callback \<Rightarrow> Log \<Rightarrow> ASD_LogLevel \<Rightarrow> ASD_LogStream \<Rightarrow> u8 \<Rightarrow> bool" where
  "remote_log should lg level stream options \<longleftrightarrow>
     options AND ASD_LogOption_No_Remote \<noteq> ASD_LogOption_No_Remote \<and>
     shouldLogCallback lg \<and> loggingCallback lg \<and> should level stream"

fun convert_remote_log_level :: "u8 \<Rightarrow> ASD_LogLevel" where
  "convert_remote_log_level r =
     (if r = 0 then ASD_LogLevel_Trace else if r = 1 then ASD_LogLevel_Debug else if r = 2 then ASD_LogLevel_Info
      else if r = 3 then ASD_LogLevel_Warning else if r = 4 then ASD_LogLevel_Error
      else if r = 5 then ASD_LogLevel_Off else ASD_LogLevel_Error)"

definition convert_remote_log_stream :: "u8 \<Rightarrow> ASD_LogStream" where
  "convert_remote_log_stream remote_stream = ASD_LogStream_All"

section \<open>Messages\<close>

datatype log_event =
    To_stderr string
  | To_syslog string
  | To_remote ASD_LogLevel ASD_LogStream string

definition LOG_TIMESTAMP_LENGTH :: nat where "LOG_TIMESTAMP_LENGTH = 32"
definition LOG_TIME_MESSAGE_LENGTH :: nat where "LOG_TIME_MESSAGE_LENGTH = 4128"
definition LOG_TIME_LINE_LENGTH :: nat where "LOG_TIME_LINE_LENGTH = 180"
definition CALLBACK_LOG_MESSAGE_LENGTH :: nat where "CALLBACK_LOG_MESSAGE_LENGTH = 256"

text \<open>
  \<open>snprintf\<close> of at most \<open>n\<close> characters, the terminating NUL included, at an offset of a buffer, and the C string
  that starts at an offset.
\<close>

definition snprintf_at :: "nat \<Rightarrow> nat \<Rightarrow> string \<Rightarrow> string \<Rightarrow> string" where
  "snprintf_at off n s bf =
     (let t = take (n - 1) s @ [CHR 0x00] in take off bf @ t @ drop (off + length t) bf)"

definition c_string :: "string \<Rightarrow> nat \<Rightarrow> string" where
  "c_string bf off = takeWhile (\<lambda>c. c \<noteq> CHR 0x00) (drop off bf)"

definition pad_left :: "nat \<Rightarrow> char \<Rightarrow> string \<Rightarrow> string" where
  "pad_left n c s = replicate (n - length s) c @ s"

definition pad_right :: "nat \<Rightarrow> string \<Rightarrow> string" where
  "pad_right n s = s @ replicate (n - length s) (CHR '' '')"

text \<open>The stamp of the monotonic clock, in seconds and nanoseconds; \<open>None\<close> is a clock that cannot be read.\<close>

definition time_stamp :: "nat \<Rightarrow> nat \<Rightarrow> string" where
  "time_stamp sec nsec =
     ''['' @ pad_left 6 (CHR '' '') (dec_nat sec) @ ''.'' @ pad_left 6 (CHR ''0'') (dec_nat (nsec div 1000)) @ ''] ''"

definition ASD_get_timestamp :: "Log \<Rightarrow> (nat \<times> nat) option \<Rightarrow> string \<Rightarrow> bool \<times> string" where
  "ASD_get_timestamp lg clock time_buffer =
     (if \<not> log_timestamp lg then (False, time_buffer)
      else case clock of None \<Rightarrow> (False, time_buffer)
           | Some (sec, nsec) \<Rightarrow> (True, snprintf_at 0 LOG_TIMESTAMP_LENGTH (time_stamp sec nsec) time_buffer))"

text \<open>\<open>msg\<close> is the formatted message; \<open>bf\<close> the uninitialised \<open>log_buffer\<close>.\<close>

definition ASD_log ::
    "callback \<Rightarrow> Log \<Rightarrow> (nat \<times> nat) option \<Rightarrow> string \<Rightarrow> ASD_LogLevel \<Rightarrow> ASD_LogStream \<Rightarrow> u8 \<Rightarrow> string \<Rightarrow> log_event list" where
  "ASD_log should lg clock bf level stream options msg =
     (let local_log = ShouldLog lg level stream; remote = remote_log should lg level stream options
      in if \<not> local_log \<and> \<not> remote then []
         else let (stamped, b) = ASD_get_timestamp lg clock bf
              in if stamped then
                   (let b1 = (if local_log \<and> WriteToSyslog lg
                              then snprintf_at (LOG_TIMESTAMP_LENGTH - 1) (LOG_TIME_MESSAGE_LENGTH - LOG_TIMESTAMP_LENGTH) msg b
                              else b);
                        b2 = snprintf_at (LOG_TIMESTAMP_LENGTH - 1) (CALLBACK_LOG_MESSAGE_LENGTH - LOG_TIMESTAMP_LENGTH) msg b1
                    in (if \<not> local_log then [] else if WriteToSyslog lg then [To_syslog (c_string b1 0 @ '' '')]
                        else [To_stderr (c_string b 0 @ msg @ [CHR 0x0A])])
                       @ (if remote then [To_remote level stream (c_string b2 0)] else []))
                 else
                   (if \<not> local_log then [] else if WriteToSyslog lg then [To_syslog msg] else [To_stderr (msg @ [CHR 0x0A])])
                   @ (if remote then [To_remote level stream (c_string (snprintf_at 0 CALLBACK_LOG_MESSAGE_LENGTH msg b) 0)] else []))"

section \<open>Bytes\<close>

definition itoh :: string where "itoh = ''0123456789abcdef''"

fun hex_nat :: "nat \<Rightarrow> string" where
  "hex_nat n = (if n < 16 then [itoh ! n] else hex_nat (n div 16) @ [itoh ! (n mod 16)])"

declare hex_nat.simps [simp del]

definition hex_byte :: "u8 \<Rightarrow> string" where
  "hex_byte b = [itoh ! unat (drop_bit 4 b), itoh ! unat (b AND 0xf)]"

text \<open>One row of at most sixteen bytes: a blank follows every second one.\<close>

fun hex_row :: "nat \<Rightarrow> u8 list \<Rightarrow> string" where
  "hex_row l [] = []"
| "hex_row l (b # bs) = hex_byte b @ (if odd l then '' '' else []) @ hex_row (Suc l) bs"

definition dump_row :: "string \<Rightarrow> nat \<Rightarrow> u8 list \<Rightarrow> string" where
  "dump_row prefix i bs =
     take 17 (pad_right 6 (take 6 prefix) @ '': '' @ pad_left 7 (CHR ''0'') (hex_nat i) @ '': '') @ hex_row 0 bs"

text \<open>
  The rows from offset \<open>i\<close> on.  A row is cleared, composed behind the place of the stamp, given to the
  callback, and printed with a newline, from the start of the buffer.
\<close>

definition put_line :: "nat \<Rightarrow> string \<Rightarrow> string \<Rightarrow> string" where
  "put_line off s bf =
     take off bf @ s @ replicate (LOG_TIME_LINE_LENGTH - length s) (CHR 0x00) @ drop (off + LOG_TIME_LINE_LENGTH) bf"

function dump_rows :: "Log \<Rightarrow> bool \<Rightarrow> bool \<Rightarrow> ASD_LogLevel \<Rightarrow> ASD_LogStream \<Rightarrow> nat \<Rightarrow> string \<Rightarrow> nat \<Rightarrow> u8 list \<Rightarrow> string \<Rightarrow> log_event list" where
  "dump_rows lg local_log remote level stream off prefix i bs bf =
     (if bs = [] then []
      else let row = dump_row prefix i (take 16 bs);
               b1 = put_line off row bf; b2 = put_line off (row @ [CHR 0x0A]) bf
           in (if remote then [To_remote level stream (c_string b1 off)] else [])
              @ (if \<not> local_log then [] else if WriteToSyslog lg then [To_syslog (c_string b2 0)] else [To_stderr (c_string b2 0)])
              @ dump_rows lg local_log remote level stream off prefix (i + length (take 16 bs)) (drop 16 bs) b2)"
  by pat_completeness auto

termination
  by (relation "measure (\<lambda>(_, _, _, _, _, _, _, _, bs, _). length bs)") auto

declare dump_rows.simps [simp del]

definition ASD_log_buffer ::
    "callback \<Rightarrow> Log \<Rightarrow> (nat \<times> nat) option \<Rightarrow> string \<Rightarrow> ASD_LogLevel \<Rightarrow> ASD_LogStream \<Rightarrow> u8 \<Rightarrow> u8 list \<Rightarrow> string \<Rightarrow> log_event list" where
  "ASD_log_buffer should lg clock line_buffer level stream options bs prefix =
     (let local_log = ShouldLog lg level stream; remote = remote_log should lg level stream options
      in if \<not> local_log \<and> \<not> remote then []
         else let (stamped, b) = ASD_get_timestamp lg clock line_buffer
              in dump_rows lg local_log remote level stream (if stamped then LOG_TIMESTAMP_LENGTH - 1 else 0) prefix 0 bs b)"

section \<open>Scan data\<close>

text \<open>
  The digits of a scan are stored from the end of \<open>result\<close>; an index below 0 is left out.  The mask of the last
  byte is 0 when the bits fill their bytes.
\<close>

definition last_bit_mask :: "nat \<Rightarrow> u8" where
  "last_bit_mask number_of_bits = drop_bit (8 - number_of_bits mod 8) 0xff"

fun store_digits :: "nat \<Rightarrow> nat \<Rightarrow> u8 list \<Rightarrow> nat list \<Rightarrow> int \<Rightarrow> string \<Rightarrow> string option" where
  "store_digits bits nbytes bf [] ri result = Some result"
| "store_digits bits nbytes bf (i # is) ri result = do {
     b \<leftarrow> rd bf i;
     let m = b AND (if i + 1 = nbytes \<and> bits mod 8 \<noteq> 0 then last_bit_mask bits else 0xff);
     r1 \<leftarrow> (if ri < 0 then None else wr result (nat ri) (itoh ! unat (m AND 0xf)));
     if ri - 1 \<ge> 0 then do {
       r2 \<leftarrow> wr r1 (nat (ri - 1)) (itoh ! unat (drop_bit 4 m));
       store_digits bits nbytes bf is (ri - 2) r2 }
     else store_digits bits nbytes bf is (ri - 1) r1 }"

definition buffer_to_hex :: "nat \<Rightarrow> nat \<Rightarrow> u8 list \<Rightarrow> string \<Rightarrow> string option" where
  "buffer_to_hex number_of_bits number_of_bytes bf result = do {
     short \<leftarrow> (if number_of_bytes > 0 \<and> last_bit_mask number_of_bits \<noteq> 0
               then do { b \<leftarrow> rd bf (number_of_bytes - 1); Some (drop_bit 4 (b AND last_bit_mask number_of_bits) = 0) }
               else Some False);
     store_digits number_of_bits number_of_bytes bf [0..<number_of_bytes]
       (int (number_of_bytes * 2) - 1 - (if short then 1 else 0)) result }"

definition shift_message :: "string \<Rightarrow> nat \<Rightarrow> string \<Rightarrow> string" where
  "shift_message prefix bits result = prefix @ '': ['' @ dec_nat bits @ ''b] 0x'' @ c_string result 0"

text \<open>\<open>number_of_bits + 7\<close> is computed in an \<open>unsigned int\<close>.\<close>

definition ASD_log_shift ::
    "os \<Rightarrow> callback \<Rightarrow> Log \<Rightarrow> (nat \<times> nat) option \<Rightarrow> string \<Rightarrow> ASD_LogLevel \<Rightarrow> ASD_LogStream \<Rightarrow> u8 \<Rightarrow> nat \<Rightarrow> nat \<Rightarrow> u8 list option \<Rightarrow>
     string \<Rightarrow> trace \<Rightarrow> (log_event list \<times> trace) option" where
  "ASD_log_shift os should lg clock lb level stream options number_of_bits size_bytes buffer prefix tr =
     (if \<not> ShouldLog lg level stream \<and> \<not> remote_log should lg level stream options then Some ([], tr)
      else if buffer = None \<or> size_bytes = 0 \<or> number_of_bits = 0 then Some ([], tr)
      else let n = ((number_of_bits + 7) mod 2 ^ 32) div 8;
               (nbytes, nbits) = (if n > size_bytes then (size_bytes, size_bytes * 8) else (n, number_of_bits));
               (ok, tr1) = malloc os ''char'' (size_bytes * 2 + 1) tr
           in if \<not> ok then Some ([], tr1)
              else do {
                result \<leftarrow> buffer_to_hex nbits nbytes (the buffer) (replicate (size_bytes * 2 + 1) (CHR 0x00));
                Some (ASD_log should lg clock lb level stream options (shift_message prefix nbits result), tr1) })"

definition ASD_log_shift_to_from ::
    "os \<Rightarrow> callback \<Rightarrow> Log \<Rightarrow> (nat \<times> nat) option \<Rightarrow> string \<Rightarrow> ASD_LogLevel \<Rightarrow> ASD_LogStream \<Rightarrow> u8 \<Rightarrow> nat \<Rightarrow> nat \<Rightarrow> u8 list option \<Rightarrow>
     string \<Rightarrow> nat \<Rightarrow> nat \<Rightarrow> trace \<Rightarrow> (log_event list \<times> trace) option" where
  "ASD_log_shift_to_from os should lg clock lb level stream options number_of_bits size_bytes buffer prefix from to tr =
     (if \<not> ShouldLog lg level stream \<and> \<not> remote_log should lg level stream options then Some ([], tr)
      else if buffer = None \<or> size_bytes = 0 \<or> number_of_bits = 0 \<or> from \<ge> to \<or> to > number_of_bits then Some ([], tr)
      else let n = ((to - from + 7) mod 2 ^ 32) div 8; nbytes = min n size_bytes;
               (ok, tr1) = malloc os ''char'' (size_bytes * 2 + 1) tr
           in if \<not> ok then Some ([], tr1)
              else do {
                result \<leftarrow> buffer_to_hex (to - from) nbytes (drop (from div 8) (the buffer)) (replicate (size_bytes * 2 + 1) (CHR 0x00));
                Some (ASD_log should lg clock lb level stream options (shift_message prefix (to - from) result), tr1) })"

section \<open>Names of levels and streams\<close>

definition tolower :: "char \<Rightarrow> char" where
  "tolower c = (let n = of_char c :: nat in if 65 \<le> n \<and> n \<le> 90 then char_of (n + 32) else c)"

definition lower_10 :: "string \<Rightarrow> string" where
  "lower_10 s = map tolower (take 10 s)"

definition strtolevel :: "string \<Rightarrow> ASD_LogLevel option" where
  "strtolevel input =
     (let temp = lower_10 input
      in if temp = ''off'' then Some ASD_LogLevel_Off else if temp = ''trace'' then Some ASD_LogLevel_Trace
         else if temp = ''debug'' then Some ASD_LogLevel_Debug else if temp = ''info'' then Some ASD_LogLevel_Info
         else if temp = ''warning'' then Some ASD_LogLevel_Warning else if temp = ''error'' then Some ASD_LogLevel_Error
         else None)"

text \<open>The tokens \<open>strsep\<close> finds: there is one more than there are commas.\<close>

fun strsep :: "string \<Rightarrow> string list" where
  "strsep [] = [[]]"
| "strsep (c # cs) =
     (if c = CHR '','' then [] # strsep cs
      else case strsep cs of [] \<Rightarrow> [[c]] | t # ts \<Rightarrow> (c # t) # ts)"

definition stream_token :: "string \<Rightarrow> ASD_LogStream option" where
  "stream_token token =
     (let temp = lower_10 token
      in if temp = ''none'' then Some ASD_LogStream_None else if temp = ''network'' then Some ASD_LogStream_Network
         else if temp = ''jtag'' then Some ASD_LogStream_JTAG else if temp = ''pins'' then Some ASD_LogStream_Pins
         else if temp = ''i2c'' then Some ASD_LogStream_I2C else if temp = ''test'' then Some ASD_LogStream_Test
         else if temp = ''daemon'' then Some ASD_LogStream_Daemon else if temp = ''sdk'' then Some ASD_LogStream_SDK
         else if temp = ''i3c_dbg'' then Some ASD_LogStream_SPP else if temp = ''all'' then Some ASD_LogStream_All
         else None)"

text \<open>The flag \<open>result\<close> is overwritten for each token.\<close>

fun stream_tokens :: "string list \<Rightarrow> bool \<Rightarrow> ASD_LogStream \<Rightarrow> bool \<times> ASD_LogStream" where
  "stream_tokens [] result output = (result, output)"
| "stream_tokens (t # ts) result output =
     (case stream_token t of None \<Rightarrow> stream_tokens ts False output
      | Some s \<Rightarrow> stream_tokens ts True (output OR s))"

definition strtostreams :: "os \<Rightarrow> string \<Rightarrow> trace \<Rightarrow> bool \<times> ASD_LogStream \<times> trace" where
  "strtostreams os input tr =
     (let (ok, tr1) = malloc os ''char'' (length input + 1) tr
      in if \<not> ok then (False, ASD_LogStream_None, tr1)
         else let (result, output) = stream_tokens (strsep input) False ASD_LogStream_None in (result, output, tr1))"

section \<open>Scan data is printed as its number\<close>

text \<open>The value of a string of hexadecimal digits, most significant first.\<close>

definition digit_of :: "char \<Rightarrow> nat" where
  "digit_of c = length (takeWhile (\<lambda>d. d \<noteq> c) itoh)"

definition hex_value :: "string \<Rightarrow> nat" where
  "hex_value s = foldl (\<lambda>v c. 16 * v + digit_of c) 0 s"

lemma itoh_digit: "d < 16 \<Longrightarrow> digit_of (itoh ! d) = d" "d < 16 \<Longrightarrow> itoh ! d \<noteq> CHR 0x00"
proof -
  have "\<forall>d \<in> set [0..<16]. digit_of (itoh ! d) = d \<and> itoh ! d \<noteq> CHR 0x00"
    by (simp add: upt_rec digit_of_def itoh_def)
  then show "d < 16 \<Longrightarrow> digit_of (itoh ! d) = d" "d < 16 \<Longrightarrow> itoh ! d \<noteq> CHR 0x00"
    by simp_all
qed

lemma nibbles:
  fixes b :: u8
  shows "unat (drop_bit 4 b) = unat b div 16" "unat (b AND 0xf) = unat b mod 16" "unat (drop_bit 4 b) < 16" "unat (b AND 0xf) < 16"
proof -
  have "unat (drop_bit 4 b) = drop_bit 4 (unat b)"
    using unat_u8_less [of b] by (simp add: unsigned_drop_bit_eq take_bit_nat_eq_self)
  then show hi: "unat (drop_bit 4 b) = unat b div 16"
    by (simp add: drop_bit_eq_div [of 4 "unat b"])
  have "unat (b AND 0xf) = unat (take_bit 4 b)"
    by (simp add: take_bit_eq_mask mask_eq_exp_minus_1)
  also have "\<dots> = take_bit 4 (unat b)"
    by (rule unsigned_take_bit_eq)
  finally show lo: "unat (b AND 0xf) = unat b mod 16"
    by (simp add: take_bit_eq_mod [of 4 "unat b"])
  show "unat (drop_bit 4 b) < 16" "unat (b AND 0xf) < 16"
    using unat_u8_less [of b] by (simp_all add: hi lo)
qed

lemma hex_value_snoc: "hex_value (s @ [c]) = 16 * hex_value s + digit_of c"
  by (simp add: hex_value_def)

lemma hex_value_append: "hex_value (s @ t) = hex_value s * 16 ^ length t + hex_value t"
proof (induction t rule: rev_induct)
  case (snoc c t)
  have "hex_value (s @ t @ [c]) = 16 * hex_value (s @ t) + digit_of c"
    using hex_value_snoc [of "s @ t" c] by simp
  then show ?case
    using snoc by (simp add: hex_value_snoc)
qed (simp add: hex_value_def)

lemma hex_value_byte: "hex_value (hex_byte b) = unat b"
proof -
  have "digit_of (itoh ! (unat b div 16)) = unat b div 16"
    using itoh_digit(1) nibbles(1,3) by metis
  then show ?thesis
    by (simp add: hex_value_def hex_byte_def itoh_digit nibbles)
qed

lemma hex_value_bytes: "hex_value (concat (map hex_byte (rev ms))) = horner_sum unat 256 ms"
proof (induction ms)
  case (Cons m ms)
  have "length (hex_byte m) = 2"
    by (simp add: hex_byte_def)
  then show ?case
    using Cons by (simp add: hex_value_append hex_value_byte)
qed (simp add: hex_value_def)

text \<open>A leading digit that is zero may be left out.\<close>

lemma hex_value_drop:
  assumes "hd s = CHR ''0''" "s \<noteq> []"
  shows "hex_value (drop 1 s) = hex_value s"
  using assms by (cases s) (simp_all add: hex_value_def digit_of_def itoh_def)

definition masked :: "nat \<Rightarrow> nat \<Rightarrow> u8 list \<Rightarrow> nat \<Rightarrow> u8" where
  "masked bits nbytes bf i = bf ! i AND (if i + 1 = nbytes \<and> bits mod 8 \<noteq> 0 then last_bit_mask bits else 0xff)"

lemma store_digits_result:
  assumes "\<forall>i \<in> set is. i < length bf" "s \<le> 1" "s = 1 \<longrightarrow> is \<noteq> []" "2 * length is \<le> length result + s"
  shows "store_digits bits nbytes bf is (2 * int (length is) - 1 - int s) result =
    Some (drop s (concat (map hex_byte (rev (map (masked bits nbytes bf) is)))) @ drop (2 * length is - s) result)"
  using assms
proof (induction "is" arbitrary: result)
  case (Cons i "is")
  define m where "m = masked bits nbytes bf i"
  have b: "rd bf i = Some (bf ! i)"
    using Cons.prems(1) by (simp add: rd_def)
  show ?case
  proof (cases "is = [] \<and> s = 1")
    case True
    then obtain c cs where "result = c # cs"
      using Cons.prems by (cases result) auto
    then show ?thesis
      using True b by (simp add: wr_def hex_byte_def masked_def Let_def)
  next
    case False
    define ri where "ri = 2 * length is + 1 - s"
    define r2 where "r2 = result[ri := itoh ! unat (m AND 0xf), ri - 1 := itoh ! unat (drop_bit 4 m)]"
    have ri: "2 * int (length (i # is)) - 1 - int s = int ri" "0 < ri" "ri < length result" "ri - 1 = 2 * length is - s"
      using False Cons.prems(2,4) by (cases "is"; auto simp: ri_def)+
    have step: "store_digits bits nbytes bf (i # is) (int ri) result = store_digits bits nbytes bf is (int ri - 2) r2"
    proof -
      have "ri - 1 < length result" "\<not> int ri < 0" "0 \<le> int ri - 1" "nat (int ri - 1) = ri - 1"
        using ri(2,3) by simp_all
      then show ?thesis
        using ri(3) b by (simp add: wr_def masked_def m_def r2_def Let_def del: One_nat_def)
    qed
    have e1: "drop (ri - 1) r2 = hex_byte m @ drop (Suc ri) result"
    proof -
      obtain k where k: "ri = Suc k"
        using ri(2) by (cases ri) auto
      then have "drop k result = result ! k # result ! Suc k # drop (Suc (Suc k)) result"
        using ri(3) by (metis Cons_nth_drop_Suc Suc_lessD)
      then show ?thesis
        using k ri(3) by (simp add: r2_def hex_byte_def drop_update_swap)
    qed
    have e2: "store_digits bits nbytes bf is (2 * int (length is) - 1 - int s) r2 =
        Some (drop s (concat (map hex_byte (rev (map (masked bits nbytes bf) is)))) @ drop (2 * length is - s) r2)"
      using False Cons.prems by (intro Cons.IH) (auto simp: r2_def)
    have e3: "int ri - 2 = 2 * int (length is) - 1 - int s" "2 * length (i # is) - s = Suc ri"
      using ri False Cons.prems(2) by (cases "is"; auto simp: ri_def)+
    have e4: "drop s (concat (map hex_byte (rev (map (masked bits nbytes bf) is)))) @ hex_byte m =
        drop s (concat (map hex_byte (rev (map (masked bits nbytes bf) (i # is)))))"
    proof -
      have "s \<le> length (concat (map hex_byte (rev (map (masked bits nbytes bf) is))))"
        using False Cons.prems(2) by (cases "is") (simp_all add: hex_byte_def)
      then show ?thesis
        by (simp add: m_def)
    qed
    show ?thesis
      unfolding ri(1) step e3(1) e2 e3(2) e4 [symmetric] ri(4) [symmetric] e1 by simp
  qed
qed simp

lemma last_bit_mask_eq: "last_bit_mask bits = mask (bits mod 8)"
proof -
  have "\<forall>r \<in> set [0..<8]. drop_bit (8 - r) (0xff :: u8) = mask r"
    by (simp add: upt_rec mask_eq_exp_minus_1 drop_bit_eq_div)
  then show ?thesis
    by (simp add: last_bit_mask_def)
qed

lemma horner_sum_less: "horner_sum unat 256 (xs :: u8 list) < 256 ^ length xs"
proof (induction xs)
  case (Cons x xs)
  then have "Suc (horner_sum unat 256 xs) * 256 \<le> 256 * 256 ^ length xs"
    by simp
  then show ?case
    using unat_u8_less [of x] by simp
qed simp

lemma and_255: "b AND 255 = (b :: u8)"
proof -
  have e: "(255 :: u8) = - 1"
    by simp
  show ?thesis
    unfolding e by (rule and.right_neutral)
qed

lemma masked_value:
  assumes "0 < n" "8 * (n - 1) < bits" "bits \<le> 8 * n" "n \<le> length bf"
  shows "horner_sum unat 256 (map (masked bits n bf) [0..<n]) = horner_sum unat 256 (take n bf) mod 2 ^ bits"
proof -
  obtain k where n: "n = Suc k"
    using assms(1) gr0_conv_Suc by blast
  define r where "r = bits - 8 * k"
  have r: "bits = 8 * k + r" "0 < r" "r \<le> 8"
    using assms(2,3) by (auto simp: r_def n)
  have last: "unat (masked bits n bf k) = unat (bf ! k) mod 2 ^ r"
  proof (cases "r = 8")
    case True
    have "masked bits n bf k = bf ! k"
      using True r(1) by (simp add: masked_def and_255)
    then show ?thesis
      using True unat_u8_less [of "bf ! k"] by simp
  next
    case False
    then have "bits mod 8 = r"
      using r by simp
    then have "masked bits n bf k = take_bit r (bf ! k)"
      using r(2) by (simp add: masked_def n last_bit_mask_eq take_bit_eq_mask)
    then have "unat (masked bits n bf k) = take_bit r (unat (bf ! k))"
      by (simp add: unsigned_take_bit_eq)
    then show ?thesis
      by (simp add: take_bit_eq_mod)
  qed
  have "map (masked bits n bf) [0..<k] = take k bf"
    using assms(4) by (auto simp: n masked_def list_eq_iff_nth_eq and_255)
  then have "horner_sum unat 256 (map (masked bits n bf) [0..<n]) =
      horner_sum unat 256 (take k bf) + 256 ^ k * (unat (bf ! k) mod 2 ^ r)"
    using assms(4) last by (simp add: n horner_sum_append)
  moreover have "horner_sum unat 256 (take n bf) = horner_sum unat 256 (take k bf) + 256 ^ k * unat (bf ! k)"
    using assms(4) by (simp add: n take_Suc_conv_app_nth horner_sum_append)
  moreover have "(2::nat) ^ bits = 256 ^ k * 2 ^ r"
    by (simp add: r(1) power_add power_mult)
  moreover have "horner_sum unat 256 (take k bf) < 256 ^ k"
    using horner_sum_less [of "take k bf"] assms(4) by (simp add: n)
  ultimately show ?thesis
    by (simp add: mod_mult2_eq)
qed

lemma hex_byte_digits: "CHR 0x00 \<notin> set (hex_byte m)"
proof
  assume "CHR 0x00 \<in> set (hex_byte m)"
  then consider "itoh ! unat (drop_bit 4 m) = CHR 0x00" | "itoh ! unat (m AND 0xf) = CHR 0x00"
    by (auto simp only: hex_byte_def list.set)
  then show False
    using itoh_digit(2) [OF nibbles(3)] itoh_digit(2) [OF nibbles(4)] by cases blast+
qed

text \<open>What is printed for a scan of \<open>bits\<close> bits in the fewest bytes is the number they are, without undefined behaviour.\<close>

lemma buffer_to_hex_value:
  assumes "0 < n" "8 * (n - 1) < bits" "bits \<le> 8 * n" "n \<le> length bf" "2 * n \<le> k"
  shows "ensures (buffer_to_hex bits n bf (replicate k (CHR 0x00)))
    (\<lambda>r. hex_value (c_string r 0) = horner_sum unat 256 (take n bf) mod 2 ^ bits \<and>
         length (c_string r 0) \<in> {2 * n - 1, 2 * n})"
proof -
  define ms where "ms = map (masked bits n bf) [0..<n]"
  define top where "top = bf ! (n - 1) AND last_bit_mask bits"
  define s :: nat where "s = (if last_bit_mask bits \<noteq> 0 \<and> drop_bit 4 top = 0 then 1 else 0)"
  define digits where "digits = concat (map hex_byte (rev ms))"
  have b: "buffer_to_hex bits n bf (replicate k (CHR 0x00)) =
      store_digits bits n bf [0..<n] (2 * int (length [0..<n]) - 1 - int s) (replicate k (CHR 0x00))"
  proof -
    have "n - 1 < length bf"
      using assms(1,4) by simp
    then show ?thesis
      using assms(1) by (simp add: buffer_to_hex_def rd_def s_def top_def mult.commute del: One_nat_def)
  qed
  have "\<dots> = Some (drop s digits @ drop (2 * n - s) (replicate k (CHR 0x00)))"
    using assms by (subst store_digits_result) (auto simp: s_def digits_def ms_def)
  note res = trans [OF b this]
  have len: "length digits = 2 * n"
    by (simp add: digits_def ms_def length_concat hex_byte_def rev_map comp_def sum_list_triv)
  have ne: "CHR 0x00 \<notin> set digits"
  proof -
    have "CHR 0x00 \<notin> set (hex_byte m)" for m
      by (rule hex_byte_digits)
    then show ?thesis
      by (auto simp: digits_def)
  qed
  have str: "c_string (drop s digits @ drop (2 * n - s) (replicate k (CHR 0x00))) 0 = drop s digits"
    using ne by (auto simp: c_string_def takeWhile_append dest: in_set_dropD)
  have "hex_value (drop s digits) = hex_value digits"
  proof (cases "s = 1")
    case True
    then have "last_bit_mask bits \<noteq> 0 \<and> drop_bit 4 top = 0"
      unfolding s_def by (meson zero_neq_one)
    then have m: "last_bit_mask bits \<noteq> 0" "drop_bit 4 top = 0"
      by blast+
    then have "masked bits n bf (n - 1) = top"
      using assms(1) by (auto simp: masked_def top_def last_bit_mask_eq)
    moreover have "[0..<n] = [0..<n - 1] @ [n - 1]"
      using assms(1) by (cases n) simp_all
    ultimately have "rev ms = top # rev (map (masked bits n bf) [0..<n - 1])"
      unfolding ms_def by (simp only: map_append list.map rev_append rev.simps append.simps)
    then have "hd digits = CHR ''0''"
      using m(2) by (simp add: digits_def hex_byte_def itoh_def)
    moreover have "digits \<noteq> []"
      using len assms(1) by auto
    ultimately show ?thesis
      unfolding True by (rule hex_value_drop)
  next
    case False
    then have "s = 0"
      unfolding s_def by meson
    then show ?thesis
      by simp
  qed
  moreover have "hex_value digits = horner_sum unat 256 (take n bf) mod 2 ^ bits"
    unfolding digits_def hex_value_bytes unfolding ms_def by (rule masked_value [OF assms(1-4)])
  moreover have "length (drop s digits) \<in> {2 * n - 1, 2 * n}"
    by (simp add: len s_def)
  ultimately show ?thesis
    unfolding res ensures_Some str by (simp only: conj_absorb HOL.simp_thms)
qed

text \<open>The scan logger gives that number its fewest bytes, cut to the buffer, so it never leaves its arrays.\<close>

lemma ASD_log_shift_safe:
  assumes "size_bytes \<le> length bf" "number_of_bits + 7 < 2 ^ 32"
  shows "\<exists>r. ASD_log_shift os should lg clock lb level stream options number_of_bits size_bytes (Some bf) prefix tr = Some r"
proof -
  define n where "n = (number_of_bits + 7) div 8"
  define nb where "nb = (if n > size_bytes then (size_bytes, size_bytes * 8) else (n, number_of_bits))"
  have "ensures (buffer_to_hex (snd nb) (fst nb) bf (replicate (size_bytes * 2 + 1) (CHR 0x00))) (\<lambda>_. True)"
    if "0 < size_bytes" "0 < number_of_bits"
    using that assms(1) by (intro ensures_conseq [OF buffer_to_hex_value]) (auto simp: nb_def n_def)
  then show ?thesis
    using assms(2)
    by (auto simp: ASD_log_shift_def Let_def split_def ensures_iff bind_eq_Some_conv nb_def n_def)
qed

section \<open>Names\<close>

lemma strtolevel_LogLevelString: "strtolevel (ASD_LogLevelString l) = Some l"
proof -
  have "list_all (\<lambda>l. strtolevel (ASD_LogLevelString l) = Some l) [ASD_LogLevel_Trace, ASD_LogLevel_Debug,
      ASD_LogLevel_Info, ASD_LogLevel_Warning, ASD_LogLevel_Error, ASD_LogLevel_Off]"
    by code_simp
  then show ?thesis
    by (cases l) (simp_all only: list.pred_inject)
qed

definition named_streams :: "ASD_LogStream list" where
  "named_streams = [ASD_LogStream_None, ASD_LogStream_Network, ASD_LogStream_JTAG, ASD_LogStream_Pins, ASD_LogStream_I2C,
     ASD_LogStream_Test, ASD_LogStream_Daemon, ASD_LogStream_SDK, ASD_LogStream_SPP, ASD_LogStream_All]"

lemma stream_token_streamtostring: "s \<in> set named_streams \<Longrightarrow> stream_token (streamtostring s) = Some s"
proof -
  have "list_all (\<lambda>s. stream_token (streamtostring s) = Some s) named_streams"
    by code_simp
  then show "s \<in> set named_streams \<Longrightarrow> stream_token (streamtostring s) = Some s"
    by (simp add: list_all_iff)
qed

text \<open>A comma-separated list of names, and its tokens.\<close>

fun comma_list :: "string list \<Rightarrow> string" where
  "comma_list [] = []"
| "comma_list [t] = t"
| "comma_list (t # ts) = t @ CHR '','' # comma_list ts"

lemma strsep_append: "CHR '','' \<notin> set t \<Longrightarrow> strsep (t @ CHR '','' # s) = t # strsep s"
  by (induction t) auto

lemma strsep_single: "CHR '','' \<notin> set t \<Longrightarrow> strsep t = [t]"
  by (induction t) auto

lemma strsep_comma_list: "ts \<noteq> [] \<Longrightarrow> \<forall>t \<in> set ts. CHR '','' \<notin> set t \<Longrightarrow> strsep (comma_list ts) = ts"
  by (induction ts rule: comma_list.induct) (simp_all add: strsep_append strsep_single)

lemma streamtostring_no_comma: "CHR '','' \<notin> set (streamtostring s)"
  by (simp add: streamtostring_def)

lemma stream_tokens_names:
  "set ss \<subseteq> set named_streams \<Longrightarrow>
   stream_tokens (map streamtostring ss) r out = (if ss = [] then r else True, foldl (OR) out ss)"
  by (induction ss arbitrary: r out) (simp_all add: stream_token_streamtostring)

lemma strtostreams_names:
  assumes "ss \<noteq> []" "set ss \<subseteq> set named_streams"
    "fst (malloc os ''char'' (length (comma_list (map streamtostring ss)) + 1) tr)"
  shows "\<exists>tr'. strtostreams os (comma_list (map streamtostring ss)) tr = (True, foldl (OR) 0 ss, tr')"
  using assms
  by (auto simp: strtostreams_def split_def Let_def strsep_comma_list streamtostring_no_comma stream_tokens_names
      ASD_LogStream_None_def)

text \<open>The streams are those of the good tokens, but the result speaks only of the last token.\<close>

lemma stream_tokens_last:
  "ts \<noteq> [] \<Longrightarrow> stream_tokens ts r out =
     (stream_token (last ts) \<noteq> None, foldl (OR) out (map the (filter (\<lambda>x. x \<noteq> None) (map stream_token ts))))"
proof (induction ts arbitrary: r out)
  case (Cons t ts)
  then show ?case
    by (cases "ts = []") (auto split: option.split)
qed simp

section \<open>Stamped messages\<close>

text \<open>
  The stamp ends with its NUL before the place of the message, so a message that is composed behind a stamp is
  never printed: only the stamp is.
\<close>

lemma length_dec_nat: "n < 10 ^ Suc k \<Longrightarrow> length (dec_nat n) \<le> Suc k"
proof (induction k arbitrary: n)
  case (Suc k)
  have "length (dec_nat (n div 10)) \<le> Suc k" if "\<not> n < 10"
    using Suc.prems by (intro Suc.IH) (simp add: less_mult_imp_div_less)
  then show ?case
    by (subst dec_nat.simps) simp
qed (simp add: dec_nat.simps)

lemma time_stamp_no_nul: "CHR 0x00 \<notin> set (time_stamp sec nsec)"
proof -
  have "CHR 0x00 \<noteq> char_of (48 + d)" if "d < 10" for d :: nat
  proof -
    have "list_all (\<lambda>d. CHR 0x00 \<noteq> char_of (48 + d :: nat)) [0..<10]"
      by code_simp
    then show ?thesis using that by (simp add: list_all_iff)
  qed
  then have "CHR 0x00 \<notin> set (dec_nat n)" for n
    by (induction n rule: dec_nat.induct) (subst dec_nat.simps, auto)
  then show ?thesis
    by (simp add: time_stamp_def pad_left_def)
qed

lemma stamped_text:
  assumes "length st < LOG_TIMESTAMP_LENGTH - 1" "CHR 0x00 \<notin> set st" "LOG_TIMESTAMP_LENGTH \<le> length bf"
  shows "c_string (snprintf_at (LOG_TIMESTAMP_LENGTH - 1) n msg (snprintf_at 0 LOG_TIMESTAMP_LENGTH st bf)) 0 = st"
proof -
  define b where "b = snprintf_at 0 LOG_TIMESTAMP_LENGTH st bf"
  have b: "b = st @ CHR 0x00 # drop (Suc (length st)) bf"
    using assms by (simp add: b_def snprintf_at_def LOG_TIMESTAMP_LENGTH_def)
  have "take (LOG_TIMESTAMP_LENGTH - 1) b = st @ CHR 0x00 # take (LOG_TIMESTAMP_LENGTH - 2 - length st) (drop (Suc (length st)) bf)"
    using assms(1) by (simp add: b LOG_TIMESTAMP_LENGTH_def take_Cons' )
  then obtain r where "snprintf_at (LOG_TIMESTAMP_LENGTH - 1) n msg b = st @ CHR 0x00 # r"
    by (simp add: snprintf_at_def Let_def)
  then show ?thesis
    using assms(2) by (simp add: c_string_def takeWhile_append flip: b_def)
qed

end
