(* ===== verification/Command_Line.thy ===== *)
theory Command_Line
  imports Authenticate Config Logging
begin

text \<open>
  The command line of \<open>server/asd_main.c\<close>.  \<open>getopt_long\<close> and the table of options turn the arguments of the
  program into a sequence of results, one constructor of \<open>getopt_result\<close> each, with the option's argument; a
  result that is no known option, such as a missing argument, is \<open>Getopt_unknown\<close>.
\<close>

section \<open>Arguments\<close>

record session_options =
  n_port_number :: u16
  cp_certkeyfile :: string
  cp_net_bind_device :: "string option"
  e_extnet_type :: extnet_hdlr_type_t
  e_auth_type :: auth_hdlr_type_t

record asd_args =
  session_opts :: session_options
  busopt :: bus_options
  use_syslog :: bool
  log_level :: ASD_LogLevel
  log_streams :: ASD_LogStream
  log_timestamp_enable :: bool
  arg_xdp_fail_enable :: bool
  auto_sync_remote_logging :: bool
  auto_sync_remote_logging_streams :: ASD_LogStream
  arg_timeout :: timeout_config

definition DEFAULT_I2C_BUS :: u8 where "DEFAULT_I2C_BUS = 4"
definition DEFAULT_PORT :: u16 where "DEFAULT_PORT = 5123"
definition DEFAULT_CERT_FILE :: string where "DEFAULT_CERT_FILE = ''/etc/ssl/certs/https/server.pem''"
definition DEFAULT_LOG_LEVEL :: ASD_LogLevel where "DEFAULT_LOG_LEVEL = ASD_LogLevel_Warning"
definition DEFAULT_LOG_STREAMS :: ASD_LogStream where "DEFAULT_LOG_STREAMS = ASD_LogStream_All"
definition DEFAULT_XDP_FAIL_ENABLE :: bool where "DEFAULT_XDP_FAIL_ENABLE = True"
definition IDLE_TIMEOUT_MS :: int where "IDLE_TIMEOUT_MS = 600000"
definition MINUTESTOMS :: int where "MINUTESTOMS = 60000"
definition MAX_INPUT_SIZE :: nat where "MAX_INPUT_SIZE = 100"

text \<open>
  What the options change: the arguments, the flag of the configuration, and the two counters of buses, which
  are \<open>uint8_t\<close>.
\<close>

record cmdline =
  args :: asd_args
  cfg_xdp_fail_enable :: bool
  bus_counter :: u8
  spp_counter :: u8

definition default_args :: "asd_args \<Rightarrow> asd_args" where
  "default_args a =
     a\<lparr>busopt := (busopt a)\<lparr>opt_enable_i2c := False, opt_enable_i3c := False, opt_enable_spp := False,
                           opt_bus := DEFAULT_I2C_BUS\<rparr>,
       use_syslog := False, log_level := DEFAULT_LOG_LEVEL, log_streams := DEFAULT_LOG_STREAMS,
       auto_sync_remote_logging := False, auto_sync_remote_logging_streams := ASD_LogStream_All,
       session_opts := \<lparr>n_port_number = DEFAULT_PORT, cp_certkeyfile = DEFAULT_CERT_FILE, cp_net_bind_device = None,
                       e_extnet_type = EXTNET_HDLR_TLS, e_auth_type = AUTH_HDLR_PAM\<rparr>,
       arg_xdp_fail_enable := DEFAULT_XDP_FAIL_ENABLE,
       arg_timeout := \<lparr>is_timeout_enabled = False, idle_timeout = IDLE_TIMEOUT_MS\<rparr>\<rparr>"

text \<open>\<open>main_state\<close> is a static variable: its arguments are zero before they are set.\<close>

definition zero_args :: asd_args where
  "zero_args =
     \<lparr>session_opts = \<lparr>n_port_number = 0, cp_certkeyfile = [], cp_net_bind_device = None,
                     e_extnet_type = EXTNET_HDLR_NON_ENCRYPT, e_auth_type = AUTH_HDLR_NONE\<rparr>,
      busopt = \<lparr>opt_enable_i2c = False, opt_enable_i3c = False, opt_enable_spp = False,
                opt_config_map = replicate (MAX_IxC_BUSES + MAX_SPP_BUSES) 0,
                opt_config_type = replicate (MAX_IxC_BUSES + MAX_SPP_BUSES) BUS_CONFIG_NOT_ALLOWED, opt_bus = 0\<rparr>,
      use_syslog = False, log_level = ASD_LogLevel_Trace, log_streams = 0, log_timestamp_enable = False,
      arg_xdp_fail_enable = False, auto_sync_remote_logging = False, auto_sync_remote_logging_streams = 0,
      arg_timeout = \<lparr>is_timeout_enabled = False, idle_timeout = 0\<rparr>\<rparr>"

section \<open>Characters and numbers\<close>

record char_classes =
  alphabetUpper :: bool
  alphabetLower :: bool
  numerics :: bool
  extraChars :: bool
  comma :: bool
  dash :: bool

definition no_chars :: char_classes where
  "no_chars = \<lparr>alphabetUpper = False, alphabetLower = False, numerics = False, extraChars = False, comma = False, dash = False\<rparr>"

definition valid_char :: "char_classes \<Rightarrow> char \<Rightarrow> bool" where
  "valid_char k c \<longleftrightarrow>
     (let n = of_char c :: nat
      in alphabetUpper k \<and> 65 \<le> n \<and> n \<le> 90 \<or> alphabetLower k \<and> 97 \<le> n \<and> n \<le> 122 \<or> numerics k \<and> 48 \<le> n \<and> n \<le> 57 \<or>
         extraChars k \<and> c \<in> {CHR ''.'', CHR ''/''} \<or> comma k \<and> c = CHR '','' \<or> dash k \<and> c \<in> {CHR ''-'', CHR ''_''})"

text \<open>The length is kept in a \<open>uint16_t\<close>; the flag after the loop is that of the last character examined.\<close>

fun check_chars :: "char_classes \<Rightarrow> string \<Rightarrow> bool \<Rightarrow> bool" where
  "check_chars k [] good = good"
| "check_chars k (c # cs) good = (if valid_char k c then check_chars k cs True else False)"

definition validateCharInputs :: "char_classes \<Rightarrow> string \<Rightarrow> bool" where
  "validateCharInputs k input =
     (let strSize = length input mod 2 ^ 16
      in if strSize > 0 \<and> strSize < MAX_INPUT_SIZE then check_chars k (take strSize input) False else False)"

text \<open>
  \<open>strtol\<close> with the base ten: blanks and a sign may come first, and \<open>long\<close> has 32 bits on the controllers.  The
  flag says that the number was out of range and cut, or that there was none.
\<close>

definition LONG_MAX :: int where "LONG_MAX = 2 ^ 31 - 1"

definition strtol10 :: "string \<Rightarrow> int \<times> bool" where
  "strtol10 s =
     (let t = dropWhile (\<lambda>c. c \<in> {CHR 0x20, CHR 0x09, CHR 0x0A, CHR 0x0B, CHR 0x0C, CHR 0x0D}) s;
          neg = (t \<noteq> [] \<and> hd t = CHR ''-'');
          ds = takeWhile is_digit (if neg \<or> (t \<noteq> [] \<and> hd t = CHR ''+'') then tl t else t);
          v = (if neg then - digits_value ds else digits_value ds)
      in if ds = [] then (0, True)
         else if v > LONG_MAX then (LONG_MAX, True)
         else if v < - LONG_MAX - 1 then (- LONG_MAX - 1, True)
         else (v, False))"

definition strtok :: "string \<Rightarrow> string list" where
  "strtok s = filter (\<lambda>t. t \<noteq> []) (strsep s)"

section \<open>Lists of buses\<close>

text \<open>One bus of a list: the first one that is not discarded becomes the default bus.\<close>

definition store_bus :: "nat \<Rightarrow> bus_config_type \<Rightarrow> u8 \<Rightarrow> bool \<Rightarrow> bus_options \<Rightarrow> bus_options option" where
  "store_bus i ty bus first b = do {
     ty_list \<leftarrow> wr (opt_config_type b) i ty;
     map_list \<leftarrow> wr (opt_config_map b) i bus;
     Some ((if first then b\<lparr>opt_bus := bus\<rparr> else b)\<lparr>opt_config_type := ty_list, opt_config_map := map_list\<rparr>) }"

fun ixc_buses :: "bus_config_type \<Rightarrow> string list \<Rightarrow> bool \<Rightarrow> u8 \<Rightarrow> bus_options \<Rightarrow> (u8 \<times> bus_options) option" where
  "ixc_buses ty [] first counter b = Some (counter, b)"
| "ixc_buses ty (t # ts) first counter b =
     (let (v, bad) = strtol10 t; bus = of_int v
      in if bad then Some (counter, b)
         else if unat counter \<ge> MAX_IxC_BUSES then ixc_buses ty ts first (counter + 1) b
         else do {
           b1 \<leftarrow> store_bus (unat counter) ty bus first b;
           ixc_buses ty ts False (counter + 1) b1 })"

fun spp_buses :: "string list \<Rightarrow> bool \<Rightarrow> u8 \<Rightarrow> bus_options \<Rightarrow> (u8 \<times> bus_options) option" where
  "spp_buses [] first counter b = Some (counter, b)"
| "spp_buses (t # ts) first counter b =
     (let (v, bad) = strtol10 t; bus = of_int v
      in if bad then Some (counter, b)
         else if unat counter \<ge> MAX_SPP_BUSES then spp_buses ts first (counter + 1) b
         else do {
           b1 \<leftarrow> store_bus (MAX_IxC_BUSES + unat counter) BUS_CONFIG_SPP bus first b;
           spp_buses ts False (counter + 1) b1 })"

section \<open>The options\<close>

datatype getopt_result =
    Getopt_p string | Getopt_s | Getopt_u | Getopt_k string | Getopt_n string | Getopt_i string | Getopt_c string
  | Getopt_d string | ARG_XDP | ARG_LOG_LEVEL string | ARG_LOG_STREAMS string | ARG_LOG_TIMESTAMP
  | ARG_AUTO_SYNC_REMOTE_LOG string | ARG_TIMEOUT string | ARG_HELP | Getopt_unknown

text \<open>
  An option answers \<open>None\<close> inside when the program shows its usage and gives up, and \<open>None\<close> outside for undefined
  behaviour.
\<close>

type_synonym opt_result = "cmdline option option"

abbreviation upd_session_opts :: "(session_options \<Rightarrow> session_options) \<Rightarrow> cmdline \<Rightarrow> cmdline" where
  "upd_session_opts f c \<equiv> c\<lparr>args := (args c)\<lparr>session_opts := f (session_opts (args c))\<rparr>\<rparr>"

definition option_p :: "string \<Rightarrow> cmdline \<Rightarrow> opt_result" where
  "option_p arg c =
     Some (if validateCharInputs (no_chars\<lparr>numerics := True\<rparr>) arg
           then Some (upd_session_opts (\<lambda>s. s\<lparr>n_port_number := of_int (fst (strtol10 arg))\<rparr>) c) else None)"

definition option_u :: "cmdline \<Rightarrow> opt_result" where
  "option_u c = Some (Some (upd_session_opts (\<lambda>s. s\<lparr>e_extnet_type := EXTNET_HDLR_NON_ENCRYPT, e_auth_type := AUTH_HDLR_NONE\<rparr>) c))"

definition option_k :: "string \<Rightarrow> cmdline \<Rightarrow> opt_result" where
  "option_k arg c =
     Some (if validateCharInputs (no_chars\<lparr>alphabetUpper := True, alphabetLower := True, numerics := True, extraChars := True\<rparr>) arg
           then Some (upd_session_opts (\<lambda>s. s\<lparr>cp_certkeyfile := arg\<rparr>) c) else None)"

definition option_n :: "string \<Rightarrow> cmdline \<Rightarrow> opt_result" where
  "option_n arg c =
     Some (if validateCharInputs (no_chars\<lparr>alphabetUpper := True, alphabetLower := True, numerics := True\<rparr>) arg
           then Some (upd_session_opts (\<lambda>s. s\<lparr>cp_net_bind_device := Some arg\<rparr>) c) else None)"

definition option_i :: "string \<Rightarrow> cmdline \<Rightarrow> opt_result" where
  "option_i arg c =
     (let b = (busopt (args c))\<lparr>opt_enable_i2c := True\<rparr>
      in if \<not> validateCharInputs (no_chars\<lparr>numerics := True, comma := True\<rparr>) arg then Some None
         else do {
           (n, b1) \<leftarrow> ixc_buses BUS_CONFIG_I2C (strtok arg) True (bus_counter c) b;
           Some (Some (c\<lparr>args := (args c)\<lparr>busopt := b1\<rparr>, bus_counter := n\<rparr>)) })"

definition option_c :: "string \<Rightarrow> cmdline \<Rightarrow> opt_result" where
  "option_c arg c =
     (let b = (busopt (args c))\<lparr>opt_enable_i3c := True\<rparr>
      in if \<not> validateCharInputs (no_chars\<lparr>numerics := True, comma := True\<rparr>) arg then Some None
         else do {
           (n, b1) \<leftarrow> ixc_buses BUS_CONFIG_I3C (strtok arg) True (bus_counter c) b;
           Some (Some (c\<lparr>args := (args c)\<lparr>busopt := b1\<rparr>, bus_counter := n\<rparr>)) })"

definition option_d :: "string \<Rightarrow> cmdline \<Rightarrow> opt_result" where
  "option_d arg c =
     (let b = (busopt (args c))\<lparr>opt_enable_spp := True\<rparr>
      in if \<not> validateCharInputs (no_chars\<lparr>numerics := True, comma := True\<rparr>) arg then Some None
         else do {
           (n, b1) \<leftarrow> spp_buses (strtok arg) True (spp_counter c) b;
           Some (Some (c\<lparr>args := (args c)\<lparr>busopt := b1\<rparr>, spp_counter := n\<rparr>)) })"

definition option_log_level :: "string \<Rightarrow> cmdline \<Rightarrow> opt_result" where
  "option_log_level arg c =
     Some (if \<not> validateCharInputs (no_chars\<lparr>alphabetUpper := True, alphabetLower := True, dash := True\<rparr>) arg then None
           else case strtolevel arg of None \<Rightarrow> None | Some l \<Rightarrow> Some (c\<lparr>args := (args c)\<lparr>log_level := l\<rparr>\<rparr>))"

definition option_log_streams :: "os \<Rightarrow> string \<Rightarrow> cmdline \<Rightarrow> trace \<Rightarrow> opt_result \<times> trace" where
  "option_log_streams os arg c tr =
     (if \<not> validateCharInputs (no_chars\<lparr>alphabetUpper := True, alphabetLower := True, numerics := True, comma := True, dash := True\<rparr>) arg
      then (Some None, tr)
      else let (ok, s, tr1) = strtostreams os arg tr
           in (Some (if ok then Some (c\<lparr>args := (args c)\<lparr>log_streams := s\<rparr>\<rparr>) else None), tr1))"

definition option_auto_sync :: "os \<Rightarrow> string \<Rightarrow> cmdline \<Rightarrow> trace \<Rightarrow> opt_result \<times> trace" where
  "option_auto_sync os arg c tr =
     (let (ok, s, tr1) = strtostreams os arg tr
      in (Some (if ok then Some (c\<lparr>args := (args c)\<lparr>auto_sync_remote_logging := True, auto_sync_remote_logging_streams := s\<rparr>\<rparr>)
                else None), tr1))"

text \<open>The minutes, a \<open>uint16_t\<close>, are multiplied as \<open>int\<close>s: a product of \<open>2\<^sup>3\<^sup>1\<close> or more is an overflow.\<close>

definition option_timeout :: "string \<Rightarrow> cmdline \<Rightarrow> opt_result" where
  "option_timeout arg c =
     (if validateCharInputs (no_chars\<lparr>numerics := True\<rparr>) arg
      then (let v = fst (strtol10 arg)
            in if v > 0 \<and> v \<le> 65535
               then (if v * MINUTESTOMS \<ge> 2 ^ 31 then None
                     else Some (Some (c\<lparr>args := (args c)\<lparr>arg_timeout := \<lparr>is_timeout_enabled = True,
                                                                   idle_timeout = v * MINUTESTOMS\<rparr>\<rparr>\<rparr>)))
               else Some None)
      else Some None)"

fun process_option :: "os \<Rightarrow> getopt_result \<Rightarrow> cmdline \<Rightarrow> trace \<Rightarrow> opt_result \<times> trace" where
  "process_option os (Getopt_p a) c tr = (option_p a c, tr)"
| "process_option os Getopt_s c tr = (Some (Some (c\<lparr>args := (args c)\<lparr>use_syslog := True\<rparr>\<rparr>)), tr)"
| "process_option os Getopt_u c tr = (option_u c, tr)"
| "process_option os (Getopt_k a) c tr = (option_k a c, tr)"
| "process_option os (Getopt_n a) c tr = (option_n a c, tr)"
| "process_option os (Getopt_i a) c tr = (option_i a c, tr)"
| "process_option os (Getopt_c a) c tr = (option_c a c, tr)"
| "process_option os (Getopt_d a) c tr = (option_d a c, tr)"
| "process_option os ARG_XDP c tr =
     (Some (Some (c\<lparr>args := (args c)\<lparr>arg_xdp_fail_enable := False\<rparr>, cfg_xdp_fail_enable := False\<rparr>)), tr)"
| "process_option os (ARG_LOG_LEVEL a) c tr = (option_log_level a c, tr)"
| "process_option os (ARG_LOG_STREAMS a) c tr = option_log_streams os a c tr"
| "process_option os ARG_LOG_TIMESTAMP c tr = (Some (Some (c\<lparr>args := (args c)\<lparr>log_timestamp_enable := True\<rparr>\<rparr>)), tr)"
| "process_option os (ARG_AUTO_SYNC_REMOTE_LOG a) c tr = option_auto_sync os a c tr"
| "process_option os (ARG_TIMEOUT a) c tr = (option_timeout a c, tr)"
| "process_option os ARG_HELP c tr = (Some None, tr)"
| "process_option os Getopt_unknown c tr = (Some None, tr)"

fun process_options :: "os \<Rightarrow> getopt_result list \<Rightarrow> cmdline \<Rightarrow> trace \<Rightarrow> opt_result \<times> trace" where
  "process_options os [] c tr = (Some (Some c), tr)"
| "process_options os (g # gs) c tr =
     (let (r, tr1) = process_option os g c tr
      in case r of Some (Some c1) \<Rightarrow> process_options os gs c1 tr1 | _ \<Rightarrow> (r, tr1))"

definition process_command_line :: "os \<Rightarrow> getopt_result list \<Rightarrow> asd_args \<Rightarrow> trace \<Rightarrow> opt_result \<times> trace" where
  "process_command_line os gs a tr =
     process_options os gs \<lparr>args = default_args a, cfg_xdp_fail_enable = DEFAULT_XDP_FAIL_ENABLE,
       bus_counter = 0, spp_counter = 0\<rparr> tr"

section \<open>The arguments are sound\<close>

text \<open>
  The bus table keeps its size and holds I2C and I3C buses in its first half and debug buses in its second;
  encryption and authentication are switched off together or not at all; the idle time is positive.
\<close>

definition sound_buses :: "bus_options \<Rightarrow> bool" where
  "sound_buses b \<longleftrightarrow>
     length (opt_config_map b) = MAX_IxC_BUSES + MAX_SPP_BUSES \<and>
     length (opt_config_type b) = MAX_IxC_BUSES + MAX_SPP_BUSES \<and>
     (\<forall>i < MAX_IxC_BUSES. opt_config_type b ! i \<in> {BUS_CONFIG_NOT_ALLOWED, BUS_CONFIG_I2C, BUS_CONFIG_I3C}) \<and>
     (\<forall>i < MAX_SPP_BUSES. opt_config_type b ! (MAX_IxC_BUSES + i) \<in> {BUS_CONFIG_NOT_ALLOWED, BUS_CONFIG_SPP})"

definition sound_args :: "asd_args \<Rightarrow> bool" where
  "sound_args a \<longleftrightarrow>
     sound_buses (busopt a) \<and>
     (e_auth_type (session_opts a) = AUTH_HDLR_NONE \<longleftrightarrow> e_extnet_type (session_opts a) = EXTNET_HDLR_NON_ENCRYPT) \<and>
     0 < idle_timeout (arg_timeout a) \<and> idle_timeout (arg_timeout a) < 2 ^ 31"

lemma sound_buses_flags [simp]:
  "sound_buses (b\<lparr>opt_enable_i2c := x\<rparr>) = sound_buses b" "sound_buses (b\<lparr>opt_enable_i3c := x\<rparr>) = sound_buses b"
  "sound_buses (b\<lparr>opt_enable_spp := x\<rparr>) = sound_buses b" "sound_buses (b\<lparr>opt_bus := d\<rparr>) = sound_buses b"
  by (simp_all add: sound_buses_def)

lemma store_bus_sound:
  assumes "sound_buses b" "if i < MAX_IxC_BUSES then ty \<in> {BUS_CONFIG_I2C, BUS_CONFIG_I3C}
    else i < MAX_IxC_BUSES + MAX_SPP_BUSES \<and> ty = BUS_CONFIG_SPP"
  shows "ensures (store_bus i ty bus first b) sound_buses"
  using assms by (auto simp: store_bus_def sound_buses_def nth_list_update split: if_splits)

lemma ixc_buses_sound:
  "sound_buses b \<Longrightarrow> ty \<in> {BUS_CONFIG_I2C, BUS_CONFIG_I3C} \<Longrightarrow>
   ensures (ixc_buses ty ts first counter b) (\<lambda>(_, b'). sound_buses b')"
  by (induction ts arbitrary: first counter b)
    (auto simp: Let_def split_def intro!: ensures_conseq [OF store_bus_sound])

lemma spp_buses_sound:
  "sound_buses b \<Longrightarrow> ensures (spp_buses ts first counter b) (\<lambda>(_, b'). sound_buses b')"
  by (induction ts arbitrary: first counter b)
    (auto simp: Let_def split_def intro!: ensures_conseq [OF store_bus_sound])

text \<open>The longest idle time whose milliseconds fit an \<open>int\<close> is 35791 minutes.\<close>

fun timeout_fits :: "getopt_result \<Rightarrow> bool" where
  "timeout_fits (ARG_TIMEOUT a) \<longleftrightarrow> fst (strtol10 a) \<le> 35791 \<or> 65535 < fst (strtol10 a)"
| "timeout_fits _ \<longleftrightarrow> True"

definition sound_result :: "opt_result \<Rightarrow> bool" where
  "sound_result r \<longleftrightarrow> ensures r (\<lambda>x. \<forall>c. x = Some c \<longrightarrow> sound_args (args c))"

lemma sound_result_simps [simp]:
  "sound_result (Some None)" "sound_result (Some (Some c)) = sound_args (args c)" "\<not> sound_result None"
  by (simp_all add: sound_result_def)

lemma process_option_sound:
  assumes "sound_args (args c)" "timeout_fits g"
  shows "sound_result (fst (process_option os g c tr))"
proof -
  have b: "sound_buses (busopt (args c))"
    using assms(1) by (simp add: sound_args_def)
  have ixc: "sound_result (ixc_buses ty ts f n b
      \<bind> (\<lambda>(n, b1). Some (Some (c\<lparr>args := (args c)\<lparr>busopt := b1\<rparr>, bus_counter := n\<rparr>))))"
    if "sound_buses b" "ty \<in> {BUS_CONFIG_I2C, BUS_CONFIG_I3C}" for ty ts f n b
    using assms(1) unfolding sound_result_def
    by (auto simp: sound_args_def split_def intro!: ensures_conseq [OF ixc_buses_sound [OF that]])
  have spp: "sound_result (spp_buses ts f n ((busopt (args c))\<lparr>opt_enable_spp := True\<rparr>)
      \<bind> (\<lambda>(n, b1). Some (Some (c\<lparr>args := (args c)\<lparr>busopt := b1\<rparr>, spp_counter := n\<rparr>))))" for ts f n
    using assms(1) unfolding sound_result_def
    by (auto simp: sound_args_def split_def intro!: ensures_conseq [OF spp_buses_sound])
  show ?thesis
  proof (cases g)
    case (Getopt_i a)
    then show ?thesis
      using ixc b by (simp add: option_i_def)
  next
    case (Getopt_c a)
    then show ?thesis
      using ixc b by (simp add: option_c_def)
  next
    case (Getopt_d a)
    then show ?thesis
      using spp [of "strtok a" True "spp_counter c"] by (simp add: option_d_def)
  qed (use assms in \<open>auto simp: sound_args_def option_p_def option_u_def option_k_def option_n_def option_log_level_def
      option_log_streams_def option_auto_sync_def option_timeout_def MINUTESTOMS_def Let_def split_def
      split: option.split\<close>)
qed

lemma process_options_sound:
  "sound_args (args c) \<Longrightarrow> \<forall>g \<in> set gs. timeout_fits g \<Longrightarrow> sound_result (fst (process_options os gs c tr))"
proof (induction gs arbitrary: c tr)
  case (Cons g gs)
  then have "sound_result (fst (process_option os g c tr))"
    by (simp add: process_option_sound)
  then obtain r where r: "fst (process_option os g c tr) = Some r" "\<forall>c. r = Some c \<longrightarrow> sound_args (args c)"
    by (auto simp: sound_result_def ensures_iff)
  then show ?case
    using Cons by (cases r) (simp_all add: split_def)
qed simp

lemma default_args_sound: "sound_args (default_args zero_args)"
  by (simp add: default_args_def zero_args_def sound_args_def sound_buses_def IDLE_TIMEOUT_MS_def nth_append
      MAX_IxC_BUSES_def MAX_SPP_BUSES_def)

text \<open>An argument of digits, commas, letters and so on is accepted exactly when it is short and has no other character.\<close>

lemma check_chars_iff: "check_chars k cs good \<longleftrightarrow> (if cs = [] then good else list_all (valid_char k) cs)"
  by (induction cs arbitrary: good) auto

lemma validateCharInputs_iff:
  assumes "length input < 2 ^ 16"
  shows "validateCharInputs k input \<longleftrightarrow> input \<noteq> [] \<and> length input < MAX_INPUT_SIZE \<and> list_all (valid_char k) input"
  using assms by (auto simp: validateCharInputs_def check_chars_iff Let_def)

end
