(* ===== verification/Platform_Config.thy ===== *)
theory Platform_Config
  imports Dbus_Helper Config
begin

text \<open>
  The configuration of the platform: the queries of \<open>target/dbus_helper.c\<close> to the object mapper and the entity
  manager, and \<open>target_get_i2c_i3c_config\<close> of \<open>target/target_handler.c\<close>.  Each call of sd-bus is a \<open>Sys_dbus\<close>
  call, named by what it asks for; the answer is negative when it fails, and carries what it stores.
  Releasing replies and errors is left out.  A static path, empty until it is found, is an argument.
\<close>

section \<open>Paths and properties\<close>

definition MAX_PLATFORM_PATH_SIZE :: nat where "MAX_PLATFORM_PATH_SIZE = 120"
definition ASD_CONFIG_PATH :: string where "ASD_CONFIG_PATH = ''xyz.openbmc_project.Configuration.ASD''"
definition MOTHERBOARD_IDENTIFIER :: string where
  "MOTHERBOARD_IDENTIFIER = ''xyz.openbmc_project.Inventory.Item.Board.Motherboard''"

text \<open>A sequence of calls, of which the first that fails is the last.\<close>

fun sd_steps :: "os \<Rightarrow> string list \<Rightarrow> trace \<Rightarrow> bool \<times> trace" where
  "sd_steps os [] tr = (True, tr)"
| "sd_steps os (f # fs) tr = (let (r, tr1) = sys os (Sys_dbus f []) tr in if r < 0 then (False, tr1) else sd_steps os fs tr1)"

text \<open>The string a successful read stored, \<open>None\<close> for NULL.\<close>

definition read_string :: "os \<Rightarrow> string \<Rightarrow> trace \<Rightarrow> string option option \<times> trace" where
  "read_string os f tr =
     (let r = os tr (Sys_dbus f []); tr1 = tr @ [Sys_dbus f []]
      in if fst r < 0 then (None, tr1)
         else (Some (if snd r = [] then None else Some (string_of (takeWhile (\<lambda>b. b \<noteq> 0) (sys_data r)))), tr1))"

text \<open>\<open>strcpy_s\<close> into a path: a string that does not fit leaves the empty one.\<close>

definition copy_path :: "string \<Rightarrow> STATUS \<times> string" where
  "copy_path s = (if length s < MAX_PLATFORM_PATH_SIZE then (ST_OK, s) else (ST_ERR, []))"

definition find_reply :: "string list" where
  "find_reply = [''sd_bus_message_peek_type'', ''sd_bus_message_enter_container'']"

definition dbus_get_path :: "os \<Rightarrow> string \<Rightarrow> string \<Rightarrow> trace \<Rightarrow> STATUS \<times> string \<times> trace" where
  "dbus_get_path os name path tr =
     (let (ok, tr1) = sd_steps os ((''GetSubTreePaths '' @ name) # find_reply) tr
      in if \<not> ok then (ST_ERR, path, tr1)
         else case read_string os ''sd_bus_message_read'' tr1 of
                (Some (Some str), tr2) \<Rightarrow> (let (st, p) = copy_path str in (st, p, tr2))
              | (_, tr2) \<Rightarrow> (ST_ERR, path, tr2))"

text \<open>The path found first is kept in a static variable; \<open>saved\<close> is its value.\<close>

definition dbus_get_platform_path :: "os \<Rightarrow> string \<Rightarrow> string \<Rightarrow> trace \<Rightarrow> STATUS \<times> string \<times> string \<times> trace" where
  "dbus_get_platform_path os saved path tr =
     (if saved \<noteq> [] then (let (st, p) = copy_path saved in (st, p, saved, tr))
      else let (st, p, tr1) = dbus_get_path os MOTHERBOARD_IDENTIFIER path tr
           in (st, p, if st = ST_OK then snd (copy_path p) else saved, tr1))"

text \<open>The identifier that was read before is stored, but the bus is asked again.\<close>

definition dbus_get_platform_id ::
    "os \<Rightarrow> string \<Rightarrow> int option \<Rightarrow> int \<Rightarrow> trace \<Rightarrow> STATUS \<times> int \<times> string \<times> int option \<times> trace" where
  "dbus_get_platform_id os saved_path platform_id pid tr =
     (let pid1 = (case platform_id of None \<Rightarrow> pid | Some v \<Rightarrow> v);
          (st, path, saved, tr1) = dbus_get_platform_path os saved_path [] tr
      in if st \<noteq> ST_OK then (st, pid1, saved, platform_id, tr1)
         else let call = Sys_dbus (''ProductId '' @ path) []; r = os tr1 call
              in if fst r < 0 then (ST_ERR, pid1, saved, platform_id, tr1 @ [call])
                 else let v = horner_sum uint 256 (take 8 (sys_data r)) in (ST_OK, v, saved, Some v, tr1 @ [call]))"

datatype property = Prop_bool bool | Prop_string string

text \<open>One property of the configuration, a truth value (\<open>b\<close>) or a string (\<open>s\<close>); \<open>var\<close> is what the caller's variable holds.\<close>

definition dbus_read_asd_config ::
    "os \<Rightarrow> string \<Rightarrow> string \<Rightarrow> string \<Rightarrow> char \<Rightarrow> property \<Rightarrow> trace \<Rightarrow> STATUS \<times> property \<times> string \<times> trace" where
  "dbus_read_asd_config os path interface name ty var tr =
     (let (st, p, tr1) = (if path = [] then dbus_get_path os ASD_CONFIG_PATH path tr else (ST_OK, path, tr));
          prop = interface @ ''.'' @ name
      in if st \<noteq> ST_OK then (st, var, p, tr1)
         else if ty = CHR ''b'' then
           (let call = Sys_dbus prop []; r = os tr1 call
            in if fst r < 0 then (ST_ERR, var, p, tr1 @ [call])
               else (ST_OK, Prop_bool (sys_int r \<noteq> 0), p, tr1 @ [call]))
         else if ty = CHR ''s'' then
           (case read_string os prop tr1 of
              (None, tr2) \<Rightarrow> (ST_ERR, var, p, tr2)
            | (Some None, tr2) \<Rightarrow> (ST_OK, var, p, tr2)
            | (Some (Some str), tr2) \<Rightarrow> (let (st2, s) = copy_path str in (st2, Prop_string s, p, tr2)))
         else (ST_ERR, var, p, tr1))"

text \<open>The interfaces that exist, among those of the given names; the loop ends at the first failure.\<close>

fun interface_paths :: "os \<Rightarrow> string list \<Rightarrow> string option list \<Rightarrow> trace \<Rightarrow> STATUS \<times> string option list \<times> trace" where
  "interface_paths os [] found tr = (ST_OK, found, tr)"
| "interface_paths os (n # ns) found tr =
     (let interface = ASD_CONFIG_PATH @ ''.'' @ n; (ok, tr1) = sd_steps os ((''GetSubTreePaths '' @ interface) # find_reply) tr
      in if \<not> ok then (ST_ERR, found, tr1)
         else case read_string os ''sd_bus_message_read'' tr1 of
                (None, tr2) \<Rightarrow> (ST_ERR, found, tr2)
              | (Some str, tr2) \<Rightarrow>
                  (if str \<noteq> None \<and> fst (copy_path interface) \<noteq> ST_OK then (ST_ERR, found @ [Some []], tr2)
                   else let found1 = found @ [if str = None then None else Some interface];
                            (r, tr3) = sys os (Sys_dbus ''sd_bus_message_exit_container'' []) tr2
                        in if r < 0 then (ST_ERR, found1, tr3) else interface_paths os ns found1 tr3))"

definition dbus_get_asd_interface_paths :: "os \<Rightarrow> string list \<Rightarrow> trace \<Rightarrow> STATUS \<times> string option list \<times> trace" where
  "dbus_get_asd_interface_paths os names tr = interface_paths os names [] tr"

definition dbus_get_chain_select_delay :: "os \<Rightarrow> string \<Rightarrow> u32 \<Rightarrow> trace \<Rightarrow> STATUS \<times> u32 \<times> string \<times> trace" where
  "dbus_get_chain_select_delay os path delay_us tr =
     (let (st, p, tr1) = (if path = [] then dbus_get_path os ASD_CONFIG_PATH path tr else (ST_OK, path, tr))
      in if st \<noteq> ST_OK then (ST_ERR, delay_us, [], tr1)
         else let call = Sys_dbus (ASD_CONFIG_PATH @ ''.ChainSelectDelayUs'') []; r = os tr1 call
              in if fst r < 0 then (ST_ERR, delay_us, p, tr1 @ [call])
                 else (ST_OK, of_int (horner_sum uint 256 (take 8 (sys_data r))), p, tr1 @ [call]))"

section \<open>Ownership of the I3C bus\<close>

definition dbus_read_i3c_ownership :: "os \<Rightarrow> bool \<Rightarrow> trace \<Rightarrow> STATUS \<times> bool \<times> trace" where
  "dbus_read_i3c_ownership os owner tr =
     (let call = Sys_dbus ''IsBmcOwner'' []; r = os tr call
      in if fst r < 0 then (ST_ERR, owner, tr @ [call]) else (ST_OK, sys_int r \<noteq> 0, tr @ [call]))"

definition dbus_req_i3c_ownership :: "os \<Rightarrow> int \<Rightarrow> trace \<Rightarrow> STATUS \<times> int \<times> trace" where
  "dbus_req_i3c_ownership os token tr =
     (let (ok, tr1) = sd_steps os (''RequestOwnership Forced'' # find_reply) tr
      in if \<not> ok then (ST_ERR, token, tr1)
         else let c1 = Sys_dbus ''sd_bus_message_read i'' []; r = os tr1 c1; tr2 = tr1 @ [c1]
              in if fst r < 0 then (ST_ERR, token, tr2)
                 else let c2 = Sys_dbus ''sd_bus_message_read b'' []; q = os tr2 c2; tr3 = tr2 @ [c2]
                      in if fst q < 0 then (ST_ERR, sys_int r, tr3)
                         else (if sys_int q = 0 then ST_ERR else ST_OK, sys_int r, tr3 @ [Sys_dbus ''sd_bus_message_exit_container'' []]))"

definition dbus_rel_i3c_ownership :: "os \<Rightarrow> int \<Rightarrow> trace \<Rightarrow> STATUS \<times> trace" where
  "dbus_rel_i3c_ownership os token tr =
     (let (r, tr1) = sys os (Sys_dbus ''ReleaseOwnership Forced'' [token]) tr in (if r < 0 then ST_ERR else ST_OK, tr1))"

section \<open>Power\<close>

definition dbus_power_toggle :: "os \<Rightarrow> Dbus_Handle \<Rightarrow> trace \<Rightarrow> STATUS \<times> trace" where
  "dbus_power_toggle os state tr =
     (if bus_open state then
        (let (r, tr1) = sys os (Sys_dbus ''CurrentPowerState'' []) tr
         in if r < 0 then (ST_ERR, tr1)
            else case read_string os ''sd_bus_message_read'' tr1 of
                   (None, tr2) \<Rightarrow> (ST_ERR, tr2)
                 | (Some v, tr2) \<Rightarrow> (if v = Some POWER_ON_PROPERTY_CHASSIS then dbus_power_off os state tr2
                                   else dbus_power_on os state tr2))
      else (ST_ERR, tr))"

text \<open>
  A signal of changed properties, given by its entries: the name of a property, and the string of its value, or
  \<open>None\<close> where it cannot be read.  Entries of other properties are skipped.
\<close>

definition POWER_OFF_PROPERTY_CHASSIS :: string where
  "POWER_OFF_PROPERTY_CHASSIS = ''xyz.openbmc_project.State.Chassis.PowerState.Off''"

fun scan_entries :: "(string option \<times> string option) list \<Rightarrow> STATUS \<Rightarrow> string \<Rightarrow> STATUS \<times> string" where
  "scan_entries [] st str = (st, str)"
| "scan_entries ((None, v) # es) st str = (ST_ERR, str)"
| "scan_entries ((Some n, v) # es) st str =
     (if n \<noteq> ''CurrentPowerState'' then scan_entries es st n
      else case v of None \<Rightarrow> (ST_ERR, n) | Some s \<Rightarrow> scan_entries es ST_OK s)"

definition match_callback :: "(string option \<times> string option) list option \<Rightarrow> bool \<Rightarrow> Dbus_Handle \<Rightarrow> STATUS \<times> Dbus_Handle" where
  "match_callback entries exit_ok state =
     (case entries of None \<Rightarrow> (ST_ERR, state)
      | Some es \<Rightarrow>
          (let (st, str) = scan_entries es ST_ERR []
           in if st = ST_OK
              then (if exit_ok then ST_OK else ST_ERR,
                    state\<lparr>power_state := if str = POWER_OFF_PROPERTY_CHASSIS then STATE_OFF else STATE_ON\<rparr>)
              else (st, state)))"

section \<open>Buses\<close>

fun BUS_CONFIG_TYPE_STRINGS :: "bus_config_type \<Rightarrow> string" where
  "BUS_CONFIG_TYPE_STRINGS BUS_CONFIG_NOT_ALLOWED = ''BUS_CONFIG_NOT_ALLOWED''"
| "BUS_CONFIG_TYPE_STRINGS BUS_CONFIG_I2C = ''BUS_CONFIG_I2C''"
| "BUS_CONFIG_TYPE_STRINGS BUS_CONFIG_I3C = ''BUS_CONFIG_I3C''"
| "BUS_CONFIG_TYPE_STRINGS BUS_CONFIG_SPP = ''BUS_CONFIG_SPP''"
| "BUS_CONFIG_TYPE_STRINGS BUS_CONFIG_I3C_DBG = ''BUS_CONFIG_I3C_DBG''"

definition put_bus :: "nat \<Rightarrow> bus_config_type \<Rightarrow> u8 \<Rightarrow> bus_options \<Rightarrow> bus_options option" where
  "put_bus i ty bus b = do {
     m \<leftarrow> wr (opt_config_map b) i bus;
     t \<leftarrow> wr (opt_config_type b) i ty;
     Some (b\<lparr>opt_config_map := m, opt_config_type := t\<rparr>) }"

definition disable_buses :: "bus_options \<Rightarrow> bus_options" where
  "disable_buses b =
     b\<lparr>opt_enable_i2c := False, opt_enable_i3c := False, opt_enable_spp := False,
       opt_config_type := replicate (MAX_IxC_BUSES + MAX_SPP_BUSES) BUS_CONFIG_NOT_ALLOWED,
       opt_config_map := replicate (MAX_IxC_BUSES + MAX_SPP_BUSES) 0\<rparr>"

text \<open>One entry, of a type that names a bus: the new table and counters, or \<open>None\<close> for an unknown type.\<close>

definition enter_bus ::
    "string \<Rightarrow> u8 \<Rightarrow> nat \<Rightarrow> nat \<Rightarrow> bus_options \<Rightarrow> (nat \<times> nat \<times> bus_options) option option" where
  "enter_bus str bus j k b =
     (if str = BUS_CONFIG_TYPE_STRINGS BUS_CONFIG_I2C then do {
        b1 \<leftarrow> put_bus j BUS_CONFIG_I2C bus b;
        Some (Some (j + 1, k, if opt_enable_i2c b1 then b1 else b1\<lparr>opt_enable_i2c := True, opt_bus := bus\<rparr>)) }
      else if str = BUS_CONFIG_TYPE_STRINGS BUS_CONFIG_I3C then do {
        b1 \<leftarrow> put_bus j BUS_CONFIG_I3C bus b;
        Some (Some (j + 1, k, if opt_enable_i3c b1 then b1 else b1\<lparr>opt_enable_i3c := True, opt_bus := bus\<rparr>)) }
      else if str = BUS_CONFIG_TYPE_STRINGS BUS_CONFIG_SPP \<or> str = BUS_CONFIG_TYPE_STRINGS BUS_CONFIG_I3C_DBG then do {
        b1 \<leftarrow> put_bus (MAX_IxC_BUSES + k) BUS_CONFIG_SPP bus b;
        Some (Some (j, k + 1, if opt_enable_spp b1 then b1 else b1\<lparr>opt_enable_spp := True, opt_bus := bus\<rparr>)) }
      else Some None)"

definition bus_interface :: "nat \<Rightarrow> string" where
  "bus_interface i = ASD_CONFIG_PATH @ ''.BusConfig'' @ dec_nat i"

fun read_buses ::
    "os \<Rightarrow> nat list \<Rightarrow> nat \<Rightarrow> nat \<Rightarrow> u8 \<Rightarrow> bus_options \<Rightarrow> trace \<Rightarrow> (STATUS \<times> bus_options \<times> trace) option" where
  "read_buses os [] j k bus b tr = Some (ST_OK, b, tr)"
| "read_buses os (i # is) j k bus b tr =
     (let call = Sys_dbus (bus_interface i @ ''.BusNum'') []; r = os tr call; tr1 = tr @ [call];
          bus1 = (case sys_data r of [] \<Rightarrow> bus | x # _ \<Rightarrow> x)
      in if fst r < 0 then Some (ST_OK, b, tr1)
         else case read_string os (bus_interface i @ ''.BusType'') tr1 of
                (None, tr2) \<Rightarrow> Some (ST_ERR, b, tr2)
              | (Some None, tr2) \<Rightarrow> None
              | (Some (Some str), tr2) \<Rightarrow>
                  (if str = BUS_CONFIG_TYPE_STRINGS BUS_CONFIG_NOT_ALLOWED then do {
                     b1 \<leftarrow> put_bus j BUS_CONFIG_NOT_ALLOWED bus1 b;
                     read_buses os is (j + 1) k bus1 b1 tr2 }
                   else if j \<ge> MAX_IxC_BUSES \<or> k \<ge> MAX_SPP_BUSES then Some (ST_OK, b, tr2)
                   else do {
                     e \<leftarrow> enter_bus str bus1 j k b;
                     case e of None \<Rightarrow> Some (ST_ERR, b, tr2)
                     | Some (j1, k1, b1) \<Rightarrow> read_buses os is j1 k1 bus1 b1 tr2 }))"

text \<open>A configuration that cannot be read disables the I2C and I3C buses only.\<close>

definition dbus_get_platform_bus_config ::
    "os \<Rightarrow> string \<Rightarrow> bus_options \<Rightarrow> trace \<Rightarrow> (STATUS \<times> bus_options \<times> string \<times> trace) option" where
  "dbus_get_platform_bus_config os path busopt tr =
     (let b = disable_buses busopt;
          (st, p, tr1) = (if path = [] then dbus_get_path os ASD_CONFIG_PATH path tr else (ST_OK, path, tr))
      in if st \<noteq> ST_OK then Some (st, b, p, tr1)
         else do {
           (st2, b2, tr2) \<leftarrow> read_buses os [0..<MAX_IxC_BUSES + MAX_SPP_BUSES] 0 0 0 b tr1;
           Some (st2,
             if st2 = ST_OK then b2
             else b2\<lparr>opt_enable_i2c := False, opt_enable_i3c := False,
                     opt_config_type := replicate MAX_IxC_BUSES BUS_CONFIG_NOT_ALLOWED @ drop MAX_IxC_BUSES (opt_config_type b2),
                     opt_config_map := replicate MAX_IxC_BUSES 0 @ drop MAX_IxC_BUSES (opt_config_map b2)\<rparr>,
             p, tr2) })"

text \<open>The caller's options stay as they were when there is no connection to the system bus.\<close>

definition target_get_i2c_i3c_config ::
    "os \<Rightarrow> string \<Rightarrow> bus_options \<Rightarrow> trace \<Rightarrow> (STATUS \<times> bus_options \<times> string \<times> trace) option" where
  "target_get_i2c_i3c_config os path busopt tr =
     (case dbus_helper os tr of
        (None, tr1) \<Rightarrow> Some (ST_ERR, busopt, path, tr1)
      | (Some h, tr1) \<Rightarrow>
          (let (r, tr2) = sys os (Sys_dbus ''sd_bus_open_system'' []) tr1
           in if r < 0 then Some (ST_ERR, busopt, path, tr2)
              else do {
                let (fd, tr3) = sys os (Sys_dbus ''sd_bus_get_fd'' []) tr2;
                (st, b, p, tr4) \<leftarrow> (if fd < 0 then Some (ST_ERR, busopt, path, tr3)
                                    else dbus_get_platform_bus_config os path busopt tr3);
                let (_, _, tr5) = dbus_deinitialize os (h\<lparr>bus_open := True, dbus_fd := fd\<rparr>) tr4;
                Some (st, b, p, tr5) }))"

section \<open>The table of buses is well-formed\<close>

definition wf_options :: "bus_options \<Rightarrow> bool" where
  "wf_options b \<longleftrightarrow> length (opt_config_map b) = MAX_IxC_BUSES + MAX_SPP_BUSES \<and>
                  length (opt_config_type b) = MAX_IxC_BUSES + MAX_SPP_BUSES"

text \<open>The type of a bus that is read has a value.\<close>

definition strings_stored :: "os \<Rightarrow> bool" where
  "strings_stored os \<longleftrightarrow>
     (\<forall>tr i. let r = os tr (Sys_dbus (bus_interface i @ ''.BusType'') []) in 0 \<le> fst r \<longrightarrow> snd r \<noteq> [])"

lemma put_bus_wf: "wf_options b \<Longrightarrow> i < MAX_IxC_BUSES + MAX_SPP_BUSES \<Longrightarrow> ensures (put_bus i ty bus b) wf_options"
  by (auto simp: put_bus_def wf_options_def)

lemma enter_bus_wf:
  assumes "wf_options b" "j < MAX_IxC_BUSES" "k < MAX_SPP_BUSES"
  shows "ensures (enter_bus str bus j k b) (\<lambda>e. case e of None \<Rightarrow> True | Some (j', k', b') \<Rightarrow> wf_options b' \<and> j' \<le> Suc j)"
  using assms
  by (auto simp: enter_bus_def wf_options_def put_bus_def)

lemma read_buses_wf:
  assumes "wf_options b" "j + length is \<le> MAX_IxC_BUSES + MAX_SPP_BUSES" "strings_stored os"
  shows "ensures (read_buses os is j k bus b tr) (\<lambda>(st, b', tr'). wf_options b')"
  using assms(1,2)
proof (induction "is" arbitrary: j k bus b tr)
  case (Cons i "is")
  have str: "read_string os (bus_interface i @ ''.BusType'') t \<noteq> (Some None, x)" for t x
    using assms(3) by (auto simp: read_string_def strings_stored_def Let_def)
  show ?case
    using Cons by (auto simp: Let_def str split: option.split prod.split
        intro!: ensures_conseq [OF put_bus_wf] ensures_conseq [OF enter_bus_wf] Cons.IH)
qed simp

lemma target_get_i2c_i3c_config_wf:
  assumes "wf_options b" "strings_stored os"
  shows "ensures (target_get_i2c_i3c_config os path b tr) (\<lambda>(st, b', p, tr'). wf_options b')"
proof -
  have d: "wf_options (disable_buses b)"
    by (simp add: wf_options_def disable_buses_def)
  have "ensures (dbus_get_platform_bus_config os path b t) (\<lambda>(st, b', p, tr'). wf_options b')" for t
    using d assms(2)
    by (auto simp: dbus_get_platform_bus_config_def Let_def split: prod.split intro!: ensures_conseq [OF read_buses_wf])
      (auto simp: wf_options_def)
  then show ?thesis
    using assms(1) by (auto simp: target_get_i2c_i3c_config_def Let_def split_def split: option.split prod.split intro!: ensures_conseq)
qed

text \<open>A platform without debug buses: no bus is of their types.\<close>

definition plain_platform :: "os \<Rightarrow> bool" where
  "plain_platform os \<longleftrightarrow> (\<forall>tr i str t. read_string os (bus_interface i @ ''.BusType'') tr = (Some (Some str), t) \<longrightarrow>
     str \<noteq> BUS_CONFIG_TYPE_STRINGS BUS_CONFIG_SPP \<and> str \<noteq> BUS_CONFIG_TYPE_STRINGS BUS_CONFIG_I3C_DBG)"

definition plain_options :: "bus_options \<Rightarrow> bool" where
  "plain_options b \<longleftrightarrow> wf_options b \<and> \<not> opt_enable_spp b"

lemma read_buses_plain:
  assumes "plain_platform os" "plain_options b" "j + length is \<le> MAX_IxC_BUSES + MAX_SPP_BUSES" "strings_stored os"
  shows "ensures (read_buses os is j k bus b tr) (\<lambda>(st, b', tr'). plain_options b')"
  using assms(2,3)
proof (induction "is" arbitrary: j k bus b tr)
  case (Cons i "is")
  have str: "read_string os (bus_interface i @ ''.BusType'') t \<noteq> (Some None, x)" for t x
    using assms(4) by (auto simp: read_string_def strings_stored_def Let_def)
  have put: "ensures (put_bus j ty bus b) plain_options" if "j < MAX_IxC_BUSES + MAX_SPP_BUSES" for ty bus
    using Cons.prems that by (auto simp: put_bus_def plain_options_def wf_options_def)
  have enter: "ensures (enter_bus s bus j k b) (\<lambda>e. case e of None \<Rightarrow> True | Some (j', k', b') \<Rightarrow> plain_options b' \<and> j' \<le> Suc j)"
    if "j < MAX_IxC_BUSES" "s \<noteq> BUS_CONFIG_TYPE_STRINGS BUS_CONFIG_SPP" "s \<noteq> BUS_CONFIG_TYPE_STRINGS BUS_CONFIG_I3C_DBG" for s bus
    using that Cons.prems by (auto simp: enter_bus_def put_bus_def plain_options_def wf_options_def)
  note plain = assms(1) [unfolded plain_platform_def, rule_format]
  show ?case
    using Cons.prems
    by (auto simp: Let_def str dest!: plain split: option.split prod.split
        intro!: ensures_conseq [OF put] ensures_conseq [OF enter] Cons.IH)
qed simp

lemma target_get_i2c_i3c_config_plain:
  assumes "plain_options b" "strings_stored os" "plain_platform os"
  shows "ensures (target_get_i2c_i3c_config os path b tr) (\<lambda>(st, b', p, tr'). plain_options b')"
proof -
  have d: "plain_options (disable_buses b)"
    by (simp add: plain_options_def wf_options_def disable_buses_def)
  have "ensures (dbus_get_platform_bus_config os path b t) (\<lambda>(st, b', p, tr'). plain_options b')" for t
    using d assms(2,3)
    by (auto simp: dbus_get_platform_bus_config_def Let_def split: prod.split intro!: ensures_conseq [OF read_buses_plain])
      (auto simp: plain_options_def wf_options_def)
  then show ?thesis
    using assms(1) by (auto simp: target_get_i2c_i3c_config_def Let_def split_def split: option.split prod.split intro!: ensures_conseq)
qed

end
