(* ===== verification/Target_Api.thy ===== *)
theory Target_Api
  imports Msg_Safety Platform_Config Logging
begin

text \<open>
  The thin layer between the server and the message layer: \<open>server/asd_target_interface.c\<close> and
  \<open>target/asd_target_api.c\<close> towards the target, \<open>target/asd_server_interface.c\<close> and \<open>server/asd_server_api.c\<close>
  towards the server.  Both sides compare their versions before they use each other.  An \<open>ioctl\<close> is a command
  with its input and answers a status and an output.
\<close>

section \<open>Versions\<close>

text \<open>\<open>sprintf_s\<close> of three numbers into 12 characters.\<close>

definition version_string :: "nat \<Rightarrow> nat \<Rightarrow> nat \<Rightarrow> STATUS \<times> string" where
  "version_string major minor patch =
     (let s = dec_nat major @ ''.'' @ dec_nat minor @ ''.'' @ dec_nat patch
      in if length s < 12 then (ST_OK, s) else (ST_ERR, []))"

definition asd_server_version :: "STATUS \<times> string" where "asd_server_version = version_string 1 0 0"
definition asd_server_interface_version :: "STATUS \<times> string" where "asd_server_interface_version = version_string 1 0 0"
definition asd_target_version :: "STATUS \<times> string" where "asd_target_version = version_string 1 0 0"
definition asd_target_interface_version :: "STATUS \<times> string" where "asd_target_interface_version = version_string 1 0 0"

definition asd_is_api_server_version_supported :: "string \<Rightarrow> bool" where
  "asd_is_api_server_version_supported version =
     (let (st, v) = asd_server_version in st = ST_OK \<and> version = v)"

definition asd_is_api_target_version_supported :: "string \<Rightarrow> bool" where
  "asd_is_api_target_version_supported version =
     (let (st, v) = asd_target_version in st = ST_OK \<and> version = v)"

section \<open>Towards the server\<close>

datatype server_cmd =
    IOCTL_SERVER_GET_API_VERSION
  | IOCTL_SERVER_GET_INTERFACE_VERSION
  | IOCTL_SERVER_IS_INTERFACE_SUPPORTED string
  | IOCTL_SERVER_IS_DATA_PENDING

datatype server_out = Server_none | Server_version string | Server_flag bool

fun asd_server_ioctl :: "Server \<Rightarrow> server_cmd \<Rightarrow> STATUS \<times> server_out" where
  "asd_server_ioctl srv IOCTL_SERVER_GET_API_VERSION = (fst asd_server_version, Server_version (snd asd_server_version))"
| "asd_server_ioctl srv IOCTL_SERVER_IS_DATA_PENDING = (ST_OK, Server_flag (is_data_pending srv))"
| "asd_server_ioctl srv _ = (ST_ERR, Server_none)"

fun asd_api_server_ioctl :: "Server \<Rightarrow> server_cmd \<Rightarrow> STATUS \<times> server_out" where
  "asd_api_server_ioctl srv IOCTL_SERVER_GET_INTERFACE_VERSION =
     (fst asd_server_interface_version, Server_version (snd asd_server_interface_version))"
| "asd_api_server_ioctl srv (IOCTL_SERVER_IS_INTERFACE_SUPPORTED v) =
     (ST_OK, Server_flag (asd_is_api_server_version_supported v))"
| "asd_api_server_ioctl srv cmd = asd_server_ioctl srv cmd"

section \<open>Towards the target\<close>

text \<open>What the operations find uninitialised, and the version string of the program.\<close>

record env =
  env_version :: "u8 list"
  env_zero_copy :: bool
  env_locals :: locals
  env_event :: u32
  env_uninit :: uninit

definition asd_target_init :: "os \<Rightarrow> env \<Rightarrow> Server \<Rightarrow> config \<Rightarrow> ASD_MSG \<Rightarrow> trace \<Rightarrow> (STATUS \<times> ASD_MSG \<times> trace) option" where
  "asd_target_init os e srv cfg s tr =
     (case asd_api_server_ioctl srv IOCTL_SERVER_GET_INTERFACE_VERSION of
        (ST_OK, Server_version v) \<Rightarrow>
          (case asd_api_server_ioctl srv (IOCTL_SERVER_IS_INTERFACE_SUPPORTED v) of
             (ST_OK, Server_flag supported) \<Rightarrow>
               (if supported then asd_msg_init os (env_zero_copy e) (env_uninit e) cfg s tr else Some (ST_ERR, s, tr))
           | (st, _) \<Rightarrow> Some (st, s, tr))
      | (st, _) \<Rightarrow> Some (st, s, tr))"

definition asd_api_target_init :: "os \<Rightarrow> env \<Rightarrow> Server \<Rightarrow> config \<Rightarrow> ASD_MSG \<Rightarrow> trace \<Rightarrow> (STATUS \<times> ASD_MSG \<times> trace) option" where
  "asd_api_target_init os e srv cfg s tr =
     (let (st, v) = asd_target_interface_version
      in if st \<noteq> ST_OK then Some (st, s, tr)
         else if asd_is_api_target_version_supported v then asd_target_init os e srv cfg s tr else Some (ST_ERR, s, tr))"

definition asd_target_deinit :: "os \<Rightarrow> ASD_MSG \<Rightarrow> trace \<Rightarrow> (STATUS \<times> ASD_MSG \<times> trace) option" where
  "asd_target_deinit os s tr = asd_msg_free os s tr"

definition asd_api_target_deinit :: "os \<Rightarrow> ASD_MSG \<Rightarrow> trace \<Rightarrow> (STATUS \<times> ASD_MSG \<times> trace) option" where
  "asd_api_target_deinit os s tr = asd_target_deinit os s tr"

definition asd_target_read :: "u8 list \<Rightarrow> nat" where "asd_target_read bf = 0"
definition asd_target_write :: "u8 list \<Rightarrow> nat" where "asd_target_write bf = 0"
definition asd_api_target_read :: "u8 list \<Rightarrow> nat" where "asd_api_target_read bf = asd_target_read bf"
definition asd_api_target_write :: "u8 list \<Rightarrow> nat" where "asd_api_target_write bf = asd_target_write bf"

definition asd_target_process_pin_event ::
    "os \<Rightarrow> env \<Rightarrow> Server \<Rightarrow> int \<Rightarrow> u16 \<Rightarrow> ASD_MSG \<Rightarrow> trace \<Rightarrow> (STATUS \<times> ASD_MSG \<times> trace) option" where
  "asd_target_process_pin_event os e srv fd revents s tr = asd_msg_event os srv (env_event e) fd revents s tr"

text \<open>The descriptors of one round, with the events \<open>poll\<close> reports for each.\<close>

fun pin_round :: "os \<Rightarrow> env \<Rightarrow> Server \<Rightarrow> (int \<times> u16) list \<Rightarrow> ASD_MSG \<Rightarrow> trace \<Rightarrow> (STATUS \<times> ASD_MSG \<times> trace) option" where
  "pin_round os e srv [] s tr = Some (ST_OK, s, tr)"
| "pin_round os e srv ((fd, rv) # fds) s tr = do {
     (st, s1, tr1) \<leftarrow> asd_target_process_pin_event os e srv fd rv s tr;
     if st \<noteq> ST_OK then Some (st, s1, tr1) else pin_round os e srv fds s1 tr1 }"

text \<open>The loop ends when there is no event: \<open>None\<close> also stands for a loop that never ends.\<close>

partial_function (option) asd_target_process_all_pin_events ::
    "os \<Rightarrow> env \<Rightarrow> Server \<Rightarrow> (int \<times> nat) list \<Rightarrow> ASD_MSG \<Rightarrow> trace \<Rightarrow> (STATUS \<times> ASD_MSG \<times> trace) option" where
  "asd_target_process_all_pin_events os e srv fds s tr =
     (let call = Sys_pollfds fds (asd_poll_timeout_ms s); r = os tr call; tr1 = tr @ [call]
      in if fst r \<le> 0 then Some (ST_OK, s\<lparr>asd_poll_timeout_ms := 0\<rparr>, tr1)
         else do {
           x \<leftarrow> pin_round os e srv (zip (map fst fds) (revents_of (snd r) (length fds))) s tr1;
           if fst x \<noteq> ST_OK then Some x
           else asd_target_process_all_pin_events os e srv fds (fst (snd x)) (snd (snd x)) })"

datatype target_cmd =
    IOCTL_TARGET_GET_API_VERSION
  | IOCTL_TARGET_GET_INTERFACE_VERSION
  | IOCTL_TARGET_IS_INTERFACE_SUPPORTED string
  | IOCTL_TARGET_PROCESS_MSG
  | IOCTL_TARGET_GET_PIN_FDS
  | IOCTL_TARGET_PROCESS_ALL_PIN_EVENTS "(int \<times> nat) list"
  | IOCTL_TARGET_PROCESS_PIN_EVENT int u16
  | IOCTL_TARGET_SEND_REMOTE_LOG_MSG ASD_LogLevel string
  | IOCTL_TARGET_GET_I2C_I3C_BUS_CONFIG string bus_options

datatype target_out =
    Target_none | Target_version string | Target_flag bool | Target_fds "(int \<times> nat) list" | Target_buses bus_options string

type_synonym target_res = "(STATUS \<times> target_out \<times> ASD_MSG \<times> Server \<times> trace) option"

fun asd_target_ioctl :: "os \<Rightarrow> env \<Rightarrow> Server \<Rightarrow> target_cmd \<Rightarrow> ASD_MSG \<Rightarrow> trace \<Rightarrow> target_res" where
  "asd_target_ioctl os e srv IOCTL_TARGET_GET_API_VERSION s tr =
     Some (fst asd_target_version, Target_version (snd asd_target_version), s, srv, tr)"
| "asd_target_ioctl os e srv IOCTL_TARGET_PROCESS_MSG s tr = do {
     (st, s1, srv1, tr1) \<leftarrow> asd_msg_read os srv (env_version e) (env_zero_copy e) (env_locals e) s tr;
     Some (st, Target_none, s1, srv1, tr1) }"
| "asd_target_ioctl os e srv IOCTL_TARGET_GET_PIN_FDS s tr = do {
     (st, fds) \<leftarrow> asd_msg_get_fds s;
     Some (st, Target_fds fds, s, srv, tr) }"
| "asd_target_ioctl os e srv (IOCTL_TARGET_PROCESS_ALL_PIN_EVENTS fds) s tr = do {
     (st, s1, tr1) \<leftarrow> asd_target_process_all_pin_events os e srv fds s tr;
     Some (st, Target_none, s1, srv, tr1) }"
| "asd_target_ioctl os e srv (IOCTL_TARGET_PROCESS_PIN_EVENT fd rv) s tr = do {
     (st, s1, tr1) \<leftarrow> asd_target_process_pin_event os e srv fd rv s tr;
     Some (st, Target_none, s1, srv, tr1) }"
| "asd_target_ioctl os e srv (IOCTL_TARGET_SEND_REMOTE_LOG_MSG level msg) s tr = do {
     tr1 \<leftarrow> send_remote_log_message os srv s (level_num level) (bytes_of msg) tr;
     Some (ST_OK, Target_none, s, srv, tr1) }"
| "asd_target_ioctl os e srv (IOCTL_TARGET_GET_I2C_I3C_BUS_CONFIG path b) s tr = do {
     (st, b1, p, tr1) \<leftarrow> target_get_i2c_i3c_config os path b tr;
     Some (st, Target_buses b1 p, s, srv, tr1) }"
| "asd_target_ioctl os e srv _ s tr = Some (ST_ERR, Target_none, s, srv, tr)"

fun asd_api_target_ioctl :: "os \<Rightarrow> env \<Rightarrow> Server \<Rightarrow> target_cmd \<Rightarrow> ASD_MSG \<Rightarrow> trace \<Rightarrow> target_res" where
  "asd_api_target_ioctl os e srv IOCTL_TARGET_GET_INTERFACE_VERSION s tr =
     Some (fst asd_target_interface_version, Target_version (snd asd_target_interface_version), s, srv, tr)"
| "asd_api_target_ioctl os e srv (IOCTL_TARGET_IS_INTERFACE_SUPPORTED v) s tr =
     Some (ST_OK, Target_flag (asd_is_api_target_version_supported v), s, srv, tr)"
| "asd_api_target_ioctl os e srv cmd s tr = asd_target_ioctl os e srv cmd s tr"

section \<open>The versions agree\<close>

lemma asd_api_target_init_eq: "asd_api_target_init os e srv cfg s tr = asd_msg_init os (env_zero_copy e) (env_uninit e) cfg s tr"
proof -
  have "version_string 1 0 0 = (ST_OK, ''1.0.0'')"
    by code_simp
  then show ?thesis
    by (simp add: asd_api_target_init_def asd_target_init_def asd_target_interface_version_def asd_server_interface_version_def
        asd_is_api_target_version_supported_def asd_is_api_server_version_supported_def asd_target_version_def asd_server_version_def)
qed

section \<open>The pin events come to an end\<close>

text \<open>An event does not poll, and starts no collection of a bulk response.\<close>

definition calm :: "ASD_MSG \<Rightarrow> bool" where
  "calm s \<longleftrightarrow> spp_bulk_response_buffer_count s = 0"

lemma asd_msg_event_unpolled:
  assumes "calm s"
  shows "whenever (asd_msg_event os srv g fd rv s tr) (\<lambda>(st, s', tr'). calm s' \<and> polls tr' = polls tr)"
proof -
  have c: "spp_bulk_response_buffer_count s = 0"
    using assms by (simp add: calm_def)
  have err: "whenever (send_error_message os srv m k t) (\<lambda>t'. polls t' = polls t)" for m k t
    unfolding send_error_message_def by (auto simp: Let_def split_def intro!: whenever_conseq [OF send_response_unpolled])
  have bpk: "whenever (send_bpk_event os srv e d s1 t) (\<lambda>(st, s', tr'). s' = s1 \<and> polls tr' = polls t)"
    if "spp_bulk_response_buffer_count s1 = 0" for e d s1 t
    by (rule send_bpk_event_unpolled) (use that in \<open>simp add: bulk_collects_def\<close>)
  show ?thesis
    unfolding asd_msg_event_def send_pin_event_def
    using c by (auto simp: split_def calm_def split: option.split
        intro!: whenever_conseq [OF target_event_unpolled] whenever_conseq [OF err] whenever_conseq [OF bpk]
          whenever_conseq [OF send_response_unpolled])
qed

definition pins_next :: "ASD_MSG \<Rightarrow> trace \<Rightarrow> STATUS \<times> ASD_MSG \<times> trace \<Rightarrow> bool" where
  "pins_next s tr = (\<lambda>(st, s', tr'). event_next s tr (st, s', tr') \<and> calm s')"

lemma pin_event_next:
  assumes "wf_msg s" "wf_server srv" "calm s"
  shows "ensures (asd_target_process_pin_event os e srv fd rv s tr) (\<lambda>(st, s', tr'). pins_next s tr (st, s', tr') \<and> polls tr' = polls tr)"
  unfolding asd_target_process_pin_event_def
  by (rule ensures_conseq [OF ensures_whenever [OF asd_msg_event_safe asd_msg_event_unpolled]])
    (use assms in \<open>auto simp: calm_def pins_next_def\<close>)

lemma pins_next_trans:
  assumes "pins_next s tr (st, s1, tr1)" "pins_next s1 tr1 x"
  shows "pins_next s tr x"
  using assms event_next_trans by (fastforce simp: pins_next_def)

lemma pins_next_keeps: "pins_next s tr (st, s', tr') \<Longrightarrow> wf_msg s' \<and> calm s'"
  by (simp add: pins_next_def event_next_def)

lemma pin_round_next:
  assumes "wf_msg s" "wf_server srv" "calm s"
  shows "ensures (pin_round os e srv fds s tr) (\<lambda>(st, s', tr'). pins_next s tr (st, s', tr') \<and> polls tr' = polls tr)"
  using assms(1,3)
proof (induction fds arbitrary: s tr)
  case Nil
  then show ?case by (simp add: pins_next_def event_next_refl)
next
  case (Cons p fds)
  obtain fd rv where p: "p = (fd, rv)" by force
  have "ensures (if st \<noteq> ST_OK then Some (st, s1, tr1) else pin_round os e srv fds s1 tr1)
      (\<lambda>(st, s', tr'). pins_next s tr (st, s', tr') \<and> polls tr' = polls tr)"
    if "pins_next s tr (st, s1, tr1)" "polls tr1 = polls tr" for st s1 tr1
    using that Cons.IH [of s1 tr1] pins_next_keeps [OF that(1)]
    by (auto elim!: ensures_conseq intro: pins_next_trans)
  then show ?case
    using pin_event_next [OF Cons.prems(1) assms(2) Cons.prems(2), of os e fd rv tr]
    by (auto simp: p elim!: ensures_conseq)
qed

text \<open>
  However often the kernel was polled, some later poll reports no event.  Then the loop over the pins returns,
  whatever the events are, and leaves the poll time-out at zero unless an event failed.
\<close>

definition pauses :: "os \<Rightarrow> bool" where
  "pauses os \<longleftrightarrow> (\<forall>n. \<exists>K\<ge>n. \<forall>tr fds t. polls tr = K \<longrightarrow> fst (os tr (Sys_pollfds fds t)) \<le> 0)"

lemma settles_pauses: "settles os K \<Longrightarrow> pauses os"
  unfolding settles_def pauses_def by (metis max.cobounded1 max.cobounded2)

definition pins_post :: "ASD_MSG \<Rightarrow> trace \<Rightarrow> STATUS \<times> ASD_MSG \<times> trace \<Rightarrow> bool" where
  "pins_post s tr = (\<lambda>(st, s', tr'). pins_next s tr (st, s', tr') \<and> (st = ST_OK \<longrightarrow> asd_poll_timeout_ms s' = 0))"

lemma pins_post_failed: "pins_next s tr (st, s', tr') \<Longrightarrow> st \<noteq> ST_OK \<Longrightarrow> pins_post s tr (st, s', tr')"
  by (simp add: pins_post_def)

lemma all_pin_events_until:
  assumes "\<And>tr fds t. polls tr = K \<Longrightarrow> fst (os tr (Sys_pollfds fds t)) \<le> 0" "wf_msg s" "wf_server srv" "calm s" "polls tr \<le> K"
  shows "ensures (asd_target_process_all_pin_events os e srv fds s tr) (pins_post s tr)"
  using assms(2,4,5)
proof (induction "K - polls tr" arbitrary: s tr rule: less_induct)
  case less
  define call where "call = Sys_pollfds fds (asd_poll_timeout_ms s)"
  define r where "r = os tr call"
  have n0: "pins_next s tr (st, s, tr @ [call])" for st
    using less.prems by (simp add: pins_next_def event_next_def sends_framed_def call_def sent_on_def)
  show ?case
  proof (cases "fst r \<le> 0")
    case True
    have "pins_next s tr (ST_OK, s\<lparr>asd_poll_timeout_ms := 0\<rparr>, tr @ [call])"
      using n0 [of ST_OK] by (simp add: pins_next_def event_next_def calm_def wf_msg_def)
    then show ?thesis
      using True by (subst asd_target_process_all_pin_events.simps) (simp add: Let_def call_def r_def pins_post_def)
  next
    case False
    then have k: "polls tr < K"
      using assms(1) [of tr] less.prems(3) unfolding call_def r_def by (meson le_neq_implies_less)
    have IH: "ensures (asd_target_process_all_pin_events os e srv fds s1 tr1) (pins_post s tr)"
      if "pins_next s tr (st, s1, tr1)" "polls tr1 = Suc (polls tr)" for st s1 tr1
      by (rule ensures_conseq [OF less.hyps [of tr1 s1]])
        (use that pins_next_keeps [OF that(1)] k in \<open>auto simp: pins_post_def intro: pins_next_trans\<close>)
    have rnd: "ensures (pin_round os e srv ps s (tr @ [call]))
        (\<lambda>(st, s', tr'). pins_next s tr (st, s', tr') \<and> polls tr' = Suc (polls tr))" for ps
      by (rule ensures_conseq [OF pin_round_next [OF less.prems(1) assms(3) less.prems(2)]])
        (auto simp: call_def intro: pins_next_trans [OF n0 [of ST_OK], unfolded call_def])
    show ?thesis
      using False
      by (subst asd_target_process_all_pin_events.simps)
        (auto simp: Let_def simp flip: call_def r_def intro!: ensures_conseq [OF rnd] intro: IH pins_post_failed)
  qed
qed

lemma all_pin_events_returns:
  assumes "pauses os" "wf_msg s" "wf_server srv" "calm s"
  shows "ensures (asd_target_process_all_pin_events os e srv fds s tr) (pins_post s tr)"
proof -
  obtain K where "polls tr \<le> K" "\<forall>tr fds t. polls tr = K \<longrightarrow> fst (os tr (Sys_pollfds fds t)) \<le> 0"
    using assms(1) unfolding pauses_def by metis
  then show ?thesis using assms by (intro all_pin_events_until [where K = K]) auto
qed

end
