(* ===== verification/Asd_Main.thy ===== *)
theory Asd_Main
  imports Command_Line Target_Api
begin

text \<open>
  \<open>server/asd_main.c\<close>: the state of the daemon, the life of a client from its connection to its end, and the
  loop that serves clients and target events.  \<open>main_state\<close> and the other globals of the file, the globals
  of \<open>auth_pam.c\<close> and \<open>ext_tls.c\<close>, the log settings and the state of the message layer are one record.  The
  configuration the message layer points to is \<open>main_state.config\<close>: it is \<open>asd_cfg\<close> of the message layer.  A
  NULL session pointer is a table that is not initialised, which every operation of the table treats alike.
\<close>

section \<open>State\<close>

record asd_state =
  st_args :: asd_args
  host_fd :: int
  event_fd :: int
  st_server :: Server
  st_msg :: ASD_MSG
  is_connected :: bool
  st_auth :: Auth
  ssl_ctx :: "nat option"
  st_log :: Log
  target_bus_options :: bus_options
  asd_config_path :: string

abbreviation st_session :: "asd_state \<Rightarrow> Session" where
  "st_session st \<equiv> session (st_server st)"

abbreviation st_config :: "asd_state \<Rightarrow> config" where
  "st_config st \<equiv> asd_cfg (st_msg st)"

definition set_session :: "Session \<Rightarrow> asd_state \<Rightarrow> asd_state" where
  "set_session s = st_server_update (session_update (\<lambda>_. s))"

definition set_config :: "config \<Rightarrow> asd_state \<Rightarrow> asd_state" where
  "set_config c = st_msg_update (asd_cfg_update (\<lambda>_. c))"

text \<open>The values the operations find uninitialised: the new connection, the lockout password, the slots of the table.\<close>

record main_env =
  me_env :: env
  me_conn :: extnet_conn_t
  me_password :: "u8 list"
  me_slots :: "nat \<Rightarrow> extnet_conn_t"

section \<open>Logging\<close>

text \<open>Every entry of the map is written, at the number of its level.\<close>

definition init_logging_map :: "config \<Rightarrow> config" where
  "init_logging_map c = c\<lparr>ipc_asd_log_map := [0, 1, 2, 3, 4, IPC_LogType_Off]\<rparr>"

definition main_should_remote_log :: "config \<Rightarrow> ASD_LogLevel \<Rightarrow> ASD_LogStream \<Rightarrow> bool option" where
  "main_should_remote_log c asd_level asd_stream =
     (let lv = logging_level (remote_logging c)
      in if lv = IPC_LogType_Off then Some False
         else do { t \<leftarrow> rd (ipc_asd_log_map c) (level_num asd_level); Some (lv \<le> t) })"

definition log_settings :: "bool \<Rightarrow> asd_state \<Rightarrow> asd_state" where
  "log_settings remote st =
     st\<lparr>st_log := ASD_initialize_log_settings (log_level (st_args st)) (log_streams (st_args st)) (use_syslog (st_args st))
                   (log_timestamp_enable (st_args st)) remote remote\<rparr>"

definition is_auto_sync_remote_logging_enabled :: "asd_state \<Rightarrow> bool" where
  "is_auto_sync_remote_logging_enabled st = auto_sync_remote_logging (st_args st)"

definition get_auto_sync_remote_logging_streams :: "asd_state \<Rightarrow> ASD_LogStream" where
  "get_auto_sync_remote_logging_streams st = auto_sync_remote_logging_streams (st_args st)"

section \<open>Starting and stopping\<close>

definition init_asd_state :: "os \<Rightarrow> main_env \<Rightarrow> asd_state \<Rightarrow> trace \<Rightarrow> STATUS \<times> asd_state \<times> trace" where
  "init_asd_state os e st tr =
     (let so = session_opts (st_args st);
          (r, c) = set_config_defaults (st_config st) (busopt (st_args st)) (arg_timeout (st_args st));
          st1 = log_settings False (set_config c st);
          (net, ctx, tr1) = extnet_init os (e_extnet_type so) (Some (cp_certkeyfile so)) (int MAX_SESSIONS) (ssl_ctx st1) tr;
          st2 = st1\<lparr>ssl_ctx := ctx\<rparr>
      in case net of None \<Rightarrow> (ST_ERR, st2, tr1)
         | Some n \<Rightarrow>
             (let (r2, a) = auth_init (e_auth_type so) (st_auth st2); st3 = st2\<lparr>st_auth := a\<rparr>
              in if r2 \<noteq> ST_OK then (r2, st3, tr1)
                 else case session_init os n (me_slots e) tr1 of
                        (None, tr2) \<Rightarrow> (ST_ERR, st3, tr2)
                      | (Some s, tr2) \<Rightarrow>
                          (let (fd, tr3) = sys os (Sys_net ''eventfd'' [] []) tr2;
                               st4 = (set_session s st3)\<lparr>event_fd := fd\<rparr>
                           in if fd = - 1 then (ST_ERR, st4, tr3)
                              else let (r3, hfd, tr4) = extnet_open_external_socket os n (cp_net_bind_device so) (n_port_number so) tr3
                                   in (r3, st4\<lparr>host_fd := hfd\<rparr>, tr4))))"

definition deinit_asd_state :: "os \<Rightarrow> asd_state \<Rightarrow> trace \<Rightarrow> (asd_state \<times> trace) option" where
  "deinit_asd_state os st tr = do {
     let (s, tr1) = session_close_all os (st_session st) tr;
     let tr2 = (if host_fd st \<noteq> 0 then tr1 @ [Sys_close (host_fd st)] else tr1);
     (_, m, tr3) \<leftarrow> asd_api_target_deinit os (st_msg st) tr2;
     Some ((set_session s st)\<lparr>st_msg := m\<rparr>, tr3) }"

section \<open>Clients come and go\<close>

definition on_connection_aborted :: "os \<Rightarrow> trace \<Rightarrow> trace" where
  "on_connection_aborted os tr = tr @ [Sys_journal ''OpenBMC.0.1.AtScaleDebugConnectionFailed'']"

definition on_client_disconnect :: "os \<Rightarrow> asd_state \<Rightarrow> trace \<Rightarrow> (STATUS \<times> asd_state \<times> trace) option" where
  "on_client_disconnect os st tr = do {
     let (r, c) = set_config_defaults (st_config st) (busopt (st_args st)) (arg_timeout (st_args st));
     let st1 = log_settings False (set_config c (st\<lparr>is_connected := False\<rparr>));
     (r2, m, tr1) \<leftarrow> asd_api_target_deinit os (st_msg st1) tr;
     let st2 = st1\<lparr>st_msg := m\<rparr>;
     if r2 \<noteq> ST_OK then Some (ST_ERR, st2, tr1)
     else Some (ST_OK, st2, tr1 @ [Sys_journal ''OpenBMC.0.1.AtScaleDebugDisconnected'']) }"

definition log_client_address :: "os \<Rightarrow> extnet_conn_t \<Rightarrow> trace \<Rightarrow> trace" where
  "log_client_address os conn tr =
     (let (r, tr1) = sys os (Sys_net ''getpeername'' [] [sockfd conn]) tr
      in if r = 0 then tr1 @ [Sys_journal ''OpenBMC.0.1.AtScaleDebugConnected''] else tr1)"

text \<open>Buses given on the command line replace those of the platform.\<close>

definition connect_target :: "os \<Rightarrow> main_env \<Rightarrow> asd_state \<Rightarrow> trace \<Rightarrow> (STATUS \<times> asd_state \<times> trace) option" where
  "connect_target os e st tr =
     (let a = busopt (st_args st);
          opt = (if opt_enable_i2c a \<or> opt_enable_i3c a \<or> opt_enable_spp a then a else target_bus_options st);
          st1 = set_config (snd (set_config_defaults (st_config st) opt (arg_timeout (st_args st)))) st
      in do {
        (r, m, tr1) \<leftarrow> asd_api_target_init os (me_env e) (st_server st1) (st_config st1) (st_msg st1) tr;
        let st2 = st1\<lparr>st_msg := m\<rparr>;
        if r \<noteq> ST_OK then Some (r, st2, tr1)
        else Some (ST_OK, log_settings True (set_config (init_logging_map (st_config st2)) st2), tr1) })"

definition on_client_connect :: "os \<Rightarrow> main_env \<Rightarrow> asd_state \<Rightarrow> extnet_conn_t \<Rightarrow> trace \<Rightarrow> (STATUS \<times> asd_state \<times> trace) option" where
  "on_client_connect os e st conn tr = do {
     (_, out, _, _, tr1) \<leftarrow>
       asd_api_target_ioctl os (me_env e) (st_server st)
         (IOCTL_TARGET_GET_I2C_I3C_BUS_CONFIG (asd_config_path st) (target_bus_options st)) (st_msg st) (log_client_address os conn tr);
     connect_target os e
       (case out of Target_buses b p \<Rightarrow> st\<lparr>target_bus_options := b, asd_config_path := p\<rparr> | _ \<Rightarrow> st) tr1 }"

definition close_session :: "os \<Rightarrow> extnet_conn_t \<Rightarrow> asd_state \<Rightarrow> trace \<Rightarrow> asd_state \<times> trace" where
  "close_session os conn st tr = (let (_, s, tr1) = session_close os (st_session st) conn tr in (set_session s st, tr1))"

text \<open>\<open>i\<close> is the slot \<open>p_extconn\<close> points to.\<close>

definition ensure_client_authenticated :: "os \<Rightarrow> main_env \<Rightarrow> asd_state \<Rightarrow> nat \<Rightarrow> trace \<Rightarrow> (STATUS \<times> asd_state \<times> trace) option" where
  "ensure_client_authenticated os e st i tr = do {
     slot \<leftarrow> rd (sessions (st_session st)) i;
     let conn = extconn slot;
     if session_already_authenticated (st_session st) conn = ST_OK then Some (ST_OK, st, tr)
     else do {
       (r, a, tr1) \<leftarrow> auth_client_handshake os (me_password e) (st_session st) (extnet (st_session st)) conn (st_auth st) tr;
       let st1 = st\<lparr>st_auth := a\<rparr>;
       let (r2, s) = (if r = ST_OK then session_auth_complete (st_session st1) conn else (r, st_session st1));
       let st2 = set_session s st1;
       (r3, st3, tr3) \<leftarrow> (if r2 \<noteq> ST_OK then Some (r2, st2, tr1)
          else do {
            (r3, st3, tr3) \<leftarrow> on_client_connect os e st2 conn tr1;
            if r3 = ST_OK then Some (r3, st3, tr3)
            else do { (_, st4, tr4) \<leftarrow> on_client_disconnect os st3 tr3; Some (r3, st4, tr4) } });
       if r3 = ST_OK then Some (r3, st3, tr3)
       else let (st4, tr4) = close_session os conn st3 (on_connection_aborted os tr3) in Some (r3, st4, tr4) } }"

definition close_connection :: "os \<Rightarrow> asd_state \<Rightarrow> trace \<Rightarrow> (STATUS \<times> asd_state \<times> trace) option" where
  "close_connection os st tr = do {
     (r, c) \<leftarrow> session_get_authenticated_conn (st_session st);
     case c of None \<Rightarrow> Some (ST_OK, st, tr)
     | Some conn \<Rightarrow> do {
         (r2, st1, tr1) \<leftarrow> on_client_disconnect os st tr;
         if r2 = ST_OK then let (st2, tr2) = close_session os conn st1 tr1 in Some (r2, st2, tr2)
         else Some (r2, st1, tr1) } }"

definition MAX_FDS :: nat where "MAX_FDS = 1 + MAX_SESSIONS + NUM_GPIOS + NUM_DBUS_FDS + 1"

text \<open>
  The descriptor of a client that needs no authentication is put behind the polled ones, as if it had been
  polled: it is the second component of the result.
\<close>

definition process_new_client ::
    "os \<Rightarrow> main_env \<Rightarrow> asd_state \<Rightarrow> nat \<Rightarrow> nat \<Rightarrow> trace \<Rightarrow> STATUS \<times> int list \<times> asd_state \<times> trace" where
  "process_new_client os e st num_clients client_index tr =
     (let net = extnet (st_session st);
          (r, conn, tr1) = extnet_accept_connection os (ssl_ctx st) net (host_fd st) (me_conn e) tr
      in if r \<noteq> ST_OK then (r, [], st, on_connection_aborted os tr1)
         else let (r2, s, tr2) = session_open os (st_session st) conn tr1
              in if r2 \<noteq> ST_OK then (r2, [], st, snd (snd (extnet_close_client os net conn tr2)))
                 else (r2,
                       if e_auth_type (session_opts (st_args st)) = AUTH_HDLR_NONE \<and> client_index + num_clients < MAX_FDS
                       then [sockfd conn] else [],
                       (set_session s st)\<lparr>is_connected := True\<rparr>, tr2))"

section \<open>Messages of the clients\<close>

abbreviation POLLIN :: u16 where "POLLIN \<equiv> 1"

definition polled_in :: "u16 \<Rightarrow> bool" where
  "polled_in revents \<longleftrightarrow> revents AND POLLIN = POLLIN"

text \<open>The slot the next message is read from, and what follows when its client is authenticated.\<close>

definition select_slot :: "nat option \<Rightarrow> bool \<Rightarrow> asd_state \<Rightarrow> asd_state" where
  "select_slot i b st = st\<lparr>st_server := (st_server st)\<lparr>b_data_pending := b, p_extconn := i\<rparr>\<rparr>"

definition serve_message :: "os \<Rightarrow> main_env \<Rightarrow> asd_state \<Rightarrow> nat \<Rightarrow> trace \<Rightarrow> (STATUS \<times> asd_state \<times> trace) option" where
  "serve_message os e st k tr = do {
     (r, _, m, srv, tr1) \<leftarrow> asd_api_target_ioctl os (me_env e) (st_server st) IOCTL_TARGET_PROCESS_MSG (st_msg st) tr;
     let st1 = st\<lparr>st_msg := m, st_server := srv\<rparr>;
     slot \<leftarrow> rd (sessions (st_session st1)) k;
     if r \<noteq> ST_OK then do {
       (_, st2, tr2) \<leftarrow> on_client_disconnect os st1 tr1;
       let (st3, tr3) = close_session os (extconn slot) st2 tr2;
       Some (r, st3, tr3) }
     else
       (let (r2, s) = session_set_data_pending (st_session st1) (extconn slot) (b_data_pending (st_server st1))
        in Some (r2, set_session s st1, tr1)) }"

definition process_client_message ::
    "os \<Rightarrow> main_env \<Rightarrow> asd_state \<Rightarrow> int \<times> u16 \<Rightarrow> trace \<Rightarrow> (STATUS \<times> asd_state \<times> trace) option" where
  "process_client_message os e st p tr =
     (case session_lookup_conn (st_session st) (fst p) of
        None \<Rightarrow> Some (ST_ERR, select_slot None False st, tr)
      | Some k \<Rightarrow> do {
          slot \<leftarrow> rd (sessions (st_session st)) k;
          let (r, pend) = session_get_data_pending (st_session st) (extconn slot) False;
          let st1 = select_slot (Some k) pend st;
          if r \<noteq> ST_OK \<or> \<not> pend \<and> \<not> polled_in (snd p) then Some (r, st1, tr)
          else do {
            (r2, st2, tr2) \<leftarrow> ensure_client_authenticated os e st1 k tr;
            if r2 \<noteq> ST_OK then Some (r2, st2, tr2) else serve_message os e st2 k tr2 } })"

text \<open>An error with one client does not keep the others from being served.\<close>

fun client_messages ::
    "os \<Rightarrow> main_env \<Rightarrow> asd_state \<Rightarrow> (int \<times> u16) list \<Rightarrow> STATUS \<Rightarrow> trace \<Rightarrow> (STATUS \<times> asd_state \<times> trace) option" where
  "client_messages os e st [] r tr = Some (r, st, tr)"
| "client_messages os e st (p # ps) r tr =
     (if polled_in (snd p) then do {
        (r1, st1, tr1) \<leftarrow> process_client_message os e st p tr;
        client_messages os e st1 ps (if r1 \<noteq> ST_OK then r1 else r) tr1 }
      else client_messages os e st ps r tr)"

definition process_all_client_messages ::
    "os \<Rightarrow> main_env \<Rightarrow> asd_state \<Rightarrow> (int \<times> u16) list \<Rightarrow> trace \<Rightarrow> (STATUS \<times> asd_state \<times> trace) option" where
  "process_all_client_messages os e st ps tr =
     (let (s, tr1) = session_close_expired_unauth os (st_session st) tr
      in client_messages os e (set_session s st) ps ST_OK tr1)"

section \<open>Idle clients\<close>

definition HOURSTOMS :: int where "HOURSTOMS = 3600000"
definition MSTOSEC :: int where "MSTOSEC = 1000"

text \<open>Division of C, which rounds towards zero.\<close>

definition c_div :: "int \<Rightarrow> int \<Rightarrow> int" where
  "c_div a b = (if a < 0 then - (- a div b) else a div b)"

text \<open>The text of the warning is built in an array of 100 characters.\<close>

definition send_warning_message :: "int \<Rightarrow> int \<Rightarrow> string option" where
  "send_warning_message idle_timeout_ms warning_time_ms =
     (let remaining = idle_timeout_ms - warning_time_ms;
          hours = remaining div HOURSTOMS;
          minutes = remaining mod HOURSTOMS div MINUTESTOMS;
          seconds = remaining mod MINUTESTOMS div MSTOSEC;
          plural = (\<lambda>n s. dec n @ s @ (if n = 1 then '''' else ''s''));
          message = (if hours > 0 then plural hours '' hour'' @ '', '' else [])
                    @ (if minutes > 0 \<or> hours > 0 then plural minutes '' minute'' else [])
                    @ (if seconds > 0 \<and> hours = 0
                       then (if minutes > 0 then '' and '' else []) @ plural seconds '' second'' else [])
      in if length message < 100 then Some message else None)"

text \<open>When the client was last active, in microseconds, and whether it was warned.\<close>

record activity =
  last_activity_time :: int
  send_idle_warning_message :: bool

text \<open>The times are \<open>long\<close>s: a difference that does not fit is an overflow.\<close>

definition elapsed_ms :: "int \<Rightarrow> int \<Rightarrow> int" where
  "elapsed_ms now before =
     (now div 1000000 - before div 1000000) * MSTOSEC + c_div (now mod 1000000 - before mod 1000000) MSTOSEC"

definition check_idle_timeout :: "os \<Rightarrow> activity \<Rightarrow> int \<Rightarrow> int \<Rightarrow> trace \<Rightarrow> (bool \<times> activity \<times> trace) option" where
  "check_idle_timeout os act idle_timeout_ms warning_time_ms tr =
     (let (now, tr1) = sys os Sys_timeofday tr; e = elapsed_ms now (last_activity_time act)
      in if \<bar>e\<bar> > LONG_MAX then None
         else do {
           act1 \<leftarrow> (if \<not> send_idle_warning_message act \<and> e > warning_time_ms
                    then do { _ \<leftarrow> send_warning_message idle_timeout_ms warning_time_ms; Some (act\<lparr>send_idle_warning_message := True\<rparr>) }
                    else Some act);
           Some (e > idle_timeout_ms, act1, tr1) })"

section \<open>The loop\<close>

text \<open>
  The table that is polled: the listening socket, the descriptors of the target, those of the clients.  It is
  an array of \<open>MAX_FDS\<close> entries; every entry that is polled was written in the same round.
\<close>

definition poll_table :: "int \<Rightarrow> (int \<times> nat) list \<Rightarrow> int list \<Rightarrow> (int \<times> nat) list option" where
  "poll_table hfd gpio_fds client_fds = do {
     t0 \<leftarrow> wr (replicate MAX_FDS (0, 0)) 0 (hfd, 1);
     t1 \<leftarrow> wrs t0 1 gpio_fds;
     t2 \<leftarrow> wrs t1 (1 + length gpio_fds) (map (\<lambda>fd. (fd, 1)) client_fds);
     Some (take (1 + length gpio_fds + length client_fds) t2) }"

record polled =
  gpio_fds :: "(int \<times> nat) list"
  client_fds :: "int list"
  poll_ret :: int
  poll_revents :: "u16 list"

definition poll_round :: "os \<Rightarrow> main_env \<Rightarrow> asd_state \<Rightarrow> trace \<Rightarrow> (STATUS \<times> polled \<times> trace) option" where
  "poll_round os e st tr = do {
     (r, out, m, srv, tr1) \<leftarrow> asd_api_target_ioctl os (me_env e) (st_server st) IOCTL_TARGET_GET_PIN_FDS (st_msg st) tr;
     let gs = (case out of Target_fds fds \<Rightarrow> if r = ST_OK then fds else [] | _ \<Rightarrow> []);
     let (r2, cs, tmo, tr2) = session_getfds os (st_session st) (- 1) tr1;
     if r2 \<noteq> ST_OK then Some (ST_ERR, \<lparr>gpio_fds = gs, client_fds = [], poll_ret = - 1, poll_revents = []\<rparr>, tr2)
     else do {
       fds \<leftarrow> poll_table (host_fd st) gs cs;
       let a = os tr2 (Sys_pollfds fds 10);
       Some (if fst a = - 1 then ST_ERR else ST_OK,
             \<lparr>gpio_fds = gs, client_fds = cs, poll_ret = fst a, poll_revents = revents_of (snd a) (length fds)\<rparr>,
             tr2 @ [Sys_pollfds fds 10]) } }"

text \<open>The events of the network, when there are any.\<close>

definition network_events ::
    "os \<Rightarrow> main_env \<Rightarrow> polled \<Rightarrow> asd_state \<Rightarrow> activity \<Rightarrow> trace \<Rightarrow> (asd_state \<times> activity \<times> trace) option" where
  "network_events os e p st act tr =
     (if poll_ret p \<le> 0 then Some (st, act, tr)
      else do {
        let idx = 1 + length (gpio_fds p);
        let (_, extra, st1, tr1) = (if polled_in (poll_revents p ! 0)
                                    then process_new_client os e st (length (client_fds p)) idx tr else (ST_OK, [], st, tr));
        (_, st2, tr2) \<leftarrow> process_all_client_messages os e st1
          (zip (client_fds p) (drop idx (poll_revents p)) @ map (\<lambda>fd. (fd, POLLIN)) extra) tr1;
        if is_connected st2
        then (let (now, tr3) = sys os Sys_timeofday tr2
              in Some (st2, \<lparr>last_activity_time = now, send_idle_warning_message = False\<rparr>, tr3))
        else Some (st2, act, tr2) })"

definition pin_events :: "os \<Rightarrow> main_env \<Rightarrow> polled \<Rightarrow> asd_state \<Rightarrow> trace \<Rightarrow> (asd_state \<times> trace) option" where
  "pin_events os e p st tr =
     (if gpio_fds p = [] then Some (st, tr)
      else do {
        (r, _, m, srv, tr1) \<leftarrow> asd_api_target_ioctl os (me_env e) (st_server st)
          (IOCTL_TARGET_PROCESS_ALL_PIN_EVENTS (gpio_fds p)) (st_msg st) tr;
        let st1 = st\<lparr>st_msg := m\<rparr>;
        if r \<noteq> ST_OK then do { (_, st2, tr2) \<leftarrow> close_connection os st1 tr1; Some (st2, tr2) }
        else Some (st1, tr1) })"

text \<open>One round; the loop goes on after every status but an error.\<close>

definition idle_round ::
    "os \<Rightarrow> int \<Rightarrow> asd_state \<Rightarrow> activity \<Rightarrow> trace \<Rightarrow> (bool \<times> asd_state \<times> activity \<times> trace) option" where
  "idle_round os warning st act tr =
     (if is_connected st \<and> is_timeout_enabled (timecfg (st_config st)) then do {
        (over, act1, tr1) \<leftarrow> check_idle_timeout os act (idle_timeout (timecfg (st_config st))) warning tr;
        if over then do {
          (_, st1, tr2) \<leftarrow> close_connection os st tr1;
          let (now, tr3) = sys os Sys_timeofday tr2;
          Some (True, st1, \<lparr>last_activity_time = now, send_idle_warning_message = False\<rparr>, tr3) }
        else Some (False, st, act1, tr1) }
      else Some (False, st, act, tr))"

definition serve_round ::
    "os \<Rightarrow> main_env \<Rightarrow> int \<Rightarrow> asd_state \<Rightarrow> activity \<Rightarrow> trace \<Rightarrow> (STATUS \<times> asd_state \<times> activity \<times> trace) option" where
  "serve_round os e warning st act tr = do {
     (closed, st1, act1, tr1) \<leftarrow> idle_round os warning st act tr;
     if closed then Some (ST_OK, st1, act1, tr1)
     else do {
       (r, p, tr2) \<leftarrow> poll_round os e st1 tr1;
       if r \<noteq> ST_OK then Some (r, st1, act1, tr2)
       else do {
         (st3, act3, tr3) \<leftarrow> network_events os e p st1 act1 tr2;
         (st4, tr4) \<leftarrow> pin_events os e p st3 tr3;
         Some (ST_OK, st4, act3, tr4) } } }"

partial_function (option) serve_loop ::
    "os \<Rightarrow> main_env \<Rightarrow> int \<Rightarrow> asd_state \<Rightarrow> activity \<Rightarrow> trace \<Rightarrow> (STATUS \<times> asd_state \<times> trace) option" where
  "serve_loop os e warning st act tr =
     Option.bind (serve_round os e warning st act tr)
       (\<lambda>x. if fst x = ST_OK then serve_loop os e warning (fst (snd x)) (fst (snd (snd x))) (snd (snd (snd x)))
            else Some (fst x, fst (snd x), snd (snd (snd x))))"

text \<open>
  The warning is due after nine tenths of the idle time; the product of doubles is exact because the idle time
  is a number of minutes.
\<close>

definition warning_time :: "int \<Rightarrow> int" where
  "warning_time idle = 9 * idle div 10"

definition request_processing_loop :: "os \<Rightarrow> main_env \<Rightarrow> asd_state \<Rightarrow> trace \<Rightarrow> (STATUS \<times> asd_state \<times> trace) option" where
  "request_processing_loop os e st tr =
     (let (now, tr1) = sys os Sys_timeofday tr
      in serve_loop os e (warning_time (idle_timeout (timecfg (st_config st)))) st
           \<lparr>last_activity_time = now, send_idle_warning_message = False\<rparr> tr1)"

section \<open>The program\<close>

text \<open>The globals before the program starts; \<open>gs\<close> are the results of \<open>getopt_long\<close>.\<close>

definition zero_config :: config where
  "zero_config =
     \<lparr>jtag_cfg = \<lparr>jtag_mode = JTAG_DRIVER_MODE_SOFTWARE, chain_mode = JTAG_CHAIN_SELECT_MODE_SINGLE, xdp_fail_enable = False\<rparr>,
      spp_cfg = \<lparr>bulk_send_enable = False, bulk_response_enable = False\<rparr>,
      remote_logging = \<lparr>logging_level = 0, logging_stream = 0\<rparr>, ipc_asd_log_map = replicate 6 0,
      buscfg = \<lparr>enable_i2c = False, enable_i3c = False, enable_spp = False, default_bus = 0,
                bus_types = replicate (MAX_IxC_BUSES + MAX_SPP_BUSES) BUS_CONFIG_NOT_ALLOWED,
                bus_map = replicate (MAX_IxC_BUSES + MAX_SPP_BUSES) 0\<rparr>,
      timecfg = \<lparr>is_timeout_enabled = False, idle_timeout = 0\<rparr>\<rparr>"

definition zero_msg :: ASD_MSG where
  "zero_msg =
     \<lparr>inst = False, asd_cfg = zero_config, read_index = 0, data_size = 0, read_state = READ_STATE_INITIAL,
      in_msg = zero_message, out_msg = zero_message, jtag_handler = None, target_handler = None, i2c_handler = None,
      i3c_handler = None, vprobe_handler = None, spp_handler = None, handlers_initialized = False, prdy_timeout = 0,
      jtag_chain_mode = JTAG_CHAIN_SELECT_MODE_SINGLE, bmc_version = replicate 120 0, bmc_version_size = 0,
      spp_bulk_out_msg = zero_message, spp_bulk_response_buffer_count = 0, spp_bulk_response_ibi_count = 0,
      asd_poll_timeout_ms = 0\<rparr>"

definition zero_server :: Server where
  "zero_server =
     \<lparr>session = \<lparr>b_initialized = False, sessions = [], n_authenticated_id = 0,
                 extnet = \<lparr>p_hdlrs = EXTNET_HDLR_NON_ENCRYPT, n_max_sessions = 0\<rparr>\<rparr>,
      p_extconn = None, b_data_pending = False\<rparr>"

definition main_state :: asd_state where
  "main_state =
     \<lparr>st_args = zero_args, host_fd = 0, event_fd = 0, st_server = zero_server, st_msg = zero_msg, is_connected = False,
      st_auth = zero_auth, ssl_ctx = None,
      st_log = ASD_initialize_log_settings DEFAULT_LOG_LEVEL DEFAULT_LOG_STREAMS False False False False,
      target_bus_options = busopt zero_args, asd_config_path = []\<rparr>"

definition configured :: "cmdline \<Rightarrow> asd_state" where
  "configured c =
     set_config (zero_config\<lparr>jtag_cfg := (jtag_cfg zero_config)\<lparr>xdp_fail_enable := cfg_xdp_fail_enable c\<rparr>\<rparr>)
       (main_state\<lparr>st_args := args c\<rparr>)"

definition asd_main :: "os \<Rightarrow> main_env \<Rightarrow> getopt_result list \<Rightarrow> trace \<Rightarrow> (int \<times> trace) option" where
  "asd_main os e gs tr =
     (case process_command_line os gs zero_args tr of
        (None, _) \<Rightarrow> None
      | (Some None, tr1) \<Rightarrow> Some (1, tr1)
      | (Some (Some c), tr1) \<Rightarrow>
          (let (r, st, tr2) = init_asd_state os e (configured c) tr1
           in do {
             (r2, st2, tr3) \<leftarrow> (if r = ST_OK then request_processing_loop os e st tr2 else Some (r, st, tr2));
             (_, tr4) \<leftarrow> deinit_asd_state os st2 tr3;
             Some (if r2 = ST_OK then 0 else 1, tr4) }))"

section \<open>The message layer between clients\<close>

text \<open>What holds of the message layer, whether a client is connected or not, as long as SPP is not enabled.\<close>

definition msg_inv :: "u8 list \<Rightarrow> timeout_config \<Rightarrow> ASD_MSG \<Rightarrow> bool" where
  "msg_inv ver tmo m \<longleftrightarrow> read_inv m \<and> recv_inv ver m \<and> \<not> enable_spp (buses m) \<and> calm m \<and> timecfg (asd_cfg m) = tmo"

lemma msg_invD: "msg_inv ver tmo m \<Longrightarrow> wf_msg m" "msg_inv ver tmo m \<Longrightarrow> wf_globals m"
  by (simp_all add: msg_inv_def recv_inv_def wf_globals_def wf_msg_def)

text \<open>A configuration without SPP, with the idle time of the arguments.\<close>

definition plain_config :: "timeout_config \<Rightarrow> config \<Rightarrow> bool" where
  "plain_config tmo c \<longleftrightarrow> wf_bus_config (buscfg c) \<and> \<not> enable_spp (buscfg c) \<and> timecfg c = tmo"

lemma set_config_defaults_plain:
  "\<not> opt_enable_spp opt \<Longrightarrow> plain_config tmo (snd (set_config_defaults c opt tmo))"
  using set_config_defaults_wf [of c opt tmo] by (simp add: plain_config_def set_config_defaults_def Let_def)

lemma msg_inv_config: "msg_inv ver tmo0 m \<Longrightarrow> plain_config tmo c \<Longrightarrow> msg_inv ver tmo (m\<lparr>asd_cfg := c\<rparr>)"
proof -
  assume m: "msg_inv ver tmo0 m" and c: "plain_config tmo c"
  have wf: "wf_msg (m\<lparr>asd_cfg := c\<rparr>)"
    using msg_invD(1) [OF m] c by (simp add: wf_msg_def plain_config_def)
  have "read_inv (m\<lparr>asd_cfg := c\<rparr>)"
    by (rule read_core_inv [of _ m]) (use m wf in \<open>simp_all add: read_core_def msg_inv_def\<close>)
  then show ?thesis
    using m c wf by (simp add: msg_inv_def plain_config_def recv_inv_def wf_probes_def wf_version_def settled_def calm_def)
qed

definition freed :: "ASD_MSG \<Rightarrow> ASD_MSG" where
  "freed m = snd (asd_msg_state_free (m\<lparr>jtag_handler := None, i2c_handler := None, i3c_handler := None, spp_handler := None,
     target_handler := None, vprobe_handler := None, inst := False\<rparr>))"

lemma asd_msg_free_freed:
  "whenever (asd_msg_free os m tr) (\<lambda>(st, m', tr'). m' = (if inst m then freed m else m))"
  unfolding asd_msg_free_def by (auto simp: freed_def Let_def split_def intro!: whenever_any)

lemma freed_inv: "msg_inv ver tmo m \<Longrightarrow> msg_inv ver tmo (freed m)"
  by (auto simp: msg_inv_def freed_def asd_msg_state_free_def read_inv_def recv_inv_def wf_msg_def wf_read_def wf_probes_def wf_version_def
      settled_def calm_def wf_message_def HEADER_SIZE_def)

lemma asd_msg_free_inv:
  assumes "msg_inv ver tmo m"
  shows "ensures (asd_api_target_deinit os m tr) (\<lambda>(st, m', tr'). msg_inv ver tmo m' \<and> \<not> inst m' \<and> sent_on tr' = sent_on tr)"
proof (cases "inst m")
  case True
  show ?thesis
    unfolding asd_api_target_deinit_def asd_target_deinit_def
    by (rule ensures_conseq [OF ensures_whenever [OF asd_msg_free_releases [OF True msg_invD(1) [OF assms]] asd_msg_free_freed]])
      (use True freed_inv [OF assms] in \<open>auto simp: free_post_def\<close>)
qed (use assms in \<open>simp add: asd_api_target_deinit_def asd_target_deinit_def asd_msg_free_def\<close>)

text \<open>Memory can always be allocated.\<close>

definition memory :: "os \<Rightarrow> bool" where
  "memory os \<longleftrightarrow> (\<forall>tr ty n. fst (os tr (Sys_malloc ty n)) \<noteq> 0)"

lemma handlers_made:
  assumes "memory os"
  shows "fst (JTAGHandler os tr) \<noteq> None" "fst (TargetHandler os g b tr) \<noteq> None" "fst (I2CHandler os i tr) \<noteq> None"
    "fst (I3CHandler os j k tr) \<noteq> None" "fst (SPPHandler os c tr) \<noteq> None" "fst (vProbeHandler os tr) \<noteq> None"
  using assms
  by (simp_all add: memory_def JTAGHandler_def TargetHandler_def I2CHandler_def I3CHandler_def SPPHandler_def vProbeHandler_def
      dbus_helper_def malloc_def split_def Let_def)

lemma read_openbmc_version_inst: "whenever (read_openbmc_version os ez s tr) (\<lambda>(st, s', tr'). file_ends os \<longrightarrow> inst s' = inst s)"
proof (cases "file_ends os")
  case True
  show ?thesis
    using read_openbmc_version_returns [OF True, of ez s tr]
    by (auto simp: ensures_iff whenever_def versioned_def)
qed (simp add: whenever_def split: option.split)

lemma asd_msg_init_inst:
  assumes "memory os" "file_ends os" "\<not> inst s"
  shows "whenever (asd_msg_init os ez u cfg s tr) (\<lambda>(st, s', tr'). inst s')"
  using assms
  by (auto simp: asd_msg_init_def Let_def split_def handlers_made [OF assms(1)] intro!: whenever_conseq [OF read_openbmc_version_inst])

text \<open>What the theorems on the daemon ask of the kernel and of the values found uninitialised.\<close>

definition kernel_ok :: "os \<Rightarrow> bool" where
  "kernel_ok os \<longleftrightarrow> recv_honest os \<and> poll_answers os \<and> names_nonempty os \<and> memory os \<and> file_ends os \<and> lines_fit os \<and>
     pauses os \<and> strings_stored os \<and> plain_platform os"

definition env_ok :: "env \<Rightarrow> bool" where
  "env_ok e \<longleftrightarrow> wf_locals (env_locals e) \<and> length (un_spd_map (env_uninit e)) = MAX_IxC_BUSES \<and>
     2 \<le> length (env_version e) \<and> length (env_version e) + 121 < MAX_DATA_SIZE"

lemma asd_api_target_init_inv:
  assumes "kernel_ok os" "env_ok e" "msg_inv (env_version e) tmo m" "plain_config tmo c"
  shows "ensures (asd_api_target_init os e srv c m tr) (\<lambda>(st, m', tr'). msg_inv (env_version e) tmo m' \<and> (st = ST_OK \<longrightarrow> asd_cfg m' = c))"
proof (cases "inst m")
  case True
  then show ?thesis using assms(3) by (simp add: asd_api_target_init_eq asd_msg_init_def)
next
  case False
  note k = assms(1) [unfolded kernel_ok_def] and e = assms(2) [unfolded env_ok_def]
  have r: "ensures (asd_msg_init os (env_zero_copy e) (env_uninit e) c m tr) (\<lambda>(st, s', tr'). (init_post c m tr (st, s', tr') \<and>
      (inst s' \<longrightarrow> (lines_fit os \<longrightarrow> version_fits s') \<and> spp_bulk_response_buffer_count s' = spp_bulk_response_buffer_count m)) \<and> inst s')"
    by (rule ensures_conseq [OF ensures_whenever [OF asd_msg_init_ready [OF False msg_invD(2) [OF assms(3)]] asd_msg_init_inst [OF _ _ False]]])
      (use k e assms(4) in \<open>auto simp: plain_config_def\<close>)
  show ?thesis
    unfolding asd_api_target_init_eq
    by (rule ensures_conseq [OF r])
      (use k e assms(3,4) in \<open>auto simp: init_post_def msg_inv_def recv_inv_def read_inv_def wf_version_def version_fits_def calm_def plain_config_def\<close>)
qed

lemma process_msg_inv:
  assumes "kernel_ok os" "env_ok e" "msg_inv (env_version e) tmo m" "wf_server srv"
  shows "ensures (asd_api_target_ioctl os e srv IOCTL_TARGET_PROCESS_MSG m tr)
    (\<lambda>(st, out, m', srv', tr'). msg_inv (env_version e) tmo m' \<and> wf_server srv' \<and> sends_framed tr tr')"
proof -
  have "ensures (asd_msg_read os srv (env_version e) (env_zero_copy e) (env_locals e) m tr)
      (\<lambda>(st, m', srv', tr'). reading_ok (env_version e) m tr m' srv' tr')"
    unfolding outcome_True [symmetric]
    by (rule asd_msg_read_next) (use assms in \<open>auto simp: kernel_ok_def env_ok_def msg_inv_def\<close>)
  then show ?thesis
    using assms(3) by (auto simp: reading_ok_def msg_inv_def calm_def spp_part_def elim!: ensures_conseq)
qed

lemma pins_inv:
  assumes "kernel_ok os" "msg_inv ver tmo m" "wf_server srv"
  shows "ensures (asd_api_target_ioctl os e srv (IOCTL_TARGET_PROCESS_ALL_PIN_EVENTS fds) m tr)
    (\<lambda>(st, out, m', srv', tr'). msg_inv ver tmo m' \<and> srv' = srv \<and> sends_framed tr tr')"
proof -
  have inv: "msg_inv ver tmo m'" if "pins_next m tr (st, m', tr')" for st m' tr'
  proof -
    let ?p = "\<lambda>s. (asd_cfg s, in_msg s, read_state s, read_index s, data_size s, vprobe_handler s, bmc_version s, bmc_version_size s, handlers_initialized s)"
    have "?p (event_frame x) = ?p x" for x by (simp add: event_frame_def)
    moreover have n: "event_frame m' = event_frame m" "wf_msg m'" "calm m'"
      using that by (auto simp: pins_next_def event_next_def)
    ultimately have p: "?p m' = ?p m" by metis
    have c: "read_core m' = read_core m" using p by (simp add: read_core_def)
    show ?thesis
      using assms(2) p n read_core_inv [OF c n(2)]
      by (auto simp: msg_inv_def recv_inv_def wf_probes_def wf_version_def settled_def)
  qed
  have "ensures (asd_target_process_all_pin_events os e srv fds m tr) (pins_post m tr)"
    by (rule all_pin_events_returns) (use assms msg_invD(1) [OF assms(2)] in \<open>auto simp: kernel_ok_def msg_inv_def\<close>)
  then show ?thesis
    using inv by (auto simp: pins_post_def pins_next_def event_next_def elim!: ensures_conseq)
qed

lemma pin_fds_bound:
  assumes "msg_inv ver tmo m"
  shows "ensures (asd_api_target_ioctl os e srv IOCTL_TARGET_GET_PIN_FDS m tr) (\<lambda>(st, out, m', srv', tr').
    m' = m \<and> srv' = srv \<and> tr' = tr \<and> (\<exists>fds. out = Target_fds fds \<and> length fds \<le> NUM_GPIOS + NUM_DBUS_FDS))"
proof -
  have "ensures (asd_msg_get_fds m) (\<lambda>(st, fds). length fds \<le> NUM_GPIOS + NUM_DBUS_FDS)"
    using msg_invD(1) [OF assms]
    by (auto simp: asd_msg_get_fds_def split: option.split intro!: ensures_conseq [OF target_get_fds_bounded] dest: wf_msgD)
  then show ?thesis by (auto elim!: ensures_conseq)
qed

section \<open>The invariant of the daemon\<close>

definition main_inv :: "u8 list \<Rightarrow> asd_state \<Rightarrow> bool" where
  "main_inv ver st \<longleftrightarrow> wf_server (st_server st) \<and> msg_inv ver (arg_timeout (st_args st)) (st_msg st) \<and> auth_ok (st_auth st) \<and>
     auth_hdlr (st_auth st) = Some (e_auth_type (session_opts (st_args st))) \<and>
     plain_options (target_bus_options st) \<and> plain_options (busopt (st_args st)) \<and>
     0 < idle_timeout (arg_timeout (st_args st)) \<and> idle_timeout (arg_timeout (st_args st)) < 2 ^ 31"

lemma main_inv_simps [simp]:
  "main_inv ver (st\<lparr>is_connected := b\<rparr>) = main_inv ver st" "main_inv ver (log_settings r st) = main_inv ver st"
  "main_inv ver (st\<lparr>ssl_ctx := x\<rparr>) = main_inv ver st" "main_inv ver (st\<lparr>host_fd := h\<rparr>) = main_inv ver st"
  "main_inv ver (st\<lparr>event_fd := h\<rparr>) = main_inv ver st"
  by (simp_all add: main_inv_def log_settings_def)

lemma main_inv_msg: "main_inv ver st \<Longrightarrow> msg_inv ver (arg_timeout (st_args st)) m \<Longrightarrow> main_inv ver (st\<lparr>st_msg := m\<rparr>)"
  by (simp add: main_inv_def)

lemma main_inv_session: "main_inv ver st \<Longrightarrow> wf_session s \<Longrightarrow> main_inv ver (set_session s st)"
  by (simp add: main_inv_def set_session_def wf_server_def)

lemma main_inv_config: "main_inv ver st \<Longrightarrow> plain_config (arg_timeout (st_args st)) c \<Longrightarrow> main_inv ver (set_config c st)"
  using msg_inv_config [of ver _ "st_msg st"] by (auto simp: main_inv_def set_config_def)

lemma main_inv_wf: "main_inv ver st \<Longrightarrow> wf_session (st_session st)"
  by (simp add: main_inv_def wf_server_def)

lemma set_session_same: "st_session st = s \<Longrightarrow> set_session s st = st"
  by (auto simp: set_session_def)

lemma slot_fd_range: "wf_session s \<Longrightarrow> i < MAX_SESSIONS \<Longrightarrow> - 1 \<le> sockfd (extconn (sessions s ! i))"
  by (simp add: wf_session_def)

text \<open>What the end of a connection leaves alone.\<close>

definition same_clients :: "asd_state \<Rightarrow> asd_state \<Rightarrow> bool" where
  "same_clients st st' \<longleftrightarrow> st_server st' = st_server st \<and> st_auth st' = st_auth st \<and> st_args st' = st_args st \<and>
     ssl_ctx st' = ssl_ctx st \<and> host_fd st' = host_fd st"

lemma on_client_disconnect_inv:
  assumes "main_inv ver st"
  shows "ensures (on_client_disconnect os st tr) (\<lambda>(r, st', tr'). main_inv ver st' \<and> same_clients st st' \<and> \<not> is_connected st' \<and>
    \<not> inst (st_msg st') \<and> sent_on tr' = sent_on tr)"
proof -
  define c where "c = snd (set_config_defaults (st_config st) (busopt (st_args st)) (arg_timeout (st_args st)))"
  define st1 where "st1 = log_settings False (set_config c (st\<lparr>is_connected := False\<rparr>))"
  have c: "plain_config (arg_timeout (st_args st)) c"
    unfolding c_def by (rule set_config_defaults_plain) (use assms in \<open>simp add: main_inv_def plain_options_def\<close>)
  have inv: "main_inv ver st1"
    using main_inv_config [of ver "st\<lparr>is_connected := False\<rparr>" c] assms c by (simp add: st1_def)
  then have m: "msg_inv ver (arg_timeout (st_args st1)) (st_msg st1)"
    by (simp add: main_inv_def)
  have k: "same_clients st st1" "\<not> is_connected st1"
    by (simp_all add: st1_def same_clients_def log_settings_def set_config_def)
  have "ensures (asd_api_target_deinit os (st_msg st1) tr)
      (\<lambda>(r, m, tr'). main_inv ver (st1\<lparr>st_msg := m\<rparr>) \<and> \<not> inst m \<and> sent_on tr' = sent_on tr)"
    by (rule ensures_conseq [OF asd_msg_free_inv [OF m]]) (auto intro: main_inv_msg [OF inv])
  then show ?thesis
    using k
    by (auto simp: on_client_disconnect_def split_def Let_def same_clients_def sent_on_def simp flip: c_def st1_def elim!: ensures_conseq)
qed

lemma close_session_inv:
  assumes "main_inv ver st" "- 1 \<le> sockfd conn"
  shows "main_inv ver (fst (close_session os conn st tr)) \<and> is_connected (fst (close_session os conn st tr)) = is_connected st"
proof -
  obtain r s tr1 where c: "session_close os (st_session st) conn tr = (r, s, tr1)" by (metis prod_cases3)
  have "wf_session s"
  proof (cases "0 \<le> sockfd conn")
    case True
    show ?thesis by (rule session_close_refines(1) [OF main_inv_wf [OF assms(1)] True c])
  next
    case False
    then show ?thesis using assms c main_inv_wf [OF assms(1)] by (simp add: session_close_def)
  qed
  then show ?thesis
    using main_inv_session [OF assms(1)] by (simp add: close_session_def c set_session_def)
qed

lemma close_connection_inv:
  assumes "main_inv ver st"
  shows "ensures (close_connection os st tr) (\<lambda>(r, st', tr'). main_inv ver st')"
proof -
  obtain r where r: "session_get_authenticated_conn (st_session st) = Some r"
    "case authed_fd (st_session st) of None \<Rightarrow> r = (ST_ERR, None) | Some fd \<Rightarrow> \<exists>c. r = (ST_OK, Some c) \<and> sockfd c = fd"
    using session_get_authenticated_conn_refines [OF main_inv_wf [OF assms]] by blast
  have fd: "- 1 \<le> sockfd conn" if "snd r = Some conn" for conn
  proof -
    have wf: "wf_session (st_session st)" by (rule main_inv_wf [OF assms])
    have "authed_fd (st_session st) = Some (sockfd conn)"
      using r(2) that by (auto split: option.splits)
    then obtain i where "i < MAX_SESSIONS" "sockfd conn = slot_fd (st_session st) i"
      using wf_session_range [OF wf] by (auto simp: authed_fd_def split: if_splits)
    then show ?thesis using slot_fd_range [OF wf] by simp
  qed
  have cl: "main_inv ver (fst (close_session os conn st1 tr1))" if "main_inv ver st1" "snd r = Some conn" for conn st1 tr1
    using close_session_inv [OF that(1) fd [OF that(2)]] by blast
  show ?thesis
    using assms cl
    by (auto simp: close_connection_def r(1) split_def Let_def split: option.split intro!: ensures_conseq [OF on_client_disconnect_inv])
qed

lemma connect_target_inv:
  assumes "kernel_ok os" "env_ok (me_env e)" "main_inv (env_version (me_env e)) st"
  shows "ensures (connect_target os e st tr) (\<lambda>(r, st', tr'). main_inv (env_version (me_env e)) st' \<and> same_clients st st')"
proof -
  let ?ver = "env_version (me_env e)"
  define opt where "opt = (let a = busopt (st_args st) in
    if opt_enable_i2c a \<or> opt_enable_i3c a \<or> opt_enable_spp a then a else target_bus_options st)"
  define st1 where "st1 = set_config (snd (set_config_defaults (st_config st) opt (arg_timeout (st_args st)))) st"
  have c: "plain_config (arg_timeout (st_args st)) (st_config st1)"
    using set_config_defaults_plain [of opt] assms(3) by (simp add: st1_def set_config_def opt_def main_inv_def plain_options_def Let_def)
  have inv: "main_inv ?ver st1" "same_clients st st1"
    using assms(3) c by (auto simp: st1_def same_clients_def set_config_def intro!: main_inv_config [unfolded set_config_def])
  then have m: "msg_inv ?ver (arg_timeout (st_args st)) (st_msg st1)" by (simp add: main_inv_def same_clients_def)
  obtain r m1 tr1 where i: "asd_api_target_init os (me_env e) (st_server st1) (st_config st1) (st_msg st1) tr = Some (r, m1, tr1)"
      "msg_inv ?ver (arg_timeout (st_args st)) m1" "r = ST_OK \<longrightarrow> asd_cfg m1 = st_config st1"
    using asd_api_target_init_inv [OF assms(1,2) m c, of "st_server st1" tr] by (auto simp: ensures_iff)
  have inv2: "main_inv ?ver (st1\<lparr>st_msg := m1\<rparr>)" by (rule main_inv_msg [OF inv(1)]) (use i(2) inv(2) in \<open>simp add: same_clients_def\<close>)
  have "r = ST_OK \<Longrightarrow> plain_config (arg_timeout (st_args st)) (init_logging_map (asd_cfg m1))"
    using i(3) c by (simp add: plain_config_def init_logging_map_def)
  then have "r = ST_OK \<Longrightarrow> main_inv ?ver (set_config (init_logging_map (asd_cfg m1)) (st1\<lparr>st_msg := m1\<rparr>))"
    using inv(2) by (intro main_inv_config [OF inv2]) (simp add: same_clients_def)
  with inv2 show ?thesis
    using inv(2)
    by (auto simp: connect_target_def Let_def i(1) opt_def [symmetric, unfolded Let_def] simp flip: st1_def)
      (simp_all add: same_clients_def log_settings_def set_config_def)
qed

lemma on_client_connect_inv:
  assumes "kernel_ok os" "env_ok (me_env e)" "main_inv (env_version (me_env e)) st"
  shows "ensures (on_client_connect os e st conn tr) (\<lambda>(r, st', tr'). main_inv (env_version (me_env e)) st' \<and> same_clients st st')"
proof -
  let ?ver = "env_version (me_env e)" and ?st = "\<lambda>b p. st\<lparr>target_bus_options := b, asd_config_path := p\<rparr>"
  have b: "ensures (target_get_i2c_i3c_config os (asd_config_path st) (target_bus_options st) t) (\<lambda>(r, b', p, tr'). plain_options b')" for t
    by (rule target_get_i2c_i3c_config_plain) (use assms in \<open>simp_all add: main_inv_def kernel_ok_def\<close>)
  have s: "main_inv ?ver (?st b p)" "same_clients (?st b p) st' \<Longrightarrow> same_clients st st'" if "plain_options b" for b p st'
    using assms(3) that by (simp_all add: main_inv_def same_clients_def)
  have "ensures (connect_target os e (?st b p) t) (\<lambda>(r, st', tr'). main_inv ?ver st' \<and> same_clients st st')" if "plain_options b" for b p t
    by (rule ensures_conseq [OF connect_target_inv [OF assms(1,2) s(1) [OF that]]]) (auto dest: s(2) [OF that])
  then show ?thesis
    by (auto simp: on_client_connect_def intro!: ensures_conseq [OF b])
qed

lemma auth_client_handshake_ok:
  assumes "auth_ok a" "wf_session s" "length garbage = MAX_PW_LEN"
  shows "ensures (auth_client_handshake os garbage s net conn a tr) (\<lambda>(st, a', tr'). auth_ok a' \<and> auth_hdlr a' = auth_hdlr a)"
  using assms
  by (auto simp: auth_client_handshake_def auth_none_def split: option.split auth_hdlr_type_t.split
      intro!: ensures_conseq [OF authpam_client_handshake_ok])

lemma ensure_client_authenticated_inv:
  assumes "kernel_ok os" "env_ok (me_env e)" "main_inv (env_version (me_env e)) st" "length (me_password e) = MAX_PW_LEN"
    "i < MAX_SESSIONS" "0 \<le> slot_fd (st_session st) i"
  shows "ensures (ensure_client_authenticated os e st i tr) (\<lambda>(r, st', tr'). main_inv (env_version (me_env e)) st')"
proof -
  let ?ver = "env_version (me_env e)"
  note wf = main_inv_wf [OF assms(3)]
  define conn where "conn = extconn (sessions (st_session st) ! i)"
  have fd: "0 \<le> sockfd conn" using assms(6) by (simp add: conn_def)
  have rd: "rd (sessions (st_session st)) i = Some (sessions (st_session st) ! i)"
    using assms(5) wf_session_length [OF wf] by (simp add: array_simps)
  have a: "auth_ok (st_auth st)" using assms(3) by (simp add: main_inv_def)
  have auth: "main_inv ?ver (st\<lparr>st_auth := x\<rparr>)" if "auth_ok x" "auth_hdlr x = auth_hdlr (st_auth st)" for x
    using assms(3) that by (simp add: main_inv_def)
  have complete: "main_inv ?ver (set_session (snd (session_auth_complete (st_session st) conn)) (st\<lparr>st_auth := x\<rparr>))"
    if "auth_ok x" "auth_hdlr x = auth_hdlr (st_auth st)" for x
    by (rule main_inv_session [OF auth [OF that]])
      (metis session_auth_complete_refines(1) [OF wf fd] prod.collapse)
  have close: "main_inv ?ver (fst (close_session os conn st1 t))" if "main_inv ?ver st1" for st1 t
    using close_session_inv [OF that, of conn os t] fd by simp
  show ?thesis
    using assms(3)
    by (auto simp: ensure_client_authenticated_def rd Let_def split_def set_session_same close auth complete simp flip: conn_def
        intro!: ensures_conseq [OF auth_client_handshake_ok [OF a wf assms(4)]] ensures_conseq [OF on_client_connect_inv [OF assms(1,2) complete]]
          ensures_conseq [OF on_client_disconnect_inv])
qed

definition main_env_ok :: "main_env \<Rightarrow> bool" where
  "main_env_ok e \<longleftrightarrow> env_ok (me_env e) \<and> length (me_password e) = MAX_PW_LEN"

abbreviation version_of :: "main_env \<Rightarrow> u8 list" where
  "version_of e \<equiv> env_version (me_env e)"

lemma session_lookup_conn_range:
  assumes "wf_session s" "session_lookup_conn s fd = Some i"
  shows "i < MAX_SESSIONS" "0 \<le> slot_fd s i"
  using assms find_fd_Some [of "sessions s" fd 0 i] wf_session_length [OF assms(1)]
  by (auto simp: session_lookup_conn_def session_find_private_def split: option.splits if_splits)

lemma select_slot_inv: "main_inv ver st \<Longrightarrow> (\<And>k. i = Some k \<Longrightarrow> k < MAX_SESSIONS) \<Longrightarrow> main_inv ver (select_slot i b st)"
  by (simp add: main_inv_def wf_server_def select_slot_def)

lemma select_slot_session [simp]: "st_session (select_slot i b st) = st_session st"
  by (simp add: select_slot_def)

lemma session_set_data_pending_wf:
  assumes "wf_session s"
  shows "wf_session (snd (session_set_data_pending s c b))"
proof -
  let ?x = "\<lambda>i j. (sessions s)[i := (sessions s ! i)\<lparr>sess_data_pending := b\<rparr>] ! j"
  have "id (?x i j) = id (sessions s ! j) \<and> extconn (?x i j) = extconn (sessions s ! j) \<and>
    b_authenticated (?x i j) = b_authenticated (sessions s ! j)" for i j
    by (cases "i < length (sessions s)") (auto simp: nth_list_update list_update_beyond not_less)
  then show ?thesis
    using assms by (simp add: wf_session_def session_set_data_pending_def upd_session_def split: option.split)
qed

lemma serve_message_inv:
  assumes "kernel_ok os" "main_env_ok e" "main_inv (version_of e) st" "k < MAX_SESSIONS"
  shows "ensures (serve_message os e st k tr) (\<lambda>(r, st', tr'). main_inv (version_of e) st')"
proof -
  have st: "msg_inv (version_of e) (arg_timeout (st_args st)) (st_msg st)" "wf_server (st_server st)" "env_ok (me_env e)"
    using assms by (simp_all add: main_inv_def main_env_ok_def)
  obtain r out m srv tr1 where op: "asd_api_target_ioctl os (me_env e) (st_server st) IOCTL_TARGET_PROCESS_MSG (st_msg st) tr
      = Some (r, out, m, srv, tr1)" and srv: "msg_inv (version_of e) (arg_timeout (st_args st)) m" "wf_server srv"
    using process_msg_inv [OF assms(1) st(3,1,2), of tr] unfolding ensures_iff by (auto simp del: asd_api_target_ioctl.simps)
  have inv: "main_inv (version_of e) (st\<lparr>st_msg := m, st_server := srv\<rparr>)"
    using assms(3) srv by (simp add: main_inv_def)
  have wf: "wf_session (session srv)" using srv(2) by (simp add: wf_server_def)
  have len: "k < length (sessions (session srv))" using assms(4) wf_session_length [OF wf] by simp
  define conn where "conn = extconn (sessions (session srv) ! k)"
  have fd: "- 1 \<le> sockfd conn" using slot_fd_range [OF wf assms(4)] by (simp add: conn_def)
  note pend = session_set_data_pending_wf [OF wf, of conn]
  show ?thesis
    using close_session_inv [OF _ fd] main_inv_session [OF inv pend]
    by (auto simp: serve_message_def op Let_def split_def array_simps len simp del: asd_api_target_ioctl.simps simp flip: conn_def
        intro!: ensures_conseq [OF on_client_disconnect_inv [OF inv]])
qed

lemma process_client_message_inv:
  assumes "kernel_ok os" "main_env_ok e" "main_inv (version_of e) st"
  shows "ensures (process_client_message os e st p tr) (\<lambda>(r, st', tr'). main_inv (version_of e) st')"
proof (cases "session_lookup_conn (st_session st) (fst p)")
  case None
  then show ?thesis
    using select_slot_inv [OF assms(3), of None False] by (simp add: process_client_message_def)
next
  case (Some k)
  note wf = main_inv_wf [OF assms(3)]
  note k = session_lookup_conn_range [OF wf Some]
  have e: "env_ok (me_env e)" "length (me_password e) = MAX_PW_LEN" using assms(2) by (simp_all add: main_env_ok_def)
  have len: "k < length (sessions (st_session st))" using k wf_session_length [OF wf] by simp
  have sel: "main_inv (version_of e) (select_slot (Some k) b st)" for b
    by (rule select_slot_inv [OF assms(3)]) (use k in simp)
  have auth: "ensures (ensure_client_authenticated os e (select_slot (Some k) b st) k tr) (\<lambda>(r, st', tr'). main_inv (version_of e) st')" for b
    by (rule ensure_client_authenticated_inv [OF assms(1) e(1) sel e(2)]) (use k in simp_all)
  show ?thesis
    using sel
    by (auto simp: process_client_message_def Let_def Some array_simps len split_def
        intro!: ensures_conseq [OF auth] ensures_conseq [OF serve_message_inv [OF assms(1,2) _ k(1)]])
qed

lemma client_messages_inv:
  assumes "kernel_ok os" "main_env_ok e" "main_inv (version_of e) st"
  shows "ensures (client_messages os e st ps r tr) (\<lambda>(r', st', tr'). main_inv (version_of e) st')"
  using assms(3)
proof (induction ps arbitrary: st r tr)
  case (Cons p ps)
  then show ?case
    using process_client_message_inv [OF assms(1,2) Cons.prems, of p tr] by (auto elim!: ensures_conseq)
qed simp

lemma process_all_client_messages_inv:
  assumes "kernel_ok os" "main_env_ok e" "main_inv (version_of e) st"
  shows "ensures (process_all_client_messages os e st ps tr) (\<lambda>(r, st', tr'). main_inv (version_of e) st')"
proof -
  obtain s tr1 where c: "session_close_expired_unauth os (st_session st) tr = (s, tr1)" by force
  have "main_inv (version_of e) (set_session s st)"
    by (rule main_inv_session [OF assms(3) session_close_expired_unauth_refines(1) [OF main_inv_wf [OF assms(3)] c]])
  from client_messages_inv [OF assms(1,2) this] show ?thesis
    by (simp add: process_all_client_messages_def c)
qed

text \<open>A new client takes a slot when \<open>accept\<close> answers a descriptor that is not in the table.\<close>

definition accepted_fd :: "os \<Rightarrow> asd_state \<Rightarrow> trace \<Rightarrow> int" where
  "accepted_fd os st tr = fst (os tr (Sys_net ''accept'' [] [host_fd st]))"

lemma process_new_client_inv:
  assumes "main_inv ver st" "accepted_fd os st tr \<notin> open_fds (st_session st)"
    "process_new_client os e st n k tr = (r, fds, st', tr')"
  shows "main_inv ver st'"
proof -
  obtain r1 conn tr1 where a: "extnet_accept_connection os (ssl_ctx st) (extnet (st_session st)) (host_fd st) (me_conn e) tr = (r1, conn, tr1)"
    by (metis prod_cases3)
  obtain r2 s tr2 where o: "session_open os (st_session st) conn tr1 = (r2, s, tr2)" by (metis prod_cases3)
  show ?thesis
  proof (cases "r1 = ST_OK")
    case True
    have nn: "0 \<le> accepted_fd os st tr"
      using a True by (auto simp: accepted_fd_def extnet_accept_connection_def sys_def Let_def split: if_splits)
    have "sockfd conn = accepted_fd os st tr"
      using extnet_accept_no_leak [OF a _ nn] True by (simp add: accepted_fd_def)
    then have "wf_session s"
      using session_open_refines(1) [OF main_inv_wf [OF assms(1)] _ _ o] nn assms(2) by simp
    then show ?thesis
      using assms(1,3) main_inv_session [OF assms(1)] True by (auto simp: process_new_client_def a o Let_def split: if_splits)
  next
    case False
    then show ?thesis using assms by (auto simp: process_new_client_def a Let_def)
  qed
qed

section \<open>A round is safe\<close>

lemma getfds_from_length:
  "getfds_from os is s pend zero fds t tr = (fds', t', z, tr') \<Longrightarrow> length fds' \<le> length fds + length is"
proof (induction "is" arbitrary: pend zero fds t tr)
  case (Cons i "is")
  then show ?case
    by (force simp: Let_def split_def split: if_splits)
qed simp

lemma session_getfds_length:
  assumes "wf_session s" "session_getfds os s t tr = (r, fds, t', tr')"
  shows "r = ST_OK" "length fds \<le> MAX_SESSIONS"
proof -
  obtain x where x: "getfds_from os [0..<MAX_SESSIONS] s False False [] t tr = x" by simp
  then have "length (fst x) \<le> MAX_SESSIONS"
    using getfds_from_length [of os "[0..<MAX_SESSIONS]" s False False "[]" t tr] by (cases x) simp
  then show "r = ST_OK" "length fds \<le> MAX_SESSIONS"
    using assms(2) wf_session_initialized [OF assms(1)] by (auto simp: session_getfds_def x split_def Let_def)
qed

text \<open>The table has room for every descriptor there can be.\<close>

lemma poll_table_fits:
  assumes "length gs \<le> NUM_GPIOS + NUM_DBUS_FDS" "length cs \<le> MAX_SESSIONS"
  shows "poll_table hfd gs cs = Some ((hfd, 1) # gs @ map (\<lambda>fd. (fd, 1)) cs)"
proof -
  have n: "1 + length gs + length cs \<le> MAX_FDS" "0 < MAX_FDS"
    using assms by (simp_all add: MAX_FDS_def)
  have w: "wrs (a @ c) (length a) vs = Some (a @ vs @ drop (length vs) c)" if "length vs \<le> length c" for a c vs :: "(int \<times> nat) list"
    using that by (simp add: wrs_def)
  define z :: "(int \<times> nat) list" where "z = replicate (MAX_FDS - 1) (0, 0)"
  have z: "length z = MAX_FDS - 1" "replicate MAX_FDS (0, 0) = (0, 0) # z"
    using n(2) by (simp_all add: z_def flip: replicate_Suc)
  have t0: "wr (replicate MAX_FDS (0, 0)) 0 (hfd, 1) = Some ([(hfd, 1)] @ z)"
    by (simp add: wr_def z(2))
  have t1: "wrs ([(hfd, 1)] @ z) 1 gs = Some (((hfd, 1) # gs) @ drop (length gs) z)"
    using w [of gs z "[(hfd, 1)]"] n z(1) by simp
  have t2: "wrs (((hfd, 1) # gs) @ drop (length gs) z) (1 + length gs) (map (\<lambda>fd. (fd, 1)) cs)
      = Some (((hfd, 1) # gs) @ map (\<lambda>fd. (fd, 1)) cs @ drop (length cs) (drop (length gs) z))"
    using w [of "map (\<lambda>fd. (fd, 1)) cs" "drop (length gs) z" "(hfd, 1) # gs"] n z(1) by simp
  show ?thesis
    unfolding poll_table_def t0 Option.bind.bind_lunit t1 t2 by simp
qed

definition polled_ok :: "polled \<Rightarrow> bool" where
  "polled_ok p \<longleftrightarrow> length (poll_revents p) = 1 + length (gpio_fds p) + length (client_fds p) \<and>
     1 + length (gpio_fds p) + length (client_fds p) \<le> MAX_FDS"

lemma poll_round_ok:
  assumes "main_inv ver st"
  shows "ensures (poll_round os e st tr) (\<lambda>(r, p, tr'). r = ST_OK \<longrightarrow> polled_ok p)"
proof -
  have m: "msg_inv ver (arg_timeout (st_args st)) (st_msg st)" using assms by (simp add: main_inv_def)
  obtain r fds where g: "asd_api_target_ioctl os (me_env e) (st_server st) IOCTL_TARGET_GET_PIN_FDS (st_msg st) tr
      = Some (r, Target_fds fds, st_msg st, st_server st, tr)" "length fds \<le> NUM_GPIOS + NUM_DBUS_FDS"
    using pin_fds_bound [OF m, of os "me_env e" "st_server st" tr] by (auto simp: ensures_iff simp del: asd_api_target_ioctl.simps)
  obtain r2 cs tmo tr2 where c: "session_getfds os (st_session st) (- 1) tr = (r2, cs, tmo, tr2)" by (metis prod_cases4)
  note cs = session_getfds_length [OF main_inv_wf [OF assms] c]
  define gs where "gs = (if r = ST_OK then fds else [])"
  have gs: "length gs \<le> NUM_GPIOS + NUM_DBUS_FDS" using g(2) by (simp add: gs_def)
  show ?thesis
    using gs cs
    by (auto simp: poll_round_def g(1) c Let_def poll_table_fits polled_ok_def revents_of_def MAX_FDS_def
        simp del: asd_api_target_ioctl.simps simp flip: gs_def)
qed

lemma plural_length:
  assumes "0 \<le> n" "n < 1000"
  shows "length (dec n) \<le> 3"
  using assms length_dec_nat [of "nat n" 2] by (simp add: dec_def)

lemma send_warning_message_fits:
  assumes "0 \<le> idle - warning" "idle - warning < 2 ^ 31"
  shows "\<exists>m. send_warning_message idle warning = Some m"
proof -
  define rem where "rem = idle - warning"
  have h: "0 \<le> rem div HOURSTOMS" "rem div HOURSTOMS < 1000" "0 \<le> rem mod HOURSTOMS div MINUTESTOMS" "rem mod HOURSTOMS div MINUTESTOMS < 1000"
    "0 \<le> rem mod MINUTESTOMS div MSTOSEC" "rem mod MINUTESTOMS div MSTOSEC < 1000"
    using assms by (simp_all add: rem_def HOURSTOMS_def MINUTESTOMS_def MSTOSEC_def)
  note l = plural_length [OF h(1,2)] plural_length [OF h(3,4)] plural_length [OF h(5,6)]
  show ?thesis
    using l by (auto simp: send_warning_message_def Let_def simp flip: rem_def)
qed

lemma warning_time_bounds: "0 < i \<Longrightarrow> 0 \<le> i - warning_time i \<and> i - warning_time i \<le> i"
  unfolding warning_time_def by presburger

lemma idle_round_inv:
  assumes "main_inv ver st" "\<bar>elapsed_ms (fst (os tr Sys_timeofday)) (last_activity_time act)\<bar> \<le> LONG_MAX"
  shows "ensures (idle_round os (warning_time (idle_timeout (arg_timeout (st_args st)))) st act tr)
    (\<lambda>(closed, st', act', tr'). main_inv ver st' \<and> (\<not> closed \<longrightarrow> st' = st))"
proof -
  let ?idle = "idle_timeout (arg_timeout (st_args st))"
  have idle: "timecfg (st_config st) = arg_timeout (st_args st)" "0 < ?idle" "?idle < 2 ^ 31"
    using assms(1) by (simp_all add: main_inv_def msg_inv_def)
  obtain m where w: "send_warning_message ?idle (warning_time ?idle) = Some m"
    using send_warning_message_fits [of ?idle "warning_time ?idle"] warning_time_bounds [OF idle(2)] idle(3) by auto
  show ?thesis
    using assms(1,2)
    by (auto simp: idle_round_def check_idle_timeout_def idle(1) w sys_def Let_def intro!: ensures_conseq [OF close_connection_inv])
qed

lemma network_events_inv:
  assumes "kernel_ok os" "main_env_ok e" "main_inv (version_of e) st" "accepted_fd os st tr \<notin> open_fds (st_session st)"
  shows "ensures (network_events os e p st act tr) (\<lambda>(st', act', tr'). main_inv (version_of e) st')"
proof -
  define x where "x = (if polled_in (poll_revents p ! 0)
    then process_new_client os e st (length (client_fds p)) (1 + length (gpio_fds p)) tr else (ST_OK, [], st, tr))"
  obtain r fds st1 tr1 where y: "x = (r, fds, st1, tr1)" by (cases x)
  have "main_inv (version_of e) st1"
    using y assms(3) process_new_client_inv [OF assms(3,4)] by (auto simp: x_def split: if_splits)
  note step = ensures_conseq [OF process_all_client_messages_inv [OF assms(1,2) this]]
  show ?thesis
    unfolding network_events_def Let_def x_def [symmetric] y prod.case
    using assms(3) by (auto simp: split_def intro!: step)
qed

lemma pin_events_inv:
  assumes "kernel_ok os" "main_inv ver st"
  shows "ensures (pin_events os e p st tr) (\<lambda>(st', tr'). main_inv ver st')"
proof -
  have st: "msg_inv ver (arg_timeout (st_args st)) (st_msg st)" "wf_server (st_server st)"
    using assms by (simp_all add: main_inv_def)
  obtain r out m srv tr1 where op: "asd_api_target_ioctl os (me_env e) (st_server st) (IOCTL_TARGET_PROCESS_ALL_PIN_EVENTS (gpio_fds p)) (st_msg st) tr
      = Some (r, out, m, srv, tr1)" and m: "msg_inv ver (arg_timeout (st_args st)) m"
    using pins_inv [OF assms(1) st, of "me_env e" "gpio_fds p" tr] unfolding ensures_iff by (auto simp del: asd_api_target_ioctl.simps)
  note inv = main_inv_msg [OF assms(2) m]
  show ?thesis
    using inv assms(2) close_connection_inv [OF inv]
    by (auto simp: pin_events_def op Let_def split_def simp del: asd_api_target_ioctl.simps elim!: ensures_conseq)
qed

section \<open>The daemon never misbehaves\<close>

text \<open>
  What a round may rely on: the clock has not jumped by weeks since the last activity, and \<open>accept\<close> answers
  a descriptor that is not open.
\<close>

definition steady :: "os \<Rightarrow> main_env \<Rightarrow> int \<Rightarrow> asd_state \<Rightarrow> activity \<Rightarrow> trace \<Rightarrow> bool" where
  "steady os e warning st act tr \<longleftrightarrow>
     \<bar>elapsed_ms (fst (os tr Sys_timeofday)) (last_activity_time act)\<bar> \<le> LONG_MAX \<and>
     whenever (idle_round os warning st act tr) (\<lambda>(closed, st1, act1, tr1).
       whenever (poll_round os e st1 tr1) (\<lambda>(r, p, tr2). accepted_fd os st1 tr2 \<notin> open_fds (st_session st1)))"

lemma serve_round_safe:
  assumes "kernel_ok os" "main_env_ok e" "main_inv (version_of e) st"
    "steady os e (warning_time (idle_timeout (arg_timeout (st_args st)))) st act tr"
  shows "ensures (serve_round os e (warning_time (idle_timeout (arg_timeout (st_args st)))) st act tr)
    (\<lambda>(r, st', act', tr'). main_inv (version_of e) st')"
proof -
  let ?w = "warning_time (idle_timeout (arg_timeout (st_args st)))"
  obtain closed st1 act1 tr1 where i: "idle_round os ?w st act tr = Some (closed, st1, act1, tr1)" "main_inv (version_of e) st1"
    using idle_round_inv [OF assms(3), of os tr act] assms(4) by (auto simp: ensures_iff steady_def)
  obtain r p tr2 where p: "poll_round os e st1 tr1 = Some (r, p, tr2)"
    using poll_round_ok [OF i(2), of os e tr1] by (auto simp: ensures_iff)
  have fresh: "accepted_fd os st1 tr2 \<notin> open_fds (st_session st1)"
    using assms(4) by (simp add: steady_def i(1) p)
  show ?thesis
    using i(2)
    by (auto simp: serve_round_def i(1) p intro!: ensures_conseq [OF network_events_inv [OF assms(1,2) i(2) fresh]]
        ensures_conseq [OF pin_events_inv [OF assms(1)]])
qed

text \<open>The arguments of the command line stay as they are.\<close>

named_theorems args_kept \<open>operations that leave the arguments alone\<close>

lemma state_parts_args [args_kept]:
  "st_args (log_settings b st) = st_args st" "st_args (set_config c st) = st_args st" "st_args (set_session s st) = st_args st"
  "st_args (select_slot i p st) = st_args st" "st_args (fst (close_session os conn st tr)) = st_args st"
  by (simp_all add: log_settings_def set_config_def set_session_def select_slot_def close_session_def split_def Let_def)

lemma on_client_disconnect_args: "on_client_disconnect os st tr = Some x \<Longrightarrow> st_args (fst (snd x)) = st_args st"
  by (auto simp: on_client_disconnect_def Let_def split_def args_kept bind_eq_Some_conv split: if_splits)

lemma close_connection_args: "close_connection os st tr = Some x \<Longrightarrow> st_args (fst (snd x)) = st_args st"
  by (auto simp: close_connection_def Let_def split_def args_kept bind_eq_Some_conv split: if_splits option.splits
      dest!: on_client_disconnect_args)

lemma connect_target_args: "connect_target os e st tr = Some x \<Longrightarrow> st_args (fst (snd x)) = st_args st"
  by (auto simp: connect_target_def Let_def split_def args_kept bind_eq_Some_conv split: if_splits)

lemma on_client_connect_args: "on_client_connect os e st conn tr = Some x \<Longrightarrow> st_args (fst (snd x)) = st_args st"
proof -
  have "st_args (case out of Target_buses b p \<Rightarrow> st\<lparr>target_bus_options := b, asd_config_path := p\<rparr> | _ \<Rightarrow> st) = st_args st" for out
    by (cases out) simp_all
  then show "on_client_connect os e st conn tr = Some x \<Longrightarrow> st_args (fst (snd x)) = st_args st"
    by (auto simp: on_client_connect_def split_def bind_eq_Some_conv simp del: asd_api_target_ioctl.simps dest!: connect_target_args)
qed

lemma ensure_client_authenticated_args: "ensure_client_authenticated os e st i tr = Some x \<Longrightarrow> st_args (fst (snd x)) = st_args st"
  by (auto simp: ensure_client_authenticated_def Let_def split_def args_kept bind_eq_Some_conv split: if_splits
      dest!: on_client_connect_args on_client_disconnect_args)

lemma serve_message_args: "serve_message os e st k tr = Some x \<Longrightarrow> st_args (fst (snd x)) = st_args st"
  by (auto simp: serve_message_def Let_def split_def args_kept bind_eq_Some_conv simp del: asd_api_target_ioctl.simps split: if_splits
      dest!: on_client_disconnect_args)

lemma process_client_message_args: "process_client_message os e st p tr = Some x \<Longrightarrow> st_args (fst (snd x)) = st_args st"
  by (auto simp: process_client_message_def Let_def split_def args_kept bind_eq_Some_conv split: if_splits option.splits
      dest!: ensure_client_authenticated_args serve_message_args)

lemma client_messages_args: "client_messages os e st ps r tr = Some x \<Longrightarrow> st_args (fst (snd x)) = st_args st"
  by (induction ps arbitrary: st r tr)
    (auto simp: split_def bind_eq_Some_conv split: if_splits dest!: process_client_message_args)

lemma process_new_client_args: "st_args (fst (snd (snd (process_new_client os e st n k tr)))) = st_args st"
  by (simp add: process_new_client_def Let_def split_def args_kept)

lemma network_events_args: "network_events os e p st act tr = Some x \<Longrightarrow> st_args (fst x) = st_args st"
  by (auto simp: network_events_def process_all_client_messages_def Let_def split_def args_kept process_new_client_args bind_eq_Some_conv
      split: if_splits dest!: client_messages_args)

lemma pin_events_args: "pin_events os e p st tr = Some x \<Longrightarrow> st_args (fst x) = st_args st"
  by (auto simp: pin_events_def Let_def split_def bind_eq_Some_conv simp del: asd_api_target_ioctl.simps split: if_splits
      dest!: close_connection_args)

lemma serve_round_args: "serve_round os e w st act tr = Some x \<Longrightarrow> st_args (fst (snd x)) = st_args st"
  by (auto simp: serve_round_def idle_round_def Let_def split_def bind_eq_Some_conv split: if_splits
      dest!: close_connection_args network_events_args pin_events_args)

text \<open>The states the loop passes through, from the one it starts in.\<close>

inductive serving :: "os \<Rightarrow> main_env \<Rightarrow> int \<Rightarrow> asd_state \<Rightarrow> activity \<Rightarrow> trace \<Rightarrow> asd_state \<Rightarrow> activity \<Rightarrow> trace \<Rightarrow> bool"
  for os e warning st0 act0 tr0 where
  start: "serving os e warning st0 act0 tr0 st0 act0 tr0"
| round: "serving os e warning st0 act0 tr0 st act tr \<Longrightarrow> steady os e warning st act tr \<Longrightarrow>
     serve_round os e warning st act tr = Some (ST_OK, st', act', tr') \<Longrightarrow> serving os e warning st0 act0 tr0 st' act' tr'"

lemma serving_inv:
  assumes "serving os e (warning_time (idle_timeout (arg_timeout (st_args st0)))) st0 act0 tr0 st act tr"
    "kernel_ok os" "main_env_ok e" "main_inv (version_of e) st0"
  shows "main_inv (version_of e) st \<and> st_args st = st_args st0"
  using assms(1)
proof (induction rule: serving.induct)
  case start
  then show ?case using assms(4) by simp
next
  case (round st act tr st' act' tr')
  then have st: "main_inv (version_of e) st" "st_args st0 = st_args st" by simp_all
  have "main_inv (version_of e) st'"
    using serve_round_safe [OF assms(2,3) st(1), of act tr] round.hyps(2,3) by (simp add: st(2))
  then show ?case using serve_round_args [OF round.hyps(3)] st(2) by simp
qed

text \<open>What \<open>init_asd_state\<close> leaves is a state the loop can start in.\<close>

lemma zero_msg_inv:
  assumes "2 \<le> length ver" "length ver + 121 < MAX_DATA_SIZE"
  shows "msg_inv ver (timecfg zero_config) zero_msg"
  using assms
  by (auto simp: msg_inv_def zero_msg_def zero_config_def read_inv_def recv_inv_def wf_msg_def wf_read_def wf_probes_def wf_version_def
      settled_def calm_def wf_bus_config_def wf_message_def zero_message_def zero_buffer_def MAX_IxC_BUSES_def MAX_SPP_BUSES_def)

lemma configured_inv:
  assumes "sound_args (args c)" "\<not> opt_enable_spp (busopt (args c))" "main_env_ok e" "wf_session s"
    "plain_config (arg_timeout (args c)) cfg" "auth_ok a" "auth_hdlr a = Some (e_auth_type (session_opts (args c)))"
  shows "main_inv (version_of e) (set_session s ((set_config cfg (configured c))\<lparr>st_auth := a\<rparr>))"
proof -
  have e: "2 \<le> length (version_of e)" "length (version_of e) + 121 < MAX_DATA_SIZE"
    using assms(3) by (simp_all add: main_env_ok_def env_ok_def)
  have m: "msg_inv (version_of e) (arg_timeout (args c)) (zero_msg\<lparr>asd_cfg := cfg\<rparr>)"
    by (rule msg_inv_config [OF zero_msg_inv [OF e] assms(5)])
  have b: "plain_options (busopt (args c))" "plain_options (busopt zero_args)"
    using assms(1,2) by (simp_all add: plain_options_def wf_options_def sound_args_def sound_buses_def zero_args_def)
  show ?thesis
    using assms(1,4,6,7) m b
    by (simp add: main_inv_def configured_def main_state_def set_session_def set_config_def zero_server_def wf_server_def sound_args_def)
qed

lemma init_asd_state_inv:
  assumes "sound_args (args c)" "\<not> opt_enable_spp (busopt (args c))" "main_env_ok e"
    "init_asd_state os e (configured c) tr = (ST_OK, st, tr')"
  shows "main_inv (version_of e) st \<and> st_args st = args c \<and> open_fds (st_session st) = {} \<and> \<not> is_connected st"
proof -
  define cfg where "cfg = snd (set_config_defaults (st_config (configured c)) (busopt (args c)) (arg_timeout (args c)))"
  have cfg: "plain_config (arg_timeout (args c)) cfg"
    unfolding cfg_def by (rule set_config_defaults_plain [OF assms(2)])
  obtain s a ctx h ev where st: "st = (set_session s ((log_settings False (set_config cfg (configured c)))\<lparr>ssl_ctx := ctx, st_auth := a\<rparr>))
      \<lparr>event_fd := ev, host_fd := h\<rparr>" "wf_session s" "auth_ok a" "auth_hdlr a = Some (e_auth_type (session_opts (args c)))" "open_fds s = {}"
    using assms(4) session_init_wf(1,2)
    by (auto simp: init_asd_state_def configured_def main_state_def set_config_def log_settings_def auth_init_def authpam_init_def authnone_init_def
        zero_auth_def auth_ok_def Let_def split_def cfg_def split: option.splits prod.splits if_splits auth_hdlr_type_t.splits)
  have "st = (log_settings False (set_session s ((set_config cfg (configured c))\<lparr>st_auth := a\<rparr>)))\<lparr>ssl_ctx := ctx, event_fd := ev, host_fd := h\<rparr>"
    by (simp add: st(1) log_settings_def set_session_def)
  then show ?thesis
    using configured_inv [OF assms(1-3) st(2) cfg st(3,4)]
    by (simp add: args_kept set_session_def log_settings_def st(5)) (simp add: main_inv_def configured_def set_config_def main_state_def)
qed

section \<open>Who is served\<close>

lemma ensure_client_refused:
  assumes "i < length (sessions (st_session st))" "extconn (sessions (st_session st) ! i) = conn"
    "session_already_authenticated (st_session st) conn \<noteq> ST_OK"
    "auth_client_handshake os (me_password e) (st_session st) (extnet (st_session st)) conn (st_auth st) tr = Some (r, a, tr1)" "r \<noteq> ST_OK"
  shows "ensure_client_authenticated os e st i tr =
    (let (st', tr') = close_session os conn (st\<lparr>st_auth := a\<rparr>) (on_connection_aborted os tr1) in Some (r, st', tr'))"
  using assms by (simp add: ensure_client_authenticated_def array_simps Let_def set_session_same)

lemma not_authenticated:
  assumes "wf_session s" "authed_fd s \<noteq> Some (sockfd c)"
  shows "session_already_authenticated s c \<noteq> ST_OK"
proof
  assume "session_already_authenticated s c = ST_OK"
  then obtain i where i: "session_find_private s (sockfd c) = Some i" "b_authenticated (sessions s ! i)"
    by (auto simp: session_already_authenticated_def split: if_splits option.splits)
  have "i < MAX_SESSIONS" "sockfd (extconn (sessions s ! i)) = sockfd c"
    using session_find_private_Some [OF assms(1) i(1)] by simp_all
  then have "authed_fd s = Some (sockfd c)"
    using wf_session_auth [OF assms(1)] i(2) by (simp add: authed_fd_def)
  then show False using assms(2) by simp
qed

text \<open>
  A message that is not from the authenticated client reaches the message layer, and changes who is
  authenticated, only if PAM accepts the password that came with it.
\<close>

lemma message_only_granted:
  assumes "main_inv ver st" "length (me_password e) = MAX_PW_LEN" "e_auth_type (session_opts (st_args st)) = AUTH_HDLR_PAM"
    "authed_fd (st_session st) \<noteq> Some fd" "process_client_message os e st (fd, rv) tr = Some (r, st', tr')"
  shows "(st_msg st' = st_msg st \<and> authed_fd (st_session st') = authed_fd (st_session st)) \<or>
    (\<exists>conn tr2. sockfd conn = fd \<and> granted os (st_auth st) (extnet (st_session st)) conn (tr @ [Sys_rand MAX_PW_LEN]) tr2)"
proof (cases "session_lookup_conn (st_session st) fd")
  case None
  then show ?thesis using assms(5) by (auto simp: process_client_message_def select_slot_def)
next
  case (Some k)
  note wf = main_inv_wf [OF assms(1)]
  note k = session_lookup_conn_range [OF wf Some]
  have len: "k < length (sessions (st_session st))" using k wf_session_length [OF wf] by simp
  define conn where "conn = extconn (sessions (st_session st) ! k)"
  have fd: "sockfd conn = fd" "0 \<le> sockfd conn"
    using Some k session_find_private_Some [OF wf, of fd k] by (auto simp: conn_def session_lookup_conn_def split: option.splits if_splits)
  define b where "b = snd (session_get_data_pending (st_session st) conn False)"
  define st1 where "st1 = select_slot (Some k) b st"
  have st1: "st_session st1 = st_session st" "st_auth st1 = st_auth st" "st_msg st1 = st_msg st"
    by (simp_all add: st1_def select_slot_def)
  have auth: "auth_ok (st_auth st)" "auth_hdlr (st_auth st) = Some AUTH_HDLR_PAM"
    using assms(1,3) by (simp_all add: main_inv_def)
  obtain q a tr1 where h: "auth_client_handshake os (me_password e) (st_session st) (extnet (st_session st)) conn (st_auth st) tr = Some (q, a, tr1)"
    and g: "q = ST_OK \<longrightarrow> (\<exists>tr2. granted os (st_auth st) (extnet (st_session st)) conn (tr @ [Sys_rand MAX_PW_LEN]) tr2)"
    using authpam_client_handshake_ok [OF auth(1) wf assms(2), of os "extnet (st_session st)" conn tr] auth(2)
    by (auto simp: ensures_iff auth_client_handshake_def)
  show ?thesis
  proof (cases "q = ST_OK")
    case True
    then show ?thesis using g fd by blast
  next
    case False
    have ens: "ensure_client_authenticated os e st1 k tr =
        (let (st', tr') = close_session os conn (st1\<lparr>st_auth := a\<rparr>) (on_connection_aborted os tr1) in Some (q, st', tr'))"
      by (rule ensure_client_refused) (use len h False st1 not_authenticated [OF wf] assms(4) fd(1) in \<open>simp_all add: conn_def\<close>)
    have st2: "st_msg (fst (close_session os conn x t)) = st_msg x \<and> authed_fd (st_session (fst (close_session os conn x t))) = authed_fd (st_session st)"
      if "st_session x = st_session st" for x t
    proof -
      obtain r' s' t' where c: "session_close os (st_session st) conn t = (r', s', t')" by (metis prod_cases3)
      then show ?thesis
        using session_close_refines(4) [OF wf fd(2) c] assms(4) fd(1) that by (simp add: close_session_def set_session_def split_def)
    qed
    have "st_msg st' = st_msg st \<and> authed_fd (st_session st') = authed_fd (st_session st)"
      using assms(5) False st1 st2 [of "st1\<lparr>st_auth := a\<rparr>" "on_connection_aborted os tr1"] ens
      by (auto simp: process_client_message_def Some array_simps len Let_def split_def simp flip: conn_def b_def st1_def split: if_splits)
    then show ?thesis by blast
  qed
qed

section \<open>A client that is not disconnected\<close>

text \<open>
  Freeing the message layer fails when the client never asked for the probes; a client that has been idle for too
  long then keeps its session, authenticated, while every handler is gone, and the idle time is not checked again.
\<close>

lemma idle_client_kept:
  assumes "main_inv ver st" "authed_fd (st_session st) \<noteq> None" "inst (st_msg st)" "\<not> opt_ok vp_initialized (vprobe_handler (st_msg st))"
  shows "\<exists>st' tr'. close_connection os st tr = Some (ST_ERR, st', tr') \<and> st_server st' = st_server st \<and> \<not> is_connected st' \<and>
    jtag_handler (st_msg st') = None \<and> target_handler (st_msg st') = None \<and> spp_handler (st_msg st') = None"
proof -
  obtain c where c: "session_get_authenticated_conn (st_session st) = Some (ST_OK, Some c)"
    using session_get_authenticated_conn_refines [OF main_inv_wf [OF assms(1)]] assms(2) by auto
  define cfg where "cfg = snd (set_config_defaults (st_config st) (busopt (st_args st)) (arg_timeout (st_args st)))"
  define st1 where "st1 = log_settings False (set_config cfg (st\<lparr>is_connected := False\<rparr>))"
  have st1: "st_server st1 = st_server st" "\<not> is_connected st1" "st_msg st1 = (st_msg st)\<lparr>asd_cfg := cfg\<rparr>"
    by (simp_all add: st1_def log_settings_def set_config_def)
  have "plain_config (arg_timeout (st_args st)) cfg"
    unfolding cfg_def by (rule set_config_defaults_plain) (use assms(1) in \<open>simp add: main_inv_def plain_options_def\<close>)
  then have "wf_msg (st_msg st1)"
    using assms(1) msg_inv_config [of ver _ "st_msg st"] msg_invD(1) by (simp add: st1(3) main_inv_def) blast
  then obtain r m tr1 where f: "asd_api_target_deinit os (st_msg st1) tr = Some (r, m, tr1)" "free_post (st_msg st1) tr (r, m, tr1)"
    using asd_msg_free_releases [of "st_msg st1" os tr] assms(3) st1(3)
    by (auto simp: ensures_iff asd_api_target_deinit_def asd_target_deinit_def)
  then have "r \<noteq> ST_OK" "jtag_handler m = None" "target_handler m = None" "spp_handler m = None"
    using assms(4) st1(3) by (auto simp: free_post_def)
  then show ?thesis
    using f(1) st1 by (auto simp: close_connection_def c on_client_disconnect_def split_def Let_def simp flip: cfg_def st1_def)
qed

end
