(* ===== verification/Sample_Daemon.thy ===== *)
theory Sample_Daemon
  imports Sample_States Asd_Main
begin

text \<open>
  Concrete states of the daemon, for the witnesses: a kernel that accepts everything and has no system bus, the
  daemon started without options, and one with a client that has connected but not authenticated.
\<close>

definition daemon_os :: os where
  "daemon_os tr c = (case c of Sys_dbus f a \<Rightarrow> (- 1, []) | _ \<Rightarrow> calm_os tr c)"

lemma kernel_ok_daemon_os: "kernel_ok daemon_os"
  by (auto simp: kernel_ok_def recv_honest_def poll_answers_def names_nonempty_def memory_def file_ends_def lines_fit_def pauses_def
      strings_stored_def plain_platform_def read_string_def daemon_os_def calm_os_def sys_data_def Let_def)

definition sample_env :: env where
  "sample_env = \<lparr>env_version = sample_version, env_zero_copy = False, env_locals = sample_locals, env_event = 0,
     env_uninit = \<lparr>un_i2c_bus = 0, un_i3c_bus = 0, un_spd_map = replicate MAX_IxC_BUSES 0, un_spp_fd = 0,
       glob_fail_read_counter = 0, glob_platform_reset = False\<rparr>\<rparr>"

definition sample_main_env :: main_env where
  "sample_main_env = \<lparr>me_env = sample_env, me_conn = sample_conn, me_password = replicate MAX_PW_LEN 0, me_slots = (\<lambda>_. sample_conn)\<rparr>"

lemma sample_main_env_ok: "main_env_ok sample_main_env" "version_of sample_main_env = sample_version"
  using wf_sample_locals
  by (simp_all add: main_env_ok_def env_ok_def sample_main_env_def sample_env_def sample_version_def bytes_of_def MAX_DATA_SIZE_def)

text \<open>No options: TLS, PAM, no buses.\<close>

definition sample_cmdline :: cmdline where
  "sample_cmdline = \<lparr>args = default_args zero_args, cfg_xdp_fail_enable = DEFAULT_XDP_FAIL_ENABLE, bus_counter = 0, spp_counter = 0\<rparr>"

lemma sample_cmdline_ok:
  "process_command_line os [] zero_args tr = (Some (Some sample_cmdline), tr)" "sound_args (args sample_cmdline)"
  "\<not> opt_enable_spp (busopt (args sample_cmdline))" "e_auth_type (session_opts (args sample_cmdline)) = AUTH_HDLR_PAM"
  using default_args_sound
  by (simp_all add: process_command_line_def sample_cmdline_def) (simp_all add: default_args_def)

lemma sample_start:
  obtains st tr where "init_asd_state daemon_os sample_main_env (configured sample_cmdline) [] = (ST_OK, st, tr)"
proof -
  have "fst (init_asd_state daemon_os sample_main_env (configured sample_cmdline) []) = ST_OK"
    by (simp add: init_asd_state_def configured_def sample_cmdline_def default_args_def main_state_def set_config_def log_settings_def
        set_config_defaults_def extnet_init_def exttls_init_def init_ssl_context_def tls_cleanup_def auth_init_def authpam_init_def
        session_init_def extnet_init_client_def exttls_init_client_def sample_main_env_def extnet_open_external_socket_def
        malloc_def sys_def daemon_os_def calm_os_def Let_def split_def)
  then show thesis using that by (metis prod.collapse)
qed

text \<open>A client on descriptor 7 that is connected, and authenticated if the table says so.\<close>

definition sample_daemon :: "Session \<Rightarrow> asd_state" where
  "sample_daemon s = (configured sample_cmdline)\<lparr>st_server := \<lparr>session = s, p_extconn = None, b_data_pending = False\<rparr>,
     st_msg := plain_msg\<lparr>asd_cfg := (asd_cfg plain_msg)\<lparr>timecfg := arg_timeout (args sample_cmdline)\<rparr>,
                         vprobe_handler := Some \<lparr>remoteProbes = 0, remoteConfigs = 0, probesConfig = [], vp_initialized = False, vp_dbus = None\<rparr>\<rparr>,
     st_auth := zero_auth\<lparr>auth_hdlr := Some AUTH_HDLR_PAM\<rparr>, is_connected := True\<rparr>"

lemma sample_daemon_inv:
  assumes "wf_session s"
  shows "main_inv sample_version (sample_daemon s)"
proof -
  let ?tmo = "arg_timeout (args sample_cmdline)"
  have "msg_inv sample_version (timecfg (asd_cfg plain_msg)) plain_msg"
    using plain_msg_ok by (simp add: msg_inv_def calm_def plain_msg_def set_buses_def sample_msg_def)
  then have m: "msg_inv sample_version ?tmo (plain_msg\<lparr>asd_cfg := (asd_cfg plain_msg)\<lparr>timecfg := ?tmo\<rparr>\<rparr>)"
    using plain_msg_ok(1,5) by (intro msg_inv_config) (simp_all add: plain_config_def wf_msg_def)
  have v: "msg_inv ver t (x\<lparr>vprobe_handler := Some v\<rparr>)" if "msg_inv ver t x" "probesConfig v = []" for ver t x v
    using that read_core_inv [of "x\<lparr>vprobe_handler := Some v\<rparr>" x]
    by (simp add: msg_inv_def recv_inv_def wf_probes_def wf_version_def settled_def calm_def read_core_def MAX_DATA_SIZE_def)
  have b: "plain_options (busopt (args sample_cmdline))" "plain_options (busopt zero_args)"
    using sample_cmdline_ok(2,3) by (simp_all add: plain_options_def wf_options_def sound_args_def sound_buses_def zero_args_def)
  show ?thesis
    using assms v [OF m] b sample_cmdline_ok(2,4)
    by (simp add: main_inv_def sample_daemon_def configured_def set_config_def main_state_def wf_server_def auth_ok_def zero_auth_def sound_args_def)
qed

end
