(* ===== verification/Spec2Isabelle.thy ===== *)
theory Spec2Isabelle
  imports Sample_Daemon
begin

text \<open>
  A verification library of the At-Scale Debug daemon (\<open>src/server\<close>, \<open>src/target\<close>): a server on a BMC
  that lets one authenticated client at a time drive the debug ports of the host.

  \<^bold>\<open>The program.\<close>  \<open>server/asd_main.c\<close> polls the listening socket, the clients and the target; sockets are
  wrapped by \<open>ext_network.c\<close> (\<open>ext_tcp.c\<close>, \<open>ext_tls.c\<close>) and kept in the table of \<open>session.c\<close>.  Bytes of the
  authenticated client go to \<open>asd_msg_read\<close> of \<open>target/asd_msg.c\<close>, which assembles a message (a header of
  four bytes and at most 3000 of payload) and interprets it: agent control messages answer questions and
  change settings; JTAG, I2C and SPP messages are lists of commands executed by the handlers
  (\<open>jtag_handler.c\<close>; \<open>i2c_handler.c\<close>, \<open>i2c_msg_builder.c\<close>, \<open>i3c_handler.c\<close>; \<open>spp_handler.c\<close>,
  \<open>i3c_debug_handler.c\<close>) and by \<open>target_handler.c\<close>, which owns the pins (\<open>gpio.c\<close>, libgpiod) and the power
  state (\<open>dbus_helper.c\<close>).  Events of the target go the other way as broadcast messages.

  \<^bold>\<open>The model.\<close>  Definitions carry the names of the C functions.  A result of type \<open>option\<close> is \<open>None\<close> exactly
  where the C code has undefined behaviour (an index outside an array, a NULL dereference, an excessive
  shift); errors the code reports are values of \<open>STATUS\<close>.  The kernel, the drivers, libgpiod, OpenSSL and
  the system bus are one parameter \<open>os\<close>, a function from the calls made so far to the answer of the next;
  every operation threads the list of calls (the trace), so that theorems can speak about what was sent and
  in which order.  Values a function reads before it sets them are arguments.  \<open>ASD_log\<close> is modelled by itself
  (\<open>Logging\<close>); its calls have no effect on the other parts, which are the program with remote logging off, its default.

  \<^item> \<open>Asd_Prelude\<close>: words, checked arrays, the calculus \<open>ensures\<close> (returns without undefined behaviour
    and satisfies) with its rules, system calls.  \<open>Handler_Quiet\<close>, \<open>Bus_Quiet\<close>: \<open>whenever\<close> (partial
    correctness) and, for every handler operation, that it puts nothing on the client's connection.
  \<^item> \<open>Asd_Protocol\<close> (\<open>include/asd_common.h\<close>, packet reader of \<open>asd_msg.c\<close>), \<open>Config\<close>
    (\<open>include/config.h\<close>, \<open>server/config.c\<close>).
  \<^item> \<open>Session\<close> (\<open>server/session.c\<close>), with the locale that states what the server relies on: an
    authenticated descriptor keeps the table until it is closed.  \<open>Ext_Network\<close> (\<open>ext_network.c\<close>, \<open>ext_tcp.c\<close>,
    \<open>ext_tls.c\<close>): the TLS context, the listening socket, accepting, receiving, sending and closing.  \<open>Server_Io\<close>:
    sending and receiving on a session.
  \<^item> \<open>Authenticate\<close> (\<open>authenticate.c\<close>, \<open>auth_none.c\<close>, \<open>auth_pam.c\<close>): the handshake, the conversation with PAM and the
    lockout, with the locale of an attempt limiter, interpreted on \<open>auth_track_attempt\<close>.
  \<^item> \<open>Logging\<close> (\<open>logging.c\<close>), \<open>Command_Line\<close> (the options of \<open>asd_main.c\<close>), \<open>Platform_Config\<close> (the queries of
    \<open>dbus_helper.c\<close> to the entity manager, \<open>target_get_i2c_i3c_config\<close>), \<open>Target_Api\<close> (\<open>asd_target_api.c\<close>,
    \<open>asd_target_interface.c\<close>, \<open>asd_server_api.c\<close>, \<open>asd_server_interface.c\<close>).
  \<^item> \<open>Asd_Main\<close> (\<open>asd_main.c\<close>): the state of the daemon, the life of a client, the loop, the program; the invariant of
    the whole daemon and, as the inductive relation \<open>serving\<close>, the states its loop reaches.
  \<^item> \<open>Jtag_Handler\<close>, \<open>I2c_Handler\<close>, \<open>I2c_Msg_Builder\<close>, \<open>I3c_Handler\<close>, \<open>Spp_Handler\<close>, \<open>Gpio\<close>,
    \<open>Dbus_Helper\<close>, \<open>Target_Handler\<close>, \<open>Vprobe_Handler\<close>: one theory per handler, its record, its operations,
    its well-formedness invariant and that every operation keeps it and stays in its arrays.
  \<^item> \<open>Asd_Msg_State\<close> (the globals of \<open>asd_msg.c\<close>, \<open>send_response\<close>, framing), \<open>Jtag_Msg\<close>, \<open>I2c_Msg\<close>,
    \<open>Event_Msg\<close>, \<open>Spp_Msg\<close>, \<open>Agent_Msg\<close> (the interpreters), \<open>Read_Msg\<close> (the reader and the stream it
    reassembles, with its locale), \<open>Asd_Msg\<close> (initialisation, dispatch, creation and freeing), \<open>Msg_Safety\<close> (the
    invariants of the layer, kept by every read, by creation and by freeing).
  \<^item> \<open>Sample_States\<close>, \<open>Sample_Daemon\<close>: concrete states for the witnesses.

  \<^bold>\<open>The theorems.\<close>  The daemon: in every state its loop reaches the next round is free of undefined behaviour and keeps
  the invariant; only a client PAM accepted reaches the message layer; wrong passwords are limited; descriptors are not
  leaked.  The message layer: the bytes of a client are reassembled to the messages it sent, however they are cut; the
  interpreters return on every payload, keep the state well-formed and send only framed packets; shifts put the right
  bits on the wire in both driver modes; the wire format, the loop-back and the I2C messages round-trip; the session
  table keeps its owner.  Some theorems prove where the code falls short (kind \<open>error\<close> in the manifest): an idle client
  that stays, an overflow of the SPP response buffer and of a bulk response, an overread of a long version.

  \<^bold>\<open>Fuel and loops.\<close>  The command loops run with fuel one more than the size of the message; each command
  consumes at least one byte, so they never run out, which their totality lemmas prove.  The waits for
  in-band interrupts, the loop over the pins and the search for the end of a file are \<open>partial_function\<close>s, with
  termination under a named hypothesis on \<open>os\<close> (\<open>settles\<close>: after K polls nothing is ready; \<open>pauses\<close>: some later poll
  reports nothing; \<open>file_ends\<close>).  The loop of the daemon ends only on an error of \<open>poll\<close>; its rounds are what is proved.

  \<^bold>\<open>Bounds.\<close>  The theorems on whole reads and on the daemon are for configurations without SPP: with SPP a receive may
  overflow its buffer, as a theorem here shows, so the invariant does not hold there.  \<open>long\<close> has 32 bits, as on the controllers.

  \<^bold>\<open>Not modelled.\<close>  The stub handlers for hosts without the buses, which only answer an error, the text of the usage
  message, and the command line tools under \<open>jtag_test\<close> and \<open>i3c_dbg_test\<close>, which are not part of the daemon.
\<close>

section \<open>The daemon\<close>







text \<open>C4: every command line whose idle times fit is processed without overflow and without leaving the bus table; what it
  accepts has its I2C and I3C buses in the first half of the table and its debug buses in the second, switches encryption and
  authentication off together or not at all, and has a positive idle time.\<close>

theorem command_line_sound:
  assumes "\<forall>g \<in> set gs. timeout_fits g"
  shows "\<exists>r tr'. process_command_line os gs zero_args tr = (Some r, tr') \<and> (\<forall>c. r = Some c \<longrightarrow> sound_args (args c))"
proof -
  have "sound_result (fst (process_command_line os gs zero_args tr))"
    unfolding process_command_line_def by (rule process_options_sound) (use default_args_sound assms in simp_all)
  then show ?thesis
    by (cases "process_command_line os gs zero_args tr") (auto simp: sound_result_def ensures_iff)
qed

theorem command_line_sound_witness:
  "\<exists>r tr'. process_command_line daemon_os [Getopt_i ''2,9'', Getopt_u] zero_args [] = (Some r, tr')"
  using command_line_sound [of "[Getopt_i ''2,9'', Getopt_u]" daemon_os "[]"] by auto

text \<open>C5: a connection the daemon accepts stays open, and one it refuses after \<open>accept\<close> gave its descriptor (a failed TLS
  handshake, no memory) is closed exactly once.\<close>

theorem accepted_connection_no_leak:
  assumes "extnet_accept_connection os ctx state lfd c tr = (st, c', tr')" "fst (os tr (Sys_net ''accept'' [] [lfd])) = fd" "0 \<le> fd"
  shows "if st = ST_OK then sockfd c' = fd \<and> closes fd tr' = closes fd tr
    else sockfd c' = - 1 \<and> closes fd tr' = Suc (closes fd tr)"
  by (rule extnet_accept_no_leak [OF assms])

theorem accepted_connection_no_leak_witness:
  "\<exists>st c' tr'. extnet_accept_connection calm_os (Some 1) \<lparr>p_hdlrs = EXTNET_HDLR_TLS, n_max_sessions = 5\<rparr> 3 sample_conn [] = (st, c', tr') \<and>
     (if st = ST_OK then sockfd c' = 1 else sockfd c' = - 1)"
proof -
  obtain st c' tr' where a: "extnet_accept_connection calm_os (Some 1) \<lparr>p_hdlrs = EXTNET_HDLR_TLS, n_max_sessions = 5\<rparr> 3 sample_conn [] = (st, c', tr')"
    by (metis prod_cases3)
  show ?thesis
    using accepted_connection_no_leak [OF a, of 1] a by (auto simp: calm_os_def split: if_splits)
qed





text \<open>C8: the names of log levels and streams round-trip: the name of a level is parsed to that level, and a list of names
  of streams to their union.\<close>

theorem log_names_round_trip:
  assumes "ss \<noteq> []" "set ss \<subseteq> set named_streams"
    "fst (malloc os ''char'' (length (comma_list (map streamtostring ss)) + 1) tr)"
  shows "strtolevel (ASD_LogLevelString l) = Some l \<and>
    (\<exists>tr'. strtostreams os (comma_list (map streamtostring ss)) tr = (True, foldl (OR) 0 ss, tr'))"
  using strtolevel_LogLevelString strtostreams_names [OF assms] by blast

theorem log_names_round_trip_witness:
  "\<exists>tr'. strtostreams calm_os (comma_list (map streamtostring [ASD_LogStream_JTAG, ASD_LogStream_I2C])) []
     = (True, foldl (OR) 0 [ASD_LogStream_JTAG, ASD_LogStream_I2C], tr')"
  using log_names_round_trip [of "[ASD_LogStream_JTAG, ASD_LogStream_I2C]" calm_os "[]" ASD_LogLevel_Off]
  by (simp add: named_streams_def malloc_def calm_os_def)

section \<open>The message layer\<close>







text \<open>C12: \<open>asd_msg_free\<close> releases every handler without a word to the client.  It reports \<open>ST_ERR\<close> whenever the target or
  the probes were never initialised, that is after every session without a JTAG, I2C or SPP message.\<close>

theorem asd_msg_free_correct:
  assumes "inst s" "wf_msg s"
  shows "\<exists>st s' tr'. asd_msg_free os s tr = Some (st, s', tr') \<and> \<not> inst s' \<and> sent_on tr' = sent_on tr \<and>
    jtag_handler s' = None \<and> target_handler s' = None \<and> i2c_handler s' = None \<and> i3c_handler s' = None \<and>
    spp_handler s' = None \<and> vprobe_handler s' = None \<and>
    (st = ST_OK \<longrightarrow> opt_ok tgt_initialized (target_handler s) \<and> opt_ok vp_initialized (vprobe_handler s))"
  using asd_msg_free_releases [OF assms, of os tr] by (auto simp: ensures_iff free_post_def)

theorem asd_msg_free_correct_witness:
  "\<exists>st s' tr'. asd_msg_free calm_os plain_msg [] = Some (st, s', tr') \<and> \<not> inst s'"
proof -
  have "inst plain_msg" by (simp add: plain_msg_def set_buses_def sample_msg_def)
  from asd_msg_free_correct [OF this plain_msg_ok(1), of calm_os "[]"] show ?thesis by blast
qed

section \<open>JTAG messages\<close>





section \<open>Scans on the wire\<close>

text \<open>C14: a shift that reports success, in software and in hardware mode, clocks out exactly the leading padding of a
  scan that starts, the first n bits of the data least significant bit first, and the trailing padding of a scan that
  ends; it leaves the active chain in the end state and touches no other chain.\<close>

theorem jtag_shift_wire:
  assumes "wf_jtag h" "shift_args (DIV_ROUND_UP n 8) input out"
  shows "\<exists>st h' out' tr'. JTAG_shift os h n input out e tr = Some (st, h', out', tr') \<and> wf_jtag h' \<and>
    map_option length out' = map_option length out \<and>
    (st = ST_OK \<longrightarrow> wire tr' = wire tr @ shift_bits (cur_chain h) n (sent_bytes (DIV_ROUND_UP n 8) input) e \<and>
       h' = set_chain (\<lambda>c. shift_done c e) h)"
  using JTAG_shift_post [OF assms, of os e tr] by (auto simp: ensures_iff shift_post_def)

theorem jtag_shift_wire_witness:
  "\<exists>st h' out' tr'. JTAG_shift sample_os sample_jtag 8 (Some [0x5A]) (Some [0]) jtag_ex1_dr [] = Some (st, h', out', tr') \<and>
    wf_jtag h'"
  using jtag_shift_wire [OF wf_sample_jtag, of 8 "Some [0x5A]" "Some [0]" sample_os jtag_ex1_dr "[]"]
  by (auto simp: shift_args_def DIV_ROUND_UP_def MAX_DATA_SIZE_def)

text \<open>C15: the software and the hardware driver mode agree: when both report success they put the same bits on the
  wire and leave the same chain states.\<close>

theorem jtag_modes_agree:
  assumes "wf_jtag h" "shift_args (DIV_ROUND_UP n 8) input out"
    "JTAG_shift os (h\<lparr>sw_mode := True\<rparr>) n input out e tr = Some (ST_OK, hs, os', tr1)"
    "JTAG_shift os2 (h\<lparr>sw_mode := False\<rparr>) n input out e tr = Some (ST_OK, hh, oh, tr2)"
  shows "wire tr1 = wire tr2 \<and> chains hs = chains hh"
proof -
  have c: "cur_chain (h\<lparr>sw_mode := b\<rparr>) = cur_chain h"
    "chains (set_chain f (h\<lparr>sw_mode := b\<rparr>)) = chains (set_chain f h)" for b f
    by (simp_all add: cur_chain_def set_chain_def)
  have w: "wf_jtag (h\<lparr>sw_mode := b\<rparr>)" for b using assms(1) by (simp add: jtag_simps)
  show ?thesis
    using JTAG_shift_post [OF w [of True] assms(2), of os e tr] JTAG_shift_post [OF w [of False] assms(2), of os2 e tr]
    by (simp add: assms(3,4) shift_post_def c)
qed

theorem jtag_modes_agree_witness:
  "\<exists>hs os' tr1 hh oh tr2.
     JTAG_shift sample_os (sample_jtag\<lparr>sw_mode := True\<rparr>) 8 (Some [0x5A]) None jtag_ex1_dr [] = Some (ST_OK, hs, os', tr1) \<and>
     JTAG_shift sample_os (sample_jtag\<lparr>sw_mode := False\<rparr>) 8 (Some [0x5A]) None jtag_ex1_dr [] = Some (ST_OK, hh, oh, tr2) \<and>
     wire tr1 = wire tr2"
proof -
  have args: "shift_args (DIV_ROUND_UP 8 8) (Some [0x5A]) None"
    by (simp add: shift_args_def DIV_ROUND_UP_def MAX_DATA_SIZE_def)
  note ev = JTAG_shift_def JTAG_shift_hw_def shift_prefix_def shift_rest_def perform_shift_def jtag_xfer_def memcpy_s_def
    the_chain_def upd_chain_def rd_def wr_def rds_def wrs_def sample_jtag_def initial_chain_def MAX_SCAN_CHAINS_def
    DIV_ROUND_UP_def sample_os_def MAX_DATA_SIZE_def
  obtain hs os' tr1 where s: "JTAG_shift sample_os (sample_jtag\<lparr>sw_mode := True\<rparr>) 8 (Some [0x5A]) None jtag_ex1_dr []
      = Some (ST_OK, hs, os', tr1)"
    by (simp add: ev numeral_2_eq_2 Let_def)
  obtain hh oh tr2 where h: "JTAG_shift sample_os (sample_jtag\<lparr>sw_mode := False\<rparr>) 8 (Some [0x5A]) None jtag_ex1_dr []
      = Some (ST_OK, hh, oh, tr2)"
    by (simp add: ev numeral_2_eq_2 Let_def)
  show ?thesis
    using jtag_modes_agree [OF wf_sample_jtag args s h] s h by blast
qed

text \<open>C16: in software mode the end state of a scan is read off the next byte of the payload: a TAP state command gives
  its state, another scan of the same kind keeps the current state, anything else is an error, and at the end of the
  payload the current state is kept; the payload is left where it was.\<close>

theorem shift_end_state_software:
  assumes "wf_jtag h" "wf_packet p" "length pl = MAX_DATA_SIZE"
  shows "determine_shift_end_state JTAG_DRIVER_MODE_SOFTWARE h ty pl p =
    Some (if remaining p = 0 then (ST_OK, tap_state (cur_chain h), p)
          else if is_tap_state (pl ! next_data p) then (ST_OK, tap_of (pl ! next_data p), p)
          else (if same_scan ty (pl ! next_data p) then ST_OK else ST_ERR, tap_state (cur_chain h), p))"
  using determine_shift_end_state_ok [OF assms, of JTAG_DRIVER_MODE_SOFTWARE ty]
  by (auto simp: ensures_iff shift_end_def)

theorem shift_end_state_software_witness:
  "determine_shift_end_state JTAG_DRIVER_MODE_SOFTWARE sample_jtag ScanType_Read (0x25 # replicate 2999 0)
     \<lparr>next_data = 0, used = 0, total = 1\<rparr> = Some (ST_OK, jtag_ex1_dr, \<lparr>next_data = 0, used = 0, total = 1\<rparr>)"
proof -
  have wf: "wf_packet \<lparr>next_data = 0, used = 0, total = 1\<rparr>" by (simp add: wf_packet_def MAX_DATA_SIZE_def)
  show ?thesis
    using shift_end_state_software [OF wf_sample_jtag wf, of "0x25 # replicate 2999 0" ScanType_Read]
    by (simp add: MAX_DATA_SIZE_def remaining_def is_tap_state_def tap_of_def)
qed

section \<open>I2C messages\<close>

text \<open>C17: whatever bytes an I2C message holds, the interpreter returns without leaving an array, changes only the I2C
  part of the state, sends only framed packets, and when it succeeds the last packet is the response with the header of
  the request and its own size.\<close>

theorem process_i2c_messages_correct:
  assumes "wf_msg s" "wf_server srv" "names_nonempty os" "wf_message m" "length (i2c_buffer g) = ASD_I2C_BUFFER_LEN"
  shows "\<exists>st s' tr'. process_i2c_messages os srv g m s tr = Some (st, s', tr') \<and> wf_msg s' \<and> i2c_frame s' = i2c_frame s \<and>
    sends_framed tr tr' \<and>
    (st = ST_OK \<longrightarrow> (\<exists>n \<le> MAX_DATA_SIZE. header (out_msg s') = i2c_header n 0 (header m) \<and>
       sent_on tr' \<noteq> [] \<and> last (sent_on tr') = packet_bytes (out_msg s') n))"
  using process_i2c_messages_safe [OF assms, of tr] by (auto simp: ensures_iff i2c_reply_def)

theorem process_i2c_messages_correct_witness:
  "\<exists>st s' tr'. process_i2c_messages sample_os sample_server (loc_i2c sample_locals) (sample_request I2C_TYPE [0x10, 0x42, 0x03]) sample_msg []
     = Some (st, s', tr') \<and> wf_msg s'"
proof -
  have n: "names_nonempty sample_os" by (simp add: names_nonempty_def sample_os_def)
  have m: "wf_message (sample_request I2C_TYPE [0x10, 0x42, 0x03])" by (simp add: MAX_DATA_SIZE_def)
  have g: "length (i2c_buffer (loc_i2c sample_locals)) = ASD_I2C_BUFFER_LEN" by (simp add: sample_locals_def)
  show ?thesis
    using process_i2c_messages_correct [OF wf_sample_msg wf_sample_server n m g, of "[]"] by blast
qed

text \<open>C18: the answers to a batch of I2C commands are complete and in order: when building them succeeds, the payloads of
  the continuation packets sent meanwhile, followed by what stands in the response buffer, are the bytes that were there
  and one entry per command (its opcode, the acknowledgement with the length, and the data of a read).\<close>

theorem i2c_replies_complete:
  assumes "wf_server srv" "wf_builder b" "length (i2c_buffer g) = ASD_I2C_BUFFER_LEN" "wf_message out" "cnt \<le> MAX_DATA_SIZE"
  shows "\<exists>st out' cnt' tr'. build_responses os srv g ack b out cnt tr = Some (st, out', cnt', tr') \<and> cnt' \<le> MAX_DATA_SIZE \<and>
    (st = ST_OK \<longrightarrow> (\<exists>ps. sent_on tr' = sent_on tr @ ps \<and> list_all continuation ps \<and>
       concat (map (drop HEADER_SIZE) ps) @ take cnt' (buffer out') =
       take cnt (buffer out) @ concat (map (reply_entry ack \<circ> i2c_view) (builder_msgs b))))"
  using build_responses_ok [OF assms, of os ack tr] by (auto simp: ensures_iff built_def)

theorem i2c_replies_complete_witness:
  "\<exists>st out' cnt' tr'. build_responses sample_os sample_server (loc_i2c sample_locals) True
     (Some \<lparr>msg_set = Some \<lparr>nmsgs = 1, msgs = Some [\<lparr>addr = 0x42, flags = 0, len = 1, buf = [7]\<rparr>]\<rparr>\<rparr>) zero_message 0 []
     = Some (st, out', cnt', tr') \<and> cnt' \<le> MAX_DATA_SIZE"
proof -
  have b: "wf_builder (Some \<lparr>msg_set = Some \<lparr>nmsgs = 1, msgs = Some [\<lparr>addr = 0x42, flags = 0, len = 1, buf = [7]\<rparr>]\<rparr>\<rparr>)"
    by (simp add: wf_builder_def builder_msgs_def wf_i2c_msg_def ASD_I2C_BUFFER_LEN_def)
  have g: "length (i2c_buffer (loc_i2c sample_locals)) = ASD_I2C_BUFFER_LEN" by (simp add: sample_locals_def)
  have z: "wf_message zero_message" by simp
  show ?thesis
    using i2c_replies_complete [OF wf_sample_server b g z, of 0 sample_os True "[]"] by blast
qed

text \<open>C19: a command given to the message builder is the one found there: after a successful \<open>i2c_msg_add\<close> the message
  read back at the last index has the direction, address and data of the one added.\<close>

theorem i2c_builder_round_trip:
  assumes "wf_builder b" "wf_asd_i2c m" "length (i2c_buffer g) = ASD_I2C_BUFFER_LEN" "i2c_msg_add os b m tr = Some (ST_OK, b', tr')"
  shows "\<exists>m'. i2c_msg_get_asd_i2c_msg b' (length (builder_msgs b)) g = Some (ST_OK, m') \<and> asd_view m' = asd_view m"
proof -
  have a: "wf_builder b'" "\<exists>i. builder_msgs b' = builder_msgs b @ [i] \<and> i2c_view i = asd_view m"
    using i2c_msg_add_wf [OF assms(1,2), of os tr] assms(4) by simp_all
  then show ?thesis
    using i2c_msg_get_wf [OF a(1) assms(3), of "length (builder_msgs b)"] by (auto simp: ensures_iff)
qed

theorem i2c_builder_round_trip_witness:
  "\<exists>b' tr' m'. i2c_msg_add sample_os (Some \<lparr>msg_set = Some \<lparr>nmsgs = 0, msgs = None\<rparr>\<rparr>) (loc_i2c sample_locals) [] = Some (ST_OK, b', tr') \<and>
     i2c_msg_get_asd_i2c_msg b' 0 (loc_i2c sample_locals) = Some (ST_OK, m')"
proof -
  let ?b = "Some \<lparr>msg_set = Some \<lparr>nmsgs = 0, msgs = None\<rparr>\<rparr>"
  have b: "wf_builder ?b" "wf_asd_i2c (loc_i2c sample_locals)" "builder_msgs ?b = []"
    by (simp_all add: wf_builder_def builder_msgs_def wf_asd_i2c_def sample_locals_def)
  have "ensures (i2c_msg_add sample_os ?b (loc_i2c sample_locals) []) (\<lambda>(st, b', tr'). st = ST_OK)"
    by (simp add: i2c_msg_add_def copy_asd_to_i2c_def malloc_def sample_os_def sample_locals_def rds_def Let_def)
  then obtain b' tr' where a: "i2c_msg_add sample_os ?b (loc_i2c sample_locals) [] = Some (ST_OK, b', tr')"
    by (auto simp: ensures_iff)
  show ?thesis
    using i2c_builder_round_trip [OF b(1,2) _ a, of "loc_i2c sample_locals"] a b(3) by (auto simp: sample_locals_def)
qed

text \<open>C20: after a bus could not be opened, selecting it again is answered \<open>ST_OK\<close> although no device is open.\<close>

theorem i2c_failed_bus_reselected:
  assumes "enable_i2c cfg" "i2c_bus_allowed cfg bus" "bus \<noteq> i2c_bus h" "i2c_bus_select os cfg h bus tr = (ST_ERR, cfg', h', tr')"
  shows "i2c_driver_handle h' = - 1 \<and> i2c_bus_select os cfg' h' bus tr' = (ST_OK, cfg', h', tr')"
  using i2c_reselect_after_failed_open [OF assms] by simp

theorem i2c_failed_bus_reselected_witness:
  "\<exists>cfg' h' tr'. i2c_bus_select (\<lambda>_ _. (- 1, [])) sample_buses sample_i2c 9 [] = (ST_ERR, cfg', h', tr') \<and> i2c_driver_handle h' = - 1"
proof -
  have a: "enable_i2c sample_buses" "i2c_bus_allowed sample_buses 9" "9 \<noteq> i2c_bus sample_i2c"
    by (simp_all add: sample_buses_def i2c_bus_allowed_def bus_listed_def sample_i2c_def MAX_IxC_BUSES_def upt_conv_Cons)
  obtain cfg' h' tr' where s: "i2c_bus_select (\<lambda>_ _. (- 1, [])) sample_buses sample_i2c 9 [] = (ST_ERR, cfg', h', tr')"
    using a by (simp add: i2c_handler_defs sys_def Let_def sample_i2c_def)
  show ?thesis using i2c_failed_bus_reselected [OF a s] s by blast
qed

section \<open>SPP messages\<close>

text \<open>C21: one SPP command, with at least 259 bytes free in the response buffer, a request that leaves the last byte of
  the payload buffer unused, no bulk response under way and devices that settle: it returns without undefined behaviour,
  keeps the invariant of the loop, changes only the SPP part of the state and sends framed packets.\<close>

theorem spp_command_correct:
  assumes "sinv r" "settles os K" "no_bulk (smsg r)" "spp_room r" "wf_message m" "wf_server srv"
  shows "\<exists>e r'. spp_step os srv g m r = Some (e, r') \<and> sinv r' \<and> sends_framed (spp_tr r) (spp_tr r') \<and>
    spp_frame (smsg r') = spp_frame (smsg r) \<and> (e = Go_on \<longrightarrow> remaining (spkt r') < remaining (spkt r))"
proof -
  have "outcome True (spp_step os srv g m r) (\<lambda>(e, r'). snext r (e, r') \<and> (e = Go_on \<longrightarrow> remaining (spkt r') < remaining (spkt r)))"
    by (rule spp_step_less [where K = K]) (use assms in \<open>simp_all add: sctx_def\<close>)
  then show ?thesis by (auto simp: outcome_True ensures_iff snext_def)
qed

theorem spp_command_correct_witness:
  "\<exists>e r'. spp_step calm_os sample_server 0 (sample_request SPP_TYPE [1])
     \<lparr>smsg = sample_msg, spkt = \<lparr>next_data = 0, used = 0, total = 1\<rparr>, scnt = 0, bulk_address = 0, spp_tr = []\<rparr> = Some (e, r') \<and> sinv r'"
proof -
  let ?r = "\<lparr>smsg = sample_msg, spkt = \<lparr>next_data = 0, used = 0, total = 1\<rparr>, scnt = 0, bulk_address = 0, spp_tr = []\<rparr>"
  have r: "sinv ?r" "no_bulk (smsg ?r)" "spp_room ?r"
    using wf_sample_msg
    by (simp_all add: sinv_def no_bulk_def spp_room_def wf_packet_def MAX_DATA_SIZE_def MAX_SPP_BUS_DEVICES_def)
       (simp_all add: sample_msg_def)
  have m: "wf_message (sample_request SPP_TYPE [1])" by (simp add: MAX_DATA_SIZE_def)
  show ?thesis
    using spp_command_correct [OF r(1) calm_os_ok(4) r(2,3) m wf_sample_server, of 0] by blast
qed

text \<open>C22: \<open>SPP_RECEIVE\<close> does not check that the response buffer has room for the 255 bytes a receive asks for: on a
  device that can be selected, with fewer than 259 bytes free it writes outside the buffer.\<close>

theorem spp_receive_overflow:
  assumes "sinv r" "length pl = MAX_DATA_SIZE" "3 \<le> remaining (spkt r)" "spp_handler (smsg r) = Some h"
    "spp_device_select h (pl ! next_data (spkt r)) = Some (ST_OK, h')" "MAX_DATA_SIZE < scnt r + 259"
  shows "spp_receive_command os pl cmd r = None"
proof -
  have wf: "wf_packet (spkt r)" "length (buffer (out_msg (smsg r))) = MAX_DATA_SIZE"
    using assms(1) wf_msgD(3) [of "smsg r"] by (auto simp: sinv_def wf_message_def)
  obtain p1 where p1: "wf_packet p1" "remaining p1 = remaining (spkt r) - 1"
    "\<And>k. with_byte pl r k = k (pl ! next_data (spkt r)) (r\<lparr>spkt := p1\<rparr>)"
    using with_byte_reads [OF wf(1) assms(2)] assms(3) by auto
  obtain p2 b2 where p2: "wf_packet p2" "remaining p2 = remaining p1 - 1" "\<And>k. with_byte pl (r\<lparr>spkt := p1\<rparr>) k = k b2 (r\<lparr>spkt := p2\<rparr>)"
    using with_byte_reads [of "r\<lparr>spkt := p1\<rparr>", OF _ assms(2)] p1(1,2) assms(3) by auto
  obtain p3 b3 where p3: "\<And>k. with_byte pl (r\<lparr>spkt := p2\<rparr>) k = k b3 (r\<lparr>spkt := p3\<rparr>)"
    using with_byte_reads [of "r\<lparr>spkt := p2\<rparr>", OF _ assms(2)] p1(2) p2(1,2) assms(3) by auto
  have "spp_receive os h' (drop (scnt r + 4) (buffer (out_msg (smsg r)))) t = None" for t
    using assms(6) wf(2) by (intro spp_receive_short) (simp add: MAX_DATA_SIZE_def)
  then show ?thesis
    using assms(4,5) by (simp add: spp_receive_command_def p1(3) p2(3) p3 spp_select_def set_spp_def)
qed

theorem spp_receive_overflow_witness:
  "spp_receive_command calm_os (replicate MAX_DATA_SIZE 0) 2
     \<lparr>smsg = sample_msg\<lparr>spp_handler := Some (sample_spp\<lparr>spp_dev_handlers := replicate MAX_SPP_BUS_DEVICES 9\<rparr>)\<rparr>,
      spkt = \<lparr>next_data = 0, used = 0, total = 3\<rparr>, scnt = 2800, bulk_address = 0, spp_tr = []\<rparr> = None"
proof (rule spp_receive_overflow)
  let ?h = "sample_spp\<lparr>spp_dev_handlers := replicate MAX_SPP_BUS_DEVICES 9\<rparr>"
  let ?r = "\<lparr>smsg = sample_msg\<lparr>spp_handler := Some ?h\<rparr>, spkt = \<lparr>next_data = 0, used = 0, total = 3\<rparr>, scnt = 2800,
    bulk_address = 0, spp_tr = []\<rparr>"
  have "wf_spp ?h" using wf_sample_spp by (simp add: wf_spp_def)
  then show "sinv ?r" by (simp add: sinv_def wf_packet_def MAX_DATA_SIZE_def MAX_SPP_BUS_DEVICES_def)
  show "spp_device_select ?h (replicate MAX_DATA_SIZE 0 ! next_data (spkt ?r)) = Some (ST_OK, ?h\<lparr>spp_driver_handle := 9, device_index := 0\<rparr>)"
    by (simp add: spp_device_select_def rd_def MAX_SPP_BUS_DEVICES_def MAX_DATA_SIZE_def)
qed (simp_all add: MAX_DATA_SIZE_def remaining_def)

section \<open>Events and in-band interrupts\<close>

text \<open>C23: an event of the target (a pin, the power state, an in-band interrupt) is handled without undefined behaviour
  as long as no bulk response is being collected: the state stays well-formed, only its event part changes, and what is
  sent is framed.\<close>

theorem asd_msg_event_correct:
  assumes "wf_msg s" "wf_server srv" "spp_bulk_response_buffer_count s = 0"
  shows "\<exists>st s' tr'. asd_msg_event os srv g fd rv s tr = Some (st, s', tr') \<and> wf_msg s' \<and> sends_framed tr tr' \<and>
    event_frame s' = event_frame s"
  using asd_msg_event_safe [OF assms, of os g fd rv tr] by (auto simp: ensures_iff event_next_def)

theorem asd_msg_event_correct_witness:
  "\<exists>st s' tr'. asd_msg_event sample_os sample_server 0 5 1 sample_msg [] = Some (st, s', tr') \<and> wf_msg s'"
proof -
  have "spp_bulk_response_buffer_count sample_msg = 0" by (simp add: sample_msg_def)
  from asd_msg_event_correct [OF wf_sample_msg wf_sample_server this, of sample_os 0 5 1 "[]"] show ?thesis by blast
qed

text \<open>C24: while a bulk response is collected, an event whose data makes the collected bytes one short of 3000 passes the
  flush test, which does not count the two bytes of its record header, and is written past the end of the buffer.\<close>

theorem bulk_event_overflow:
  assumes "wf_msg s" "ev_size d \<le> length (ev_buffer d)"
    "unat (spp_bulk_response_buffer_count s) + ev_size d = MAX_DATA_SIZE - 1"
    "spp_bulk_response_ibi_count s \<noteq> SPP_BULK_RESPONSE_IBI_MAX_COUNT"
  shows "collect_bpk_event os srv d s tr = None"
  using collect_bpk_event_gap [OF assms(1)] assms by (simp add: bulk_gap_def)

theorem bulk_event_overflow_witness:
  "collect_bpk_event sample_os sample_server \<lparr>ev_addr = 0, ev_size = 2, ev_buffer = replicate 512 0\<rparr>
     (sample_msg\<lparr>spp_bulk_response_buffer_count := 2997\<rparr>) [] = None"
proof (rule bulk_event_overflow)
  show "wf_msg (sample_msg\<lparr>spp_bulk_response_buffer_count := 2997\<rparr>)" by simp
qed (simp_all add: MAX_DATA_SIZE_def sample_msg_def)



section \<open>Agent control messages\<close>



text \<open>C27: the loop-back command returns the message to the client unchanged, or sends nothing.\<close>

theorem loopback_round_trip:
  assumes "wf_msg s" "wf_server srv" "cmd_stat (header (in_msg s)) = LOOPBACK_CMD" "get_message_size (in_msg s) \<noteq> - 1"
  shows "\<exists>s' tr'. agent_control os srv ver ez s tr = Some (ST_OK, s', tr') \<and>
    (sent_on tr' = sent_on tr \<or> sent_on tr' = sent_on tr @ [whole_packet (in_msg s)])"
  using agent_control_loopback [OF assms, of os ver ez tr] by (auto simp: ensures_iff whole_packet_def)

theorem loopback_round_trip_witness:
  "\<exists>s' tr'. agent_control calm_os sample_server sample_version False
     (plain_msg\<lparr>in_msg := (sample_request AGENT_CONTROL_TYPE [1, 2, 3])\<lparr>header :=
        (header (sample_request AGENT_CONTROL_TYPE [1, 2, 3]))\<lparr>cmd_stat := LOOPBACK_CMD\<rparr>\<rparr>\<rparr>) [] = Some (ST_OK, s', tr')"
proof -
  let ?m = "(sample_request AGENT_CONTROL_TYPE [1, 2, 3])\<lparr>header := (header (sample_request AGENT_CONTROL_TYPE [1, 2, 3]))\<lparr>cmd_stat := LOOPBACK_CMD\<rparr>\<rparr>"
  have z: "get_message_size ?m = get_message_size (sample_request AGENT_CONTROL_TYPE [1, 2, 3])"
    by (simp add: get_message_size_def)
  have m: "wf_message ?m" by (simp add: wf_message_def sample_request_def MAX_DATA_SIZE_def)
  have n: "get_message_size ?m \<noteq> - 1" unfolding z by (simp add: MAX_DATA_SIZE_def)
  have s: "wf_msg (plain_msg\<lparr>in_msg := ?m\<rparr>)" using plain_msg_ok(1) m by (simp add: wf_msg_def)
  show ?thesis
    using loopback_round_trip [OF s wf_sample_server, of calm_os sample_version False "[]"] n by auto
qed



text \<open>C29: a version line of more than 137 characters is refused but its length stays recorded; a later request for the
  version then reads past the end of the stored string.\<close>

theorem version_overread:
  assumes "137 < length ln" "length (bmc_version s) = 120" "wf_msg s"
  shows "fst (store_version ez ln s) \<noteq> ST_OK \<and> downstream_version_cmd ver ez' (snd (store_version ez ln s)) = None"
proof -
  have "length (buffer (out_msg s)) = MAX_DATA_SIZE" using assms(3) by (simp add: wf_msgD(3) flip: wf_message_def)
  then show ?thesis
    using assms(1,2) by (auto simp: store_version_def downstream_version_cmd_def Let_def rds_def bind_eq_None_conv)
qed

theorem version_overread_witness:
  "downstream_version_cmd sample_version False (snd (store_version False (replicate 138 0) plain_msg)) = None"
  using version_overread [where ln = "replicate 138 0" and s = plain_msg and ez = False and ez' = False and ver = sample_version] plain_msg_ok(1)
  by (simp add: plain_msg_def set_buses_def sample_msg_def)

section \<open>Sessions\<close>

text \<open>C30: over any sequence of admissible commands on the session table, once a descriptor is authenticated it stays
  the authenticated one, and every other authentication is refused, until a command closes it.\<close>

theorem authenticated_session_keeps:
  assumes "session_runs (session_exec os) (open_fds \<circ> fst) (s0, tr0) h (s, tr)" "wf_session s0"
    "authed_fd s0 = Some fd" "\<forall>(cmd, st) \<in> set h. \<not> releases fd cmd"
  shows "wf_session s \<and> authed_fd s = Some fd \<and> (\<forall>c. (Cmd_auth c, ST_OK) \<notin> set h)"
  using st.owner_keeps [OF assms(1), of fd] st.runs_inv [OF assms(1)] assms(2-4)
  by (auto simp: session_inv_def)

text \<open>C31: a descriptor is authenticated only if it is open and a successful authentication of that descriptor is in the
  history.\<close>

theorem authenticated_only_by_auth:
  assumes "session_runs (session_exec os) (open_fds \<circ> fst) (s0, tr0) h (s, tr)" "wf_session s0"
    "authed_fd s0 = None" "authed_fd s = Some fd"
  shows "fd \<in> open_fds s \<and> (\<exists>c. (Cmd_auth c, ST_OK) \<in> set h \<and> sockfd c = fd)"
  using st.owner_authenticated [OF assms(1), of fd] assms(2-4) by (auto simp: session_inv_def)

theorem authenticated_session_keeps_witness:
  "\<exists>s tr. session_runs (session_exec sample_os) (open_fds \<circ> fst) (sample_session, []) [(Cmd_expire, ST_OK)] (s, tr) \<and>
     authed_fd s = Some 7"
proof -
  obtain s tr where e: "session_exec sample_os Cmd_expire (sample_session, []) = (ST_OK, s, tr)"
    by (metis session_exec.simps(4) surj_pair)
  have r: "session_runs (session_exec sample_os) (open_fds \<circ> fst) (sample_session, []) ([] @ [(Cmd_expire, ST_OK)]) (s, tr)"
    by (rule session_runs.step, rule session_runs.start, simp, rule e)
  show ?thesis
    using authenticated_session_keeps [OF r wf_sample_session(1,3)] r by auto
qed

theorem authenticated_only_by_auth_witness:
  "\<exists>h tr. session_runs (session_exec sample_os) (open_fds \<circ> fst) (open_session, []) h (sample_session, tr) \<and>
     7 \<in> open_fds sample_session"
proof -
  obtain st where a: "session_auth_complete open_session sample_conn = (st, sample_session)"
    by (metis sample_session_def prod.collapse)
  then have e: "session_exec sample_os (Cmd_auth sample_conn) (open_session, []) = (st, sample_session, [])" by simp
  have r: "session_runs (session_exec sample_os) (open_fds \<circ> fst) (open_session, []) ([] @ [(Cmd_auth sample_conn, st)])
      (sample_session, [])"
    by (rule session_runs.step, rule session_runs.start, simp add: sample_conn_def, rule e)
  show ?thesis
    using authenticated_only_by_auth [OF r wf_open_session(1,3) wf_sample_session(3)] r by blast
qed

text \<open>C32: authentication refines its abstract table: \<open>session_auth_complete\<close> succeeds exactly when the descriptor is open
  and nobody is authenticated; it then makes the descriptor the owner, and otherwise changes neither the owner nor the
  open descriptors.\<close>

theorem session_auth_refines:
  assumes "wf_session s" "0 \<le> sockfd c" "session_auth_complete s c = (st, s')"
  shows "wf_session s' \<and> open_fds s' = open_fds s \<and> st = (if authed_fd s = None \<and> sockfd c \<in> open_fds s then ST_OK else ST_ERR) \<and>
    authed_fd s' = (if st = ST_OK then Some (sockfd c) else authed_fd s)"
  using session_auth_complete_refines [OF assms] by auto

theorem session_auth_refines_witness:
  "\<exists>st. session_auth_complete open_session sample_conn = (st, sample_session) \<and> st = ST_OK"
proof -
  obtain st where a: "session_auth_complete open_session sample_conn = (st, sample_session)"
    by (metis sample_session_def prod.collapse)
  have "0 \<le> sockfd sample_conn" by (simp add: sample_conn_def)
  from session_auth_refines [OF wf_open_session(1) this a] show ?thesis
    using a wf_open_session by (auto simp: sample_conn_def)
qed

text \<open>C33: opening refines the abstract table: a new descriptor is entered exactly when fewer than five are open, and
  neither the owner nor the other descriptors change.\<close>

theorem session_open_table:
  assumes "wf_session s" "0 \<le> sockfd c" "sockfd c \<notin> open_fds s" "session_open os s c tr = (st, s', tr')"
  shows "wf_session s' \<and> st = (if card (open_fds s) < MAX_SESSIONS then ST_OK else ST_ERR) \<and>
    open_fds s' = (if st = ST_OK then insert (sockfd c) (open_fds s) else open_fds s) \<and> authed_fd s' = authed_fd s"
  using session_open_refines [OF assms] by blast

theorem session_open_table_witness:
  "\<exists>st tr'. session_open sample_os empty_session sample_conn [] = (st, open_session, tr') \<and> open_fds open_session = {7}"
proof -
  have fd: "0 \<le> sockfd sample_conn" "sockfd sample_conn \<notin> open_fds empty_session"
    by (simp_all add: sample_conn_def wf_empty_session)
  obtain st tr' where op: "session_open sample_os empty_session sample_conn [] = (st, open_session, tr')"
    by (metis open_session_def prod.collapse)
  show ?thesis
    using session_open_table [OF wf_empty_session(1) fd op] op
    by (auto simp: wf_empty_session MAX_SESSIONS_def sample_conn_def)
qed

text \<open>C34: a client that does not authenticate in time is removed: once the clock has passed the deadline of an open,
  unauthenticated slot, the sweep closes it; the authenticated session is never swept.\<close>

theorem unauthenticated_expires:
  assumes "wf_session s" "session_close_expired_unauth os s tr = (s', tr')" "\<forall>h. T \<le> fst (os h Sys_time)"
    "i < MAX_SESSIONS" "0 \<le> slot_fd s i" "\<not> b_authenticated (sessions s ! i)" "t_auth_tout (sessions s ! i) \<le> T"
  shows "slot_fd s' i < 0 \<and> authed_fd s' = authed_fd s \<and> wf_session s'"
proof -
  note r = session_close_expired_unauth_refines [OF assms(1,2)]
  have "\<not> fst (os h Sys_time) < t_auth_tout (sessions s ! i)" for h
    using assms(3,7) by (meson linorder_not_less order_trans)
  then show ?thesis
    using r(4) [OF assms(4)] r(1,2) assms(5,6) by (auto simp: swept_def Let_def split: if_splits)
qed

lemma open_session_slot: "slot_fd open_session 0 = 7" "t_auth_tout (sessions open_session ! 0) \<le> 100"
  by (simp_all add: open_session_def session_open_def empty_session_def session_init_def malloc_def sample_os_def sample_net_def
      extnet_init_client_def exttcp_init_client_def session_find_private_def upd_session_def sample_conn_def
      extnet_is_client_closed_def MAX_SESSIONS_def SESSION_AUTH_EXPIRE_TIMEOUT_def numeral_eq_Suc Let_def)

theorem unauthenticated_expires_witness:
  "\<exists>s' tr'. session_close_expired_unauth (\<lambda>_ _. (100, [])) open_session [] = (s', tr') \<and> slot_fd s' 0 < 0"
proof -
  obtain s' tr' where c: "session_close_expired_unauth (\<lambda>_ _. (100, [])) open_session [] = (s', tr')" by fastforce
  have z: "0 < MAX_SESSIONS" by (simp add: MAX_SESSIONS_def)
  have "\<not> b_authenticated (sessions open_session ! 0)"
    using wf_session_auth [OF wf_open_session(1) z] wf_open_session(3) by (auto simp: authed_fd_def split: if_splits)
  then show ?thesis
    using unauthenticated_expires [OF wf_open_session(1) c, of 100 0] c z open_session_slot by auto
qed

section \<open>The wire format\<close>



text \<open>C36: a payload size of at most 3000 stored into a header is the size read back from it, and every size read is
  -1 or at most 3000.\<close>

theorem message_size_round_trip:
  "(unat cnt \<le> MAX_DATA_SIZE \<longrightarrow> get_message_size (m\<lparr>header := set_msg_size cnt h\<rparr>) = uint cnt) \<and>
   (get_message_size m = - 1 \<or> (0 \<le> get_message_size m \<and> get_message_size m \<le> 3000))"
  using get_set_msg_size [of cnt] get_message_size_range [of m] by (auto simp: MAX_DATA_SIZE_def)

theorem message_size_round_trip_witness:
  "get_message_size (zero_message\<lparr>header := set_msg_size 2999 zero_header\<rparr>) = 2999"
  using message_size_round_trip [where cnt = 2999 and m = zero_message and h = zero_header] by (simp add: MAX_DATA_SIZE_def)

text \<open>C37: on a well-formed reader a request for n bytes succeeds exactly when n bytes remain; it then answers the
  position, stays well-formed, consumes exactly n bytes, and the bytes lie inside the message buffer.\<close>

theorem packet_reader_correct:
  assumes "wf_packet p" "n < 2 ^ 16"
  shows "(get_packet_data p n \<noteq> None) = (n \<le> remaining p) \<and>
    (\<forall>i q. get_packet_data p n = Some (i, q) \<longrightarrow> i = next_data p \<and> wf_packet q \<and> next_data q = i + n \<and>
       remaining q = remaining p - n \<and> i + n \<le> MAX_DATA_SIZE)"
proof -
  have "(get_packet_data p n \<noteq> None) = (n \<le> remaining p)" by (simp add: get_packet_data_eq [OF assms])
  moreover have "i = next_data p \<and> wf_packet q \<and> next_data q = i + n \<and> remaining q = remaining p - n \<and> i + n \<le> MAX_DATA_SIZE"
    if "get_packet_data p n = Some (i, q)" for i q
    using get_packet_data_wf [OF assms that] by auto
  ultimately show ?thesis by blast
qed

theorem packet_reader_correct_witness:
  "get_packet_data \<lparr>next_data = 1, used = 1, total = 3\<rparr> 2 \<noteq> None"
proof -
  have wf: "wf_packet \<lparr>next_data = 1, used = 1, total = 3\<rparr>" by (simp add: wf_packet_def MAX_DATA_SIZE_def)
  show ?thesis using packet_reader_correct [OF wf, of 2] by (simp add: remaining_def)
qed

section \<open>Handlers and configuration\<close>

text \<open>C38: a padding is accepted exactly when it fits the padding buffers, and a refused one changes nothing; either way
  the JTAG handler stays well-formed, so that no later shift leaves its arrays.\<close>

theorem jtag_padding_bounded:
  assumes "wf_jtag h"
  shows "\<exists>st h'. JTAG_set_padding h p v = Some (st, h') \<and> wf_jtag h' \<and>
    (st = ST_OK \<longleftrightarrow> v \<le> (if p \<in> {JTAGPaddingTypes_DRPre, JTAGPaddingTypes_DRPost} then DRMAXPADSIZE else IRMAXPADSIZE)) \<and>
    (st \<noteq> ST_OK \<longrightarrow> h' = h)"
  using JTAG_set_padding_wf [OF assms, of p v] by (auto simp: ensures_iff)

theorem jtag_padding_bounded_witness:
  "\<exists>st h'. JTAG_set_padding sample_jtag JTAGPaddingTypes_IRPre 7 = Some (st, h') \<and> wf_jtag h'"
  using jtag_padding_bounded [OF wf_sample_jtag, of JTAGPaddingTypes_IRPre 7] by blast

text \<open>C39: the descriptors the main loop polls for the target never exceed the array it gives, whatever pins, D-Bus
  connection and SPP devices there are.\<close>

theorem target_fds_fit:
  assumes "wf_target t" "spp_attached t \<longrightarrow> spp \<noteq> None"
  shows "\<exists>st fds. target_get_fds t spp = Some (st, fds) \<and> length fds \<le> NUM_GPIOS + NUM_DBUS_FDS \<and> (st = ST_OK \<longleftrightarrow> tgt_initialized t)"
  using target_get_fds_bounded [OF assms] by (auto simp: ensures_iff)

theorem target_fds_fit_witness:
  "\<exists>fds. target_get_fds sample_target None = Some (ST_OK, fds) \<and> length fds \<le> NUM_GPIOS + NUM_DBUS_FDS"
  using target_fds_fit [OF wf_sample_target, of None] by (auto simp: sample_target_def)

text \<open>C40: a wait for PRDY that times out with an exponent above 30 shifts the integer 1 out of range: the clamp of the
  wait is missing where the elapsed time is computed.\<close>

theorem prdy_wait_shift:
  assumes "wf_target t" "tgt_initialized t" "LOG2TIME_SHIFT_MAX < unat l" "\<forall>tr fd ev ms. fst (os tr (Sys_poll fd ev ms)) = 0"
  shows "target_wait_PRDY os t l tr = None"
  using assms by (auto simp: target_wait_PRDY_def bind_eq_None_conv split_def Let_def)

theorem prdy_wait_shift_witness: "target_wait_PRDY (\<lambda>_ _. (0, [])) sample_target 40 [] = None"
  by (rule prdy_wait_shift) (simp_all, simp_all add: sample_target_def LOG2TIME_SHIFT_MAX_def)

end
